(* ===== verification/Prelude.thy ===== *)
theory Prelude
  imports Main "HOL-Library.AList" "HOL-Library.Word"
begin

text \<open>
  What every component of the development shares: Go errors as values, the monad in which the
  handlers are written (a result, an error or a panic, over a state), its weakest-precondition and
  invariant rules, Go maps, and the functions of Go's standard library on strings that the source
  uses. Strings are byte strings, as in Go; a \<open>char\<close> is a byte.
\<close>

named_theorems wp \<open>weakest-precondition equations of the handler monad\<close>
named_theorems pres \<open>introduction rules for state invariants of handlers\<close>
named_theorems run \<open>evaluation equations of the handler monad\<close>

section \<open>Errors\<close>

text \<open>
  A Go error: a fresh text (\<^verbatim>\<open>errors.New\<close>, \<^verbatim>\<open>fmt.Errorf\<close> without \<^verbatim>\<open>%w\<close>), a wrapped error with
  the text around it, a package-level sentinel compared by identity, an API-server error with its
  reason, an aggregate, or two errors joined (\<^verbatim>\<open>errors.Join\<close>).
\<close>

datatype api_reason = NotFound | AlreadyExists | Conflict | OtherReason

datatype goerr =
    EMsg string
  | EWrap string goerr string
  | ESent string
  | EApi api_reason string
  | EAgg "goerr list"
  | EJoin goerr goerr

definition wrap :: "string \<Rightarrow> goerr \<Rightarrow> goerr" where
  "wrap msg e = EWrap (msg @ '': '') e []"

fun err_text :: "goerr \<Rightarrow> string" where
  "err_text (EMsg s) = s"
| "err_text (EWrap p e q) = p @ err_text e @ q"
| "err_text (ESent s) = s"
| "err_text (EApi r s) = s"
| "err_text (EAgg es) = (case remdups (map err_text es) of
      [] \<Rightarrow> []
    | [m] \<Rightarrow> m
    | m # ms \<Rightarrow> ''['' @ m @ concat (map (\<lambda>x. '', '' @ x) ms) @ '']'')"
| "err_text (EJoin d e) = err_text d @ [CHR 0x0A] @ err_text e"

text \<open>\<^verbatim>\<open>errors.Is\<close> against a sentinel, and the reason that \<^verbatim>\<open>apierrors.IsNotFound\<close> and its kin find.\<close>

fun errors_is :: "goerr \<Rightarrow> string \<Rightarrow> bool" where
  "errors_is (EMsg s) t = False"
| "errors_is (EWrap p e q) t = errors_is e t"
| "errors_is (ESent s) t = (s = t)"
| "errors_is (EApi r s) t = False"
| "errors_is (EAgg es) t = (\<exists>e \<in> set es. errors_is e t)"
| "errors_is (EJoin d e) t = (errors_is d t \<or> errors_is e t)"

fun api_reason_of :: "goerr \<Rightarrow> api_reason option" where
  "api_reason_of (EApi r s) = Some r"
| "api_reason_of (EWrap p e q) = api_reason_of e"
| "api_reason_of (EJoin d e) = (case api_reason_of d of None \<Rightarrow> api_reason_of e | r \<Rightarrow> r)"
| "api_reason_of _ = None"

definition isNotFound :: "goerr \<Rightarrow> bool" where
  "isNotFound e \<longleftrightarrow> api_reason_of e = Some NotFound"

definition isAlreadyExists :: "goerr \<Rightarrow> bool" where
  "isAlreadyExists e \<longleftrightarrow> api_reason_of e = Some AlreadyExists"

lemma errors_is_wrap [simp]: "errors_is (wrap m e) t = errors_is e t"
  by (simp add: wrap_def)

lemma api_reason_wrap [simp]: "api_reason_of (wrap m e) = api_reason_of e"
  by (simp add: wrap_def)

lemma err_text_wrap [simp]: "err_text (wrap m e) = m @ '': '' @ err_text e"
  by (simp add: wrap_def)

section \<open>The handler monad\<close>

text \<open>
  A Go function that returns \<^verbatim>\<open>(T, error)\<close> and changes state is a function from a state to an
  outcome and the new state. \<open>Err\<close> is a returned error; \<open>Panic\<close> is a run-time panic (an
  assignment to a nil map, a nil dereference), which unwinds through every caller.
\<close>

datatype 'a outcome = Ok 'a | Err goerr | Panic string

type_synonym ('s, 'a) go = "'s \<Rightarrow> 'a outcome \<times> 's"

definition ret :: "'a \<Rightarrow> ('s, 'a) go" where
  "ret x = (\<lambda>s. (Ok x, s))"

definition fail :: "goerr \<Rightarrow> ('s, 'a) go" where
  "fail e = (\<lambda>s. (Err e, s))"

definition crash :: "string \<Rightarrow> ('s, 'a) go" where
  "crash p = (\<lambda>s. (Panic p, s))"

definition bnd :: "('s, 'a) go \<Rightarrow> ('a \<Rightarrow> ('s, 'b) go) \<Rightarrow> ('s, 'b) go" where
  "bnd m k = (\<lambda>s. case m s of
      (Ok x, s') \<Rightarrow> k x s'
    | (Err e, s') \<Rightarrow> (Err e, s')
    | (Panic p, s') \<Rightarrow> (Panic p, s'))"

definition andThen :: "('s, 'a) go \<Rightarrow> ('s, 'b) go \<Rightarrow> ('s, 'b) go" where
  "andThen m k = bnd m (\<lambda>_. k)"

text \<open>
  \<open>onErr m h\<close> is \<^verbatim>\<open>if err := m; err != nil { h(err) }\<close>; \<open>attempt m\<close> keeps the error as a
  value; \<open>orWrap m msg\<close> is the idiom \<^verbatim>\<open>return fmt.Errorf("msg: %w", err)\<close>.
\<close>

definition onErr :: "('s, 'a) go \<Rightarrow> (goerr \<Rightarrow> ('s, 'a) go) \<Rightarrow> ('s, 'a) go" where
  "onErr m h = (\<lambda>s. case m s of
      (Ok x, s') \<Rightarrow> (Ok x, s')
    | (Err e, s') \<Rightarrow> h e s'
    | (Panic p, s') \<Rightarrow> (Panic p, s'))"

definition attempt :: "('s, 'a) go \<Rightarrow> ('s, goerr + 'a) go" where
  "attempt m = (\<lambda>s. case m s of
      (Ok x, s') \<Rightarrow> (Ok (Inr x), s')
    | (Err e, s') \<Rightarrow> (Ok (Inl e), s')
    | (Panic p, s') \<Rightarrow> (Panic p, s'))"

definition orWrap :: "('s, 'a) go \<Rightarrow> string \<Rightarrow> ('s, 'a) go" where
  "orWrap m msg = onErr m (\<lambda>e. fail (wrap msg e))"

definition gets :: "('s \<Rightarrow> 'a) \<Rightarrow> ('s, 'a) go" where
  "gets f = (\<lambda>s. (Ok (f s), s))"

definition modify :: "('s \<Rightarrow> 's) \<Rightarrow> ('s, unit) go" where
  "modify f = (\<lambda>s. (Ok (), f s))"

definition lift_sum :: "goerr + 'a \<Rightarrow> ('s, 'a) go" where
  "lift_sum r = (case r of Inl e \<Rightarrow> fail e | Inr x \<Rightarrow> ret x)"

definition lift_outcome :: "'a outcome \<Rightarrow> ('s, 'a) go" where
  "lift_outcome r = (\<lambda>s. (r, s))"

definition whenM :: "bool \<Rightarrow> ('s, unit) go \<Rightarrow> ('s, unit) go" where
  "whenM b m = (if b then m else ret ())"

primrec forEach :: "('a \<Rightarrow> ('s, unit) go) \<Rightarrow> 'a list \<Rightarrow> ('s, unit) go" where
  "forEach f [] = ret ()"
| "forEach f (x # xs) = andThen (f x) (forEach f xs)"

subsection \<open>Evaluation\<close>

lemma run_ret [run]: "ret x s = (Ok x, s)"
  by (simp add: ret_def)

lemma run_fail [run]: "fail e s = (Err e, s)"
  by (simp add: fail_def)

lemma run_crash [run]: "crash p s = (Panic p, s)"
  by (simp add: crash_def)

lemma run_gets [run]: "gets f s = (Ok (f s), s)"
  by (simp add: gets_def)

lemma run_modify [run]: "modify f s = (Ok (), f s)"
  by (simp add: modify_def)

lemma run_bnd [run]: "bnd m k s = (case m s of
      (Ok x, s') \<Rightarrow> k x s' | (Err e, s') \<Rightarrow> (Err e, s') | (Panic p, s') \<Rightarrow> (Panic p, s'))"
  by (simp add: bnd_def)

lemma run_andThen [run]: "andThen m k s = (case m s of
      (Ok x, s') \<Rightarrow> k s' | (Err e, s') \<Rightarrow> (Err e, s') | (Panic p, s') \<Rightarrow> (Panic p, s'))"
  by (simp add: andThen_def bnd_def)

lemma run_onErr [run]: "onErr m h s = (case m s of
      (Ok x, s') \<Rightarrow> (Ok x, s') | (Err e, s') \<Rightarrow> h e s' | (Panic p, s') \<Rightarrow> (Panic p, s'))"
  by (simp add: onErr_def)

lemma run_attempt [run]: "attempt m s = (case m s of
      (Ok x, s') \<Rightarrow> (Ok (Inr x), s') | (Err e, s') \<Rightarrow> (Ok (Inl e), s')
    | (Panic p, s') \<Rightarrow> (Panic p, s'))"
  by (simp add: attempt_def)

lemma run_orWrap [run]: "orWrap m msg s = (case m s of
      (Ok x, s') \<Rightarrow> (Ok x, s') | (Err e, s') \<Rightarrow> (Err (wrap msg e), s')
    | (Panic p, s') \<Rightarrow> (Panic p, s'))"
  by (simp add: orWrap_def onErr_def fail_def split: prod.split outcome.split)

lemma run_lift_sum [run]: "lift_sum r s = (case r of Inl e \<Rightarrow> (Err e, s) | Inr x \<Rightarrow> (Ok x, s))"
  by (simp add: lift_sum_def ret_def fail_def split: sum.split)

lemma run_lift_outcome [run]: "lift_outcome r s = (r, s)"
  by (simp add: lift_outcome_def)

lemma lift_outcome_Ok: "lift_outcome (Ok x) = ret x"
  by (simp add: lift_outcome_def ret_def)

lemma run_whenM [run]: "whenM b m s = (if b then m s else (Ok (), s))"
  by (simp add: whenM_def ret_def)

lemma bnd_ret_right: "bnd m ret = m"
  by (rule ext) (simp add: bnd_def ret_def split: prod.split outcome.split)

lemma bnd_assoc: "bnd (bnd m f) g = bnd m (\<lambda>x. bnd (f x) g)"
  by (rule ext) (simp add: bnd_def split: prod.split outcome.split)

lemma bnd_ret_left: "bnd (ret x) f = f x"
  by (rule ext) (simp add: bnd_def ret_def)

subsection \<open>Weakest preconditions\<close>

text \<open>
  \<open>wpre m Q s\<close>: running \<open>m\<close> from \<open>s\<close> ends in an outcome and a state that satisfy \<open>Q\<close>. The
  equations below compute it along the text of a handler, so that \<open>simp add: wp\<close> turns a property
  of a handler into a case distinction over its branches.
\<close>

definition wpre :: "('s, 'a) go \<Rightarrow> ('a outcome \<Rightarrow> 's \<Rightarrow> bool) \<Rightarrow> 's \<Rightarrow> bool" where
  "wpre m Q s = (case m s of (r, s') \<Rightarrow> Q r s')"

lemma wpreI: "(\<And>r s'. m s = (r, s') \<Longrightarrow> Q r s') \<Longrightarrow> wpre m Q s"
  by (simp add: wpre_def split: prod.split)

lemma wpreD: "wpre m Q s \<Longrightarrow> m s = (r, s') \<Longrightarrow> Q r s'"
  by (simp add: wpre_def)

lemma wpre_mono: "wpre m P s \<Longrightarrow> (\<And>r s'. P r s' \<Longrightarrow> Q r s') \<Longrightarrow> wpre m Q s"
  by (auto simp: wpre_def split: prod.splits)

lemma wp_ret [wp]: "wpre (ret x) Q s = Q (Ok x) s"
  by (simp add: wpre_def run_ret)

lemma wp_fail [wp]: "wpre (fail e) Q s = Q (Err e) s"
  by (simp add: wpre_def run_fail)

lemma wp_crash [wp]: "wpre (crash p) Q s = Q (Panic p) s"
  by (simp add: wpre_def run_crash)

lemma wp_gets [wp]: "wpre (gets f) Q s = Q (Ok (f s)) s"
  by (simp add: wpre_def run_gets)

lemma wp_modify [wp]: "wpre (modify f) Q s = Q (Ok ()) (f s)"
  by (simp add: wpre_def run_modify)

lemma wp_bnd [wp]: "wpre (bnd m k) Q s =
    wpre m (\<lambda>r s'. case r of Ok x \<Rightarrow> wpre (k x) Q s' | Err e \<Rightarrow> Q (Err e) s'
                            | Panic p \<Rightarrow> Q (Panic p) s') s"
  by (simp add: wpre_def bnd_def split: prod.split outcome.split)

lemma wp_andThen [wp]: "wpre (andThen m k) Q s =
    wpre m (\<lambda>r s'. case r of Ok x \<Rightarrow> wpre k Q s' | Err e \<Rightarrow> Q (Err e) s'
                            | Panic p \<Rightarrow> Q (Panic p) s') s"
  by (simp add: andThen_def wp_bnd)

lemma wp_onErr [wp]: "wpre (onErr m h) Q s =
    wpre m (\<lambda>r s'. case r of Ok x \<Rightarrow> Q (Ok x) s' | Err e \<Rightarrow> wpre (h e) Q s'
                            | Panic p \<Rightarrow> Q (Panic p) s') s"
  by (simp add: wpre_def onErr_def split: prod.split outcome.split)

lemma wp_attempt [wp]: "wpre (attempt m) Q s =
    wpre m (\<lambda>r s'. case r of Ok x \<Rightarrow> Q (Ok (Inr x)) s' | Err e \<Rightarrow> Q (Ok (Inl e)) s'
                            | Panic p \<Rightarrow> Q (Panic p) s') s"
  by (simp add: wpre_def attempt_def split: prod.split outcome.split)

lemma wp_orWrap [wp]: "wpre (orWrap m msg) Q s =
    wpre m (\<lambda>r s'. case r of Ok x \<Rightarrow> Q (Ok x) s' | Err e \<Rightarrow> Q (Err (wrap msg e)) s'
                            | Panic p \<Rightarrow> Q (Panic p) s') s"
  by (simp add: orWrap_def wpre_def onErr_def fail_def split: prod.split outcome.split)

lemma wp_lift_sum [wp]: "wpre (lift_sum r) Q s =
    (case r of Inl e \<Rightarrow> Q (Err e) s | Inr x \<Rightarrow> Q (Ok x) s)"
  by (simp add: lift_sum_def wp_ret wp_fail split: sum.split)

lemma wp_lift_outcome [wp]: "wpre (lift_outcome r) Q s = Q r s"
  by (simp add: wpre_def lift_outcome_def)

lemma wp_whenM [wp]: "wpre (whenM b m) Q s = (if b then wpre m Q s else Q (Ok ()) s)"
  by (simp add: whenM_def wp_ret)

lemma wp_if [wp]: "wpre (if b then m else n) Q s = (if b then wpre m Q s else wpre n Q s)"
  by simp

text \<open>Sequencing a handler whose behaviour is known by a postcondition.\<close>

lemma wpre_bndI:
  assumes "wpre m P s" and "\<And>x s'. P (Ok x) s' \<Longrightarrow> wpre (k x) Q s'"
    and "\<And>e s'. P (Err e) s' \<Longrightarrow> Q (Err e) s'" and "\<And>p s'. P (Panic p) s' \<Longrightarrow> Q (Panic p) s'"
  shows "wpre (bnd m k) Q s"
  using assms by (auto simp: wp_bnd elim!: wpre_mono split: outcome.split)

lemma wpre_andThenI:
  assumes "wpre m P s" and "\<And>x s'. P (Ok x) s' \<Longrightarrow> wpre k Q s'"
    and "\<And>e s'. P (Err e) s' \<Longrightarrow> Q (Err e) s'" and "\<And>p s'. P (Panic p) s' \<Longrightarrow> Q (Panic p) s'"
  shows "wpre (andThen m k) Q s"
  unfolding andThen_def using assms by (rule wpre_bndI)

lemma wpre_onErrI:
  assumes "wpre m P s" and "\<And>x s'. P (Ok x) s' \<Longrightarrow> Q (Ok x) s'"
    and "\<And>e s'. P (Err e) s' \<Longrightarrow> wpre (h e) Q s'" and "\<And>p s'. P (Panic p) s' \<Longrightarrow> Q (Panic p) s'"
  shows "wpre (onErr m h) Q s"
  using assms by (auto simp: wp_onErr elim!: wpre_mono split: outcome.split)

lemma wpre_recoverI:
  assumes "wpre m P s" and "\<And>x s'. P (Ok x) s' \<Longrightarrow> wpre k Q s'"
    and "\<And>e s'. P (Err e) s' \<Longrightarrow> wpre (andThen (h e) k) Q s'"
    and "\<And>p s'. P (Panic p) s' \<Longrightarrow> Q (Panic p) s'"
  shows "wpre (andThen (onErr m h) k) Q s"
  unfolding wp_andThen
  by (rule wpre_onErrI [OF assms(1)]) (use assms(2-4) in \<open>simp_all add: wp_andThen\<close>)

text \<open>A loop whose body always succeeds and keeps \<open>I\<close>, and one that may also fail.\<close>

lemma forEach_ok:
  assumes "\<And>x s. x \<in> set xs \<Longrightarrow> I s \<Longrightarrow> wpre (f x) (\<lambda>r s'. r = Ok () \<and> I s') s" and "I s"
  shows "wpre (forEach f xs) (\<lambda>r s'. r = Ok () \<and> I s') s"
  using assms
proof (induction xs arbitrary: s)
  case Nil
  then show ?case by (simp add: wp)
next
  case (Cons x xs)
  have "wpre (f x) (\<lambda>r s'. r = Ok () \<and> I s') s" using Cons.prems by simp
  then have "wpre (f x) (\<lambda>r s'. r = Ok () \<and> wpre (forEach f xs) (\<lambda>r s'. r = Ok () \<and> I s') s') s"
    by (rule wpre_mono) (use Cons in auto)
  then show ?case
    by (auto simp: wp elim!: wpre_mono)
qed

lemma forEach_err:
  assumes "\<And>x s. x \<in> set xs \<Longrightarrow> I s \<Longrightarrow>
      wpre (f x) (\<lambda>r s'. (r = Ok () \<or> (\<exists>e. r = Err e)) \<and> I s') s" and "I s"
  shows "wpre (forEach f xs) (\<lambda>r s'. (r = Ok () \<or> (\<exists>e. r = Err e)) \<and> I s') s"
  using assms
proof (induction xs arbitrary: s)
  case Nil
  then show ?case by (simp add: wp)
next
  case (Cons x xs)
  have "wpre (f x) (\<lambda>r s'. (r = Ok () \<or> (\<exists>e. r = Err e)) \<and> I s') s" using Cons.prems by simp
  then have "wpre (f x) (\<lambda>r s'. (r = Ok () \<or> (\<exists>e. r = Err e)) \<and> I s' \<and>
      wpre (forEach f xs) (\<lambda>r s'. (r = Ok () \<or> (\<exists>e. r = Err e)) \<and> I s') s') s"
    by (rule wpre_mono) (use Cons in auto)
  then show ?case
    by (auto simp: wp elim!: wpre_mono)
qed

subsection \<open>Invariants\<close>

text \<open>\<open>keeps I m\<close>: every run of \<open>m\<close>, whatever its outcome, keeps the state property \<open>I\<close>.\<close>

definition keeps :: "('s \<Rightarrow> bool) \<Rightarrow> ('s, 'a) go \<Rightarrow> bool" where
  "keeps I m \<longleftrightarrow> (\<forall>s. I s \<longrightarrow> I (snd (m s)))"

lemma keepsI: "(\<And>s. I s \<Longrightarrow> I (snd (m s))) \<Longrightarrow> keeps I m"
  by (simp add: keeps_def)

lemma keepsD: "keeps I m \<Longrightarrow> I s \<Longrightarrow> m s = (r, s') \<Longrightarrow> I s'"
  by (auto simp: keeps_def dest: spec [of _ s])

lemma keeps_wp: "(\<And>s. I s \<Longrightarrow> wpre m (\<lambda>_ s'. I s') s) \<Longrightarrow> keeps I m"
  by (force simp: keeps_def wpre_def split: prod.splits)

lemma keeps_ret [pres]: "keeps I (ret x)"
  by (simp add: keeps_def run_ret)

lemma keeps_fail [pres]: "keeps I (fail e)"
  by (simp add: keeps_def run_fail)

lemma keeps_crash [pres]: "keeps I (crash p)"
  by (simp add: keeps_def run_crash)

lemma keeps_gets [pres]: "keeps I (gets f)"
  by (simp add: keeps_def run_gets)

lemma keeps_modify [pres]: "(\<And>s. I s \<Longrightarrow> I (f s)) \<Longrightarrow> keeps I (modify f)"
  by (simp add: keeps_def run_modify)

lemma keeps_bnd [pres]:
  assumes "keeps I m" and "\<And>x. keeps I (k x)"
  shows "keeps I (bnd m k)"
proof (rule keepsI)
  fix s assume "I s"
  obtain r s' where m: "m s = (r, s')" by force
  with assms(1) \<open>I s\<close> have "I s'" by (rule keepsD)
  with assms(2) m show "I (snd (bnd m k s))"
    by (cases r) (auto simp: bnd_def keeps_def)
qed

lemma keeps_andThen [pres]: "keeps I m \<Longrightarrow> keeps I k \<Longrightarrow> keeps I (andThen m k)"
  by (simp add: andThen_def keeps_bnd)

lemma keeps_onErr [pres]:
  assumes "keeps I m" and "\<And>e. keeps I (h e)"
  shows "keeps I (onErr m h)"
proof (rule keepsI)
  fix s assume "I s"
  obtain r s' where m: "m s = (r, s')" by force
  with assms(1) \<open>I s\<close> have "I s'" by (rule keepsD)
  with assms(2) m show "I (snd (onErr m h s))"
    by (cases r) (auto simp: onErr_def keeps_def)
qed

lemma keeps_attempt [pres]: "keeps I m \<Longrightarrow> keeps I (attempt m)"
  by (force simp: keeps_def attempt_def split: prod.split outcome.split)

lemma keeps_orWrap [pres]: "keeps I m \<Longrightarrow> keeps I (orWrap m msg)"
  by (simp add: orWrap_def keeps_onErr keeps_fail)

lemma keeps_lift_sum [pres]: "keeps I (lift_sum r)"
  by (simp add: lift_sum_def keeps_ret keeps_fail split: sum.split)

lemma keeps_lift_outcome [pres]: "keeps I (lift_outcome r)"
  by (simp add: keeps_def lift_outcome_def)

lemma keeps_whenM [pres]: "keeps I m \<Longrightarrow> keeps I (whenM b m)"
  by (simp add: whenM_def keeps_ret)

lemma keeps_if [pres]: "keeps I m \<Longrightarrow> keeps I n \<Longrightarrow> keeps I (if b then m else n)"
  by simp

lemma keeps_option [pres]:
  "keeps I m \<Longrightarrow> (\<And>x. keeps I (k x)) \<Longrightarrow> keeps I (case x of None \<Rightarrow> m | Some y \<Rightarrow> k y)"
  by (simp split: option.split)

lemma keeps_sum [pres]:
  "(\<And>e. keeps I (h e)) \<Longrightarrow> (\<And>x. keeps I (k x)) \<Longrightarrow> keeps I (case r of Inl e \<Rightarrow> h e | Inr x \<Rightarrow> k x)"
  by (simp split: sum.split)

lemma keeps_prod [pres]: "(\<And>x y. keeps I (k x y)) \<Longrightarrow> keeps I (case p of (x, y) \<Rightarrow> k x y)"
  by (simp split: prod.split)

lemma keeps_let [pres]: "keeps I (k v) \<Longrightarrow> keeps I (let x = v in k x)"
  by simp

lemma keeps_forEach [pres]: "(\<And>x. x \<in> set xs \<Longrightarrow> keeps I (f x)) \<Longrightarrow> keeps I (forEach f xs)"
  by (induction xs) (auto intro: keeps_ret keeps_andThen)

text \<open>
  \<open>yields m Q\<close>: whenever \<open>m\<close> returns a value, the value and the state it ends in satisfy \<open>Q\<close>.
\<close>

definition yields :: "('s, 'a) go \<Rightarrow> ('a \<Rightarrow> 's \<Rightarrow> bool) \<Rightarrow> bool" where
  "yields m Q \<longleftrightarrow> (\<forall>s x s'. m s = (Ok x, s') \<longrightarrow> Q x s')"

lemma yieldsD: "yields m Q \<Longrightarrow> m s = (Ok x, s') \<Longrightarrow> Q x s'"
  by (simp add: yields_def)

end
