(* ===== verification/GoLib.thy ===== *)
theory GoLib
  imports Prelude
begin

text \<open>
  What the source uses of Go's language and standard library: maps (with \<^verbatim>\<open>nil\<close> apart from the
  empty map), and functions of the packages \<^verbatim>\<open>strings\<close>, \<^verbatim>\<open>strconv\<close>, \<^verbatim>\<open>path\<close>, \<^verbatim>\<open>html\<close> and
  \<^verbatim>\<open>slices\<close>. Case conversion is that of ASCII letters: other bytes are left alone.
\<close>

section \<open>Maps\<close>

text \<open>
  A map is \<open>None\<close> when it is \<^verbatim>\<open>nil\<close>, otherwise an association list; the list's order is the
  order in which a \<^verbatim>\<open>range\<close> loop visits the keys. Go leaves that order open, so a theorem about a
  loop over a map is stated for every such list.
\<close>

type_synonym 'v gomap = "(string \<times> 'v) list option"

definition mget :: "'v gomap \<Rightarrow> string \<Rightarrow> 'v option" where
  "mget m k = (case m of None \<Rightarrow> None | Some al \<Rightarrow> map_of al k)"

definition mentries :: "'v gomap \<Rightarrow> (string \<times> 'v) list" where
  "mentries m = (case m of None \<Rightarrow> [] | Some al \<Rightarrow> al)"

definition mmake :: "'v gomap \<Rightarrow> 'v gomap" where
  "mmake m = (case m of None \<Rightarrow> Some [] | Some al \<Rightarrow> Some al)"

definition mput :: "string \<Rightarrow> 'v \<Rightarrow> 'v gomap \<Rightarrow> 'v gomap" where
  "mput k v m = map_option (AList.update k v) m"

definition mkeys :: "'v gomap \<Rightarrow> string set" where
  "mkeys m = fst ` set (mentries m)"

definition mwf :: "'v gomap \<Rightarrow> bool" where
  "mwf m \<longleftrightarrow> distinct (map fst (mentries m))"

text \<open>\<^verbatim>\<open>m[k]\<close> where the zero value stands for a missing string.\<close>

definition mstr :: "string gomap \<Rightarrow> string \<Rightarrow> string" where
  "mstr m k = (case mget m k of None \<Rightarrow> [] | Some v \<Rightarrow> v)"

lemma mget_None [simp]: "mget None k = None"
  by (simp add: mget_def)

lemma mget_Some [simp]: "mget (Some al) k = map_of al k"
  by (simp add: mget_def)

lemma mmake_Some [simp]: "mmake (Some al) = Some al"
  by (simp add: mmake_def)

lemma mmake_None [simp]: "mmake None = Some []"
  by (simp add: mmake_def)

lemma mmake_not_nil [simp]: "mmake m \<noteq> None"
  by (simp add: mmake_def split: option.split)

lemma mget_mmake [simp]: "mget (mmake m) k = mget m k"
  by (simp add: mmake_def split: option.split)

lemma mput_not_nil [simp]: "mput k v m = None \<longleftrightarrow> m = None"
  by (simp add: mput_def)

lemma mget_mput: "m \<noteq> None \<Longrightarrow> mget (mput k v m) k' = (if k' = k then Some v else mget m k')"
  by (auto simp: mput_def update_conv')

lemma mget_mput_same [simp]: "mget (mput k v (mmake m)) k = Some v"
  by (simp add: mget_mput)

lemma mget_mput_other [simp]: "k' \<noteq> k \<Longrightarrow> mget (mput k v (mmake m)) k' = mget m k'"
  by (simp add: mget_mput)

lemma mwf_mmake [simp]: "mwf (mmake m) = mwf m"
  by (simp add: mwf_def mmake_def mentries_def split: option.split)

lemma mwf_mput [simp]: "mwf m \<Longrightarrow> mwf (mput k v m)"
  by (cases m) (auto simp: mwf_def mput_def mentries_def distinct_update)

lemma update_entries: "set (AList.update k v al) \<subseteq> insert (k, v) (set al)"
  by (induction al) auto

lemma mput_entries: "set (mentries (mput k v m)) \<subseteq> insert (k, v) (set (mentries m))"
  using update_entries [of k v] by (cases m) (auto simp: mput_def mentries_def)

lemma mentries_simps [simp]: "mentries None = []" "mentries (Some al) = al" "mentries (mmake m) = mentries m"
  by (simp_all add: mentries_def mmake_def split: option.split)

lemma mget_entries: "mget m k = Some v \<Longrightarrow> (k, v) \<in> set (mentries m)"
  by (cases m) (auto dest: map_of_SomeD)

section \<open>Strings\<close>

definition has_prefix :: "string \<Rightarrow> string \<Rightarrow> bool" where
  "has_prefix s p \<longleftrightarrow> take (length p) s = p"

definition has_suffix :: "string \<Rightarrow> string \<Rightarrow> bool" where
  "has_suffix s p \<longleftrightarrow> has_prefix (rev s) (rev p)"

definition trim_prefix :: "string \<Rightarrow> string \<Rightarrow> string" where
  "trim_prefix s p = (if has_prefix s p then drop (length p) s else s)"

definition trim_suffix :: "string \<Rightarrow> string \<Rightarrow> string" where
  "trim_suffix s p = (if has_suffix s p then take (length s - length p) s else s)"

text \<open>\<^verbatim>\<open>strings.Index\<close>, with \<open>None\<close> for -1, and the cut at the first occurrence.\<close>

fun str_index :: "string \<Rightarrow> string \<Rightarrow> nat option" where
  "str_index [] sub = (if sub = [] then Some 0 else None)"
| "str_index (c # cs) sub =
     (if has_prefix (c # cs) sub then Some 0 else map_option Suc (str_index cs sub))"

definition contains :: "string \<Rightarrow> string \<Rightarrow> bool" where
  "contains s sub \<longleftrightarrow> str_index s sub \<noteq> None"

definition str_cut :: "string \<Rightarrow> string \<Rightarrow> (string \<times> string) option" where
  "str_cut s sep = (case str_index s sep of None \<Rightarrow> None
                | Some i \<Rightarrow> Some (take i s, drop (i + length sep) s))"

lemma has_prefix_append [simp]: "has_prefix (p @ s) p"
  by (simp add: has_prefix_def)

lemma has_prefix_iff: "has_prefix s p \<longleftrightarrow> (\<exists>t. s = p @ t)"
  by (metis append_take_drop_id has_prefix_append has_prefix_def)

lemma has_prefix_code [simp]:
  "has_prefix s [] = True"
  "has_prefix [] (c # p) = False"
  "has_prefix (d # s) (c # p) = (d = c \<and> has_prefix s p)"
  by (auto simp: has_prefix_def)

lemma str_index_Some:
  "str_index s sub = Some i \<Longrightarrow> i + length sub \<le> length s \<and> take (length sub) (drop i s) = sub"
proof (induction s arbitrary: i)
  case Nil
  then show ?case by (auto split: if_splits)
next
  case (Cons c cs)
  show ?case
  proof (cases "has_prefix (c # cs) sub")
    case True
    with Cons.prems have "i = 0" by simp
    moreover obtain t where "c # cs = sub @ t"
      using True by (auto simp: has_prefix_iff)
    then have "length sub \<le> length (c # cs)"
      by (metis le_add1 length_append)
    ultimately show ?thesis using True by (simp add: has_prefix_def)
  next
    case False
    with Cons.prems obtain j where "str_index cs sub = Some j" and "i = Suc j" by auto
    with Cons.IH show ?thesis by simp
  qed
qed

lemma str_index_first: "str_index s sub = Some i \<Longrightarrow> j < i \<Longrightarrow> \<not> has_prefix (drop j s) sub"
proof (induction s arbitrary: i j)
  case Nil
  then show ?case by (auto split: if_splits)
next
  case (Cons c cs)
  then show ?case
    by (cases j) (auto split: if_splits)
qed

lemma str_index_None: "str_index s sub = None \<Longrightarrow> \<not> has_prefix (drop j s) sub"
proof (induction s arbitrary: j)
  case Nil
  then show ?case by (cases sub) auto
next
  case (Cons c cs)
  then show ?case
    by (cases j) (auto split: if_splits)
qed

lemma str_index_notin: "c \<notin> set s \<Longrightarrow> str_index s (c # p) = None"
  by (induction s) auto

lemma str_index_append_single:
  "c \<notin> set s \<Longrightarrow> str_index (s @ c # t) [c] = Some (length s)"
  by (induction s) auto

lemma str_cut_length: "str_cut s sep = Some (a, b) \<Longrightarrow> sep \<noteq> [] \<Longrightarrow> length b < length s"
proof -
  assume "str_cut s sep = Some (a, b)" and sep: "sep \<noteq> []"
  then obtain i where i: "str_index s sep = Some i" and b: "b = drop (i + length sep) s"
    by (auto simp: str_cut_def split: option.splits)
  from sep have "0 < length sep" by simp
  moreover have "i + length sep \<le> length s" using str_index_Some [OF i] ..
  ultimately show ?thesis unfolding b length_drop by linarith
qed

lemma str_cut_eq: "str_cut s sep = Some (a, b) \<Longrightarrow> s = a @ sep @ b"
proof -
  assume "str_cut s sep = Some (a, b)"
  then obtain i where i: "str_index s sep = Some i" and a: "a = take i s"
    and b: "b = drop (i + length sep) s"
    by (auto simp: str_cut_def split: option.splits)
  have "drop i s = take (length sep) (drop i s) @ drop (length sep) (drop i s)"
    by (rule append_take_drop_id [symmetric])
  also have "take (length sep) (drop i s) = sep" using str_index_Some [OF i] ..
  also have "drop (length sep) (drop i s) = b" using b by (simp add: add.commute)
  finally have "take i s @ drop i s = a @ sep @ b" using a by simp
  then show ?thesis by simp
qed

text \<open>\<^verbatim>\<open>strings.Split\<close>, \<^verbatim>\<open>strings.SplitN(_, _, 2)\<close> and \<^verbatim>\<open>strings.ReplaceAll\<close> for a non-empty separator.\<close>

function str_split :: "string \<Rightarrow> string \<Rightarrow> string list" where
  "str_split s sep = (if sep = [] then [s]
     else case str_cut s sep of None \<Rightarrow> [s] | Some (a, b) \<Rightarrow> a # str_split b sep)"
  by pat_completeness auto
termination
  by (relation "measure (length \<circ> fst)") (auto dest: str_cut_length)

declare str_split.simps [simp del]

definition splitN2 :: "string \<Rightarrow> string \<Rightarrow> string list" where
  "splitN2 s sep = (case str_cut s sep of None \<Rightarrow> [s] | Some (a, b) \<Rightarrow> [a, b])"

function replace_all :: "string \<Rightarrow> string \<Rightarrow> string \<Rightarrow> string" where
  "replace_all s old new = (if old = [] then s
     else case str_cut s old of None \<Rightarrow> s | Some (a, b) \<Rightarrow> a @ new @ replace_all b old new)"
  by pat_completeness auto
termination
  by (relation "measure (\<lambda>(s, _, _). length s)") (auto dest: str_cut_length)

declare replace_all.simps [simp del]

definition replace_first :: "string \<Rightarrow> string \<Rightarrow> string \<Rightarrow> string" where
  "replace_first s old new = (case str_cut s old of None \<Rightarrow> s | Some (a, b) \<Rightarrow> a @ new @ b)"

fun str_join :: "string list \<Rightarrow> string \<Rightarrow> string" where
  "str_join [] sep = []"
| "str_join [x] sep = x"
| "str_join (x # xs) sep = x @ sep @ str_join xs sep"

lemma str_split_nonempty: "str_split s sep \<noteq> []"
  by (subst str_split.simps) (auto split: option.split)

lemma str_join_Cons: "xs \<noteq> [] \<Longrightarrow> str_join (x # xs) sep = x @ sep @ str_join xs sep"
  by (cases xs) auto

lemma join_split: "sep \<noteq> [] \<Longrightarrow> str_join (str_split s sep) sep = s"
proof (induction s sep rule: str_split.induct)
  case (1 s sep)
  show ?case
  proof (cases "str_cut s sep")
    case None
    with 1 show ?thesis by (subst str_split.simps) simp
  next
    case (Some p)
    obtain a b where p: "p = (a, b)" by force
    with 1 Some have "str_join (str_split b sep) sep = b" by simp
    moreover have "s = a @ sep @ b" using Some p by (simp add: str_cut_eq)
    ultimately show ?thesis using Some p 1
      by (subst str_split.simps) (simp add: str_join_Cons str_split_nonempty)
  qed
qed

text \<open>Deleting one character everywhere.\<close>

lemma replace_char_all: "replace_all s [c] [] = filter (\<lambda>d. d \<noteq> c) s"
proof (induction s "[c]" "[] :: string" rule: replace_all.induct)
  case (1 s)
  show ?case
  proof (cases "str_cut s [c]")
    case None
    then have "str_index s [c] = None" by (simp add: str_cut_def split: option.splits)
    moreover have "c \<in> set s \<Longrightarrow> str_index s [c] \<noteq> None"
      by (induction s) auto
    ultimately have "filter (\<lambda>d. d \<noteq> c) s = s" by (auto simp: filter_id_conv)
    with None show ?thesis by (subst replace_all.simps) simp
  next
    case (Some p)
    obtain a b where p: "p = (a, b)" by force
    from Some p obtain i where i: "str_index s [c] = Some i" and a: "a = take i s"
      by (auto simp: str_cut_def split: option.splits)
    have "c \<notin> set a"
    proof
      assume "c \<in> set a"
      then obtain j where "j < i" and "j < length s" and "s ! j = c"
        using a by (auto simp: in_set_conv_nth)
      then have "has_prefix (drop j s) [c]"
        by (simp add: Cons_nth_drop_Suc [symmetric])
      with str_index_first [OF i \<open>j < i\<close>] show False by simp
    qed
    moreover have "s = a @ [c] @ b" using str_cut_eq Some p by blast
    moreover have "replace_all b [c] [] = filter (\<lambda>d. d \<noteq> c) b"
      using 1 Some p by simp
    moreover have "filter (\<lambda>d. d \<noteq> c) a = a"
      using \<open>c \<notin> set a\<close> by (auto simp: filter_id_conv)
    ultimately show ?thesis
      using Some p by (subst replace_all.simps) simp
  qed
qed

subsection \<open>Characters\<close>

abbreviation code :: "char \<Rightarrow> nat" where
  "code c \<equiv> of_char c"

definition is_digit :: "char \<Rightarrow> bool" where
  "is_digit c \<longleftrightarrow> 48 \<le> code c \<and> code c \<le> 57"

definition is_upper :: "char \<Rightarrow> bool" where
  "is_upper c \<longleftrightarrow> 65 \<le> code c \<and> code c \<le> 90"

definition is_lower :: "char \<Rightarrow> bool" where
  "is_lower c \<longleftrightarrow> 97 \<le> code c \<and> code c \<le> 122"

definition is_alnum :: "char \<Rightarrow> bool" where
  "is_alnum c \<longleftrightarrow> is_digit c \<or> is_upper c \<or> is_lower c"

definition lower_char :: "char \<Rightarrow> char" where
  "lower_char c = (if is_upper c then char_of (code c + 32) else c)"

definition upper_char :: "char \<Rightarrow> char" where
  "upper_char c = (if is_lower c then char_of (code c - 32) else c)"

definition to_lower :: "string \<Rightarrow> string" where
  "to_lower s = map lower_char s"

definition to_upper :: "string \<Rightarrow> string" where
  "to_upper s = map upper_char s"

lemma code_lower_char: "code (lower_char c) = (if is_upper c then code c + 32 else code c)"
  by (auto simp: lower_char_def is_upper_def of_char_of)

lemma lower_char_lower: "is_upper c \<Longrightarrow> is_lower (lower_char c)"
  by (simp add: is_lower_def code_lower_char) (simp add: is_upper_def)

lemma lower_char_id: "\<not> is_upper c \<Longrightarrow> lower_char c = c"
  by (simp add: lower_char_def)

lemma lower_char_not_upper: "\<not> is_upper (lower_char c)"
  by (auto simp: is_upper_def code_lower_char)

text \<open>\<^verbatim>\<open>strings.Trim\<close> with a one-character cutset, \<^verbatim>\<open>strings.TrimSpace\<close> on ASCII.\<close>

definition trim_char :: "char \<Rightarrow> string \<Rightarrow> string" where
  "trim_char c s = rev (dropWhile (\<lambda>d. d = c) (rev (dropWhile (\<lambda>d. d = c) s)))"

definition is_space :: "char \<Rightarrow> bool" where
  "is_space c \<longleftrightarrow> code c = 32 \<or> (9 \<le> code c \<and> code c \<le> 13)"

definition trim_space :: "string \<Rightarrow> string" where
  "trim_space s = rev (dropWhile is_space (rev (dropWhile is_space s)))"

subsection \<open>Numbers\<close>

definition digit_char :: "nat \<Rightarrow> char" where
  "digit_char d = char_of (48 + d)"

fun show_nat :: "nat \<Rightarrow> string" where
  "show_nat n = (if n < 10 then [digit_char n] else show_nat (n div 10) @ [digit_char (n mod 10)])"

declare show_nat.simps [simp del]

definition show_int :: "int \<Rightarrow> string" where
  "show_int i = (if i < 0 then ''-'' @ show_nat (nat (- i)) else show_nat (nat i))"

definition show_bool :: "bool \<Rightarrow> string" where
  "show_bool b = (if b then ''true'' else ''false'')"

fun digits_val :: "nat \<Rightarrow> string \<Rightarrow> nat option" where
  "digits_val acc [] = Some acc"
| "digits_val acc (c # cs) = (if is_digit c then digits_val (acc * 10 + (code c - 48)) cs else None)"

text \<open>\<^verbatim>\<open>strconv.Atoi\<close>: an optional sign, at least one digit, and a 64-bit range.\<close>

definition atoi :: "string \<Rightarrow> int option" where
  "atoi s = (let (sg, ds) = (case s of [] \<Rightarrow> (1 :: int, [])
                 | c # cs \<Rightarrow> if c = CHR ''-'' then (-1, cs) else if c = CHR ''+'' then (1, cs) else (1, s))
     in if ds = [] then None
        else case digits_val 0 ds of None \<Rightarrow> None
             | Some n \<Rightarrow> (let i = sg * int n in if - (2 ^ 63) \<le> i \<and> i < 2 ^ 63 then Some i else None))"

lemma code_digit_char: "d < 10 \<Longrightarrow> code (digit_char d) = 48 + d"
  by (simp add: digit_char_def of_char_of)

lemma is_digit_digit_char: "d < 10 \<Longrightarrow> is_digit (digit_char d)"
  by (simp add: is_digit_def code_digit_char)

lemma show_nat_digits: "\<forall>c \<in> set (show_nat n). is_digit c"
proof (induction n rule: show_nat.induct)
  case (1 n)
  then show ?case
    by (subst show_nat.simps) (auto simp: is_digit_digit_char)
qed

lemma show_nat_nonempty: "show_nat n \<noteq> []"
  by (subst show_nat.simps) simp

lemma digits_val_append:
  "digits_val acc (xs @ ys) = (case digits_val acc xs of None \<Rightarrow> None | Some n \<Rightarrow> digits_val n ys)"
  by (induction xs arbitrary: acc) auto

lemma digits_val_show: "digits_val 0 (show_nat n) = Some n"
proof (induction n rule: show_nat.induct)
  case (1 n)
  show ?case
  proof (cases "n < 10")
    case True
    then show ?thesis
      by (subst show_nat.simps) (simp add: is_digit_digit_char code_digit_char)
  next
    case False
    with 1 have "digits_val 0 (show_nat (n div 10)) = Some (n div 10)" by simp
    with False show ?thesis
      by (subst show_nat.simps) (simp add: digits_val_append is_digit_digit_char code_digit_char)
  qed
qed

lemma show_nat_inj: "show_nat m = show_nat n \<Longrightarrow> m = n"
  by (metis digits_val_show option.inject)

subsection \<open>Escaping and paths\<close>

text \<open>\<^verbatim>\<open>html.EscapeString\<close>.\<close>

fun html_escape_char :: "char \<Rightarrow> string" where
  "html_escape_char c =
     (if c = CHR ''&'' then ''&amp;''
      else if c = CHR 0x27 then ''&#39;''
      else if c = CHR ''<'' then ''&lt;''
      else if c = CHR ''>'' then ''&gt;''
      else if c = CHR 0x22 then ''&#34;''
      else [c])"

definition html_escape :: "string \<Rightarrow> string" where
  "html_escape s = concat (map html_escape_char s)"

text \<open>\<^verbatim>\<open>strconv.Quote\<close> on printable bytes: quotes and backslashes are escaped.\<close>

definition go_quote :: "string \<Rightarrow> string" where
  "go_quote s = [CHR 0x22] @
     concat (map (\<lambda>c. if c = CHR 0x22 \<or> c = CHR 0x5C then [CHR 0x5C, c] else [c]) s) @ [CHR 0x22]"

text \<open>\<^verbatim>\<open>path.Base\<close>.\<close>

definition path_base :: "string \<Rightarrow> string" where
  "path_base p = (if p = [] then ''.''
     else let q = rev (dropWhile (\<lambda>c. c = CHR ''/'') (rev p));
              b = rev (takeWhile (\<lambda>c. c \<noteq> CHR ''/'') (rev q))
          in if b = [] then ''/'' else b)"

text \<open>\<^verbatim>\<open>slices.CompactFunc\<close>: of each run of adjacent equal elements the first is kept.\<close>

fun compact_on :: "('a \<Rightarrow> 'b) \<Rightarrow> 'a list \<Rightarrow> 'a list" where
  "compact_on f (x # y # zs) = (if f x = f y then compact_on f (x # zs) else x # compact_on f (y # zs))"
| "compact_on f xs = xs"

lemma compact_on_set: "f ` set (compact_on f xs) = f ` set xs"
  by (induction f xs rule: compact_on.induct) auto

lemma compact_on_hd: "xs \<noteq> [] \<Longrightarrow> compact_on f xs \<noteq> [] \<and> hd (compact_on f xs) = hd xs"
  by (induction f xs rule: compact_on.induct) auto

lemma compact_on_adj:
  "Suc i < length (compact_on f xs) \<Longrightarrow> f (compact_on f xs ! i) \<noteq> f (compact_on f xs ! Suc i)"
proof (induction f xs arbitrary: i rule: compact_on.induct)
  case (1 f x y zs)
  show ?case
  proof (cases "f x = f y")
    case True
    with 1 show ?thesis by simp
  next
    case False
    have hd: "hd (compact_on f (y # zs)) = y" and ne: "compact_on f (y # zs) \<noteq> []"
      using compact_on_hd [of "y # zs" f] by auto
    show ?thesis
    proof (cases i)
      case 0
      with False hd ne show ?thesis by (simp add: hd_conv_nth)
    next
      case (Suc j)
      with 1 False show ?thesis by simp
    qed
  qed
qed auto

subsection \<open>Base64\<close>

text \<open>\<^verbatim>\<open>base64.StdEncoding.EncodeToString\<close>.\<close>

definition b64_digit :: "nat \<Rightarrow> char" where
  "b64_digit n = ''ABCDEFGHIJKLMNOPQRSTUVWXYZabcdefghijklmnopqrstuvwxyz0123456789+/'' ! n"

fun base64 :: "string \<Rightarrow> string" where
  "base64 [] = []"
| "base64 [a] = [b64_digit (code a div 4), b64_digit (code a mod 4 * 16), CHR ''='', CHR ''='']"
| "base64 [a, b] = [b64_digit (code a div 4), b64_digit (code a mod 4 * 16 + code b div 16),
     b64_digit (code b mod 16 * 4), CHR ''='']"
| "base64 (a # b # c # s) = b64_digit (code a div 4) # b64_digit (code a mod 4 * 16 + code b div 16)
     # b64_digit (code b mod 16 * 4 + code c div 64) # b64_digit (code c mod 64) # base64 s"

end
