(* ===== verification/Api.thy ===== *)
theory Api
  imports GoLib
begin

text \<open>
  The data model of \<^verbatim>\<open>api/v1beta1\<close>: the custom resources of the operator as records (a Go
  struct that embeds \<^verbatim>\<open>metav1.ObjectMeta\<close> extends the record \<open>ObjectMeta\<close>), their constants and
  methods, and the parts of the Kubernetes API machinery they are made of (metadata, owner and
  object references, conditions). A pointer is an option, a time is a number of nanoseconds with 0
  as Go's zero time, raw JSON is the string of its bytes, a 64-bit integer that is only copied is
  an \<open>int\<close>.
\<close>

section \<open>API machinery\<close>

record OwnerReference =
  or_APIVersion :: string
  or_Kind :: string
  or_Name :: string
  or_UID :: string
  or_Controller :: "bool option"
  or_BlockOwnerDeletion :: "bool option"

record ObjectMeta =
  APIVersion :: string
  Kind :: string
  Name :: string
  Namespace :: string
  UID :: string
  ResourceVersion :: string
  CreationTimestamp :: int
  DeletionTimestamp :: "int option"
  Labels :: "string gomap"
  Annotations :: "string gomap"
  OwnerReferences :: "OwnerReference list"
  Finalizers :: "string list"
  Generation :: int

record ObjectReference =
  ref_Kind :: string
  ref_Namespace :: string
  ref_Name :: string
  ref_UID :: string
  ref_APIVersion :: string

record TypedLocalObjectReference =
  tref_APIGroup :: "string option"
  tref_Kind :: string
  tref_Name :: string

record Condition =
  c_Type :: string
  c_Status :: string
  c_ObservedGeneration :: int
  c_LastTransitionTime :: int
  c_Reason :: string
  c_Message :: string

record LabelSelectorRequirement =
  lsr_Key :: string
  lsr_Operator :: string
  lsr_Values :: "string list"

record LabelSelector =
  ls_MatchLabels :: "string gomap"
  ls_MatchExpressions :: "LabelSelectorRequirement list"

definition zeroMeta :: ObjectMeta where
  "zeroMeta = \<lparr>APIVersion = [], Kind = [], Name = [], Namespace = [], UID = [], ResourceVersion = [],
     CreationTimestamp = 0, DeletionTimestamp = None, Labels = None, Annotations = None,
     OwnerReferences = [], Finalizers = [], Generation = 0\<rparr>"

definition mkRef :: "string \<Rightarrow> string \<Rightarrow> string \<Rightarrow> ObjectReference" where
  "mkRef kd ns nm = \<lparr>ref_Kind = kd, ref_Namespace = ns, ref_Name = nm, ref_UID = [], ref_APIVersion = []\<rparr>"

text \<open>A condition as the controllers write it: the unset fields have their zero values.\<close>

definition mkCondition :: "string \<Rightarrow> string \<Rightarrow> string \<Rightarrow> string \<Rightarrow> Condition" where
  "mkCondition ty reason status msg = \<lparr>c_Type = ty, c_Status = status, c_ObservedGeneration = 0,
     c_LastTransitionTime = 0, c_Reason = reason, c_Message = msg\<rparr>"

subsection \<open>Conditions\<close>

definition FindStatusCondition :: "Condition list \<Rightarrow> string \<Rightarrow> Condition option" where
  "FindStatusCondition cs ty = find (\<lambda>c. c_Type c = ty) cs"

fun IsStatusConditionPresentAndEqual :: "Condition list \<Rightarrow> string \<Rightarrow> string \<Rightarrow> bool" where
  "IsStatusConditionPresentAndEqual [] ty st = False"
| "IsStatusConditionPresentAndEqual (c # cs) ty st =
     (if c_Type c = ty then c_Status c = st else IsStatusConditionPresentAndEqual cs ty st)"

definition IsStatusConditionTrue :: "Condition list \<Rightarrow> string \<Rightarrow> bool" where
  "IsStatusConditionTrue cs ty = IsStatusConditionPresentAndEqual cs ty ''True''"

text \<open>
  \<open>updateCondition\<close> is what \<^verbatim>\<open>SetStatusCondition\<close> does to the condition it finds, through the
  pointer into the slice; \<open>now\<close> is the clock it reads when the new condition carries no time.
\<close>

definition stampOf :: "int \<Rightarrow> Condition \<Rightarrow> int" where
  "stampOf now c = (if c_LastTransitionTime c = 0 then now else c_LastTransitionTime c)"

definition updateCondition :: "int \<Rightarrow> Condition \<Rightarrow> Condition \<Rightarrow> Condition" where
  "updateCondition now new old =
    (let old' = (if c_Status old \<noteq> c_Status new
                 then old\<lparr>c_Status := c_Status new, c_LastTransitionTime := stampOf now new\<rparr> else old)
     in old'\<lparr>c_Reason := c_Reason new, c_Message := c_Message new,
             c_ObservedGeneration := c_ObservedGeneration new\<rparr>)"

fun setFirst :: "('a \<Rightarrow> bool) \<Rightarrow> ('a \<Rightarrow> 'a) \<Rightarrow> 'a list \<Rightarrow> 'a list" where
  "setFirst p f [] = []"
| "setFirst p f (x # xs) = (if p x then f x # xs else x # setFirst p f xs)"

definition SetStatusCondition :: "int \<Rightarrow> Condition \<Rightarrow> Condition list \<Rightarrow> Condition list" where
  "SetStatusCondition now new cs =
    (case FindStatusCondition cs (c_Type new) of
       None \<Rightarrow> cs @ [new\<lparr>c_LastTransitionTime := stampOf now new\<rparr>]
     | Some _ \<Rightarrow> setFirst (\<lambda>c. c_Type c = c_Type new) (updateCondition now new) cs)"

subsection \<open>Finalizers and owners\<close>

definition AddFinalizer :: "string \<Rightarrow> ('a ObjectMeta_scheme) \<Rightarrow> 'a ObjectMeta_scheme" where
  "AddFinalizer f o' = (if f \<in> set (Finalizers o') then o' else o'\<lparr>Finalizers := Finalizers o' @ [f]\<rparr>)"

definition RemoveFinalizer :: "string \<Rightarrow> ('a ObjectMeta_scheme) \<Rightarrow> 'a ObjectMeta_scheme" where
  "RemoveFinalizer f o' = o'\<lparr>Finalizers := filter (\<lambda>g. g \<noteq> f) (Finalizers o')\<rparr>"

definition ContainsFinalizer :: "('a ObjectMeta_scheme) \<Rightarrow> string \<Rightarrow> bool" where
  "ContainsFinalizer o' f = (f \<in> set (Finalizers o'))"

definition IsObjectOwned :: "('a ObjectMeta_scheme) \<Rightarrow> string \<Rightarrow> bool" where
  "IsObjectOwned o' uid = list_ex (\<lambda>r. or_UID r = uid) (OwnerReferences o')"

text \<open>\<^verbatim>\<open>util.RemoveInvalidConditions\<close>: the conditions with every required field set.\<close>

definition validCondition :: "Condition \<Rightarrow> bool" where
  "validCondition c \<longleftrightarrow> \<not> (c_Type c = [] \<or> c_Status c = [] \<or> c_LastTransitionTime c = 0 \<or> c_Reason c = [])"

definition RemoveInvalidConditions :: "Condition list \<Rightarrow> Condition list" where
  "RemoveInvalidConditions cs = filter validCondition cs"

section \<open>Registration configuration\<close>

record DeviceSelectorRequirement =
  ds_Key :: string
  ds_Operator :: string
  ds_Values :: "string list"

record SnapshotterConfig =
  sn_Type :: string
  sn_MaxSnaps :: int

record Install =
  in_Firmware :: string
  in_Device :: string
  in_DeviceSelector :: "DeviceSelectorRequirement list"
  in_NoFormat :: bool
  in_ConfigURLs :: "string list"
  in_ISO :: string
  in_SystemURI :: string
  in_Debug :: bool
  in_TTY :: string
  in_PowerOff :: bool
  in_Reboot :: bool
  in_EjectCD :: bool
  in_DisableBootEntry :: bool
  in_ConfigDir :: string
  in_Snapshotter :: SnapshotterConfig

record Reset =
  rs_Enabled :: bool
  rs_ResetPersistent :: bool
  rs_ResetOEM :: bool
  rs_ConfigURLs :: "string list"
  rs_SystemURI :: string
  rs_Debug :: bool
  rs_PowerOff :: bool
  rs_Reboot :: bool
  rs_DisableBootEntry :: bool

record Registration =
  rg_URL :: string
  rg_CACert :: string
  rg_EmulateTPM :: bool
  rg_EmulatedTPMSeed :: int
  rg_NoSMBIOS :: bool
  rg_Auth :: string
  rg_NoToolkit :: bool
  rg_Labels :: "string gomap"

record SystemAgent =
  sa_StrictTLSMode :: bool
  sa_URL :: string
  sa_Token :: string
  sa_SecretName :: string
  sa_SecretNamespace :: string

record Elemental =
  el_Install :: Install
  el_Reset :: Reset
  el_Registration :: Registration
  el_SystemAgent :: SystemAgent

record NetworkTemplate =
  nt_Configurator :: string
  nt_IPAddresses :: "(TypedLocalObjectReference option) gomap"
  nt_Config :: "string gomap"

record NetworkConfig =
  nc_Configurator :: string
  nc_IPAddresses :: "string gomap"
  nc_Config :: "string gomap"

record Config =
  cf_Elemental :: Elemental
  cf_Network :: NetworkTemplate
  cf_CloudConfig :: "string gomap"

definition zeroInstall :: Install where
  "zeroInstall = \<lparr>in_Firmware = [], in_Device = [], in_DeviceSelector = [], in_NoFormat = False,
     in_ConfigURLs = [], in_ISO = [], in_SystemURI = [], in_Debug = False, in_TTY = [],
     in_PowerOff = False, in_Reboot = False, in_EjectCD = False, in_DisableBootEntry = False,
     in_ConfigDir = [], in_Snapshotter = \<lparr>sn_Type = [], sn_MaxSnaps = 0\<rparr>\<rparr>"

definition zeroReset :: Reset where
  "zeroReset = \<lparr>rs_Enabled = False, rs_ResetPersistent = False, rs_ResetOEM = False,
     rs_ConfigURLs = [], rs_SystemURI = [], rs_Debug = False, rs_PowerOff = False,
     rs_Reboot = False, rs_DisableBootEntry = False\<rparr>"

definition zeroRegistration :: Registration where
  "zeroRegistration = \<lparr>rg_URL = [], rg_CACert = [], rg_EmulateTPM = False, rg_EmulatedTPMSeed = 0,
     rg_NoSMBIOS = False, rg_Auth = [], rg_NoToolkit = False, rg_Labels = None\<rparr>"

definition zeroSystemAgent :: SystemAgent where
  "zeroSystemAgent = \<lparr>sa_StrictTLSMode = False, sa_URL = [], sa_Token = [], sa_SecretName = [],
     sa_SecretNamespace = []\<rparr>"

definition zeroConfig :: Config where
  "zeroConfig = \<lparr>cf_Elemental = \<lparr>el_Install = zeroInstall, el_Reset = zeroReset,
       el_Registration = zeroRegistration, el_SystemAgent = zeroSystemAgent\<rparr>,
     cf_Network = \<lparr>nt_Configurator = [], nt_IPAddresses = None, nt_Config = None\<rparr>,
     cf_CloudConfig = None\<rparr>"

definition zeroNetworkConfig :: NetworkConfig where
  "zeroNetworkConfig = \<lparr>nc_Configurator = [], nc_IPAddresses = None, nc_Config = None\<rparr>"

section \<open>Custom resources\<close>

record MachineRegistrationSpec =
  mrs_Token :: string
  mrs_MachineName :: string
  mrs_MachineInventoryLabels :: "string gomap"
  mrs_MachineInventoryAnnotations :: "string gomap"
  mrs_LabelPrefix :: string
  mrs_Config :: Config

record MachineRegistrationStatus =
  mrt_Conditions :: "Condition list"
  mrt_RegistrationURL :: string
  mrt_RegistrationToken :: string
  mrt_ServiceAccountRef :: "ObjectReference option"

record MachineRegistration = ObjectMeta +
  mr_Spec :: MachineRegistrationSpec
  mr_Status :: MachineRegistrationStatus

record PlanStatus =
  pl_SecretRef :: "ObjectReference option"
  pl_Checksum :: string
  pl_State :: string

record MachineInventorySpec =
  mis_TPMHash :: string
  mis_MachineHash :: string
  mis_IPAddressClaims :: "(ObjectReference option) gomap"
  mis_IPAddressPools :: "(TypedLocalObjectReference option) gomap"
  mis_Network :: NetworkConfig

record MachineInventoryStatus =
  mit_Conditions :: "Condition list"
  mit_Plan :: "PlanStatus option"

record MachineInventory = ObjectMeta +
  mi_Spec :: MachineInventorySpec
  mi_Status :: MachineInventoryStatus

record MachineAddress =
  ma_Type :: string
  ma_Address :: string

record MachineInventorySelectorSpec =
  sls_ProviderID :: string
  sls_Selector :: LabelSelector

record MachineInventorySelectorStatus =
  slt_Conditions :: "Condition list"
  slt_Ready :: bool
  slt_Addresses :: "MachineAddress list"
  slt_BootstrapPlanChecksum :: string
  slt_MachineInventoryRef :: "string option"

record MachineInventorySelector = ObjectMeta +
  sl_Spec :: MachineInventorySelectorSpec
  sl_Status :: MachineInventorySelectorStatus

record SeedImageStatus =
  sit_Conditions :: "Condition list"
  sit_DownloadToken :: string
  sit_DownloadURL :: string
  sit_ChecksumURL :: string
  sit_State :: string

text \<open>A quantity is its text; a local object reference is the name that is its only field.\<close>

record BuildContainer =
  bc_Name :: string
  bc_Image :: string
  bc_Command :: "string list"
  bc_Args :: "string list"
  bc_ImagePullPolicy :: string

record SeedImageSpec =
  sis_BaseImage :: string
  sis_MachineRegistrationRef :: "ObjectReference option"
  sis_BuildContainer :: "BuildContainer option"
  sis_LifetimeMinutes :: "32 word"
  sis_RetriggerBuild :: bool
  sis_Size :: string
  sis_Type :: string
  sis_TargetPlatform :: string
  sis_CloudConfig :: "string gomap"
  sis_ImagePullSecrets :: "string list"

record SeedImage = ObjectMeta +
  si_Spec :: SeedImageSpec
  si_Status :: SeedImageStatus

section \<open>Resources of other API groups\<close>

record Secret = ObjectMeta +
  sec_Type :: string
  sec_Data :: "string gomap"
  sec_StringData :: "string gomap"

type_synonym ServiceAccount = ObjectMeta

record PolicyRule =
  pr_APIGroups :: "string list"
  pr_Verbs :: "string list"
  pr_Resources :: "string list"

record Role = ObjectMeta +
  role_Rules :: "PolicyRule list"

record Subject =
  sj_Kind :: string
  sj_Name :: string
  sj_Namespace :: string

record RoleRef =
  rr_Kind :: string
  rr_Name :: string
  rr_APIGroup :: string

record RoleBinding = ObjectMeta +
  rb_Subjects :: "Subject list"
  rb_RoleRef :: RoleRef

record IPPoolReference =
  ipr_Name :: string
  ipr_Kind :: string
  ipr_APIGroup :: string

record IPAddressClaim = ObjectMeta +
  ipc_PoolRef :: IPPoolReference
  ipc_AddressRef :: string

record IPAddress = ObjectMeta +
  ipa_Address :: string

record Setting = ObjectMeta +
  set_Value :: string
  set_Default :: string

record Machine = ObjectMeta +
  mc_DataSecretName :: "string option"

record Service = ObjectMeta +
  svc_ClusterIP :: string
  svc_Selector :: "string gomap"
  svc_Ports :: "(string \<times> int) list"

record ConfigMap = ObjectMeta +
  cm_Data :: "string gomap"
  cm_BinaryData :: "string gomap"

text \<open>
  Pods, with the fields the controllers fill or read. What a user's container specification may
  hold beyond them and the code only copies is kept as its text.
\<close>

datatype EnvVarSource = ConfigMapKeyRef string string | OtherSource string

record EnvVar =
  ev_Name :: string
  ev_Value :: string
  ev_ValueFrom :: "EnvVarSource option"

record VolumeMount =
  vm_Name :: string
  vm_MountPath :: string

record Container =
  ct_Name :: string
  ct_Image :: string
  ct_ImagePullPolicy :: string
  ct_Command :: "string list"
  ct_Args :: "string list"
  ct_Env :: "EnvVar list"
  ct_EnvFrom :: "string list"
  ct_VolumeMounts :: "VolumeMount list"
  ct_Ports :: "(string \<times> int) list"
  ct_EphemeralStorage :: "string option"

datatype VolumeSource = EmptyDir "string option" | ConfigMapVolume string "(string \<times> string) list"

record Volume =
  vol_Name :: string
  vol_Source :: VolumeSource

record Pod = ObjectMeta +
  pod_RestartPolicy :: string
  pod_AutomountToken :: "bool option"
  pod_InitContainers :: "Container list"
  pod_Containers :: "Container list"
  pod_Volumes :: "Volume list"
  pod_ImagePullSecrets :: "string list"
  pod_Phase :: string

definition zeroContainer :: Container where
  "zeroContainer = \<lparr>ct_Name = [], ct_Image = [], ct_ImagePullPolicy = [], ct_Command = [], ct_Args = [],
     ct_Env = [], ct_EnvFrom = [], ct_VolumeMounts = [], ct_Ports = [], ct_EphemeralStorage = None\<rparr>"

section \<open>OS images, versions and channels\<close>

record ContainerSpec =
  cs_Image :: string
  cs_Command :: "string list"
  cs_Args :: "string list"
  cs_Env :: "EnvVar list"
  cs_EnvFrom :: "string list"
  cs_Volumes :: "string list"
  cs_SecurityContext :: "string option"

definition zeroContainerSpec :: ContainerSpec where
  "zeroContainerSpec = \<lparr>cs_Image = [], cs_Command = [], cs_Args = [], cs_Env = [], cs_EnvFrom = [],
     cs_Volumes = [], cs_SecurityContext = None\<rparr>"

text \<open>Of a bundle target the code sets the cluster name; the rest of it is copied.\<close>

record BundleTarget =
  bt_ClusterName :: string
  bt_Rest :: string

record BundleResource =
  br_Name :: string
  br_Content :: string

record GenericCondition =
  gc_Type :: string
  gc_Status :: string
  gc_Reason :: string
  gc_Message :: string

record Bundle = ObjectMeta +
  bd_Resources :: "BundleResource list"
  bd_RolloutStrategy :: "string option"
  bd_Targets :: "BundleTarget list"
  bd_Rest :: string
  bd_Conditions :: "GenericCondition list"

record ManagedOSImageSpec =
  ois_OSImage :: string
  ois_CloudConfig :: "string gomap"
  ois_NodeSelector :: "LabelSelector option"
  ois_Concurrency :: "int option"
  ois_Prepare :: "ContainerSpec option"
  ois_Cordon :: "bool option"
  ois_Drain :: "string option"
  ois_UpgradeContainer :: "ContainerSpec option"
  ois_ManagedOSVersionName :: string
  ois_ClusterRolloutStrategy :: "string option"
  ois_Targets :: "BundleTarget list"
  ois_ImagePullSecrets :: "string list"

record ManagedOSImageStatus =
  oit_Conditions :: "Condition list"

record ManagedOSImage = ObjectMeta +
  oi_Spec :: ManagedOSImageSpec
  oi_Status :: ManagedOSImageStatus

record ManagedOSVersionSpec =
  ovs_Version :: string
  ovs_Type :: string
  ovs_MinVersion :: string
  ovs_Metadata :: "string gomap"
  ovs_UpgradeContainer :: "ContainerSpec option"

record ManagedOSVersion = ObjectMeta +
  ov_Spec :: ManagedOSVersionSpec

record ManagedOSVersionChannelSpec =
  chs_Type :: string
  chs_SyncInterval :: string
  chs_DeleteNoLongerInSyncVersions :: bool
  chs_Enabled :: bool
  chs_Registry :: string
  chs_Options :: "string gomap"
  chs_UpgradeContainer :: "ContainerSpec option"
  chs_ImagePullSecrets :: "string list"

record ManagedOSVersionChannelStatus =
  cht_Conditions :: "Condition list"
  cht_LastSyncedTime :: "int option"
  cht_FailedSynchronizationAttempts :: int
  cht_SyncedGeneration :: int

record ManagedOSVersionChannel = ObjectMeta +
  ch_Spec :: ManagedOSVersionChannelSpec
  ch_Status :: ManagedOSVersionChannelStatus

text \<open>The plan of the system upgrade controller, as far as the operator fills it.\<close>

record UpgradePlan = ObjectMeta +
  up_Concurrency :: int
  up_Version :: string
  up_Tolerations :: "string list"
  up_ServiceAccountName :: string
  up_NodeSelector :: "LabelSelector option"
  up_Cordon :: bool
  up_Drain :: "string option"
  up_Prepare :: "ContainerSpec option"
  up_Secrets :: "(string \<times> string) list"
  up_Upgrade :: "ContainerSpec option"
  up_ImagePullSecrets :: "string list"

text \<open>The syncers of a channel (\<^verbatim>\<open>pkg/syncer\<close>).\<close>

record commons =
  cm_MountPath :: string
  cm_OutputFile :: string

record JSONSyncer =
  js_URI :: string
  js_Timeout :: string
  js_image :: string
  js_commons :: commons

record CustomSyncer =
  cu_ContainerSpec :: ContainerSpec
  cu_commons :: commons

section \<open>Plans of the system agent\<close>

record OneTimeInstruction =
  oti_Name :: string
  oti_Args :: "string list"
  oti_Command :: string

record PlanFile =
  pf_Content :: string
  pf_Path :: string
  pf_Permissions :: string

text \<open>The parts of a plan the operator fills; \<^verbatim>\<open>YipConfig\<close> is the cloud-config of a reset plan.\<close>

record Plan =
  plan_Files :: "PlanFile list"
  plan_Instructions :: "OneTimeInstruction list"

record YipFile =
  yf_Path :: string
  yf_Content :: string
  yf_Encoding :: string
  yf_Permissions :: nat

record YipStage =
  yip_If :: string
  yip_StageName :: string
  yip_Commands :: "string list"
  yip_Directories :: "(string \<times> nat) list"
  yip_Files :: "YipFile list"

record YipConfig =
  yip_Name :: string
  yip_Stages :: "(string \<times> YipStage list) list"

section \<open>Constants\<close>

definition GroupVersion :: string where
  "GroupVersion = ''elemental.cattle.io/v1beta1''"

definition MachineInventoryFinalizer :: string where
  "MachineInventoryFinalizer = ''machineinventory.elemental.cattle.io''"

definition MachineRegistrationFinalizer :: string where
  "MachineRegistrationFinalizer = ''machineregistration.elemental.cattle.io''"

definition PlanSecretType :: string where
  "PlanSecretType = ''elemental.cattle.io/plan''"

definition PlanTypeAnnotation :: string where
  "PlanTypeAnnotation = ''elemental.cattle.io/plan.type''"

definition ResettableAnnotation :: string where
  "ResettableAnnotation = ''elemental.cattle.io/resettable''"

definition OSUnmanagedAnnotation :: string where
  "OSUnmanagedAnnotation = ''elemental.cattle.io/os.unmanaged''"

definition ElementalManagedLabel :: string where
  "ElementalManagedLabel = ''elemental.cattle.io/managed''"

definition ElementalManagedOSImageVersionNameLabel :: string where
  "ElementalManagedOSImageVersionNameLabel = ''elemental.cattle.io/managed-os-version-name''"

definition ElementalManagedOSVersionChannelLabel :: string where
  "ElementalManagedOSVersionChannelLabel = ''elemental.cattle.io/channel''"

definition ElementalManagedOSVersionChannelLastSyncAnnotation :: string where
  "ElementalManagedOSVersionChannelLastSyncAnnotation = ''elemental.cattle.io/channel-last-sync''"

definition ElementalManagedOSVersionNoLongerSyncedAnnotation :: string where
  "ElementalManagedOSVersionNoLongerSyncedAnnotation = ''elemental.cattle.io/channel-no-longer-in-sync''"

definition ElementalManagedOSVersionNoLongerSyncedValue :: string where
  "ElementalManagedOSVersionNoLongerSyncedValue = ''true''"

definition SASecretSuffix :: string where
  "SASecretSuffix = ''-token''"

definition TimeoutEnvVar :: string where
  "TimeoutEnvVar = ''ELEMENTAL_TIMEOUT''"

definition ManagedOSVersionFinalizer :: string where
  "ManagedOSVersionFinalizer = ''managedosversion.elemental.cattle.io''"

definition SecretTypeServiceAccountToken :: string where
  "SecretTypeServiceAccountToken = ''kubernetes.io/service-account-token''"

definition ReadyCondition :: string where
  "ReadyCondition = ''Ready''"

definition AdoptionReadyCondition :: string where
  "AdoptionReadyCondition = ''AdoptionReady''"

definition NetworkConfigReady :: string where
  "NetworkConfigReady = ''NetworkConfigReady''"

definition InventoryReadyCondition :: string where
  "InventoryReadyCondition = ''InventoryReady''"

lemmas condition_types = ReadyCondition_def AdoptionReadyCondition_def NetworkConfigReady_def
  InventoryReadyCondition_def

section \<open>Methods\<close>

definition GetLabelPrefix :: "MachineRegistrationSpec \<Rightarrow> string" where
  "GetLabelPrefix sp =
    (if mrs_LabelPrefix sp = [] then ''elemental.cattle.io/''
     else if mrs_LabelPrefix sp = ''-'' then []
     else mrs_LabelPrefix sp @ ''/'')"

definition GetClientRegistrationConfig :: "MachineRegistration \<Rightarrow> string \<Rightarrow> goerr + Config" where
  "GetClientRegistrationConfig m cacert =
    (let mRegistration = el_Registration (cf_Elemental (mrs_Config (mr_Spec m))) in
     if \<not> IsStatusConditionTrue (mrt_Conditions (mr_Status m)) ReadyCondition
     then Inl (EMsg ''machine registration is not ready'')
     else if mrt_RegistrationURL (mr_Status m) = [] then Inl (EMsg ''registration URL is not set'')
     else Inr (zeroConfig\<lparr>cf_Elemental := \<lparr>
       el_Install = zeroInstall, el_Reset = zeroReset,
       el_Registration = zeroRegistration\<lparr>
         rg_URL := mrt_RegistrationURL (mr_Status m),
         rg_CACert := cacert,
         rg_EmulateTPM := rg_EmulateTPM mRegistration,
         rg_EmulatedTPMSeed := rg_EmulatedTPMSeed mRegistration,
         rg_NoSMBIOS := rg_NoSMBIOS mRegistration,
         rg_Auth := rg_Auth mRegistration\<rparr>,
       el_SystemAgent = zeroSystemAgent\<rparr>\<rparr>))"

text \<open>Where the inventories of the server start from, and an empty registration.\<close>

definition zeroInventory :: MachineInventory where
  "zeroInventory = ObjectMeta.extend zeroMeta
     \<lparr>mi_Spec = \<lparr>mis_TPMHash = [], mis_MachineHash = [], mis_IPAddressClaims = None,
        mis_IPAddressPools = None, mis_Network = zeroNetworkConfig\<rparr>,
      mi_Status = \<lparr>mit_Conditions = [], mit_Plan = None\<rparr>\<rparr>"

definition zeroMR :: MachineRegistration where
  "zeroMR = ObjectMeta.extend zeroMeta
     \<lparr>mr_Spec = \<lparr>mrs_Token = [], mrs_MachineName = [], mrs_MachineInventoryLabels = None,
        mrs_MachineInventoryAnnotations = None, mrs_LabelPrefix = [], mrs_Config = zeroConfig\<rparr>,
      mr_Status = \<lparr>mrt_Conditions = [], mrt_RegistrationURL = [], mrt_RegistrationToken = [],
        mrt_ServiceAccountRef = None\<rparr>\<rparr>"

section \<open>The condition store\<close>

text \<open>
  What the controllers rely on when they write conditions: a written condition is read back with
  its status, reason and message, the other types are left alone, and the transition time moves
  exactly when the status does. The laws are stated once and discharged for the slice of
  conditions with \<open>SetStatusCondition\<close>.
\<close>

locale condition_store =
  fixes look :: "'cs \<Rightarrow> string \<Rightarrow> 'c option"
    and put :: "int \<Rightarrow> 'c \<Rightarrow> 'cs \<Rightarrow> 'cs"
    and ty :: "'c \<Rightarrow> string"
    and st :: "'c \<Rightarrow> string"
    and rsn :: "'c \<Rightarrow> string"
    and time :: "'c \<Rightarrow> int"
  assumes look_put_same: "\<exists>c'. look (put now c cs) (ty c) = Some c' \<and> st c' = st c \<and> rsn c' = rsn c"
    and look_put_other: "t \<noteq> ty c \<Longrightarrow> look (put now c cs) t = look cs t"
    and time_kept: "look cs (ty c) = Some old \<Longrightarrow> st old = st c \<Longrightarrow>
        map_option time (look (put now c cs) (ty c)) = Some (time old)"
begin

lemma status_put:
  "map_option st (look (put now c cs) t) = (if t = ty c then Some (st c) else map_option st (look cs t))"
  using look_put_same [of now c cs] look_put_other [of t c now cs] by auto

lemma reason_put:
  "map_option rsn (look (put now c cs) t) = (if t = ty c then Some (rsn c) else map_option rsn (look cs t))"
  using look_put_same [of now c cs] look_put_other [of t c now cs] by auto

lemma status_puts:
  "map_option st (look (fold (\<lambda>(now, c). put now c) ws cs) t) =
     (case find (\<lambda>(now, c). ty c = t) (rev ws) of
        None \<Rightarrow> map_option st (look cs t) | Some (now, c) \<Rightarrow> Some (st c))"
proof (induction ws rule: rev_induct)
  case Nil
  show ?case by simp
next
  case (snoc w ws)
  then show ?case by (cases w) (auto simp: status_put)
qed

lemma time_idle:
  "look cs (ty c) = Some old \<Longrightarrow> st old = st c \<Longrightarrow> ty d = ty c \<Longrightarrow> st d = st c \<Longrightarrow>
   map_option time (look (put now' d (put now c cs)) (ty c)) = Some (time old)"
  using time_kept [of cs c old now] look_put_same [of now c cs]
    time_kept [of "put now c cs" d _ now'] by auto

end

lemma find_setFirst_other:
  "(\<And>x. p x \<Longrightarrow> \<not> q x \<and> \<not> q (f x)) \<Longrightarrow> find q (setFirst p f xs) = find q xs"
  by (induction xs) auto

lemma updateCondition_sel [simp]:
  "c_Type (updateCondition now new old) = c_Type old"
  "c_Status (updateCondition now new old) = c_Status new"
  "c_Reason (updateCondition now new old) = c_Reason new"
  "c_Message (updateCondition now new old) = c_Message new"
  "c_LastTransitionTime (updateCondition now new old) =
     (if c_Status old = c_Status new then c_LastTransitionTime old else stampOf now new)"
  by (simp_all add: updateCondition_def Let_def)

lemma Find_Set_same:
  "FindStatusCondition (SetStatusCondition now c cs) (c_Type c) =
     Some (case FindStatusCondition cs (c_Type c) of
       None \<Rightarrow> c\<lparr>c_LastTransitionTime := stampOf now c\<rparr> | Some old \<Rightarrow> updateCondition now c old)"
proof -
  let ?q = "\<lambda>d. c_Type d = c_Type c"
  have "find ?q (xs @ [y]) = (case find ?q xs of None \<Rightarrow> (if ?q y then Some y else None) | r \<Rightarrow> r)"
    for xs :: "Condition list" and y by (induction xs) auto
  moreover have "find ?q (setFirst ?q (updateCondition now c) xs) =
      map_option (updateCondition now c) (find ?q xs)" for xs
    by (induction xs) auto
  ultimately show ?thesis
    by (auto simp: FindStatusCondition_def SetStatusCondition_def split: option.splits)
qed

lemma Find_Set_other:
  assumes "t \<noteq> c_Type c"
  shows "FindStatusCondition (SetStatusCondition now c cs) t = FindStatusCondition cs t"
proof -
  have "find (\<lambda>d. c_Type d = t) (xs @ [y]) =
      (case find (\<lambda>d. c_Type d = t) xs of None \<Rightarrow> (if c_Type y = t then Some y else None) | r \<Rightarrow> r)"
    for xs :: "Condition list" and y by (induction xs) auto
  moreover have "find (\<lambda>d. c_Type d = t) (setFirst (\<lambda>d. c_Type d = c_Type c) (updateCondition now c) xs) =
      find (\<lambda>d. c_Type d = t) xs" for xs
    using assms by (intro find_setFirst_other) auto
  ultimately show ?thesis using assms
    by (auto simp: FindStatusCondition_def SetStatusCondition_def split: option.splits)
qed

interpretation conds: condition_store FindStatusCondition SetStatusCondition c_Type c_Status
  c_Reason c_LastTransitionTime
proof unfold_locales
  fix now c cs
  show "\<exists>c'. FindStatusCondition (SetStatusCondition now c cs) (c_Type c) = Some c' \<and>
      c_Status c' = c_Status c \<and> c_Reason c' = c_Reason c"
    by (simp add: Find_Set_same split: option.split)
next
  fix now c cs t
  show "t \<noteq> c_Type c \<Longrightarrow> FindStatusCondition (SetStatusCondition now c cs) t = FindStatusCondition cs t"
    by (rule Find_Set_other)
next
  fix now c cs old
  show "FindStatusCondition cs (c_Type c) = Some old \<Longrightarrow> c_Status old = c_Status c \<Longrightarrow>
      map_option c_LastTransitionTime (FindStatusCondition (SetStatusCondition now c cs) (c_Type c)) =
      Some (c_LastTransitionTime old)"
    by (simp add: Find_Set_same)
qed

definition condStatus :: "Condition list \<Rightarrow> string \<Rightarrow> string option" where
  "condStatus cs t = map_option c_Status (FindStatusCondition cs t)"

definition condReason :: "Condition list \<Rightarrow> string \<Rightarrow> string option" where
  "condReason cs t = map_option c_Reason (FindStatusCondition cs t)"

lemma condStatus_Set [simp]:
  "condStatus (SetStatusCondition now c cs) t = (if t = c_Type c then Some (c_Status c) else condStatus cs t)"
  by (simp add: condStatus_def conds.status_put)

lemma condReason_Set [simp]:
  "condReason (SetStatusCondition now c cs) t = (if t = c_Type c then Some (c_Reason c) else condReason cs t)"
  by (simp add: condReason_def conds.reason_put)

lemma IsTrue_condStatus: "IsStatusConditionTrue cs t \<longleftrightarrow> condStatus cs t = Some ''True''"
  by (induction cs) (auto simp: IsStatusConditionTrue_def condStatus_def FindStatusCondition_def)

lemma mkCondition_sel [simp]:
  "c_Type (mkCondition ty r s m) = ty" "c_Status (mkCondition ty r s m) = s"
  "c_Reason (mkCondition ty r s m) = r" "c_Message (mkCondition ty r s m) = m"
  "c_LastTransitionTime (mkCondition ty r s m) = 0"
  by (simp_all add: mkCondition_def)

lemma Find_Set_mk [simp]:
  "FindStatusCondition (SetStatusCondition now (mkCondition ty r st msg) cs) ty =
     Some (case FindStatusCondition cs ty of
       None \<Rightarrow> (mkCondition ty r st msg)\<lparr>c_LastTransitionTime := now\<rparr>
     | Some old \<Rightarrow> updateCondition now (mkCondition ty r st msg) old)"
  using Find_Set_same [of now "mkCondition ty r st msg" cs]
  by (simp add: stampOf_def mkCondition_def split: option.split)

text \<open>Types stay unique, and conditions that are complete stay complete, when a condition is set.\<close>

lemma setFirst_types:
  "map c_Type (setFirst p (updateCondition now c) cs) = map c_Type cs"
  by (induction cs) auto

lemma Set_distinct:
  "distinct (map c_Type cs) \<Longrightarrow> distinct (map c_Type (SetStatusCondition now c cs))"
  by (auto simp: SetStatusCondition_def setFirst_types FindStatusCondition_def find_None_iff
      split: option.split)

lemma Set_valid:
  assumes "list_all validCondition cs" and "now \<noteq> 0"
    and "c_Type c \<noteq> []" "c_Status c \<noteq> []" "c_Reason c \<noteq> []"
  shows "list_all validCondition (SetStatusCondition now c cs)"
proof -
  have "list_all validCondition (setFirst p (updateCondition now c) cs)" for p
    using assms by (induction cs) (auto simp: validCondition_def stampOf_def)
  then show ?thesis using assms
    by (auto simp: SetStatusCondition_def validCondition_def stampOf_def split: option.split)
qed

lemma RemoveInvalid_valid: "list_all validCondition (RemoveInvalidConditions cs)"
  by (simp add: RemoveInvalidConditions_def list_all_iff)

lemma RemoveInvalid_id: "list_all validCondition cs \<Longrightarrow> RemoveInvalidConditions cs = cs"
  by (simp add: RemoveInvalidConditions_def list_all_iff filter_id_conv)

lemma Finalizers_simps [simp]:
  "ContainsFinalizer (AddFinalizer f x) f"
  "\<not> ContainsFinalizer (RemoveFinalizer f x) f"
  "g \<noteq> f \<Longrightarrow> ContainsFinalizer (AddFinalizer f x) g = ContainsFinalizer x g"
  "g \<noteq> f \<Longrightarrow> ContainsFinalizer (RemoveFinalizer f x) g = ContainsFinalizer x g"
  by (auto simp: ContainsFinalizer_def AddFinalizer_def RemoveFinalizer_def)

end
