(* ===== verification/Templater.thy ===== *)
theory Templater
  imports GoLib
begin

text \<open>
  The template engine of \<^verbatim>\<open>pkg/templater\<close>: a string with \<^verbatim>\<open>${Path/To/Value}\<close> variables is
  rendered against nested maps filled by the registration server, with \<^verbatim>\<open>Random/...\<close> variables
  rendered from a random source. The source is a parameter: \<open>src_uuid n\<close> are the 16 bytes of the
  n-th draw when it is a UUID and \<open>src_int n m\<close> is \<^verbatim>\<open>rand.Int(rand.Reader, m)\<close> as the n-th draw;
  the state of the engine is the number of draws made so far.
\<close>

named_theorems tmpl \<open>evaluation equations of the template engine\<close>

section \<open>Values\<close>

datatype tval =
    VNil
  | VStr string
  | VNum int
  | VBool bool
  | VList "tval list"
  | VMap "(string \<times> tval) list"

type_synonym tdata = "(string \<times> tval) list"

record rand_src =
  src_uuid :: "nat \<Rightarrow> 8 word list"
  src_int :: "nat \<Rightarrow> int \<Rightarrow> goerr + int"

text \<open>What the documentation of the two random functions promises.\<close>

definition rand_ok :: "rand_src \<Rightarrow> bool" where
  "rand_ok src \<longleftrightarrow> (\<forall>n. length (src_uuid src n) = 16) \<and>
     (\<forall>n m v. 0 < m \<longrightarrow> src_int src n m = Inr v \<longrightarrow> 0 \<le> v \<and> v < m)"

text \<open>\<^verbatim>\<open>data.GetValueN\<close>: a step into something that is not a map continues in the nil map.\<close>

definition asMap :: "tval option \<Rightarrow> tdata" where
  "asMap v = (case v of Some (VMap m) \<Rightarrow> m | _ \<Rightarrow> [])"

fun GetValueN :: "tdata \<Rightarrow> string list \<Rightarrow> tval" where
  "GetValueN d [] = VNil"
| "GetValueN d [k] = (case map_of d k of None \<Rightarrow> VNil | Some v \<Rightarrow> v)"
| "GetValueN d (k # ks) = GetValueN (asMap (map_of d k)) ks"

section \<open>Random variables\<close>

definition errValueNotFound :: goerr where
  "errValueNotFound = ESent ''value not found''"

definition IsValueNotFoundError :: "goerr \<Rightarrow> bool" where
  "IsValueNotFoundError e \<longleftrightarrow> errors_is e ''value not found''"

definition IsRandomLabel :: "string \<Rightarrow> bool" where
  "IsRandomLabel s \<longleftrightarrow> contains s ''${Random''"

definition isRandomTemplate :: "string list \<Rightarrow> bool" where
  "isRandomTemplate t \<longleftrightarrow> \<not> length t < 2 \<and> t ! 0 = ''Random''
     \<and> t ! 1 \<in> {''UUID'', ''Hex'', ''Int''}"

definition hex_nibble :: "nat \<Rightarrow> char" where
  "hex_nibble n = (if n < 10 then char_of (48 + n) else char_of (87 + n))"

definition hex_encode :: "8 word list \<Rightarrow> string" where
  "hex_encode bs = concat (map (\<lambda>b. [hex_nibble (unat b div 16), hex_nibble (unat b mod 16)]) bs)"

text \<open>\<^verbatim>\<open>uuid.UUID.String\<close>: the hex form cut by dashes after bytes 4, 6, 8 and 10.\<close>

definition uuid_string :: "8 word list \<Rightarrow> string" where
  "uuid_string u = hex_encode (take 4 u) @ ''-'' @ hex_encode (take 2 (drop 4 u)) @ ''-''
     @ hex_encode (take 2 (drop 6 u)) @ ''-'' @ hex_encode (take 2 (drop 8 u)) @ ''-''
     @ hex_encode (drop 10 u)"

definition draw_uuid :: "rand_src \<Rightarrow> (nat, 8 word list) go" where
  "draw_uuid src = (\<lambda>n. (Ok (src_uuid src n), Suc n))"

definition draw_int :: "rand_src \<Rightarrow> int \<Rightarrow> (nat, int) go" where
  "draw_int src m = (\<lambda>n. (case src_int src n m of Inl e \<Rightarrow> Err e | Inr v \<Rightarrow> Ok v, Suc n))"

definition invalidTemplate :: "string list \<Rightarrow> goerr" where
  "invalidTemplate t = EMsg (''invalid template: '' @ str_join t ''/'')"

definition unsupported :: "string \<Rightarrow> string \<Rightarrow> string list \<Rightarrow> goerr" where
  "unsupported key what t =
     EMsg (''unsupported Random/'' @ key @ '' '' @ what @ '': '' @ str_join t ''/'')"

text \<open>The texts of the \<^verbatim>\<open>Hex\<close> branch name the UUID key, as the code does.\<close>

definition randomTemplateToString :: "rand_src \<Rightarrow> string list \<Rightarrow> (nat, string) go" where
  "randomTemplateToString src t =
    (if \<not> isRandomTemplate t then fail errValueNotFound
     else if length t > 3 \<or> length t < 2 then fail (invalidTemplate t)
     else if t ! 1 = ''UUID'' then
       (if length t \<noteq> 2 then fail (invalidTemplate t)
        else bnd (draw_uuid src) (\<lambda>u. ret (uuid_string u)))
     else if t ! 1 = ''Hex'' then
       (if length t \<noteq> 3 then fail (invalidTemplate t)
        else case atoi (t ! 2) of
          None \<Rightarrow> fail (unsupported ''UUID'' ''template'' t)
        | Some rndLen \<Rightarrow>
            if rndLen < 1 then fail (unsupported ''UUID'' ''template'' t)
            else if rndLen > 32 then fail (unsupported ''UUID'' ''lenght'' t)
            else bnd (draw_uuid src) (\<lambda>u. ret (take (nat rndLen) (hex_encode u))))
     else if t ! 1 = ''Int'' then
       (if length t \<noteq> 3 then fail (invalidTemplate t)
        else case atoi (t ! 2) of
          None \<Rightarrow> fail (unsupported ''Int'' ''template'' t)
        | Some intMax \<Rightarrow>
            if intMax < 1 then fail (unsupported ''Int'' ''template'' t)
            else bnd (orWrap (draw_int src intMax) (''converting '' @ str_join t ''/''))
                   (\<lambda>v. ret (show_int v)))
     else fail (invalidTemplate t))"

definition templateToString :: "rand_src \<Rightarrow> tdata \<Rightarrow> string list \<Rightarrow> (nat, string) go" where
  "templateToString src d t =
    (if isRandomTemplate t then randomTemplateToString src t
     else case GetValueN d t of VStr s \<Rightarrow> ret s | _ \<Rightarrow> fail errValueNotFound)"

section \<open>The engine\<close>

text \<open>
  The loop of \<^verbatim>\<open>replaceStringData\<close>: \<open>i\<close> is the first \<^verbatim>\<open>${\<close>, \<open>j\<close> the first closing brace after
  it, counted from \<open>i\<close>; the string builder is the accumulator \<open>result\<close>.
\<close>

function replaceLoop :: "rand_src \<Rightarrow> tdata \<Rightarrow> string \<Rightarrow> string \<Rightarrow> (nat, string) go" where
  "replaceLoop src d result str =
    (case str_index str ''${'' of
       None \<Rightarrow> ret (result @ str)
     | Some i \<Rightarrow>
         (case str_index (drop i str) ''}'' of
            None \<Rightarrow> ret (result @ str)
          | Some j \<Rightarrow>
              bnd (templateToString src d (str_split (drop (i + 2) (take (j + i) str)) ''/''))
                (\<lambda>strVal. replaceLoop src d (result @ take i str @ strVal) (drop (j + i + 1) str))))"
  by pat_completeness auto
termination
proof (relation "measure (\<lambda>(_, _, _, str). length str)")
  fix src :: rand_src and d :: tdata and result str strVal i j
  assume "str_index str ''${'' = Some i"
  from str_index_Some [OF this] have "i + 2 \<le> length str" by simp
  then show "((src, d, result @ take i str @ strVal, drop (j + i + 1) str), src, d, result, str)
     \<in> measure (\<lambda>(_, _, _, str). length str)"
    by simp
qed simp

declare replaceLoop.simps [simp del]

definition replaceStringData :: "rand_src \<Rightarrow> tdata \<Rightarrow> string \<Rightarrow> (nat, string) go" where
  "replaceStringData src d name = replaceLoop src d [] name"

text \<open>The state of a \<^verbatim>\<open>templater\<close> is its data; \<open>Fill\<close> sets the given keys, \<open>Decode\<close> renders.\<close>

definition NewTemplater :: tdata where
  "NewTemplater = []"

definition Fill :: "tdata \<Rightarrow> tdata \<Rightarrow> tdata" where
  "Fill new t = fold (\<lambda>(k, v). AList.update k v) new t"

definition Decode :: "rand_src \<Rightarrow> tdata \<Rightarrow> string \<Rightarrow> (nat, string) go" where
  "Decode src t str = replaceStringData src t str"

section \<open>Filling\<close>

lemma map_of_Fill_general:
  "map_of (fold (\<lambda>(k, v). AList.update k v) new t) k =
     (case map_of (rev new) k of Some v \<Rightarrow> Some v | None \<Rightarrow> map_of t k)"
  by (induction new arbitrary: t)
    (auto simp: update_conv' map_add_def split: option.splits)

lemma map_of_Fill:
  assumes "distinct (map fst new)"
  shows "map_of (Fill new t) k = (case map_of new k of Some v \<Rightarrow> Some v | None \<Rightarrow> map_of t k)"
proof -
  have "map_of (rev new) = map_of new"
    using assms by (simp add: map_of_inject_set rev_map [symmetric])
  then show ?thesis by (simp add: Fill_def map_of_Fill_general)
qed

section \<open>Reference semantics\<close>

text \<open>
  A template as a sequence of literal texts and variables, its concrete syntax, and its meaning:
  the variables are resolved from left to right and the first failure is the result.
\<close>

datatype seg = Lit string | Var "string list"

definition seg_ok :: "seg \<Rightarrow> bool" where
  "seg_ok x = (case x of
      Lit s \<Rightarrow> CHR ''$'' \<notin> set s
    | Var ps \<Rightarrow> ps \<noteq> [] \<and> (\<forall>p \<in> set ps. CHR ''/'' \<notin> set p \<and> CHR ''}'' \<notin> set p))"

fun seg_text :: "seg \<Rightarrow> string" where
  "seg_text (Lit s) = s"
| "seg_text (Var ps) = ''${'' @ str_join ps ''/'' @ ''}''"

fun render :: "rand_src \<Rightarrow> tdata \<Rightarrow> seg list \<Rightarrow> (nat, string) go" where
  "render src d [] = ret []"
| "render src d (Lit s # xs) = bnd (render src d xs) (\<lambda>r. ret (s @ r))"
| "render src d (Var ps # xs) =
     bnd (templateToString src d ps) (\<lambda>v. bnd (render src d xs) (\<lambda>r. ret (v @ r)))"

lemma str_index_skip:
  "c \<notin> set s \<Longrightarrow> str_index (s @ t) (c # p) = map_option ((+) (length s)) (str_index t (c # p))"
proof (induction s)
  case Nil
  show ?case by (cases "str_index t (c # p)") auto
next
  case (Cons d s)
  then show ?case by (cases "str_index t (c # p)") auto
qed

lemma split_join:
  "ps \<noteq> [] \<Longrightarrow> \<forall>p \<in> set ps. c \<notin> set p \<Longrightarrow> str_split (str_join ps [c]) [c] = ps"
proof (induction ps "[c]" rule: str_join.induct)
  case (2 x)
  then have "str_index x [c] = None" by (simp add: str_index_notin)
  then show ?case by (subst str_split.simps) (simp add: str_cut_def)
next
  case (3 x y zs)
  have "str_index (x @ [c] @ str_join (y # zs) [c]) [c] = Some (length x)"
    using 3 str_index_append_single [of c x "str_join (y # zs) [c]"] by simp
  then have "str_cut (x @ [c] @ str_join (y # zs) [c]) [c] = Some (x, str_join (y # zs) [c])"
    by (simp add: str_cut_def)
  with 3 show ?case by (subst str_split.simps) simp
qed simp

lemma set_str_join: "set (str_join ps sep) \<subseteq> (\<Union>p \<in> set ps. set p) \<union> set sep"
  by (induction ps sep rule: str_join.induct) auto

lemma replaceLoop_lit:
  assumes "CHR ''$'' \<notin> set s"
  shows "replaceLoop src d result (s @ t) = replaceLoop src d (result @ s) t"
proof -
  have i: "str_index (s @ t) ''${'' = map_option ((+) (length s)) (str_index t ''${'')"
    using assms by (rule str_index_skip)
  show ?thesis
  proof (cases "str_index t ''${''")
    case None
    with i show ?thesis by (simp add: replaceLoop.simps [of _ _ _ t] replaceLoop.simps [of _ _ _ "s @ t"])
  next
    case (Some k)
    with i have "str_index (s @ t) ''${'' = Some (length s + k)" by simp
    moreover have "drop (j + (length s + k) + 1) (s @ t) = drop (j + k + 1) t" for j
      by simp
    moreover have "take (j + (length s + k)) (s @ t) = s @ take (j + k) t" for j
      by simp
    ultimately show ?thesis using Some
      by (simp add: replaceLoop.simps [of _ _ _ t] replaceLoop.simps [of _ _ _ "s @ t"]
          cong: option.case_cong)
  qed
qed

lemma replaceLoop_var:
  assumes "ps \<noteq> []" and "\<forall>p \<in> set ps. CHR ''/'' \<notin> set p \<and> CHR ''}'' \<notin> set p"
  shows "replaceLoop src d result (''${'' @ str_join ps ''/'' @ ''}'' @ t) =
    bnd (templateToString src d ps) (\<lambda>v. replaceLoop src d (result @ v) t)"
proof -
  let ?b = "str_join ps ''/''"
  let ?s = "''${'' @ ?b @ ''}'' @ t"
  have "CHR ''}'' \<notin> set (''${'' @ ?b)"
    using assms(2) set_str_join [of ps "''/''"] by auto
  then have j: "str_index ?s ''}'' = Some (2 + length ?b)"
    using str_index_append_single [of "CHR ''}''" "''${'' @ ?b" t] by simp
  have i: "str_index ?s ''${'' = Some 0" by simp
  have "drop 2 (take (2 + length ?b) ?s) = ?b" by simp
  moreover have "drop (2 + length ?b + 0 + 1) ?s = t" by simp
  moreover have "str_split ?b ''/'' = ps" using assms by (simp add: split_join)
  ultimately show ?thesis
    using i j by (subst replaceLoop.simps) simp
qed

lemma replaceLoop_render:
  "\<forall>x \<in> set segs. seg_ok x \<Longrightarrow>
   replaceLoop src d result (concat (map seg_text segs)) =
     bnd (render src d segs) (\<lambda>r. ret (result @ r))"
proof (induction segs arbitrary: result)
  case Nil
  show ?case by (subst replaceLoop.simps) (simp add: bnd_ret_left)
next
  case (Cons x segs)
  then have IH: "replaceLoop src d r (concat (map seg_text segs)) =
     bnd (render src d segs) (\<lambda>r'. ret (r @ r'))" for r
    by simp
  show ?case
  proof (cases x)
    case (Lit s)
    with Cons.prems have "CHR ''$'' \<notin> set s" by (simp add: seg_ok_def)
    then show ?thesis using Lit IH
      by (simp add: replaceLoop_lit bnd_assoc bnd_ret_left)
  next
    case (Var ps)
    with Cons.prems have "ps \<noteq> []"
      and "\<forall>p \<in> set ps. CHR ''/'' \<notin> set p \<and> CHR ''}'' \<notin> set p"
      by (auto simp: seg_ok_def)
    then show ?thesis using Var IH replaceLoop_var [of ps src d result]
      by (simp add: bnd_assoc bnd_ret_left)
  qed
qed

section \<open>The random variables\<close>

lemma run_draw_uuid [run]: "draw_uuid src n = (Ok (src_uuid src n), Suc n)"
  by (simp add: draw_uuid_def)

lemma run_draw_int [run]:
  "draw_int src m n = (case src_int src n m of Inl e \<Rightarrow> Err e | Inr v \<Rightarrow> Ok v, Suc n)"
  by (simp add: draw_int_def)

lemma hex_encode_length: "length (hex_encode bs) = 2 * length bs"
  by (induction bs) (auto simp: hex_encode_def)

definition hex_chars :: "char set" where
  "hex_chars = set ''0123456789abcdef''"

lemma hex_nibble_char: "n < 16 \<Longrightarrow> hex_nibble n \<in> hex_chars"
proof -
  have "\<forall>n \<in> set [0..<16]. hex_nibble n \<in> hex_chars"
    by code_simp
  then show "n < 16 \<Longrightarrow> hex_nibble n \<in> hex_chars" by simp
qed

lemma hex_encode_chars: "set (hex_encode bs) \<subseteq> hex_chars"
proof (induction bs)
  case (Cons b bs)
  have "unat b < 256" using unsigned_less [of b, where 'a = nat] by simp
  then have "unat b div 16 < 16" by auto
  then have "hex_nibble (unat b div 16) \<in> hex_chars" by (rule hex_nibble_char)
  moreover have "hex_nibble (unat b mod 16) \<in> hex_chars" by (intro hex_nibble_char) simp
  ultimately show ?case using Cons by (simp add: hex_encode_def)
qed (simp add: hex_encode_def)

lemma no_panic_random: "fst (randomTemplateToString src t n) \<noteq> Panic p"
  by (auto simp: randomTemplateToString_def run split: option.split sum.split outcome.split)

lemma no_panic_template: "fst (templateToString src d t n) \<noteq> Panic p"
  by (auto simp: templateToString_def run no_panic_random split: tval.split)

lemma template_PanicD: "templateToString src d t n = (Panic p, n') \<Longrightarrow> False"
  using no_panic_template [of src d t n p] by simp

lemma no_panic_loop: "fst (replaceLoop src d result str n) \<noteq> Panic p"
proof (induction src d result str arbitrary: n rule: replaceLoop.induct)
  case (1 src d result str)
  show ?case
    using "1" template_PanicD
    by (subst replaceLoop.simps) (auto simp: run split: option.split prod.split outcome.split)
qed

lemma Decode_plain: "\<not> contains s ''${'' \<Longrightarrow> Decode src d s = ret s"
  by (simp add: Decode_def replaceStringData_def replaceLoop.simps contains_def)

lemma Decode_no_panic: "fst (Decode src d s n) \<noteq> Panic p"
  by (simp add: Decode_def replaceStringData_def no_panic_loop)

lemma atoi_show_nat: "k < 2 ^ 63 \<Longrightarrow> atoi (show_nat k) = Some (int k)"
proof -
  assume k: "k < 2 ^ 63"
  obtain c cs where c: "show_nat k = c # cs"
    using show_nat_nonempty [of k] by (cases "show_nat k") auto
  then have "is_digit c" using show_nat_digits [of k] by simp
  then have "c \<noteq> CHR ''-''" and "c \<noteq> CHR ''+''" by (auto simp: is_digit_def)
  moreover have "digits_val 0 (c # cs) = Some k" using digits_val_show [of k] c by simp
  moreover have "int k < 2 ^ 63" using k by simp
  ultimately show ?thesis using c by (simp add: atoi_def)
qed

section \<open>Properties\<close>

text \<open>
  C7: on the concrete syntax of a template whose literal texts have no dollar sign and whose path
  components have no slash or closing brace, \<^verbatim>\<open>Decode\<close> agrees with the reference semantics: literals
  are copied, variables resolved left to right, the first failing variable is the error, and the
  random source is drawn from in that order.
\<close>

theorem Decode_segments:
  assumes "\<forall>x \<in> set segs. seg_ok x"
  shows "Decode src d (concat (map seg_text segs)) = render src d segs"
  using replaceLoop_render [OF assms, of src d "[]"]
  by (simp add: Decode_def replaceStringData_def bnd_ret_right)

definition demo_src :: rand_src where
  "demo_src = \<lparr>src_uuid = (\<lambda>n. replicate 16 (word_of_nat n)), src_int = (\<lambda>n m. Inr (int n mod m))\<rparr>"

theorem Decode_segments_witness:
  "Decode demo_src [(''System'', VMap [(''UUID'', VStr ''ab'')])] ''m-${System/UUID}-x'' 0
     = (Ok ''m-ab-x'', 0)"
proof -
  let ?segs = "[Lit ''m-'', Var [''System'', ''UUID''], Lit ''-x'']"
  have "\<forall>x \<in> set ?segs. seg_ok x" by (simp add: seg_ok_def)
  from Decode_segments [OF this, of demo_src "[(''System'', VMap [(''UUID'', VStr ''ab'')])]"]
  show ?thesis
    by (simp add: templateToString_def isRandomTemplate_def asMap_def run)
qed

text \<open>
  With a random source that keeps its documented contract, \<^verbatim>\<open>Random/Hex/k\<close> renders to exactly
  \<open>k\<close> hexadecimal digits for \<open>1 \<le> k \<le> 32\<close> and is refused for every other \<open>k\<close>, and
  \<^verbatim>\<open>Random/Int/k\<close> renders to the decimal form of a number below \<open>k\<close> (or to the source's error)
  for \<open>k \<ge> 1\<close>; a rendered variable takes one draw, a refused one none.
\<close>

theorem random_bounds:
  assumes "rand_ok src" and "k < 2 ^ 63"
  shows "(case templateToString src d [''Random'', ''Hex'', show_nat k] n of
       (Ok s, n') \<Rightarrow> 1 \<le> k \<and> k \<le> 32 \<and> length s = k \<and> set s \<subseteq> hex_chars \<and> n' = Suc n
     | (Err e, n') \<Rightarrow> (k = 0 \<or> 32 < k) \<and> \<not> IsValueNotFoundError e \<and> n' = n
     | (Panic p, n') \<Rightarrow> False)
   \<and> (case templateToString src d [''Random'', ''Int'', show_nat k] n of
       (Ok s, n') \<Rightarrow> (\<exists>v < k. s = show_nat v) \<and> n' = Suc n
     | (Err e, n') \<Rightarrow> (k = 0 \<and> n' = n) \<or> (\<exists>e'. src_int src n (int k) = Inl e' \<and> n' = Suc n)
     | (Panic p, n') \<Rightarrow> False)"
    (is "?hex \<and> ?int")
proof
  have u: "length (src_uuid src n) = 16" using assms(1) by (simp add: rand_ok_def)
  have "set (take k (hex_encode (src_uuid src n))) \<subseteq> hex_chars"
    using hex_encode_chars set_take_subset by fast
  then show ?hex
    using atoi_show_nat [OF assms(2)] u
    by (auto simp: templateToString_def randomTemplateToString_def isRandomTemplate_def run
        hex_encode_length unsupported_def IsValueNotFoundError_def)
  have v: "src_int src n (int k) = Inr v \<Longrightarrow> 0 < k \<Longrightarrow> 0 \<le> v \<and> v < int k" for v
  proof -
    assume "src_int src n (int k) = Inr v" and "0 < k"
    then have "0 < int k" by simp
    with assms(1) \<open>src_int src n (int k) = Inr v\<close> show ?thesis
      unfolding rand_ok_def by blast
  qed
  have "nat v < k" if "src_int src n (int k) = Inr v" "0 < k" for v
    using v [OF that] by linarith
  then show ?int
    using atoi_show_nat [OF assms(2)] v
    by (auto simp: templateToString_def randomTemplateToString_def isRandomTemplate_def run
        show_int_def split: sum.split)
qed

theorem random_bounds_witness:
  "rand_ok demo_src \<and>
   (case templateToString demo_src [] [''Random'', ''Hex'', show_nat 3] 0 of
       (Ok s, n') \<Rightarrow> length s = 3 | _ \<Rightarrow> False)"
proof
  show ok: "rand_ok demo_src" by (simp add: rand_ok_def demo_src_def)
  have three: "(3 :: nat) < 2 ^ 63" by simp
  from random_bounds [OF ok three, of 0 "[]"]
  show "case templateToString demo_src [] [''Random'', ''Hex'', show_nat 3] 0 of
       (Ok s, n') \<Rightarrow> length s = 3 | _ \<Rightarrow> False"
    by (auto split: prod.splits outcome.splits)
qed

end
