(* ===== verification/HostInfo.thy ===== *)
theory HostInfo
  imports Templater "HOL-Library.Word"
begin

text \<open>
  What a machine knows of its hardware and how it becomes the data of the label templates
  (\<^verbatim>\<open>pkg/hostinfo/hostinfo.go\<close>, \<^verbatim>\<open>pkg/runtime/info.go\<close>, \<^verbatim>\<open>pkg/util/net.go\<close>). The structures are those of
  the package ghw, with the fields that are read; a pointer is an option, and a slice of pointers a
  list of options, for both can be nil when they come out of JSON. A nil dereference is \<open>None\<close>.
\<close>

section \<open>Hardware\<close>

record memoryModule =
  mm_Label :: string
  mm_Location :: string
  mm_SerialNumber :: string
  mm_SizeBytes :: int
  mm_Vendor :: string

record memoryInfo =
  mem_TotalPhysicalBytes :: int
  mem_TotalUsableBytes :: int
  mem_SupportedPageSizes :: "int list"
  mem_Modules :: "memoryModule option list"

record processor =
  pr_ID :: int
  pr_NumCores :: "32 word"
  pr_NumThreads :: "32 word"
  pr_Vendor :: string
  pr_Model :: string
  pr_Capabilities :: "string list"

record cpuInfo =
  cpu_TotalCores :: "32 word"
  cpu_TotalThreads :: "32 word"
  cpu_Processors :: "processor option list"

record pciDevice =
  pci_Driver :: string
  pci_ProductName :: "string option"
  pci_VendorName :: "string option"

record graphicsCard =
  gc_DeviceInfo :: "pciDevice option"

record nic =
  nic_Name :: string
  nic_MacAddress :: string
  nic_IsVirtual :: bool
  nic_PCIAddress :: "string option"
  nic_Speed :: string
  nic_Duplex :: string
  nic_SupportedLinkModes :: "string list"
  nic_SupportedPorts :: "string list"
  nic_AdvertisedLinkModes :: "string list"

record disk =
  dk_Name :: string
  dk_SizeBytes :: "64 word"
  dk_DriveType :: int
  dk_IsRemovable :: bool
  dk_StorageController :: int
  dk_Model :: string

text \<open>
  A value as reflection sees it: a basic one with its printed text, one of another kind with its
  printed text, a slice, a pointer, or a structure whose fields carry their name and whether they are
  exported, kept out of JSON, and anonymous.
\<close>

datatype gval =
    GBase string
  | GOther string
  | GSlice "gval list"
  | GPtr "gval option"
  | GStruct "(string \<times> (bool \<times> bool \<times> bool) \<times> gval) list"

record HostInfo =
  hi_Memory :: "memoryInfo option"
  hi_Block :: "disk option list option"
  hi_CPU :: "cpuInfo option"
  hi_Network :: "nic option list option"
  hi_GPU :: "graphicsCard option list option"
  hi_Chassis :: "gval option"
  hi_BIOS :: "gval option"
  hi_Baseboard :: "gval option"
  hi_Product :: "gval option"
  hi_Runtime :: "string option"

text \<open>\<^verbatim>\<open>Host\<close>: every part is probed; the parts that fail are nil, and one error stands for all.\<close>

record probes =
  pb_Memory :: "goerr + memoryInfo"
  pb_Block :: "goerr + disk option list"
  pb_CPU :: "goerr + cpuInfo"
  pb_Topology :: "goerr + unit"
  pb_Network :: "goerr + nic option list"
  pb_GPU :: "goerr + graphicsCard option list"
  pb_Chassis :: "goerr + gval"
  pb_BIOS :: "goerr + gval"
  pb_Baseboard :: "goerr + gval"
  pb_Product :: "goerr + gval"
  pb_Hostname :: "goerr + string"

definition probed :: "goerr + 'a \<Rightarrow> 'a option" where
  "probed r = (case r of Inl e \<Rightarrow> None | Inr x \<Rightarrow> Some x)"

definition ErrCouldNotReadHostInfo :: goerr where
  "ErrCouldNotReadHostInfo = ESent ''could not read host info''"

definition Host :: "probes \<Rightarrow> HostInfo \<times> goerr option" where
  "Host p = (\<lparr>hi_Memory = probed (pb_Memory p), hi_Block = probed (pb_Block p), hi_CPU = probed (pb_CPU p),
      hi_Network = probed (pb_Network p), hi_GPU = probed (pb_GPU p), hi_Chassis = probed (pb_Chassis p),
      hi_BIOS = probed (pb_BIOS p), hi_Baseboard = probed (pb_Baseboard p), hi_Product = probed (pb_Product p),
      hi_Runtime = probed (pb_Hostname p)\<rparr>,
    if probed (pb_Memory p) = None \<or> probed (pb_Block p) = None \<or> probed (pb_CPU p) = None \<or>
       probed (pb_Topology p) = None \<or> probed (pb_Network p) = None \<or> probed (pb_GPU p) = None \<or>
       probed (pb_Chassis p) = None \<or> probed (pb_BIOS p) = None \<or> probed (pb_Baseboard p) = None \<or>
       probed (pb_Product p) = None \<or> probed (pb_Hostname p) = None
    then Some ErrCouldNotReadHostInfo else None)"

section \<open>Reflection\<close>

fun isBaseReflectKind :: "gval \<Rightarrow> bool" where
  "isBaseReflectKind (GBase _) = True" | "isBaseReflectKind _ = False"

text \<open>\<^verbatim>\<open>fmt.Sprintf("%v")\<close> of the elements of a slice of basic values.\<close>

fun baseText :: "gval \<Rightarrow> string" where
  "baseText (GBase s) = s" | "baseText (GOther s) = s" | "baseText _ = []"

fun reflectVal :: "gval \<Rightarrow> tval" and structVal :: "(string \<times> (bool \<times> bool \<times> bool) \<times> gval) list \<Rightarrow> tdata \<Rightarrow> tval"
  and sliceVal :: "nat \<Rightarrow> gval list \<Rightarrow> tdata" where
  "reflectVal (GBase s) = VStr s"
| "reflectVal (GOther s) = VStr s"
| "reflectVal (GPtr None) = VStr []"
| "reflectVal (GPtr (Some v)) = reflectVal v"
| "reflectVal (GSlice vs) =
    (if vs = [] then VStr []
     else if isBaseReflectKind (hd vs) then VStr (str_join (map baseText vs) '', '')
     else VMap (sliceVal 0 vs))"
| "reflectVal (GStruct fs) = structVal fs []"
| "structVal [] acc = VMap acc"
| "structVal ((name, (exported, hidden, anonymous), v) # fs) acc =
    (if \<not> exported then structVal fs acc
     else if hidden then structVal fs acc
     else if anonymous then reflectVal v
     else structVal fs (AList.update name (reflectVal v) acc))"
| "sliceVal i [] = []"
| "sliceVal i (v # vs) = (show_nat i, reflectVal v) # sliceVal (Suc i) vs"

definition dataToLabelMap :: "gval \<Rightarrow> tdata" where
  "dataToLabelMap v = (case reflectVal v of VMap m \<Rightarrow> m | _ \<Rightarrow> [])"

text \<open>The whole structure as reflection sees it is the argument.\<close>

definition ExtractFullData :: "gval \<Rightarrow> tdata" where
  "ExtractFullData systemData = dataToLabelMap systemData"

text \<open>The memory and the runtime as reflection sees them: the area of the memory is an anonymous field.\<close>

definition goField :: "string \<Rightarrow> gval \<Rightarrow> string \<times> (bool \<times> bool \<times> bool) \<times> gval" where
  "goField name v = (name, (True, False, False), v)"

definition moduleVal :: "memoryModule \<Rightarrow> gval" where
  "moduleVal m = GStruct [goField ''Label'' (GBase (mm_Label m)), goField ''Location'' (GBase (mm_Location m)),
     goField ''SerialNumber'' (GBase (mm_SerialNumber m)), goField ''SizeBytes'' (GBase (show_int (mm_SizeBytes m))),
     goField ''Vendor'' (GBase (mm_Vendor m))]"

definition memoryVal :: "memoryInfo \<Rightarrow> gval" where
  "memoryVal m = GStruct [(''ctx'', (False, False, False), GPtr None), (''Area'', (True, False, True), GStruct
     [goField ''TotalPhysicalBytes'' (GBase (show_int (mem_TotalPhysicalBytes m))),
      goField ''TotalUsableBytes'' (GBase (show_int (mem_TotalUsableBytes m))),
      goField ''SupportedPageSizes'' (GSlice (map (\<lambda>n. GBase (show_int n)) (mem_SupportedPageSizes m))),
      goField ''Modules'' (GSlice (map (\<lambda>x. GPtr (map_option moduleVal x)) (mem_Modules m)))])]"

definition runtimeVal :: "string \<Rightarrow> gval" where
  "runtimeVal h = GStruct [goField ''Hostname'' (GBase h)]"

section \<open>Labels\<close>

definition sanitizeHostInfoVal :: "string \<Rightarrow> string" where
  "sanitizeHostInfoVal data = (if has_prefix data ''Unknown!'' then [] else data)"

definition driveTypeString :: "int \<Rightarrow> string" where
  "driveTypeString t = (if t = 0 then ''Unknown'' else if t = 1 then ''HDD'' else if t = 2 then ''FDD''
     else if t = 3 then ''ODD'' else if t = 4 then ''SSD'' else if t = 5 then ''virtual'' else [])"

definition storageControllerString :: "int \<Rightarrow> string" where
  "storageControllerString c = (if c = 0 then ''Unknown'' else if c = 1 then ''IDE'' else if c = 2 then ''SCSI''
     else if c = 3 then ''NVMe'' else if c = 4 then ''virtio'' else if c = 5 then ''MMC''
     else if c = 6 then ''loop'' else [])"

definition size32 :: "32 word \<Rightarrow> tval" where
  "size32 w = VStr (show_int (uint w))"

definition size64 :: "64 word \<Rightarrow> tval" where
  "size64 w = VStr (show_int (sint w))"

definition countOf :: "'a list \<Rightarrow> tval" where
  "countOf xs = VStr (show_nat (length xs))"

definition flagOf :: "bool \<Rightarrow> tval" where
  "flagOf b = VStr (show_bool b)"

subsection \<open>The syntax up to 1.7\<close>

definition legacyMemory :: "HostInfo \<Rightarrow> tdata" where
  "legacyMemory hi = (case hi_Memory hi of None \<Rightarrow> []
     | Some m \<Rightarrow> [(''Total Physical Bytes'', VStr (show_int (mem_TotalPhysicalBytes m))),
                  (''Total Usable Bytes'', VStr (show_int (mem_TotalUsableBytes m)))])"

definition legacyCPU :: "HostInfo \<Rightarrow> tdata option" where
  "legacyCPU hi = (case hi_CPU hi of None \<Rightarrow> Some []
     | Some c \<Rightarrow> (let counted =
           (if 0 < cpu_TotalCores c then [(''Total Cores'', size32 (cpu_TotalCores c))] else []) @
           (if 0 < cpu_TotalThreads c then [(''Total Threads'', size32 (cpu_TotalThreads c))] else [])
         in case cpu_Processors c of
              [] \<Rightarrow> Some counted
            | p # _ \<Rightarrow> map_option (\<lambda>p. counted @ [(''Model'', VStr (pr_Model p)), (''Vendor'', VStr (pr_Vendor p)),
                 (''Capabilities'', VList (map VStr (pr_Capabilities p)))]) p))"

definition legacyGPU :: "HostInfo \<Rightarrow> tdata option" where
  "legacyGPU hi = (case hi_GPU hi of
       Some (gc # _) \<Rightarrow> (case gc of None \<Rightarrow> None | Some g \<Rightarrow>
         (case gc_DeviceInfo g of None \<Rightarrow> Some []
          | Some d \<Rightarrow> (case (pci_ProductName d, pci_VendorName d) of
              (Some p, Some v) \<Rightarrow> Some [(''Model'', VStr p), (''Vendor'', VStr v)]
            | _ \<Rightarrow> None)))
     | _ \<Rightarrow> Some [])"

definition legacyNic :: "nic \<Rightarrow> tval" where
  "legacyNic n = VMap [(''Name'', VStr (nic_Name n)), (''MacAddress'', VStr (nic_MacAddress n)),
     (''IsVirtual'', flagOf (nic_IsVirtual n))]"

definition legacyDisk :: "disk \<Rightarrow> tval" where
  "legacyDisk d = VMap [(''Size'', size64 (dk_SizeBytes d)), (''Name'', VStr (dk_Name d)),
     (''Drive Type'', VStr (driveTypeString (dk_DriveType d))),
     (''Storage Controller'', VStr (storageControllerString (dk_StorageController d))),
     (''Removable'', flagOf (dk_IsRemovable d))]"

text \<open>A loop over pointers that stores one entry per element.\<close>

fun storeEach :: "('a \<Rightarrow> string) \<Rightarrow> ('a \<Rightarrow> tval) \<Rightarrow> tdata \<Rightarrow> 'a option list \<Rightarrow> tdata option" where
  "storeEach key val m [] = Some m"
| "storeEach key val m (None # xs) = None"
| "storeEach key val m (Some x # xs) = storeEach key val (AList.update (key x) (val x) m) xs"

definition legacyNetwork :: "HostInfo \<Rightarrow> tdata option" where
  "legacyNetwork hi = (case hi_Network hi of None \<Rightarrow> Some []
     | Some nics \<Rightarrow> storeEach nic_Name legacyNic [(''Number Interfaces'', countOf nics)] nics)"

definition legacyBlock :: "HostInfo \<Rightarrow> tdata option" where
  "legacyBlock hi = (case hi_Block hi of None \<Rightarrow> Some []
     | Some disks \<Rightarrow> storeEach dk_Name legacyDisk [(''Number Devices'', countOf disks)] disks)"

definition legacyRuntime :: "HostInfo \<Rightarrow> tdata" where
  "legacyRuntime hi = (case hi_Runtime hi of None \<Rightarrow> [] | Some h \<Rightarrow> [(''Hostname'', VStr h)])"

definition ExtractLabelsLegacy :: "HostInfo \<Rightarrow> tdata option" where
  "ExtractLabelsLegacy hi = Option.bind (legacyCPU hi) (\<lambda>cpu. Option.bind (legacyGPU hi) (\<lambda>gpu.
     Option.bind (legacyNetwork hi) (\<lambda>network. map_option (\<lambda>block.
       [(''System Data'', VMap [(''Memory'', VMap (legacyMemory hi)), (''CPU'', VMap cpu), (''GPU'', VMap gpu),
          (''Network'', VMap network), (''Block Devices'', VMap block), (''Runtime'', VMap (legacyRuntime hi))])])
       (legacyBlock hi))))"

text \<open>
  \<^verbatim>\<open>FillData\<close> dereferences the pointer that \<^verbatim>\<open>json.Unmarshal\<close> filled, which the payload \<^verbatim>\<open>null\<close>
  makes nil.
\<close>

definition nilDereference :: string where
  "nilDereference = ''nil pointer dereference''"

definition FillData :: "('b \<Rightarrow> goerr + HostInfo option) \<Rightarrow> 'b \<Rightarrow> tdata outcome" where
  "FillData unmarshal data = (case unmarshal data of
       Inl e \<Rightarrow> Err (wrap ''unmarshalling system data payload'' e)
     | Inr systemData \<Rightarrow> (case Option.bind systemData ExtractLabelsLegacy of
         None \<Rightarrow> Panic nilDereference | Some labels \<Rightarrow> Ok labels))"

text \<open>Disks and controllers that older servers cannot decode: \<^verbatim>\<open>Prune\<close> drops them.\<close>

definition prunable :: "disk \<Rightarrow> bool" where
  "prunable d \<longleftrightarrow> 4 < dk_DriveType d \<or> 5 < dk_StorageController d"

definition Prune :: "HostInfo \<Rightarrow> HostInfo option" where
  "Prune hi = (case hi_Block hi of None \<Rightarrow> None
     | Some disks \<Rightarrow> if None \<in> set disks then None
         else Some (hi\<lparr>hi_Block := Some (filter (\<lambda>d. \<not> prunable (the d)) disks)\<rparr>))"

subsection \<open>Network addresses\<close>

text \<open>
  \<^verbatim>\<open>net.IP\<close> is its bytes. An address of 4 bytes and its 16-byte form, with ten zero bytes and two
  bytes 255 in front, are the same IPv4 address.
\<close>

definition mappedPrefix :: "8 word list" where
  "mappedPrefix = replicate 10 0 @ [255, 255]"

definition To4 :: "8 word list \<Rightarrow> (8 word list) option" where
  "To4 ip = (if length ip = 4 then Some ip
     else if length ip = 16 \<and> take 12 ip = mappedPrefix then Some (drop 12 ip) else None)"

definition To16 :: "8 word list \<Rightarrow> (8 word list) option" where
  "To16 ip = (if length ip = 4 then Some (mappedPrefix @ ip) else if length ip = 16 then Some ip else None)"

definition ip4_string :: "8 word list \<Rightarrow> string" where
  "ip4_string ip = str_join (map (\<lambda>b. show_nat (unat b)) ip) ''.''"

text \<open>
  The text of an IPv6 address: its 16-bit groups in hexadecimal, the first of the longest runs of at
  least two zero groups replaced by two colons.
\<close>

fun groups16 :: "8 word list \<Rightarrow> nat list" where
  "groups16 (a # b # bs) = (unat a * 256 + unat b) # groups16 bs"
| "groups16 _ = []"

fun hex_string :: "nat \<Rightarrow> string" where
  "hex_string n = (if n < 16 then [hex_nibble n] else hex_string (n div 16) @ [hex_nibble (n mod 16)])"

declare hex_string.simps [simp del]

definition zerosAt :: "nat list \<Rightarrow> nat \<Rightarrow> nat" where
  "zerosAt gs i = length (takeWhile (\<lambda>g. g = 0) (drop i gs))"

definition zeroRun :: "nat list \<Rightarrow> nat \<times> nat" where
  "zeroRun gs = fold (\<lambda>i (start, len). if 2 \<le> zerosAt gs i \<and> len < zerosAt gs i then (i, zerosAt gs i) else (start, len))
     [0..<length gs] (0, 0)"

definition ip6_string :: "8 word list \<Rightarrow> string" where
  "ip6_string ip = (let gs = groups16 ip; (start, len) = zeroRun gs; show = (\<lambda>gs. str_join (map hex_string gs) '':'') in
     if len = 0 then show gs else show (take start gs) @ ''::'' @ show (drop (start + len) gs))"

text \<open>\<^verbatim>\<open>GetInterfaceAddresses\<close> is the argument \<open>nets\<close>.\<close>

fun splitIPs :: "(8 word list) list \<Rightarrow> string list \<times> string list" where
  "splitIPs [] = ([], [])"
| "splitIPs (ip # ips) = (case splitIPs ips of (ipv4, ipv6) \<Rightarrow>
     (case To4 ip of Some a \<Rightarrow> (ip4_string a # ipv4, ipv6)
      | None \<Rightarrow> (case To16 ip of Some a \<Rightarrow> (ipv4, ip6_string a # ipv6) | None \<Rightarrow> (ipv4, ipv6))))"

definition getIPsByIfName :: "(string \<Rightarrow> (8 word list) list) \<Rightarrow> string \<Rightarrow> string list \<times> string list" where
  "getIPsByIfName nets ifName = splitIPs (nets ifName)"

subsection \<open>The syntax from 1.8\<close>

fun numberEach :: "('a \<Rightarrow> tval) \<Rightarrow> nat \<Rightarrow> 'a option list \<Rightarrow> tdata option" where
  "numberEach val i [] = Some []"
| "numberEach val i (None # xs) = None"
| "numberEach val i (Some x # xs) = map_option (\<lambda>m. (show_nat i, val x) # m) (numberEach val (Suc i) xs)"

definition procLabels :: "processor \<Rightarrow> tval" where
  "procLabels p = VMap [(''Capabilities'', VStr (str_join (pr_Capabilities p) '','')),
     (''ID'', VStr (show_int (pr_ID p))), (''Model'', VStr (pr_Model p)), (''NumCores'', size32 (pr_NumCores p)),
     (''NumThreads'', size32 (pr_NumThreads p)), (''Vendor'', VStr (pr_Vendor p))]"

text \<open>The totals are read outside the check for nil.\<close>

definition cpuLabels :: "HostInfo \<Rightarrow> tdata option" where
  "cpuLabels hi = (case hi_CPU hi of None \<Rightarrow> None
     | Some c \<Rightarrow> map_option (\<lambda>procs.
         (if cpu_Processors c = [] then [] else [(''Processors'', VMap procs), (''Processor'', GetValueN procs [''0''])]) @
         [(''TotalCores'', size32 (cpu_TotalCores c)), (''TotalThreads'', size32 (cpu_TotalThreads c)),
          (''TotalProcessors'', countOf (cpu_Processors c))])
       (numberEach procLabels 0 (cpu_Processors c)))"

definition cardLabels :: "pciDevice \<Rightarrow> tdata" where
  "cardLabels d = [(''Driver'', VStr (pci_Driver d))] @
     (case pci_ProductName d of None \<Rightarrow> [] | Some n \<Rightarrow> [(''ProductName'', VStr n)]) @
     (case pci_VendorName d of None \<Rightarrow> [] | Some n \<Rightarrow> [(''VendorName'', VStr n)])"

fun cardLoop :: "nat \<Rightarrow> tdata \<Rightarrow> graphicsCard option list \<Rightarrow> (nat \<times> tdata) option" where
  "cardLoop cardNum m [] = Some (cardNum, m)"
| "cardLoop cardNum m (None # cs) = None"
| "cardLoop cardNum m (Some c # cs) = (case gc_DeviceInfo c of
      None \<Rightarrow> cardLoop cardNum m cs
    | Some d \<Rightarrow> (let m' = AList.update (show_nat cardNum) (VMap (cardLabels d)) m in
        cardLoop (Suc cardNum)
          (if map_of m' ''Driver'' = None then fold (\<lambda>(k, v). AList.update k v) (cardLabels d) m' else m') cs))"

definition gpuLabels :: "HostInfo \<Rightarrow> tdata option" where
  "gpuLabels hi = (case hi_GPU hi of
       Some (c # cs) \<Rightarrow> map_option (\<lambda>(cardNum, m). [(''GraphicsCards'', VMap m), (''TotalCards'', VStr (show_nat cardNum))])
         (cardLoop 0 [] (c # cs))
     | _ \<Rightarrow> Some [])"

definition numberedStrings :: "string list \<Rightarrow> tdata" where
  "numberedStrings xs = map (\<lambda>(i, x). (show_nat i, VStr x)) (enumerate 0 xs)"

definition firstNonEmpty :: "string list \<Rightarrow> string" where
  "firstNonEmpty xs = (case filter (\<lambda>x. x \<noteq> []) xs of [] \<Rightarrow> [] | x # _ \<Rightarrow> x)"

definition nicLabels :: "(string \<Rightarrow> (8 word list) list) \<Rightarrow> nic \<Rightarrow> tval" where
  "nicLabels nets n = (let (ipv4, ipv6) = getIPsByIfName nets (nic_Name n) in VMap
     [(''AdvertisedLinkModes'', VStr (str_join (nic_AdvertisedLinkModes n) '','')),
      (''Duplex'', VStr (sanitizeHostInfoVal (nic_Duplex n))), (''IsVirtual'', flagOf (nic_IsVirtual n)),
      (''IPv4Address'', VStr (firstNonEmpty ipv4)), (''IPv4Addresses'', VMap (numberedStrings ipv4)),
      (''IPv6Address'', VStr (firstNonEmpty ipv6)), (''IPv6Addresses'', VMap (numberedStrings ipv6)),
      (''MacAddress'', VStr (nic_MacAddress n)), (''Name'', VStr (nic_Name n)),
      (''PCIAddress'', case nic_PCIAddress n of None \<Rightarrow> VNil | Some a \<Rightarrow> VStr a),
      (''Speed'', VStr (sanitizeHostInfoVal (nic_Speed n))),
      (''SupportedLinkModes'', VStr (str_join (nic_SupportedLinkModes n) '','')),
      (''SupportedPorts'', VStr (str_join (nic_SupportedPorts n) '',''))])"

text \<open>Every element is stored under its number and under its name.\<close>

fun namedEach :: "('a \<Rightarrow> string) \<Rightarrow> ('a \<Rightarrow> tval) \<Rightarrow> nat \<Rightarrow> tdata \<Rightarrow> 'a option list \<Rightarrow> tdata option" where
  "namedEach name val i m [] = Some m"
| "namedEach name val i m (None # xs) = None"
| "namedEach name val i m (Some x # xs) =
     namedEach name val (Suc i) (AList.update (name x) (val x) (AList.update (show_nat i) (val x) m)) xs"

definition networkLabels :: "(string \<Rightarrow> (8 word list) list) \<Rightarrow> HostInfo \<Rightarrow> tdata option" where
  "networkLabels nets hi = (case hi_Network hi of None \<Rightarrow> Some []
     | Some nics \<Rightarrow> map_option (\<lambda>m. [(''TotalNICs'', countOf nics), (''NICs'', VMap m)])
         (namedEach nic_Name (nicLabels nets) 0 [] nics))"

definition diskLabels :: "disk \<Rightarrow> tval" where
  "diskLabels d = VMap [(''Size'', size64 (dk_SizeBytes d)), (''Name'', VStr (dk_Name d)),
     (''DriveType'', VStr (driveTypeString (dk_DriveType d))),
     (''StorageController'', VStr (storageControllerString (dk_StorageController d))),
     (''Removable'', flagOf (dk_IsRemovable d)), (''Model'', VStr (dk_Model d))]"

definition storageLabels :: "HostInfo \<Rightarrow> tdata option" where
  "storageLabels hi = (case hi_Block hi of None \<Rightarrow> Some []
     | Some disks \<Rightarrow> map_option (\<lambda>m. [(''TotalDisks'', countOf disks), (''Disks'', VMap m)])
         (namedEach dk_Name diskLabels 0 [] disks))"

definition ExtractLabels :: "(string \<Rightarrow> (8 word list) list) \<Rightarrow> HostInfo \<Rightarrow> tdata option" where
  "ExtractLabels nets hi = Option.bind (cpuLabels hi) (\<lambda>cpu. Option.bind (gpuLabels hi) (\<lambda>gpu.
     Option.bind (networkLabels nets hi) (\<lambda>network. map_option (\<lambda>storage.
       [(''Product'', VMap (dataToLabelMap (GPtr (hi_Product hi)))), (''BIOS'', VMap (dataToLabelMap (GPtr (hi_BIOS hi)))),
        (''BaseBoard'', VMap (dataToLabelMap (GPtr (hi_Baseboard hi)))),
        (''Chassis'', VMap (dataToLabelMap (GPtr (hi_Chassis hi)))),
        (''Memory'', VMap (dataToLabelMap (GPtr (map_option memoryVal (hi_Memory hi))))),
        (''CPU'', VMap cpu), (''GPU'', VMap gpu), (''Network'', VMap network), (''Storage'', VMap storage),
        (''Runtime'', VMap (dataToLabelMap (GPtr (map_option runtimeVal (hi_Runtime hi)))))])
       (storageLabels hi))))"

section \<open>When the labels can be extracted\<close>

lemma storeEach_None: "storeEach key val m xs = None \<longleftrightarrow> None \<in> set xs"
  by (induction key val m xs rule: storeEach.induct) auto

lemma numberEach_None: "numberEach val i xs = None \<longleftrightarrow> None \<in> set xs"
  by (induction val i xs rule: numberEach.induct) auto

lemma namedEach_None: "namedEach name val i m xs = None \<longleftrightarrow> None \<in> set xs"
  by (induction name val i m xs rule: namedEach.induct) auto

lemma cardLoop_None: "cardLoop k m cs = None \<longleftrightarrow> None \<in> set cs"
  by (induction k m cs rule: cardLoop.induct) (auto simp: Let_def split: option.split)

definition elements :: "'a list option \<Rightarrow> 'a list" where
  "elements x = (case x of None \<Rightarrow> [] | Some xs \<Rightarrow> xs)"

definition noNils :: "HostInfo \<Rightarrow> bool" where
  "noNils hi \<longleftrightarrow> None \<notin> set (elements (hi_Network hi)) \<and> None \<notin> set (elements (hi_Block hi))"

text \<open>The first graphics card, as far as the old syntax looks at it, is there with both of its names.\<close>

definition firstCard :: "HostInfo \<Rightarrow> bool" where
  "firstCard hi \<longleftrightarrow> (case elements (hi_GPU hi) of [] \<Rightarrow> True | None # _ \<Rightarrow> False
     | Some g # _ \<Rightarrow> (case gc_DeviceInfo g of None \<Rightarrow> True
        | Some d \<Rightarrow> pci_ProductName d \<noteq> None \<and> pci_VendorName d \<noteq> None))"

definition firstProcessor :: "HostInfo \<Rightarrow> bool" where
  "firstProcessor hi \<longleftrightarrow> (case hi_CPU hi of None \<Rightarrow> True | Some c \<Rightarrow> \<not> (\<exists>ps. cpu_Processors c = None # ps))"

lemma legacyCPU_None: "legacyCPU hi = None \<longleftrightarrow> \<not> firstProcessor hi"
  by (auto simp: legacyCPU_def firstProcessor_def Let_def split: option.split list.split)

lemma legacyGPU_None: "legacyGPU hi = None \<longleftrightarrow> \<not> firstCard hi"
  by (auto simp: legacyGPU_def firstCard_def elements_def split: option.split list.split)

lemma cpuLabels_None: "cpuLabels hi = None \<longleftrightarrow> (case hi_CPU hi of None \<Rightarrow> True | Some c \<Rightarrow> None \<in> set (cpu_Processors c))"
  by (auto simp: cpuLabels_def numberEach_None split: option.split)

lemma gpuLabels_None: "gpuLabels hi = None \<longleftrightarrow> None \<in> set (elements (hi_GPU hi))"
  by (cases "elements (hi_GPU hi)")
    (auto simp: gpuLabels_def elements_def cardLoop_None split: option.split list.split simp del: cardLoop.simps)

lemma legacyNetwork_None: "legacyNetwork hi = None \<longleftrightarrow> None \<in> set (elements (hi_Network hi))"
  by (auto simp: legacyNetwork_def storeEach_None elements_def split: option.split)

lemma legacyBlock_None: "legacyBlock hi = None \<longleftrightarrow> None \<in> set (elements (hi_Block hi))"
  by (auto simp: legacyBlock_def storeEach_None elements_def split: option.split)

lemma networkLabels_None: "networkLabels nets hi = None \<longleftrightarrow> None \<in> set (elements (hi_Network hi))"
  by (auto simp: networkLabels_def namedEach_None elements_def split: option.split)

lemma storageLabels_None: "storageLabels hi = None \<longleftrightarrow> None \<in> set (elements (hi_Block hi))"
  by (auto simp: storageLabels_def namedEach_None elements_def split: option.split)

lemma bind3_None: "Option.bind a (\<lambda>x. Option.bind b (\<lambda>y. Option.bind c (\<lambda>z. map_option (f x y z) d))) = None \<longleftrightarrow>
    a = None \<or> b = None \<or> c = None \<or> d = None"
  by (cases a; cases b; cases c; cases d) simp_all

lemma legacy_None: "ExtractLabelsLegacy hi = None \<longleftrightarrow> \<not> (firstProcessor hi \<and> firstCard hi \<and> noNils hi)"
  unfolding ExtractLabelsLegacy_def bind3_None legacyCPU_None legacyGPU_None legacyNetwork_None legacyBlock_None
    noNils_def by blast

lemma labels_None: "ExtractLabels nets hi = None \<longleftrightarrow>
    (case hi_CPU hi of None \<Rightarrow> True | Some c \<Rightarrow> None \<in> set (cpu_Processors c)) \<or>
    None \<in> set (elements (hi_GPU hi)) \<or> \<not> noNils hi"
  unfolding ExtractLabels_def bind3_None cpuLabels_None gpuLabels_None networkLabels_None storageLabels_None
    noNils_def by blast

section \<open>What the variables of a template find\<close>

text \<open>A name that cannot be mistaken for the number of an element.\<close>

definition isNumeral :: "string \<Rightarrow> bool" where
  "isNumeral s \<longleftrightarrow> s \<noteq> [] \<and> (\<forall>c \<in> set s. is_digit c)"

lemma isNumeral_show: "isNumeral (show_nat n)"
  by (simp add: isNumeral_def show_nat_nonempty show_nat_digits)

lemma namedEach_keeps:
  "namedEach name val i m xs = Some m' \<Longrightarrow> (\<And>x. Some x \<in> set xs \<Longrightarrow> k \<noteq> name x) \<Longrightarrow> (\<And>j. i \<le> j \<Longrightarrow> k \<noteq> show_nat j) \<Longrightarrow>
    map_of m' k = map_of m k"
proof (induction name val i m xs rule: namedEach.induct)
  case (3 name val i m x xs)
  from "3.prems"(2) [of x] "3.prems"(3) [of i] have k: "k \<noteq> name x" "k \<noteq> show_nat i" by simp_all
  have "map_of m' k = map_of (AList.update (name x) (val x) (AList.update (show_nat i) (val x) m)) k"
    using "3.prems" by (intro "3.IH") auto
  also have "\<dots> = map_of m k" using k by (simp add: update_conv')
  finally show ?case .
qed simp_all

lemma namedEach_found:
  assumes "namedEach name val i m xs = Some m'"
    and "distinct (map (name \<circ> the) xs)" and "\<And>x. Some x \<in> set xs \<Longrightarrow> \<not> isNumeral (name x)"
    and "j < length xs" and "xs ! j = Some x"
  shows "map_of m' (show_nat (i + j)) = Some (val x) \<and> map_of m' (name x) = Some (val x)"
  using assms
proof (induction name val i m xs arbitrary: j rule: namedEach.induct)
  case (3 name val i m y ys)
  let ?m = "AList.update (name y) (val y) (AList.update (show_nat i) (val y) m)"
  have r: "namedEach name val (Suc i) ?m ys = Some m'" using "3.prems"(1) by simp
  show ?case
  proof (cases j)
    case 0
    have y: "y = x" using 0 "3.prems"(5) by simp
    have other: "name z \<noteq> name y" if "Some z \<in> set ys" for z
      using that "3.prems"(2) by force
    have notnum: "name z \<noteq> show_nat n" if "Some z \<in> set (Some y # ys)" for z n
      using "3.prems"(3) [OF that] isNumeral_show [of n] by metis
    have "map_of m' (name y) = map_of ?m (name y)"
      by (rule namedEach_keeps [OF r]) (use other notnum [of y] in force)+
    moreover have "map_of m' (show_nat i) = map_of ?m (show_nat i)"
    proof (rule namedEach_keeps [OF r])
      show "show_nat i \<noteq> name z" if "Some z \<in> set ys" for z using notnum [of z i] that by auto
      show "show_nat i \<noteq> show_nat j" if "Suc i \<le> j" for j using show_nat_inj [of i j] that by auto
    qed
    moreover have "name y \<noteq> show_nat i" using notnum [of y] by simp
    ultimately show ?thesis using 0 y by (simp add: update_conv')
  next
    case (Suc k)
    have "map_of m' (show_nat (Suc i + k)) = Some (val x) \<and> map_of m' (name x) = Some (val x)"
      using Suc "3.prems" by (intro "3.IH" [OF r]) auto
    with Suc show ?thesis by simp
  qed
qed simp_all

lemma ExtractLabels_network:
  assumes "ExtractLabels nets hi = Some labels" and "hi_Network hi = Some nics"
  obtains m where "namedEach nic_Name (nicLabels nets) 0 [] nics = Some m"
    and "\<And>ks. ks \<noteq> [] \<Longrightarrow> GetValueN labels (''Network'' # ''NICs'' # ks) = GetValueN m ks"
proof -
  from assms obtain m where m: "namedEach nic_Name (nicLabels nets) 0 [] nics = Some m"
    and l: "map_of labels ''Network'' = Some (VMap [(''TotalNICs'', countOf nics), (''NICs'', VMap m)])"
    by (auto simp: ExtractLabels_def bind_eq_Some_conv networkLabels_def)
  have "GetValueN labels (''Network'' # ''NICs'' # ks) = GetValueN m ks" if "ks \<noteq> []" for ks
    using that l by (cases ks) (auto simp: asMap_def)
  with m show ?thesis by (rule that)
qed

lemma nicLabels_map: "\<exists>m. nicLabels nets n = VMap m \<and> map_of m ''MacAddress'' = Some (VStr (nic_MacAddress n)) \<and>
    map_of m ''IPv4Address'' = Some (VStr (firstNonEmpty (fst (getIPsByIfName nets (nic_Name n)))))"
  by (simp add: nicLabels_def Let_def split: prod.split)

section \<open>Properties\<close>

text \<open>
  The variables of an interface find it by its number and by its name: with distinct names that
  are not numbers, both of \<^verbatim>\<open>${Network/NICs/j/...}\<close> and \<^verbatim>\<open>${Network/NICs/name/...}\<close> give the same
  value, whatever the field, and the address and the first IPv4 address are those of the interface.
\<close>

theorem nic_variables:
  assumes "ExtractLabels nets hi = Some labels" and "hi_Network hi = Some nics"
    and "distinct (map (nic_Name \<circ> the) nics)" and "\<forall>n. Some n \<in> set nics \<longrightarrow> \<not> isNumeral (nic_Name n)"
    and "j < length nics" and "nics ! j = Some n"
  shows "GetValueN labels [''Network'', ''NICs'', show_nat j, k] = GetValueN labels [''Network'', ''NICs'', nic_Name n, k] \<and>
    GetValueN labels [''Network'', ''NICs'', nic_Name n, ''MacAddress''] = VStr (nic_MacAddress n) \<and>
    GetValueN labels [''Network'', ''NICs'', nic_Name n, ''IPv4Address'']
      = VStr (firstNonEmpty (fst (getIPsByIfName nets (nic_Name n))))"
proof -
  obtain m where m: "namedEach nic_Name (nicLabels nets) 0 [] nics = Some m"
    and g: "\<And>ks. ks \<noteq> [] \<Longrightarrow> GetValueN labels (''Network'' # ''NICs'' # ks) = GetValueN m ks"
    using ExtractLabels_network [OF assms(1,2)] by blast
  have f: "map_of m (show_nat j) = Some (nicLabels nets n)" "map_of m (nic_Name n) = Some (nicLabels nets n)"
    using namedEach_found [OF m assms(3) _ assms(5,6)] assms(4) by auto
  obtain l where l: "nicLabels nets n = VMap l" "map_of l ''MacAddress'' = Some (VStr (nic_MacAddress n))"
    "map_of l ''IPv4Address'' = Some (VStr (firstNonEmpty (fst (getIPsByIfName nets (nic_Name n)))))"
    using nicLabels_map [of nets n] by blast
  have two: "GetValueN labels [''Network'', ''NICs'', x, y] = GetValueN m [x, y]" for x y
    by (rule g) simp
  show ?thesis unfolding two using f l by (simp add: asMap_def)
qed

definition demo_nic :: "string \<Rightarrow> string \<Rightarrow> nic" where
  "demo_nic name mac = \<lparr>nic_Name = name, nic_MacAddress = mac, nic_IsVirtual = False, nic_PCIAddress = None,
     nic_Speed = ''Unknown!'', nic_Duplex = ''Full'', nic_SupportedLinkModes = [], nic_SupportedPorts = [''TP'', ''MII''],
     nic_AdvertisedLinkModes = []\<rparr>"

definition demo_host :: HostInfo where
  "demo_host = \<lparr>hi_Memory = None, hi_Block = None,
     hi_CPU = Some \<lparr>cpu_TotalCores = 4, cpu_TotalThreads = 8, cpu_Processors = []\<rparr>,
     hi_Network = Some [Some (demo_nic ''eth0'' ''aa''), Some (demo_nic ''eth1'' ''bb'')], hi_GPU = None, hi_Chassis = None,
     hi_BIOS = Some (GStruct [goField ''Vendor'' (GBase ''SUSE'')]), hi_Baseboard = None, hi_Product = None,
     hi_Runtime = Some ''node1''\<rparr>"

definition demo_nets :: "string \<Rightarrow> (8 word list) list" where
  "demo_nets ifName = (if ifName = ''eth1'' then [mappedPrefix @ [10, 0, 0, 7]] else [])"

lemma demo_labels: "\<exists>labels. ExtractLabels demo_nets demo_host = Some labels"
  using labels_None [of demo_nets demo_host] by (auto simp: demo_host_def noNils_def elements_def)

theorem nic_variables_witness:
  "\<exists>labels. ExtractLabels demo_nets demo_host = Some labels \<and>
     GetValueN labels [''Network'', ''NICs'', ''eth1'', ''MacAddress''] = VStr ''bb'' \<and>
     GetValueN labels [''Network'', ''NICs'', show_nat 1, ''MacAddress''] = VStr ''bb'' \<and>
     GetValueN labels [''Network'', ''NICs'', ''eth1'', ''IPv4Address''] = VStr ''10.0.0.7''"
proof -
  obtain labels where l: "ExtractLabels demo_nets demo_host = Some labels" using demo_labels by blast
  let ?nics = "[Some (demo_nic ''eth0'' ''aa''), Some (demo_nic ''eth1'' ''bb'')]"
  have n: "hi_Network demo_host = Some ?nics" by (simp add: demo_host_def)
  have d: "distinct (map (nic_Name \<circ> the) ?nics)" by (simp add: demo_nic_def)
  have u: "\<forall>n. Some n \<in> set ?nics \<longrightarrow> \<not> isNumeral (nic_Name n)"
    by (auto simp: demo_nic_def isNumeral_def is_digit_def)
  have j: "1 < length ?nics" "?nics ! 1 = Some (demo_nic ''eth1'' ''bb'')" by simp_all
  have e: "nic_Name (demo_nic ''eth1'' ''bb'') = ''eth1''" "nic_MacAddress (demo_nic ''eth1'' ''bb'') = ''bb''"
    by (simp_all add: demo_nic_def)
  have ip: "firstNonEmpty (fst (getIPsByIfName demo_nets ''eth1'')) = ''10.0.0.7''" by code_simp
  note N = nic_variables [OF l n d u j, unfolded e]
  show ?thesis using l N [of "''MacAddress''"] ip by auto
qed

text \<open>
  Exactly when the labels of a host cannot be extracted: the syntax of today needs the data of
  the processors, without which a nil pointer is dereferenced, and no nil element anywhere; the old
  syntax needs only the elements that it looks at, but the first graphics card with both names. So
  a failed probe of the processors, after which \<^verbatim>\<open>Host\<close> still returns the rest, panics.
\<close>

theorem extraction_panics:
  "(ExtractLabels nets hi = None \<longleftrightarrow>
    (case hi_CPU hi of None \<Rightarrow> True | Some c \<Rightarrow> None \<in> set (cpu_Processors c)) \<or>
    None \<in> set (elements (hi_GPU hi)) \<or> None \<in> set (elements (hi_Network hi)) \<or> None \<in> set (elements (hi_Block hi))) \<and>
   (ExtractLabelsLegacy hi = None \<longleftrightarrow>
    \<not> firstProcessor hi \<or> \<not> firstCard hi \<or> None \<in> set (elements (hi_Network hi)) \<or> None \<in> set (elements (hi_Block hi))) \<and>
   (pb_CPU p = Inl e \<longrightarrow> snd (Host p) = Some ErrCouldNotReadHostInfo \<and> ExtractLabels nets (fst (Host p)) = None)"
  unfolding labels_None legacy_None noNils_def by (auto simp: Host_def probed_def)

theorem extraction_panics_witness:
  "ExtractLabels demo_nets (fst (Host \<lparr>pb_Memory = Inl (EMsg ''m''), pb_Block = Inr [], pb_CPU = Inl (EMsg ''c''),
     pb_Topology = Inr (), pb_Network = Inr [], pb_GPU = Inr [], pb_Chassis = Inr (GPtr None), pb_BIOS = Inr (GPtr None),
     pb_Baseboard = Inr (GPtr None), pb_Product = Inr (GPtr None), pb_Hostname = Inr ''h''\<rparr>)) = None"
  by (rule extraction_panics [THEN conjunct2, THEN conjunct2, THEN mp, THEN conjunct2]) simp

end
