(* ===== verification/Kube.thy ===== *)
theory Kube
  imports Api HostInfo
begin

text \<open>
  The world outside the operator: the Kubernetes API server, the peer of a websocket, the HTTP
  response, the clock and the random source. Every call is appended to a trace; the answer of the
  environment is an arbitrary function of that history, so whatever a theorem says of a handler
  holds against every behaviour of the API server, of other controllers and of the peer between
  any two calls. Only the types of the answers are relied on: an answer of another type than the
  caller decodes is a decoding error.
\<close>

section \<open>Objects and calls\<close>

type_synonym bytes = "8 word list"

datatype kobj =
    OReg MachineRegistration
  | OInv MachineInventory
  | OSel MachineInventorySelector
  | OSeed SeedImage
  | OSecret Secret
  | OSA ServiceAccount
  | ORole Role
  | ORB RoleBinding
  | OClaim IPAddressClaim
  | OAddr IPAddress
  | OSetting Setting
  | OMachine Machine
  | OService Service
  | OConfigMap ConfigMap
  | OPod Pod
  | OOSImage ManagedOSImage
  | OBundle Bundle
  | OOSVersion ManagedOSVersion
  | OChannel ManagedOSVersionChannel
  | OClusterRole Role
  | OClusterRB RoleBinding
  | OUpgradePlan UpgradePlan

datatype kind = KReg | KInv | KSel | KSeed | KSecret | KSA | KRole | KRB | KClaim | KAddr
  | KSetting | KMachine | KService
  | KConfigMap | KPod | KOSImage | KBundle | KOSVersion | KChannel | KClusterRole | KClusterRB | KUpgradePlan

fun kind_of :: "kobj \<Rightarrow> kind" where
  "kind_of (OReg _) = KReg"
| "kind_of (OInv _) = KInv"
| "kind_of (OSel _) = KSel"
| "kind_of (OSeed _) = KSeed"
| "kind_of (OSecret _) = KSecret"
| "kind_of (OSA _) = KSA"
| "kind_of (ORole _) = KRole"
| "kind_of (ORB _) = KRB"
| "kind_of (OClaim _) = KClaim"
| "kind_of (OAddr _) = KAddr"
| "kind_of (OSetting _) = KSetting"
| "kind_of (OMachine _) = KMachine"
| "kind_of (OService _) = KService"
| "kind_of (OConfigMap _) = KConfigMap"
| "kind_of (OPod _) = KPod"
| "kind_of (OOSImage _) = KOSImage"
| "kind_of (OBundle _) = KBundle"
| "kind_of (OOSVersion _) = KOSVersion"
| "kind_of (OChannel _) = KChannel"
| "kind_of (OClusterRole _) = KClusterRole"
| "kind_of (OClusterRB _) = KClusterRB"
| "kind_of (OUpgradePlan _) = KUpgradePlan"

text \<open>A requirement of a label selector: key, operator, values.\<close>

type_synonym requirement = "string \<times> string \<times> string list"

text \<open>
  The calls: reads and writes of the API server (a patch carries its base, the object it is
  computed from, and whether it demands the base's resource version), frames on the websocket, what
  is written to the HTTP response, the logs of a pod's container, and, of the registering machine, the connection it opens and the
  calls of its system.
\<close>

datatype call =
    CGet kind string string
  | CList kind "string option" "requirement list"
  | CCreate kobj
  | CUpdate kobj
  | CPatch bool kobj kobj
  | CStatusPatch bool kobj kobj
  | CDelete kobj
  | WsUpgrade
  | WsRead
  | WsWrite bytes
  | HttpError nat string
  | HttpConfig Config
  | HttpProxy string
  | WsDial string string
  | PodLogs string string string
  | Sys string "string list"

text \<open>
  A call of the host system is its name with its arguments; it answers with a text, or with the
  entries of a directory, each with whether it is one itself. A refused \<^verbatim>\<open>Dial\<close> comes with what the
  server said, if it did: status code, status line, and body.
\<close>

datatype resp = RErr goerr | ROk | RObjs "kobj list" | RFrame int bytes
  | RText string
  | RDir "(string \<times> bool) list"
  | RDial goerr "(nat \<times> string \<times> (goerr + string)) option"

text \<open>
  The encoders, hashes and attestation functions of third-party packages. An endorsement key and
  the attestation data of a TPM are opaque strings; \<open>tpm_challenge n\<close> draws a fresh secret, and
  \<open>ek_certified\<close> says whether the key came in a certificate or bare, as a public key alone.
\<close>

record lib =
  json_strings :: "bytes \<Rightarrow> goerr + (string \<times> string) list"
  json_object :: "bytes \<Rightarrow> goerr + tdata"
  json_hostinfo :: "bytes \<Rightarrow> goerr + HostInfo option"
  yaml_config :: "Config \<Rightarrow> goerr + bytes"
  yaml_network :: "NetworkConfig \<Rightarrow> goerr + bytes"
  yaml_error :: "string \<Rightarrow> goerr + bytes"
  yaml_labels :: "string list \<Rightarrow> goerr + string"
  yaml_yip :: "YipConfig \<Rightarrow> goerr + string"
  plan_json :: "Plan \<Rightarrow> goerr + string"
  fmt_time :: "int \<Rightarrow> string"
  show_time :: "int \<Rightarrow> string"
  sha256_hex :: "string \<Rightarrow> string"
  tpm_data :: "string \<Rightarrow> goerr + string \<times> string"
  tpm_hash :: "string \<Rightarrow> goerr + string"
  tpm_challenge :: "nat \<Rightarrow> string \<Rightarrow> string \<Rightarrow> goerr + string \<times> bytes"
  tpm_validate :: "string \<Rightarrow> bytes \<Rightarrow> goerr option"
  ek_certified :: "string \<Rightarrow> bool"
  x509_verify :: "string option \<Rightarrow> string \<Rightarrow> goerr option"
  url_ok :: "string \<Rightarrow> bool"
  requirement_error :: "requirement \<Rightarrow> goerr option"
  to_yaml_object :: "string gomap \<Rightarrow> string list"
  yaml_value :: "string \<Rightarrow> goerr + string"
  yip_stages :: "string \<Rightarrow> goerr + nat"
  parse_duration :: "string \<Rightarrow> goerr + int"
  object_kinds :: "kobj \<Rightarrow> goerr + (string \<times> string) list"
  json_object_of :: "kobj \<Rightarrow> goerr + string"
  render_image :: "string gomap \<Rightarrow> goerr + string"
  render_json_syncer :: "string gomap \<Rightarrow> JSONSyncer \<Rightarrow> goerr + JSONSyncer"
  render_custom_syncer :: "string gomap \<Rightarrow> CustomSyncer \<Rightarrow> goerr + CustomSyncer"
  json_versions :: "string \<Rightarrow> goerr + ManagedOSVersion list"

text \<open>
  The environment: its answer to the newest call of a history, the clock (the n-th reading), the
  random source, and the third-party functions.
\<close>

record env =
  respond :: "call list \<Rightarrow> resp"
  clock :: "nat \<Rightarrow> int"
  rnd :: rand_src
  lib :: lib

text \<open>The state a handler runs in: the object it works on, and what it has done so far.\<close>

record 'o st =
  self :: 'o
  trace :: "call list"
  ticks :: nat
  draws :: nat

definition start :: "'o \<Rightarrow> 'o st" where
  "start x = \<lparr>self = x, trace = [], ticks = 0, draws = 0\<rparr>"

definition errDecode :: goerr where
  "errDecode = EMsg ''cannot decode the response''"

definition invoke :: "env \<Rightarrow> call \<Rightarrow> ('o st, resp) go" where
  "invoke env c = (\<lambda>s. let t = c # trace s; s' = s\<lparr>trace := t\<rparr> in
     case respond env t of RErr e \<Rightarrow> (Err e, s') | r \<Rightarrow> (Ok r, s'))"

definition now :: "env \<Rightarrow> ('o st, int) go" where
  "now env = (\<lambda>s. (Ok (clock env (ticks s)), s\<lparr>ticks := Suc (ticks s)\<rparr>))"

definition withRand :: "(nat, 'a) go \<Rightarrow> ('o st, 'a) go" where
  "withRand m = (\<lambda>s. case m (draws s) of (r, n) \<Rightarrow> (r, s\<lparr>draws := n\<rparr>))"

definition update :: "('o \<Rightarrow> 'o) \<Rightarrow> ('o st, unit) go" where
  "update f = modify (\<lambda>s. s\<lparr>self := f (self s)\<rparr>)"

text \<open>Running a handler for another object inside, with the same trace, clock and draws.\<close>

definition withSelf :: "'p \<Rightarrow> ('p st, 'a) go \<Rightarrow> ('o st, 'a \<times> 'p) go" where
  "withSelf x m = (\<lambda>s. case m \<lparr>self = x, trace = trace s, ticks = ticks s, draws = draws s\<rparr> of
      (r, t) \<Rightarrow> (case r of Ok v \<Rightarrow> Ok (v, self t) | Err e \<Rightarrow> Err e | Panic p \<Rightarrow> Panic p,
                 s\<lparr>trace := trace t, ticks := ticks t, draws := draws t\<rparr>))"

abbreviation this :: "('o st, 'o) go" where
  "this \<equiv> gets self"

section \<open>Typed calls\<close>

fun asReg :: "kobj \<Rightarrow> MachineRegistration option" where
  "asReg (OReg x) = Some x" | "asReg _ = None"

fun asInv :: "kobj \<Rightarrow> MachineInventory option" where
  "asInv (OInv x) = Some x" | "asInv _ = None"

fun asSel :: "kobj \<Rightarrow> MachineInventorySelector option" where
  "asSel (OSel x) = Some x" | "asSel _ = None"

fun asSeed :: "kobj \<Rightarrow> SeedImage option" where
  "asSeed (OSeed x) = Some x" | "asSeed _ = None"

fun asSecret :: "kobj \<Rightarrow> Secret option" where
  "asSecret (OSecret x) = Some x" | "asSecret _ = None"

fun asSA :: "kobj \<Rightarrow> ServiceAccount option" where
  "asSA (OSA x) = Some x" | "asSA _ = None"

fun asClaim :: "kobj \<Rightarrow> IPAddressClaim option" where
  "asClaim (OClaim x) = Some x" | "asClaim _ = None"

fun asAddr :: "kobj \<Rightarrow> IPAddress option" where
  "asAddr (OAddr x) = Some x" | "asAddr _ = None"

fun asSetting :: "kobj \<Rightarrow> Setting option" where
  "asSetting (OSetting x) = Some x" | "asSetting _ = None"

fun asMachine :: "kobj \<Rightarrow> Machine option" where
  "asMachine (OMachine x) = Some x" | "asMachine _ = None"

fun asService :: "kobj \<Rightarrow> Service option" where
  "asService (OService x) = Some x" | "asService _ = None"

fun asConfigMap :: "kobj \<Rightarrow> ConfigMap option" where
  "asConfigMap (OConfigMap x) = Some x" | "asConfigMap _ = None"

fun asPod :: "kobj \<Rightarrow> Pod option" where
  "asPod (OPod x) = Some x" | "asPod _ = None"

fun asOSImage :: "kobj \<Rightarrow> ManagedOSImage option" where
  "asOSImage (OOSImage x) = Some x" | "asOSImage _ = None"

fun asBundle :: "kobj \<Rightarrow> Bundle option" where
  "asBundle (OBundle x) = Some x" | "asBundle _ = None"

fun asOSVersion :: "kobj \<Rightarrow> ManagedOSVersion option" where
  "asOSVersion (OOSVersion x) = Some x" | "asOSVersion _ = None"

fun asChannel :: "kobj \<Rightarrow> ManagedOSVersionChannel option" where
  "asChannel (OChannel x) = Some x" | "asChannel _ = None"

definition decodeOne :: "(kobj \<Rightarrow> 'x option) \<Rightarrow> resp \<Rightarrow> goerr + 'x" where
  "decodeOne as r = (case r of
      RObjs [x] \<Rightarrow> (case as x of Some y \<Rightarrow> Inr y | None \<Rightarrow> Inl errDecode)
    | _ \<Rightarrow> Inl errDecode)"

definition decodeAll :: "(kobj \<Rightarrow> 'x option) \<Rightarrow> resp \<Rightarrow> goerr + 'x list" where
  "decodeAll as r = (case r of
      RObjs xs \<Rightarrow> (case those (map as xs) of Some ys \<Rightarrow> Inr ys | None \<Rightarrow> Inl errDecode)
    | _ \<Rightarrow> Inl errDecode)"

definition getObj :: "env \<Rightarrow> kind \<Rightarrow> (kobj \<Rightarrow> 'x option) \<Rightarrow> string \<Rightarrow> string \<Rightarrow> ('o st, 'x) go" where
  "getObj env k as ns name = bnd (invoke env (CGet k ns name)) (\<lambda>r. lift_sum (decodeOne as r))"

definition listObj :: "env \<Rightarrow> kind \<Rightarrow> (kobj \<Rightarrow> 'x option) \<Rightarrow> string option
    \<Rightarrow> (string \<times> string \<times> string list) list \<Rightarrow> ('o st, 'x list) go" where
  "listObj env k as ns sel = bnd (invoke env (CList k ns sel)) (\<lambda>r. lift_sum (decodeAll as r))"

text \<open>
  A write that decodes the server's answer into the object it was given (\<open>old\<close>): an answer without
  a body leaves the object as it is. \<open>writeObj\<close> is a write whose answer the caller drops.
\<close>

definition putObj :: "env \<Rightarrow> call \<Rightarrow> (kobj \<Rightarrow> 'x option) \<Rightarrow> 'x \<Rightarrow> ('o st, 'x) go" where
  "putObj env c as old = bnd (invoke env c)
     (\<lambda>r. case r of ROk \<Rightarrow> ret old | _ \<Rightarrow> lift_sum (decodeOne as r))"

definition writeObj :: "env \<Rightarrow> call \<Rightarrow> ('o st, unit) go" where
  "writeObj env c = andThen (invoke env c) (ret ())"

text \<open>\<^verbatim>\<open>util.GetSettingsValue\<close>: the default stands for an empty value.\<close>

definition GetSettingsValue :: "env \<Rightarrow> string \<Rightarrow> ('o st, string) go" where
  "GetSettingsValue env name = bnd (getObj env KSetting asSetting [] name)
     (\<lambda>s. ret (if set_Value s = [] then set_Default s else set_Value s))"

text \<open>\<^verbatim>\<open>util.GetRancherCACert\<close>: an error reading the setting gives the empty string.\<close>

definition GetRancherCACert :: "env \<Rightarrow> ('o st, string) go" where
  "GetRancherCACert env = bnd (attempt (GetSettingsValue env ''cacerts''))
     (\<lambda>r. ret (case r of Inl e \<Rightarrow> [] | Inr v \<Rightarrow> v))"

section \<open>Rules\<close>

lemma wp_invoke [wp]: "wpre (invoke env c) Q s =
    (case respond env (c # trace s) of
       RErr e \<Rightarrow> Q (Err e) (s\<lparr>trace := c # trace s\<rparr>)
     | r \<Rightarrow> Q (Ok r) (s\<lparr>trace := c # trace s\<rparr>))"
  by (simp add: wpre_def invoke_def Let_def split: resp.split)

lemma wp_now [wp]: "wpre (now env) Q s = Q (Ok (clock env (ticks s))) (s\<lparr>ticks := Suc (ticks s)\<rparr>)"
  by (simp add: wpre_def now_def)

lemma wp_withRand [wp]: "wpre (withRand m) Q s = (case m (draws s) of (r, n) \<Rightarrow> Q r (s\<lparr>draws := n\<rparr>))"
  by (simp add: wpre_def withRand_def split: prod.split)

lemma wp_update [wp]: "wpre (update f) Q s = Q (Ok ()) (s\<lparr>self := f (self s)\<rparr>)"
  by (simp add: update_def wp_modify)

lemma run_invoke [run]: "invoke env c s = (case respond env (c # trace s) of
    RErr e \<Rightarrow> (Err e, s\<lparr>trace := c # trace s\<rparr>) | r \<Rightarrow> (Ok r, s\<lparr>trace := c # trace s\<rparr>))"
  by (simp add: invoke_def Let_def)

lemma run_now [run]: "now env s = (Ok (clock env (ticks s)), s\<lparr>ticks := Suc (ticks s)\<rparr>)"
  by (simp add: now_def)

lemma run_withRand [run]: "withRand m s = (case m (draws s) of (r, n) \<Rightarrow> (r, s\<lparr>draws := n\<rparr>))"
  by (simp add: withRand_def)

lemma run_update [run]: "update f s = (Ok (), s\<lparr>self := f (self s)\<rparr>)"
  by (simp add: update_def run_modify)

subsection \<open>What a handler calls\<close>

text \<open>
  \<open>emits P m\<close>: a run of \<open>m\<close> only adds calls that satisfy \<open>P\<close> to the trace, whatever its outcome
  and the environment.
\<close>

definition emits :: "(call \<Rightarrow> bool) \<Rightarrow> ('o st, 'a) go \<Rightarrow> bool" where
  "emits P m \<longleftrightarrow> (\<forall>s. \<exists>cs. trace (snd (m s)) = cs @ trace s \<and> list_all P cs)"

named_theorems emit \<open>introduction rules for the calls of a handler\<close>

lemma emitsD: "emits P m \<Longrightarrow> m s = (r, s') \<Longrightarrow> \<exists>cs. trace s' = cs @ trace s \<and> list_all P cs"
  unfolding emits_def by (metis snd_conv)

lemma emits_nil: "(\<And>s. trace (snd (m s)) = trace s) \<Longrightarrow> emits P m"
  by (auto simp: emits_def)

lemma emits_mono: "emits P m \<Longrightarrow> (\<And>c. P c \<Longrightarrow> Q c) \<Longrightarrow> emits Q m"
  unfolding emits_def by (metis list_all_iff)

lemma emits_bnd_gen:
  assumes "emits P m" and "\<And>x. emits P (k x)" and "\<And>e. emits P (h e)"
  shows "emits P (\<lambda>s. case m s of (Ok x, s') \<Rightarrow> k x s' | (Err e, s') \<Rightarrow> h e s' | (Panic p, s') \<Rightarrow> (Panic p, s'))"
    (is "emits P ?n")
  unfolding emits_def
proof
  fix s
  obtain r s' where m: "m s = (r, s')" by force
  with assms(1) obtain cs where cs: "trace s' = cs @ trace s" "list_all P cs"
    using emitsD by blast
  have "\<exists>ds. trace (snd (?n s)) = ds @ trace s' \<and> list_all P ds"
    using m assms(2,3) by (cases r) (auto simp: emits_def)
  with cs show "\<exists>cs. trace (snd (?n s)) = cs @ trace s \<and> list_all P cs"
    by (metis append_assoc list_all_append)
qed

lemma emits_ret [emit]: "emits P (ret x)"
  by (intro emits_nil) (simp add: run)

lemma emits_fail [emit]: "emits P (fail e)"
  by (intro emits_nil) (simp add: run)

lemma emits_crash [emit]: "emits P (crash p)"
  by (intro emits_nil) (simp add: run)

lemma emits_gets [emit]: "emits P (gets f)"
  by (intro emits_nil) (simp add: run)

lemma emits_update [emit]: "emits P (update f)"
  by (intro emits_nil) (simp add: run)

lemma emits_now [emit]: "emits P (now env)"
  by (intro emits_nil) (simp add: run)

lemma emits_withRand [emit]: "emits P (withRand m)"
  by (intro emits_nil) (simp add: run split: prod.split)

lemma emits_withSelf [emit]:
  assumes "emits P m"
  shows "emits P (withSelf x m)"
  unfolding emits_def
proof
  fix s :: "'o st"
  let ?s = "\<lparr>self = x, trace = trace s, ticks = ticks s, draws = draws s\<rparr>"
  obtain cs where "trace (snd (m ?s)) = cs @ trace ?s" "list_all P cs"
    using assms unfolding emits_def by blast
  then show "\<exists>cs. trace (snd (withSelf x m s)) = cs @ trace s \<and> list_all P cs"
    by (auto simp: withSelf_def case_prod_beta)
qed

lemma emits_invoke [emit]: "P c \<Longrightarrow> emits P (invoke env c)"
  unfolding emits_def
  by (rule allI, rule exI [of _ "[c]"]) (simp add: run split: resp.split)

lemma emits_bnd [emit]: "emits P m \<Longrightarrow> (\<And>x. emits P (k x)) \<Longrightarrow> emits P (bnd m k)"
  unfolding bnd_def by (rule emits_bnd_gen) (auto intro: emits_nil)

lemma emits_andThen [emit]: "emits P m \<Longrightarrow> emits P k \<Longrightarrow> emits P (andThen m k)"
  unfolding andThen_def by (rule emits_bnd)

lemma emits_onErr [emit]: "emits P m \<Longrightarrow> (\<And>e. emits P (h e)) \<Longrightarrow> emits P (onErr m h)"
  unfolding onErr_def by (rule emits_bnd_gen) (auto intro: emits_nil)

lemma emits_attempt [emit]: "emits P m \<Longrightarrow> emits P (attempt m)"
  unfolding attempt_def by (rule emits_bnd_gen) (auto intro: emits_nil)

lemma emits_orWrap [emit]: "emits P m \<Longrightarrow> emits P (orWrap m msg)"
  unfolding orWrap_def by (intro emits_onErr emits_fail)

lemma emits_lift_sum [emit]: "emits P (lift_sum r)"
  by (simp add: lift_sum_def emits_ret emits_fail split: sum.split)

lemma emits_lift_outcome [emit]: "emits P (lift_outcome r)"
  by (intro emits_nil) (simp add: run)

lemma emits_whenM [emit]: "emits P m \<Longrightarrow> emits P (whenM b m)"
  by (simp add: whenM_def emits_ret)

lemma emits_if [emit]: "(b \<Longrightarrow> emits P m) \<Longrightarrow> (\<not> b \<Longrightarrow> emits P n) \<Longrightarrow> emits P (if b then m else n)"
  by simp

lemma emits_option [emit]: "emits P m \<Longrightarrow> (\<And>x. y = Some x \<Longrightarrow> emits P (k x)) \<Longrightarrow>
    emits P (case y of None \<Rightarrow> m | Some x \<Rightarrow> k x)"
  by (simp split: option.split)

lemma emits_sum [emit]: "(\<And>e. emits P (h e)) \<Longrightarrow> (\<And>x. emits P (k x)) \<Longrightarrow>
    emits P (case r of Inl e \<Rightarrow> h e | Inr x \<Rightarrow> k x)"
  by (simp split: sum.split)

lemma emits_prod [emit]: "(\<And>x y. emits P (k x y)) \<Longrightarrow> emits P (case p of (x, y) \<Rightarrow> k x y)"
  by (simp split: prod.split)

lemma emits_let [emit]: "emits P (k v) \<Longrightarrow> emits P (let x = v in k x)"
  by simp

lemma emits_forEach [emit]: "(\<And>x. x \<in> set xs \<Longrightarrow> emits P (f x)) \<Longrightarrow> emits P (forEach f xs)"
  by (induction xs) (auto intro: emits_ret emits_andThen)

lemma emits_getObj [emit]: "P (CGet k ns name) \<Longrightarrow> emits P (getObj env k as ns name)"
  unfolding getObj_def by (intro emit)

lemma emits_listObj [emit]: "P (CList k ns sel) \<Longrightarrow> emits P (listObj env k as ns sel)"
  unfolding listObj_def by (intro emit)

lemma emits_putObj [emit]: "P c \<Longrightarrow> emits P (putObj env c as old)"
  unfolding putObj_def by (intro emit) (auto intro: emit split: resp.split)

lemma emits_writeObj [emit]: "P c \<Longrightarrow> emits P (writeObj env c)"
  unfolding writeObj_def by (intro emit)

lemma emits_Settings [emit]: "P (CGet KSetting [] name) \<Longrightarrow> emits P (GetSettingsValue env name)"
  unfolding GetSettingsValue_def by (intro emit)

lemma emits_CACert [emit]: "P (CGet KSetting [] ''cacerts'') \<Longrightarrow> emits P (GetRancherCACert env)"
  unfolding GetRancherCACert_def by (intro emit)

subsection \<open>Answers\<close>

text \<open>The typed answer to a call after a history; the rules for typed calls branch on it only.\<close>

definition answer :: "env \<Rightarrow> (resp \<Rightarrow> goerr + 'x) \<Rightarrow> call \<Rightarrow> call list \<Rightarrow> goerr + 'x" where
  "answer env dec c t = (case respond env (c # t) of RErr e \<Rightarrow> Inl e | r \<Rightarrow> dec r)"

definition decodePut :: "(kobj \<Rightarrow> 'x option) \<Rightarrow> 'x \<Rightarrow> resp \<Rightarrow> goerr + 'x" where
  "decodePut as old r = (case r of ROk \<Rightarrow> Inr old | _ \<Rightarrow> decodeOne as r)"

definition decodeAny :: "resp \<Rightarrow> goerr + unit" where
  "decodeAny r = Inr ()"

lemma bnd_invoke_answer:
  "wpre (bnd (invoke env c) (\<lambda>r. lift_sum (dec r))) Q s =
     (case answer env dec c (trace s) of Inl e \<Rightarrow> Q (Err e) (s\<lparr>trace := c # trace s\<rparr>)
      | Inr x \<Rightarrow> Q (Ok x) (s\<lparr>trace := c # trace s\<rparr>))"
  by (simp add: wp answer_def split: resp.split)

lemma wp_getObj [wp]: "wpre (getObj env k as ns name) Q s =
    (case answer env (decodeOne as) (CGet k ns name) (trace s) of
       Inl e \<Rightarrow> Q (Err e) (s\<lparr>trace := CGet k ns name # trace s\<rparr>)
     | Inr x \<Rightarrow> Q (Ok x) (s\<lparr>trace := CGet k ns name # trace s\<rparr>))"
  by (simp add: getObj_def bnd_invoke_answer)

lemma wp_listObj [wp]: "wpre (listObj env k as ns sel) Q s =
    (case answer env (decodeAll as) (CList k ns sel) (trace s) of
       Inl e \<Rightarrow> Q (Err e) (s\<lparr>trace := CList k ns sel # trace s\<rparr>)
     | Inr x \<Rightarrow> Q (Ok x) (s\<lparr>trace := CList k ns sel # trace s\<rparr>))"
  by (simp add: listObj_def bnd_invoke_answer)

lemma putObj_alt: "putObj env c as old = bnd (invoke env c) (\<lambda>r. lift_sum (decodePut as old r))"
  unfolding putObj_def decodePut_def
  by (rule arg_cong [where f = "bnd (invoke env c)"], rule ext)
    (simp add: lift_sum_def split: resp.split)

lemma wp_putObj [wp]: "wpre (putObj env c as old) Q s =
    (case answer env (decodePut as old) c (trace s) of
       Inl e \<Rightarrow> Q (Err e) (s\<lparr>trace := c # trace s\<rparr>)
     | Inr x \<Rightarrow> Q (Ok x) (s\<lparr>trace := c # trace s\<rparr>))"
  by (simp add: putObj_alt bnd_invoke_answer)

lemma wp_writeObj [wp]: "wpre (writeObj env c) Q s =
    (case answer env decodeAny c (trace s) of
       Inl e \<Rightarrow> Q (Err e) (s\<lparr>trace := c # trace s\<rparr>)
     | Inr x \<Rightarrow> Q (Ok ()) (s\<lparr>trace := c # trace s\<rparr>))"
  by (simp add: writeObj_def wp answer_def decodeAny_def split: resp.split)

text \<open>The same as equations for a run.\<close>

lemma run_wp: "(\<And>Q. wpre m Q s = Q r s') \<Longrightarrow> m s = (r, s')"
proof -
  assume "\<And>Q. wpre m Q s = Q r s'"
  then have "wpre m (\<lambda>a b. a = r \<and> b = s') s" by simp
  then show ?thesis by (simp add: wpre_def split: prod.splits)
qed

lemma run_getObj [run]: "getObj env k as ns name s =
    (case answer env (decodeOne as) (CGet k ns name) (trace s) of Inl e \<Rightarrow> Err e | Inr x \<Rightarrow> Ok x,
     s\<lparr>trace := CGet k ns name # trace s\<rparr>)"
  by (rule run_wp) (simp add: wp_getObj split: sum.split)

lemma run_listObj [run]: "listObj env k as ns sel s =
    (case answer env (decodeAll as) (CList k ns sel) (trace s) of Inl e \<Rightarrow> Err e | Inr x \<Rightarrow> Ok x,
     s\<lparr>trace := CList k ns sel # trace s\<rparr>)"
  by (rule run_wp) (simp add: wp_listObj split: sum.split)

lemma run_putObj [run]: "putObj env c as old s =
    (case answer env (decodePut as old) c (trace s) of Inl e \<Rightarrow> Err e | Inr x \<Rightarrow> Ok x,
     s\<lparr>trace := c # trace s\<rparr>)"
  by (rule run_wp) (simp add: wp_putObj split: sum.split)

lemma run_writeObj [run]: "writeObj env c s =
    (case answer env decodeAny c (trace s) of Inl e \<Rightarrow> Err e | Inr x \<Rightarrow> Ok (),
     s\<lparr>trace := c # trace s\<rparr>)"
  by (rule run_wp) (simp add: wp_writeObj split: sum.split)

section \<open>An environment for examples\<close>

text \<open>
  Every read finds nothing, every write is accepted without a body, the peer's frames are given as
  a list (and end in an error), the clock is a counter of seconds.
\<close>

definition demo_lib :: lib where
  "demo_lib = \<lparr>json_strings = (\<lambda>_. Inr []), json_object = (\<lambda>_. Inr []), json_hostinfo = (\<lambda>_. Inr None),
     yaml_config = (\<lambda>_. Inr [1]), yaml_network = (\<lambda>_. Inr [2]), yaml_error = (\<lambda>_. Inr [3]),
     yaml_labels = (\<lambda>_. Inr ''labels''), yaml_yip = (\<lambda>_. Inr ''yip''), plan_json = (\<lambda>_. Inr ''plan''),
     fmt_time = show_int, show_time = show_int, sha256_hex = id, tpm_data = (\<lambda>h. Inr (h, [])), tpm_hash = Inr,
     tpm_challenge = (\<lambda>n ek att. Inr ([], [])), tpm_validate = (\<lambda>_ _. None),
     ek_certified = (\<lambda>_. True), x509_verify = (\<lambda>_ _. None), url_ok = (\<lambda>_. True),
     requirement_error = (\<lambda>_. None), to_yaml_object = (\<lambda>_. [''object'']), yaml_value = Inr,
     yip_stages = (\<lambda>_. Inr 0), parse_duration = (\<lambda>_. Inr 3600000000000),
     object_kinds = (\<lambda>x. Inr [(''v1'', ''Kind'')]), json_object_of = (\<lambda>_. Inr ''json''),
     render_image = (\<lambda>m. Inr (mstr m ''upgradeImage'')), render_json_syncer = (\<lambda>_. Inr),
     render_custom_syncer = (\<lambda>_. Inr), json_versions = (\<lambda>_. Inr [])\<rparr>"

definition notFound :: resp where
  "notFound = RErr (EApi NotFound ''not found'')"

definition demo_respond :: "(call \<Rightarrow> resp option) \<Rightarrow> bytes list \<Rightarrow> call list \<Rightarrow> resp" where
  "demo_respond known frames t = (case t of
      [] \<Rightarrow> ROk
    | c # past \<Rightarrow> (case known c of Some r \<Rightarrow> r | None \<Rightarrow>
       (case c of
          CGet _ _ _ \<Rightarrow> notFound
        | CList _ _ _ \<Rightarrow> RObjs []
        | WsRead \<Rightarrow> (let n = length (filter (\<lambda>c. c = WsRead) past) in
            if n < length frames then RFrame 2 (frames ! n) else RErr (EMsg ''closed''))
        | _ \<Rightarrow> ROk)))"

definition demo_env :: "(call \<Rightarrow> resp option) \<Rightarrow> bytes list \<Rightarrow> env" where
  "demo_env known frames = \<lparr>respond = demo_respond known frames, clock = (\<lambda>n. 1000000000 * (1 + int n)),
     rnd = demo_src, lib = demo_lib\<rparr>"

section \<open>Safety of handlers\<close>

text \<open>
  \<open>safe I E m\<close>: from a state whose object satisfies \<open>I\<close>, a run of \<open>m\<close> keeps \<open>I\<close>, whatever its
  outcome, and panics, if at all, with a message of \<open>E\<close>.
\<close>

named_theorems safety \<open>introduction rules for handlers that keep an invariant and do not panic\<close>

definition safe :: "('o \<Rightarrow> bool) \<Rightarrow> string set \<Rightarrow> ('o st, 'a) go \<Rightarrow> bool" where
  "safe I E m \<longleftrightarrow> (\<forall>s. I (self s) \<longrightarrow> wpre m (\<lambda>r s'. I (self s') \<and> (\<forall>p. r = Panic p \<longrightarrow> p \<in> E)) s)"

lemma safeI: "(\<And>s. I (self s) \<Longrightarrow> wpre m (\<lambda>r s'. I (self s') \<and> (\<forall>p. r = Panic p \<longrightarrow> p \<in> E)) s) \<Longrightarrow> safe I E m"
  by (simp add: safe_def)

lemma safeD: "safe I E m \<Longrightarrow> I (self s) \<Longrightarrow> wpre m (\<lambda>r s'. I (self s') \<and> (\<forall>p. r = Panic p \<longrightarrow> p \<in> E)) s"
  by (simp add: safe_def)

lemma safe_ret [safety]: "safe I E (ret x)"
  by (simp add: safe_def wp)

lemma safe_fail [safety]: "safe I E (fail e)"
  by (simp add: safe_def wp)

lemma safe_crash [safety]: "p \<in> E \<Longrightarrow> safe I E (crash p)"
  by (simp add: safe_def wp)

lemma safe_gets [safety]: "safe I E (gets f)"
  by (simp add: safe_def wp)

lemma safe_now [safety]: "safe I E (now env)"
  by (simp add: safe_def wp)

lemma safe_invoke [safety]: "safe I E (invoke env c)"
  by (simp add: safe_def wp split: resp.split)

lemma safe_update [safety]: "(\<And>x. I x \<Longrightarrow> I (f x)) \<Longrightarrow> safe I E (update f)"
  by (simp add: safe_def wp)

lemma safe_withRand [safety]: "(\<And>n p. fst (m n) \<noteq> Panic p) \<Longrightarrow> safe I E (withRand m)"
  by (auto simp: safe_def wp split: prod.split) (metis fst_conv)

lemma safe_bnd [safety]:
  assumes "safe I E m" and "\<And>x. safe I E (k x)"
  shows "safe I E (bnd m k)"
proof (rule safeI)
  fix s :: "'a st" assume "I (self s)"
  with assms(1) have "wpre m (\<lambda>r s'. I (self s') \<and> (\<forall>p. r = Panic p \<longrightarrow> p \<in> E)) s" by (rule safeD)
  then show "wpre (bnd m k) (\<lambda>r s'. I (self s') \<and> (\<forall>p. r = Panic p \<longrightarrow> p \<in> E)) s"
    unfolding wp_bnd by (rule wpre_mono) (auto dest: safeD [OF assms(2)] split: outcome.split)
qed

lemma safe_onErr [safety]:
  assumes "safe I E m" and "\<And>e. safe I E (h e)"
  shows "safe I E (onErr m h)"
proof (rule safeI)
  fix s :: "'a st" assume "I (self s)"
  with assms(1) have "wpre m (\<lambda>r s'. I (self s') \<and> (\<forall>p. r = Panic p \<longrightarrow> p \<in> E)) s" by (rule safeD)
  then show "wpre (onErr m h) (\<lambda>r s'. I (self s') \<and> (\<forall>p. r = Panic p \<longrightarrow> p \<in> E)) s"
    unfolding wp_onErr by (rule wpre_mono) (auto dest: safeD [OF assms(2)] split: outcome.split)
qed

lemma safe_andThen [safety]: "safe I E m \<Longrightarrow> safe I E k \<Longrightarrow> safe I E (andThen m k)"
  by (simp add: andThen_def safe_bnd)

lemma safe_attempt [safety]: "safe I E m \<Longrightarrow> safe I E (attempt m)"
proof (rule safeI)
  fix s :: "'a st" assume "safe I E m" and "I (self s)"
  then have "wpre m (\<lambda>r s'. I (self s') \<and> (\<forall>p. r = Panic p \<longrightarrow> p \<in> E)) s" by (rule safeD)
  then show "wpre (attempt m) (\<lambda>r s'. I (self s') \<and> (\<forall>p. r = Panic p \<longrightarrow> p \<in> E)) s"
    unfolding wp_attempt by (rule wpre_mono) (auto split: outcome.split)
qed

lemma safe_orWrap [safety]: "safe I E m \<Longrightarrow> safe I E (orWrap m msg)"
  by (simp add: orWrap_def safe_onErr safe_fail)

lemma safe_lift_sum [safety]: "safe I E (lift_sum r)"
  by (simp add: lift_sum_def safe_ret safe_fail split: sum.split)

lemma safe_whenM [safety]: "safe I E m \<Longrightarrow> safe I E (whenM b m)"
  by (simp add: whenM_def safe_ret)

lemma safe_if [safety]: "(b \<Longrightarrow> safe I E m) \<Longrightarrow> (\<not> b \<Longrightarrow> safe I E n) \<Longrightarrow> safe I E (if b then m else n)"
  by simp

lemma safe_lift_outcome [safety]: "(\<And>p. r = Panic p \<Longrightarrow> p \<in> E) \<Longrightarrow> safe I E (lift_outcome r)"
  by (cases r) (simp_all add: safe_def wp)

lemma safe_option [safety]: "(y = None \<Longrightarrow> safe I E m) \<Longrightarrow> (\<And>x. y = Some x \<Longrightarrow> safe I E (k x)) \<Longrightarrow>
    safe I E (case y of None \<Rightarrow> m | Some x \<Rightarrow> k x)"
  by (simp split: option.split)

lemma safe_sum [safety]: "(\<And>e. safe I E (h e)) \<Longrightarrow> (\<And>x. safe I E (k x)) \<Longrightarrow>
    safe I E (case r of Inl e \<Rightarrow> h e | Inr x \<Rightarrow> k x)"
  by (simp split: sum.split)

lemma safe_prod [safety]: "(\<And>x y. safe I E (k x y)) \<Longrightarrow> safe I E (case p of (x, y) \<Rightarrow> k x y)"
  by (simp split: prod.split)

lemma safe_let [safety]: "safe I E (k v) \<Longrightarrow> safe I E (let x = v in k x)"
  by simp

text \<open>Reading the object gives a value that satisfies the invariant.\<close>

lemma safe_this: "(\<And>x. I x \<Longrightarrow> safe I E (k x)) \<Longrightarrow> safe I E (bnd this k)"
  by (auto simp: safe_def wp)

lemma safe_weaken: "safe I E m \<Longrightarrow> E \<subseteq> F \<Longrightarrow> safe I F m"
proof (rule safeI)
  fix s :: "'a st" assume "safe I E m" and "E \<subseteq> F" and "I (self s)"
  from safeD [OF this(1,3)] show "wpre m (\<lambda>r s'. I (self s') \<and> (\<forall>p. r = Panic p \<longrightarrow> p \<in> F)) s"
    by (rule wpre_mono) (use \<open>E \<subseteq> F\<close> in blast)
qed

text \<open>A stronger invariant that the first part establishes can be used in the second.\<close>

lemma safe_then:
  assumes "\<And>s. I (self s) \<Longrightarrow> wpre m (\<lambda>r s'. case r of
      Ok _ \<Rightarrow> J (self s') | Err e \<Rightarrow> I (self s') | Panic p \<Rightarrow> I (self s') \<and> p \<in> E) s"
    and "safe J E k" and "\<And>x. J x \<Longrightarrow> I x"
  shows "safe I E (andThen m k)"
proof (rule safeI)
  fix s :: "'a st" assume "I (self s)"
  then have "wpre m (\<lambda>r s'. case r of
      Ok _ \<Rightarrow> J (self s') | Err e \<Rightarrow> I (self s') | Panic p \<Rightarrow> I (self s') \<and> p \<in> E) s" by (rule assms(1))
  then show "wpre (andThen m k) (\<lambda>r s'. I (self s') \<and> (\<forall>p. r = Panic p \<longrightarrow> p \<in> E)) s"
  proof (rule wpre_andThenI)
    fix x and s' :: "'a st"
    assume "case Ok x of Ok _ \<Rightarrow> J (self s') | Err e \<Rightarrow> I (self s') | Panic p \<Rightarrow> I (self s') \<and> p \<in> E"
    then have "J (self s')" by simp
    with assms(2) have "wpre k (\<lambda>r s'. J (self s') \<and> (\<forall>p. r = Panic p \<longrightarrow> p \<in> E)) s'" by (rule safeD)
    then show "wpre k (\<lambda>r s'. I (self s') \<and> (\<forall>p. r = Panic p \<longrightarrow> p \<in> E)) s'"
      by (rule wpre_mono) (auto intro: assms(3))
  qed auto
qed

lemma safe_forEach [safety]: "(\<And>x. x \<in> set xs \<Longrightarrow> safe I E (f x)) \<Longrightarrow> safe I E (forEach f xs)"
  by (induction xs) (auto intro: safe_ret safe_andThen)

lemma safe_getObj [safety]: "safe I E (getObj env k as ns name)"
  unfolding getObj_def by (intro safety)

lemma safe_listObj [safety]: "safe I E (listObj env k as ns sel)"
  unfolding listObj_def by (intro safety)

lemma safe_putObj [safety]: "safe I E (putObj env c as old)"
  unfolding putObj_alt by (intro safety)

lemma safe_writeObj [safety]: "safe I E (writeObj env c)"
  unfolding writeObj_def by (intro safety)

lemma safe_Settings [safety]: "safe I E (GetSettingsValue env name)"
  unfolding GetSettingsValue_def by (intro safety)

lemma safe_CACert [safety]: "safe I E (GetRancherCACert env)"
  unfolding GetRancherCACert_def by (intro safety)

section \<open>Counting writes\<close>

fun isWrite :: "call \<Rightarrow> bool" where
  "isWrite (CCreate _) = True"
| "isWrite (CUpdate _) = True"
| "isWrite (CPatch _ _ _) = True"
| "isWrite (CStatusPatch _ _ _) = True"
| "isWrite (CDelete _) = True"
| "isWrite _ = False"

definition writes :: "call list \<Rightarrow> nat" where
  "writes cs = length (filter isWrite cs)"

lemma writes_simps [simp]:
  "writes [] = 0" "writes (c # cs) = (if isWrite c then Suc (writes cs) else writes cs)"
  "writes (cs @ ds) = writes cs + writes ds"
  by (simp_all add: writes_def)

definition maxWrites :: "nat \<Rightarrow> ('o st, 'a) go \<Rightarrow> bool" where
  "maxWrites n m \<longleftrightarrow> (\<forall>s. \<exists>cs. trace (snd (m s)) = cs @ trace s \<and> writes cs \<le> n)"

lemma maxWrites_emits: "emits (\<lambda>c. \<not> isWrite c) m \<Longrightarrow> maxWrites n m"
proof -
  have "list_all (\<lambda>c. \<not> isWrite c) cs \<Longrightarrow> writes cs = 0" for cs
    by (induction cs) auto
  then show "emits (\<lambda>c. \<not> isWrite c) m \<Longrightarrow> maxWrites n m"
    unfolding emits_def maxWrites_def by (metis le0)
qed

lemma maxWrites_nil: "(\<And>s. trace (snd (m s)) = trace s) \<Longrightarrow> maxWrites n m"
  by (intro maxWrites_emits emits_nil)

lemma maxWrites_case:
  assumes "maxWrites i m" and "\<And>x. maxWrites j (k x)" and "\<And>e. maxWrites j (h e)" and "i + j \<le> n"
  shows "maxWrites n (\<lambda>s. case m s of (Ok x, s') \<Rightarrow> k x s' | (Err e, s') \<Rightarrow> h e s' | (Panic p, s') \<Rightarrow> (Panic p, s'))"
    (is "maxWrites n ?n")
  unfolding maxWrites_def
proof
  fix s
  obtain r s' where m: "m s = (r, s')" by force
  with assms(1) obtain cs where cs: "trace s' = cs @ trace s" "writes cs \<le> i"
    unfolding maxWrites_def by (metis snd_conv)
  have "\<exists>ds. trace (snd (?n s)) = ds @ trace s' \<and> writes ds \<le> j"
    using m assms(2,3) by (cases r) (auto simp: maxWrites_def)
  then obtain ds where ds: "trace (snd (?n s)) = ds @ trace s'" "writes ds \<le> j" by blast
  with cs assms(4) show "\<exists>cs. trace (snd (?n s)) = cs @ trace s \<and> writes cs \<le> n"
    by (intro exI [of _ "ds @ cs"]) simp
qed

lemma maxWrites_bnd: "maxWrites i m \<Longrightarrow> (\<And>x. maxWrites j (k x)) \<Longrightarrow> i + j \<le> n \<Longrightarrow> maxWrites n (bnd m k)"
  unfolding bnd_def by (rule maxWrites_case) (auto intro: maxWrites_nil)

lemma maxWrites_andThen: "maxWrites i m \<Longrightarrow> maxWrites j k \<Longrightarrow> i + j \<le> n \<Longrightarrow> maxWrites n (andThen m k)"
  unfolding andThen_def by (rule maxWrites_bnd)

lemma maxWrites_onErr: "maxWrites i m \<Longrightarrow> (\<And>x. maxWrites j (h x)) \<Longrightarrow> i + j \<le> n \<Longrightarrow> maxWrites n (onErr m h)"
  unfolding onErr_def by (rule maxWrites_case) (auto intro: maxWrites_nil)

lemma maxWrites_mono: "maxWrites i m \<Longrightarrow> i \<le> n \<Longrightarrow> maxWrites n m"
  unfolding maxWrites_def by (meson le_trans)

lemma maxWrites_putObj: "1 \<le> n \<Longrightarrow> maxWrites n (putObj env c as old)"
  unfolding maxWrites_def
  by (rule allI, rule exI [of _ "[c]"]) (simp add: run)

end
