(* ===== verification/Reconciler.thy ===== *)
theory Reconciler
  imports Kube
begin

text \<open>
  What the reconcilers under \<^verbatim>\<open>controllers/\<close> have in common: \<^verbatim>\<open>ctrl.Result\<close>, the setting of status
  conditions, and the frame of \<^verbatim>\<open>Reconcile\<close>, which is the same code in each: get the object,
  drop its invalid conditions, run \<^verbatim>\<open>reconcile\<close>, patch the object, put back the status that the
  answer to the patch has overwritten, patch the status, and return the errors together.
\<close>

section \<open>Results and conditions\<close>

record result =
  res_Requeue :: bool
  res_RequeueAfter :: int

definition noResult :: result where
  "noResult = \<lparr>res_Requeue = False, res_RequeueAfter = 0\<rparr>"

definition second :: int where
  "second = 1000000000"

definition requeueAfter :: "int \<Rightarrow> result" where
  "requeueAfter d = \<lparr>res_Requeue = False, res_RequeueAfter = d\<rparr>"

definition requeue :: result where
  "requeue = \<lparr>res_Requeue = True, res_RequeueAfter = 0\<rparr>"

text \<open>\<^verbatim>\<open>meta.SetStatusCondition\<close> on the conditions that \<open>upd\<close> finds in the object, at the clock's time.\<close>

definition setCond :: "env \<Rightarrow> ((Condition list \<Rightarrow> Condition list) \<Rightarrow> 'o \<Rightarrow> 'o) \<Rightarrow> Condition \<Rightarrow> ('o st, unit) go" where
  "setCond env upd c = bnd (now env) (\<lambda>t. update (upd (SetStatusCondition t c)))"

lemma wp_setCond [wp]: "wpre (setCond env upd c) Q s = Q (Ok ())
    (s\<lparr>ticks := Suc (ticks s), self := upd (SetStatusCondition (clock env (ticks s)) c) (self s)\<rparr>)"
  by (simp add: setCond_def wp)

lemma emits_setCond [emit]: "emits P (setCond env upd c)"
  unfolding setCond_def by (intro emit)

lemma safe_setCond [safety]: "(\<And>t x. I x \<Longrightarrow> I (upd (SetStatusCondition t c) x)) \<Longrightarrow> safe I E (setCond env upd c)"
  unfolding setCond_def by (intro safety) simp

section \<open>The frame of Reconcile\<close>

text \<open>
  A reconciled resource: its kind, its name in messages, its place among the objects of the API
  server, \<open>rc_restore x y\<close>, which is \<open>y\<close> with the status of \<open>x\<close>, the sanitising of its conditions,
  whether its patches demand the version that was read, and the errors of the two patches that are
  no errors.
\<close>

record 'x resource =
  rc_kind :: kind
  rc_name :: string
  rc_inj :: "'x \<Rightarrow> kobj"
  rc_as :: "kobj \<Rightarrow> 'x option"
  rc_restore :: "'x \<Rightarrow> 'x \<Rightarrow> 'x"
  rc_sanitize :: "'x \<Rightarrow> 'x"
  rc_lock :: bool
  rc_okPatch :: "goerr \<Rightarrow> bool"
  rc_okStatus :: "goerr \<Rightarrow> bool"

definition patchError :: "(goerr \<Rightarrow> bool) \<Rightarrow> string \<Rightarrow> goerr + unit \<Rightarrow> goerr list" where
  "patchError ok msg r = (case r of Inl e \<Rightarrow> if ok e then [] else [wrap msg e] | Inr _ \<Rightarrow> [])"

definition patchSelf :: "env \<Rightarrow> 'x resource \<Rightarrow> (kobj \<Rightarrow> call) \<Rightarrow> ('x st, unit) go" where
  "patchSelf env d c = bnd this (\<lambda>x. bnd (putObj env (c (rc_inj d x)) (rc_as d) x) (\<lambda>y. update (\<lambda>_. y)))"

definition patchBoth :: "env \<Rightarrow> 'x resource \<Rightarrow> 'x \<Rightarrow> ('x st, goerr list) go" where
  "patchBoth env d base = bnd this (\<lambda>x.
     bnd (attempt (patchSelf env d (CPatch (rc_lock d) (rc_inj d base)))) (\<lambda>r1.
     andThen (update (rc_restore d x))
    (bnd (attempt (patchSelf env d (CStatusPatch (rc_lock d) (rc_inj d base)))) (\<lambda>r2.
     ret (patchError (rc_okPatch d) (''failed to patch '' @ rc_name d @ '' object'') r1
        @ patchError (rc_okStatus d) (''failed to patch status for '' @ rc_name d @ '' object'') r2)))))"

definition runReconcile :: "env \<Rightarrow> 'x resource \<Rightarrow> ('x st, result) go \<Rightarrow> string \<Rightarrow> string \<Rightarrow> ('o st, result) go" where
  "runReconcile env d rec ns nm =
     bnd (attempt (getObj env (rc_kind d) (rc_as d) ns nm)) (\<lambda>r. case r of
       Inl e \<Rightarrow> if isNotFound e then ret noResult
               else fail (wrap (''failed to get '' @ rc_name d @ '' object'') e)
     | Inr x \<Rightarrow>
         bnd (withSelf (rc_sanitize d x)
               (bnd (attempt rec) (\<lambda>r.
                bnd (patchBoth env d x) (\<lambda>errs.
                ret (case r of
                       Inl e \<Rightarrow> (noResult, wrap (''error reconciling '' @ rc_name d @ '' object'') e # errs)
                     | Inr v \<Rightarrow> (v, errs))))))
           (\<lambda>((res, errs), _). if errs \<noteq> [] then fail (EAgg errs) else ret res))"

section \<open>Its laws\<close>

text \<open>The state in which \<^verbatim>\<open>reconcile\<close> starts.\<close>

definition enter :: "'o st \<Rightarrow> 'x resource \<Rightarrow> string \<Rightarrow> string \<Rightarrow> 'x \<Rightarrow> 'x st" where
  "enter s d ns nm x = \<lparr>self = rc_sanitize d x, trace = CGet (rc_kind d) ns nm # trace s,
     ticks = ticks s, draws = draws s\<rparr>"

text \<open>
  Whatever \<^verbatim>\<open>reconcile\<close> returned, the last two calls are the patch of the object it left and the
  patch of a status, the one it left: an answer to the first patch cannot change it.
\<close>

definition patchedBack :: "'x resource \<Rightarrow> 'x \<Rightarrow> 'x st \<Rightarrow> call list \<Rightarrow> bool" where
  "patchedBack d x t tr \<longleftrightarrow> (\<exists>y. tr =
     CStatusPatch (rc_lock d) (rc_inj d x) (rc_inj d (rc_restore d (self t) y))
     # CPatch (rc_lock d) (rc_inj d x) (rc_inj d (self t)) # trace t)"

lemma wp_patchSelf: "wpre (patchSelf env d c) Q s =
    (case answer env (decodePut (rc_as d) (self s)) (c (rc_inj d (self s))) (trace s) of
       Inl e \<Rightarrow> Q (Err e) (s\<lparr>trace := c (rc_inj d (self s)) # trace s\<rparr>)
     | Inr y \<Rightarrow> Q (Ok ()) (s\<lparr>trace := c (rc_inj d (self s)) # trace s, self := y\<rparr>))"
  by (simp add: patchSelf_def wp split: sum.split)

lemma patchBoth_patches: "wpre (patchBoth env d x) (\<lambda>r s'. (\<exists>errs. r = Ok errs) \<and> patchedBack d x s (trace s')) s"
  by (auto simp: patchBoth_def wp wp_patchSelf patchedBack_def split: sum.split)

lemma runReconcile_shape:
  "case answer env (decodeOne (rc_as d)) (CGet (rc_kind d) ns nm) (trace s) of
     Inl e \<Rightarrow> runReconcile env d rec ns nm s =
       (if isNotFound e then Ok noResult else Err (wrap (''failed to get '' @ rc_name d @ '' object'') e),
        s\<lparr>trace := CGet (rc_kind d) ns nm # trace s\<rparr>)
   | Inr x \<Rightarrow> (case rec (enter s d ns nm x) of
       (Panic p, t) \<Rightarrow> fst (runReconcile env d rec ns nm s) = Panic p
     | (_, t) \<Rightarrow> patchedBack d x t (trace (snd (runReconcile env d rec ns nm s))))"
proof (cases "answer env (decodeOne (rc_as d)) (CGet (rc_kind d) ns nm) (trace s)")
  case (Inl e)
  then show ?thesis by (simp add: runReconcile_def run)
next
  case (Inr x)
  obtain r t where rec: "rec (enter s d ns nm x) = (r, t)" by force
  obtain q u where both: "patchBoth env d x t = (q, u)" by force
  with patchBoth_patches [of env d x t] have pb: "patchedBack d x t (trace u)" "\<exists>errs. q = Ok errs"
    by (simp_all add: wpre_def)
  have "enter s d ns nm x = \<lparr>self = rc_sanitize d x, trace = CGet (rc_kind d) ns nm # trace s,
      ticks = ticks s, draws = draws s\<rparr>" by (simp add: enter_def)
  with rec have rec': "rec \<lparr>self = rc_sanitize d x, trace = CGet (rc_kind d) ns nm # trace s,
      ticks = ticks s, draws = draws s\<rparr> = (r, t)" by simp
  show ?thesis using Inr rec rec' both pb
    by (cases r) (auto simp: runReconcile_def run withSelf_def)
qed

end
