(* ===== verification/InventoryCtl.thy ===== *)
theory InventoryCtl
  imports Reconciler "HOL-Library.Multiset"
begin

text \<open>
  The reconciler of machine inventories (\<^verbatim>\<open>controllers/machineinventory_controller.go\<close>): it keeps the
  finalizer, creates the plan secret of a machine, claims its IP addresses, reports the state of
  the plan and of the adoption by a selector as conditions, and on deletion turns the plan into a
  reset plan and waits until it has been applied.
\<close>

section \<open>Constants\<close>

definition adoptionTimeout :: int where
  "adoptionTimeout = 5 * second"

definition LocalResetPlanPath :: string where
  "LocalResetPlanPath = ''/oem/reset-cloud-config.yaml''"

definition LocalResetUnmanagedMarker :: string where
  "LocalResetUnmanagedMarker = ''/var/lib/elemental/.unmanaged_reset''"

definition PlanTypeEmpty :: string where
  "PlanTypeEmpty = ''empty''"

definition PlanTypeBootstrap :: string where
  "PlanTypeBootstrap = ''bootstrap''"

definition PlanTypeReset :: string where
  "PlanTypeReset = ''reset''"

definition PlanApplied :: string where
  "PlanApplied = ''Applied''"

definition PlanFailed :: string where
  "PlanFailed = ''Failed''"

definition PlanCreationFailureReason :: string where
  "PlanCreationFailureReason = ''PlanCreationFailureReason''"

definition WaitingForPlanReason :: string where
  "WaitingForPlanReason = ''WaitingForPlan''"

definition PlanFailureReason :: string where
  "PlanFailureReason = ''PlanFailure''"

definition PlanSuccessfullyAppliedReason :: string where
  "PlanSuccessfullyAppliedReason = ''PlanSuccessfullyApplied''"

definition WaitingToBeAdoptedReason :: string where
  "WaitingToBeAdoptedReason = ''WaitingToBeAdopted''"

definition ValidatingAdoptionReason :: string where
  "ValidatingAdoptionReason = ''ValidatingAdoption''"

definition SuccessfullyAdoptedReason :: string where
  "SuccessfullyAdoptedReason = ''SuccessfullyAdopted''"

definition AdoptionFailureReason :: string where
  "AdoptionFailureReason = ''AdoptionFailure''"

definition NetworkConfigFailure :: string where
  "NetworkConfigFailure = ''NetworkConfigFailure''"

definition WaitingForIPAddressReason :: string where
  "WaitingForIPAddressReason = ''WaitingForIPAddress''"

definition ReconcilingNetworkConfig :: string where
  "ReconcilingNetworkConfig = ''ReconcilingNetworkConfig''"

section \<open>Owners\<close>

definition isSelectorRef :: "OwnerReference \<Rightarrow> bool" where
  "isSelectorRef r \<longleftrightarrow> or_APIVersion r = GroupVersion \<and> or_Kind r = ''MachineInventorySelector''"

fun findOwner :: "nat \<Rightarrow> OwnerReference list \<Rightarrow> (nat \<times> OwnerReference) option" where
  "findOwner i [] = None"
| "findOwner i (r # rs) = (if isSelectorRef r then Some (i, r) else findOwner (Suc i) rs)"

definition findSelectorOwner :: "MachineInventory \<Rightarrow> (nat \<times> OwnerReference) option" where
  "findSelectorOwner m = findOwner 0 (OwnerReferences m)"

definition getSelectorOwner :: "MachineInventory \<Rightarrow> OwnerReference option" where
  "getSelectorOwner m = map_option snd (findSelectorOwner m)"

definition isAlreadyOwned :: "MachineInventory \<Rightarrow> bool" where
  "isAlreadyOwned m \<longleftrightarrow> getSelectorOwner m \<noteq> None"

text \<open>The last owner takes the place of the one that goes.\<close>

definition removeSelectorOwnerShip :: "MachineInventory \<Rightarrow> MachineInventory" where
  "removeSelectorOwnerShip m = (case findSelectorOwner m of
      None \<Rightarrow> m
    | Some (idx, _) \<Rightarrow> m\<lparr>OwnerReferences :=
        butlast ((OwnerReferences m)[idx := last (OwnerReferences m)])\<rparr>)"

section \<open>State\<close>

type_synonym 'a inv_handler = "(MachineInventory st, 'a) go"

definition updInvStatus :: "(MachineInventoryStatus \<Rightarrow> MachineInventoryStatus) \<Rightarrow> MachineInventory \<Rightarrow> MachineInventory" where
  "updInvStatus f m = m\<lparr>mi_Status := f (mi_Status m)\<rparr>"

definition updInvSpec :: "(MachineInventorySpec \<Rightarrow> MachineInventorySpec) \<Rightarrow> MachineInventory \<Rightarrow> MachineInventory" where
  "updInvSpec f m = m\<lparr>mi_Spec := f (mi_Spec m)\<rparr>"

definition updInvConds :: "(Condition list \<Rightarrow> Condition list) \<Rightarrow> MachineInventory \<Rightarrow> MachineInventory" where
  "updInvConds f = updInvStatus (\<lambda>st. st\<lparr>mit_Conditions := f (mit_Conditions st)\<rparr>)"

definition setPlan :: "PlanStatus option \<Rightarrow> unit inv_handler" where
  "setPlan p = update (updInvStatus (\<lambda>st. st\<lparr>mit_Plan := p\<rparr>))"

definition invCond :: "env \<Rightarrow> string \<Rightarrow> string \<Rightarrow> string \<Rightarrow> string \<Rightarrow> unit inv_handler" where
  "invCond env ty reason status msg = setCond env updInvConds (mkCondition ty reason status msg)"

text \<open>The idiom of \<^verbatim>\<open>reconcile\<close>: an error is reported in a condition and returned in a wrapping.\<close>

definition failCond :: "env \<Rightarrow> string \<Rightarrow> string \<Rightarrow> (goerr \<Rightarrow> goerr) \<Rightarrow> goerr \<Rightarrow> 'a inv_handler" where
  "failCond env ty reason wr e =
     andThen (invCond env ty reason ''False'' (err_text e)) (fail (wr e))"

section \<open>Plans\<close>

definition encodePlan :: "env \<Rightarrow> Plan \<Rightarrow> goerr + string \<times> string" where
  "encodePlan env p = (case plan_json (lib env) p of
      Inl e \<Rightarrow> Inl (wrap ''failed to encode plan'' e)
    | Inr plan \<Rightarrow> Inr (sha256_hex (lib env) plan, plan))"

definition resetCloudConfig :: YipConfig where
  "resetCloudConfig = \<lparr>yip_Name = ''Elemental Reset'',
     yip_Stages = [(''network.after'',
       [\<lparr>yip_If = ''[ -f /run/cos/recovery_mode ] || [ -f /run/elemental/recovery_mode ]'',
         yip_StageName = ''Runs elemental reset'',
         yip_Commands = [''systemctl start elemental-register-reset''],
         yip_Directories = [], yip_Files = []\<rparr>])]\<rparr>"

definition resetInstructions :: "bool \<Rightarrow> OneTimeInstruction list" where
  "resetInstructions resetNetwork =
    (if resetNetwork
     then [\<lparr>oti_Name = ''restore first boot config'', oti_Args = [''--debug'', ''--reset-network''],
            oti_Command = ''elemental-register''\<rparr>]
     else [])
    @ [\<lparr>oti_Name = ''configure next boot to recovery mode'',
        oti_Args = [''/oem/grubenv'', ''set'', ''next_entry=recovery''], oti_Command = ''grub2-editenv''\<rparr>,
       \<lparr>oti_Name = ''schedule reboot'', oti_Args = [''-r'', ''+1''], oti_Command = ''shutdown''\<rparr>]"

definition newResetPlan :: "env \<Rightarrow> bool \<Rightarrow> (string \<times> string) inv_handler" where
  "newResetPlan env resetNetwork =
     bnd (orWrap (lift_sum (yaml_yip (lib env) resetCloudConfig)) ''marshalling local reset cloud-config to yaml'') (\<lambda>bs.
     lift_sum (encodePlan env \<lparr>
       plan_Files = [\<lparr>pf_Content = base64 bs, pf_Path = LocalResetPlanPath, pf_Permissions = ''0600''\<rparr>],
       plan_Instructions = resetInstructions resetNetwork\<rparr>))"

definition newUnmanagedResetPlan :: "env \<Rightarrow> (string \<times> string) inv_handler" where
  "newUnmanagedResetPlan env = bnd (now env) (\<lambda>t.
     lift_sum (encodePlan env \<lparr>
       plan_Files = [\<lparr>pf_Content = base64 (fmt_time (lib env) t), pf_Path = LocalResetUnmanagedMarker,
                     pf_Permissions = ''0600''\<rparr>],
       plan_Instructions = []\<rparr>))"

text \<open>
  The plan secret's data map is written in place: a nil map is a panic. Annotations of the plan
  secret are replaced by the type of the new plan.
\<close>

definition retypePlan :: "string \<Rightarrow> (string \<times> string) list \<Rightarrow> Secret \<Rightarrow> Secret" where
  "retypePlan ty entries sec = sec\<lparr>sec_Data := fold (\<lambda>(k, v). mput k v) entries (sec_Data sec),
     Annotations := Some [(PlanTypeAnnotation, ty)]\<rparr>"

definition updatePlanSecretWithReset :: "env \<Rightarrow> Secret \<Rightarrow> unit inv_handler" where
  "updatePlanSecretWithReset env planSecret = bnd this (\<lambda>m.
     let networkNeedsReset = (nc_Configurator (mis_Network (mi_Spec m)) \<noteq> ''none'') in
     bnd (orWrap (if mget (Annotations m) OSUnmanagedAnnotation = Some ''true''
                  then newUnmanagedResetPlan env else newResetPlan env networkNeedsReset)
            ''getting new reset plan'') (\<lambda>(checksum, resetPlan).
     if sec_Data planSecret = None then crash ''assignment to entry in nil map''
     else bnd (orWrap (putObj env (CPatch False (OSecret planSecret) (OSecret (retypePlan PlanTypeReset
              [(''applied-checksum'', []), (''failed-checksum'', []), (''plan'', resetPlan)] planSecret))) asSecret
              (retypePlan PlanTypeReset
              [(''applied-checksum'', []), (''failed-checksum'', []), (''plan'', resetPlan)] planSecret))
            ''patching plan secret'') (\<lambda>sec.
       setPlan (Some \<lparr>pl_SecretRef = Some (mkRef [] (Namespace sec) (Name sec)), pl_Checksum = checksum,
         pl_State = []\<rparr>))))"

section \<open>The state of the plan\<close>

definition newPlanSecret :: "MachineInventory \<Rightarrow> Secret" where
  "newPlanSecret m = ObjectMeta.extend
     (zeroMeta\<lparr>Annotations := Some [(PlanTypeAnnotation, PlanTypeEmpty)], Namespace := Namespace m, Name := Name m,
        OwnerReferences := [\<lparr>or_APIVersion = GroupVersion, or_Kind = ''MachineInventory'', or_Name = Name m,
          or_UID = UID m, or_Controller = Some True,
          or_BlockOwnerDeletion = None\<rparr>],
        Labels := Some [(ElementalManagedLabel, ''true'')]\<rparr>)
     \<lparr>sec_Type = PlanSecretType, sec_Data = None, sec_StringData = Some [(''plan'', ''{}'')]\<rparr>"

definition createPlanSecret :: "env \<Rightarrow> unit inv_handler" where
  "createPlanSecret env = bnd this (\<lambda>m.
     if (case FindStatusCondition (mit_Conditions (mi_Status m)) ReadyCondition of
           None \<Rightarrow> False | Some c \<Rightarrow> c_Reason c \<noteq> PlanCreationFailureReason)
     then ret ()
     else bnd (onErr (putObj env (CCreate (OSecret (newPlanSecret m))) asSecret (newPlanSecret m))
                (\<lambda>e. if isAlreadyExists e then ret (newPlanSecret m)
                     else fail (wrap ''failed to create secret'' e))) (\<lambda>sec.
       andThen (setPlan (Some \<lparr>pl_SecretRef = Some (mkRef [] (Namespace sec) (Name sec)), pl_Checksum = [],
           pl_State = []\<rparr>))
         (invCond env ReadyCondition WaitingForPlanReason ''False'' ''waiting for plan to be applied'')))"

definition setPlanState :: "string \<Rightarrow> string \<Rightarrow> unit inv_handler" where
  "setPlanState state checksum = bnd this (\<lambda>m. case mit_Plan (mi_Status m) of
      None \<Rightarrow> crash ''nil pointer dereference''
    | Some p \<Rightarrow> setPlan (Some (p\<lparr>pl_State := state, pl_Checksum := checksum\<rparr>)))"

definition updateInventoryWithPlanStatus :: "env \<Rightarrow> unit inv_handler" where
  "updateInventoryWithPlanStatus env = bnd this (\<lambda>m.
     bnd (orWrap (getObj env KSecret asSecret (Namespace m) (Name m)) ''failed to get secret'') (\<lambda>sec.
     let appliedChecksum = mstr (sec_Data sec) ''applied-checksum'';
         failedChecksum = mstr (sec_Data sec) ''failed-checksum'' in
     if appliedChecksum \<noteq> [] then
       andThen (setPlanState PlanApplied appliedChecksum)
         (invCond env ReadyCondition PlanSuccessfullyAppliedReason ''True'' ''plan successfully applied'')
     else if failedChecksum \<noteq> [] then
       andThen (setPlanState PlanFailed failedChecksum) (fail (EMsg ''failed to apply plan''))
     else invCond env ReadyCondition WaitingForPlanReason ''False'' ''waiting for plan to be applied''))"

section \<open>Deletion\<close>

definition dropFinalizer :: "unit inv_handler" where
  "dropFinalizer = update (RemoveFinalizer MachineInventoryFinalizer)"

definition reconcileResetPlanSecret :: "env \<Rightarrow> unit inv_handler" where
  "reconcileResetPlanSecret env = bnd this (\<lambda>m.
     if mget (Annotations m) ResettableAnnotation \<noteq> Some ''true'' then dropFinalizer
     else case Option.bind (mit_Plan (mi_Status m)) pl_SecretRef of
       None \<Rightarrow> fail (EMsg ''machine inventory plan secret does not exist'')
     | Some ref \<Rightarrow>
         bnd (orWrap (getObj env KSecret asSecret (ref_Namespace ref) (ref_Name ref)) ''getting plan secret'') (\<lambda>planSecret.
         if \<not> IsObjectOwned planSecret (UID m)
         then fail (EMsg ''secret already exists and was not created by this controller'')
         else if mget (Annotations planSecret) PlanTypeAnnotation \<noteq> Some PlanTypeReset
         then updatePlanSecretWithReset env planSecret
         else andThen (orWrap (updateInventoryWithPlanStatus env) ''updating inventory with plan status'')
           (bnd this (\<lambda>m. case mit_Plan (mi_Status m) of
              None \<Rightarrow> crash ''nil pointer dereference''
            | Some p \<Rightarrow> whenM (pl_State p = PlanApplied) dropFinalizer))))"

section \<open>The network\<close>

definition networkNeedsReconcile :: "MachineInventory \<Rightarrow> bool" where
  "networkNeedsReconcile m = list_ex
     (\<lambda>(ipName, _). mget (nc_IPAddresses (mis_Network (mi_Spec m))) ipName = None)
     (mentries (mis_IPAddressPools (mi_Spec m)))"

definition ConvertToIPPoolReference :: "TypedLocalObjectReference option \<Rightarrow> IPPoolReference outcome" where
  "ConvertToIPPoolReference ref = (case ref of
      None \<Rightarrow> Ok \<lparr>ipr_Name = [], ipr_Kind = [], ipr_APIGroup = []\<rparr>
    | Some r \<Rightarrow> (case tref_APIGroup r of
        None \<Rightarrow> Panic ''nil pointer dereference''
      | Some g \<Rightarrow> Ok \<lparr>ipr_Name = tref_Name r, ipr_Kind = tref_Kind r, ipr_APIGroup = g\<rparr>))"

definition newClaim :: "MachineInventory \<Rightarrow> string \<Rightarrow> IPPoolReference \<Rightarrow> IPAddressClaim" where
  "newClaim m name pool = ObjectMeta.extend
     (zeroMeta\<lparr>Name := Name m @ ''-'' @ name, Namespace := Namespace m,
        OwnerReferences := [\<lparr>or_APIVersion = APIVersion m, or_Kind = Kind m, or_Name = Name m,
          or_UID = UID m, or_Controller = Some True,
          or_BlockOwnerDeletion = None\<rparr>]\<rparr>)
     \<lparr>ipc_PoolRef = pool, ipc_AddressRef = []\<rparr>"

definition quoted :: "string \<Rightarrow> string" where
  "quoted s = [CHR 0x27] @ s @ [CHR 0x27]"

definition claimRef :: "IPAddressClaim \<Rightarrow> ObjectReference" where
  "claimRef c = \<lparr>ref_Kind = Kind c, ref_Namespace = Namespace c, ref_Name = Name c, ref_UID = UID c,
     ref_APIVersion = APIVersion c\<rparr>"

definition claimStep :: "env \<Rightarrow> string \<times> TypedLocalObjectReference option \<Rightarrow> unit inv_handler" where
  "claimStep env entry = (case entry of (name, ipPoolRef) \<Rightarrow> bnd this (\<lambda>m.
     bnd (lift_outcome (ConvertToIPPoolReference ipPoolRef)) (\<lambda>pool.
     let ipClaim = newClaim m name pool; ipClaimName = Name m @ ''-'' @ name in
     bnd (onErr (putObj env (CCreate (OClaim ipClaim)) asClaim ipClaim)
            (\<lambda>e. if isAlreadyExists e then ret ipClaim
                 else fail (wrap (''creating IPAddressClaim '' @ quoted ipClaimName) e))) (\<lambda>ipClaim.
     bnd (orWrap (getObj env KClaim asClaim (Namespace ipClaim) (Name ipClaim))
            (''getting IPAddressClaim '' @ quoted ipClaimName)) (\<lambda>ipClaim.
     if (case DeletionTimestamp ipClaim of None \<Rightarrow> False | Some t \<Rightarrow> t \<noteq> 0)
     then fail (EMsg (''Waiting for IPAddressClaim deletion '' @ quoted ipClaimName))
     else update (updInvSpec (\<lambda>sp. sp\<lparr>mis_IPAddressClaims :=
            mput name (Some (claimRef ipClaim)) (mmake (mis_IPAddressClaims sp))\<rparr>)))))))"

text \<open>The loop over the claims; \<open>Some res\<close> is the early return.\<close>

fun addressLoop :: "env \<Rightarrow> (string \<times> ObjectReference option) list \<Rightarrow> result inv_handler" where
  "addressLoop env [] = ret noResult"
| "addressLoop env ((name, ref) # rest) = (case ref of
      None \<Rightarrow> crash ''nil pointer dereference''
    | Some r \<Rightarrow> bnd (attempt (getObj env KAddr asAddr (ref_Namespace r) (ref_Name r))) (\<lambda>a. case a of
        Inl e \<Rightarrow>
          if isNotFound e
          then andThen (invCond env NetworkConfigReady WaitingForIPAddressReason ''False''
                  (''Waiting to claim IPAddress '' @ ref_Name r))
                 (ret (requeueAfter second))
          else fail (wrap (''getting IPAddress '' @ quoted (ref_Name r)) e)
      | Inr ip \<Rightarrow>
          andThen (update (updInvSpec (\<lambda>sp. sp\<lparr>mis_Network := (mis_Network sp)\<lparr>nc_IPAddresses :=
              mput name (ipa_Address ip) (mmake (nc_IPAddresses (mis_Network sp)))\<rparr>\<rparr>)))
            (addressLoop env rest)))"

definition reconcileNetworkConfig :: "env \<Rightarrow> result inv_handler" where
  "reconcileNetworkConfig env = bnd this (\<lambda>m.
     andThen (forEach (claimStep env) (mentries (mis_IPAddressPools (mi_Spec m))))
    (bnd this (\<lambda>m. addressLoop env (mentries (mis_IPAddressClaims (mi_Spec m))))))"

section \<open>Adoption\<close>

text \<open>The result says whether the reconciliation has to be repeated to wait for the selector.\<close>

definition updateInventoryWithAdoptionStatus :: "env \<Rightarrow> bool inv_handler" where
  "updateInventoryWithAdoptionStatus env = bnd this (\<lambda>m. case getSelectorOwner m of
     None \<Rightarrow> andThen (invCond env AdoptionReadyCondition WaitingToBeAdoptedReason ''False'' ''Waiting to be adopted'')
       (ret False)
   | Some owner \<Rightarrow>
     if condStatus (mit_Conditions (mi_Status m)) AdoptionReadyCondition = Some ''True'' then ret False
     else bnd (orWrap (getObj env KSel asSel (Namespace m) (or_Name owner))
            ''failed to get machine inventory selector'') (\<lambda>miSelector.
       andThen (invCond env AdoptionReadyCondition ValidatingAdoptionReason ''Unknown'' ''Adoption being validated'')
      (bnd this (\<lambda>m. case FindStatusCondition (mit_Conditions (mi_Status m)) AdoptionReadyCondition of
         None \<Rightarrow> crash ''nil pointer dereference''
       | Some adopted \<Rightarrow>
         let deadLine = c_LastTransitionTime adopted + adoptionTimeout in
         case slt_MachineInventoryRef (sl_Status miSelector) of
           None \<Rightarrow> bnd (now env) (\<lambda>t.
             if t < deadLine
             then andThen (invCond env AdoptionReadyCondition ValidatingAdoptionReason ''Unknown''
                    ''Adoption being validated'') (ret True)
             else andThen (update removeSelectorOwnerShip)
               (fail (EMsg (''Adoption timeout, dropping selector ownership. Deadline was: ''
                  @ show_time (lib env) deadLine @ '' ''))))
         | Some name \<Rightarrow>
             if name \<noteq> Name m
             then andThen (update removeSelectorOwnerShip)
               (fail (EMsg ''Ownership mismatch, dropping selector ownership''))
             else andThen (invCond env AdoptionReadyCondition SuccessfullyAdoptedReason ''True''
                    ''Successfully adopted'') (ret False)))))"

section \<open>Reconciliation\<close>

definition isDeleting :: "('a ObjectMeta_scheme) \<Rightarrow> bool" where
  "isDeleting m = (case DeletionTimestamp m of None \<Rightarrow> False | Some t \<Rightarrow> t \<noteq> 0)"

definition failedUpdate :: "goerr \<Rightarrow> goerr" where
  "failedUpdate e = EWrap ''failed to update inventory status with plan '' e []"

definition reconcileNetwork :: "env \<Rightarrow> result inv_handler" where
  "reconcileNetwork env =
     andThen (invCond env ReadyCondition ReconcilingNetworkConfig ''False'' ''NetworkConfig needs reconcile'')
       (onErr (reconcileNetworkConfig env)
          (failCond env ReadyCondition NetworkConfigFailure (wrap ''reconciling network config'')))"

definition reconcileStatus :: "env \<Rightarrow> result inv_handler" where
  "reconcileStatus env =
     andThen (invCond env NetworkConfigReady ReconcilingNetworkConfig ''True'' ''NetworkConfig is ready'')
    (andThen (onErr (updateInventoryWithPlanStatus env)
                (failCond env ReadyCondition PlanFailureReason failedUpdate))
    (bnd (onErr (updateInventoryWithAdoptionStatus env)
            (failCond env AdoptionReadyCondition AdoptionFailureReason failedUpdate)) (\<lambda>requeue.
       ret (if requeue then requeueAfter second else noResult))))"

definition reconcileInv :: "env \<Rightarrow> result inv_handler" where
  "reconcileInv env = bnd this (\<lambda>m.
     if \<not> isDeleting m \<and> \<not> ContainsFinalizer m MachineInventoryFinalizer
     then andThen (update (AddFinalizer MachineInventoryFinalizer)) (ret (requeueAfter second))
     else if isDeleting m
     then (if ContainsFinalizer m MachineInventoryFinalizer
           then andThen (onErr (reconcileResetPlanSecret env)
                  (failCond env ReadyCondition PlanFailureReason (wrap ''reconciling reset plan secret'')))
                (ret noResult)
           else ret noResult)
     else
       andThen (onErr (createPlanSecret env)
                 (failCond env ReadyCondition PlanCreationFailureReason (wrap ''failed to create plan secret'')))
      (bnd this (\<lambda>m. if networkNeedsReconcile m then reconcileNetwork env else reconcileStatus env)))"

definition invResource :: "MachineInventory resource" where
  "invResource = \<lparr>rc_kind = KInv, rc_name = ''machine inventory'', rc_inj = OInv, rc_as = asInv,
     rc_restore = (\<lambda>x y. y\<lparr>mi_Status := mi_Status x\<rparr>), rc_sanitize = updInvConds RemoveInvalidConditions,
     rc_lock = True, rc_okPatch = (\<lambda>_. False), rc_okStatus = isNotFound\<rparr>"

definition ReconcileInv :: "env \<Rightarrow> string \<Rightarrow> string \<Rightarrow> ('o st, result) go" where
  "ReconcileInv env ns nm = runReconcile env invResource (reconcileInv env) ns nm"

definition ignoreIncrementalInvUpdate :: "kobj \<Rightarrow> kobj \<Rightarrow> bool" where
  "ignoreIncrementalInvUpdate old new = (case (asInv old, asInv new) of
      (Some o', Some n) \<Rightarrow> o'\<lparr>mi_Status := mi_Status zeroInventory, ResourceVersion := []\<rparr>
                          \<noteq> n\<lparr>mi_Status := mi_Status zeroInventory, ResourceVersion := []\<rparr>
    | _ \<Rightarrow> True)"

section \<open>Laws\<close>

lemma updInv_simps [simp]:
  "mi_Status (updInvStatus f m) = f (mi_Status m)" "mi_Spec (updInvStatus f m) = mi_Spec m"
  "mi_Spec (updInvSpec g m) = g (mi_Spec m)" "mi_Status (updInvSpec g m) = mi_Status m"
  "mi_Status (updInvConds h m) = (mi_Status m)\<lparr>mit_Conditions := h (mit_Conditions (mi_Status m))\<rparr>"
  "mi_Spec (updInvConds h m) = mi_Spec m"
  by (simp_all add: updInvStatus_def updInvSpec_def updInvConds_def)

text \<open>\<open>sameMeta m m'\<close>: the metadata agree.\<close>

definition sameMeta :: "MachineInventory \<Rightarrow> MachineInventory \<Rightarrow> bool" where
  "sameMeta m m' \<longleftrightarrow> ObjectMeta.truncate m' = ObjectMeta.truncate m"

lemma sameMeta_refl [simp]: "sameMeta m m"
  by (simp add: sameMeta_def)

lemma sameMeta_trans: "sameMeta m n \<Longrightarrow> sameMeta n p \<Longrightarrow> sameMeta m p"
  by (simp add: sameMeta_def)

lemma sameMeta_upd [simp]:
  "sameMeta m (updInvStatus f n) = sameMeta m n" "sameMeta m (updInvSpec g n) = sameMeta m n"
  "sameMeta m (updInvConds h n) = sameMeta m n"
  by (simp_all add: sameMeta_def updInvStatus_def updInvSpec_def updInvConds_def ObjectMeta.truncate_def)

lemma sameMeta_sel:
  "sameMeta m n \<Longrightarrow> Name n = Name m \<and> Namespace n = Namespace m \<and> UID n = UID m \<and> Finalizers n = Finalizers m \<and>
     DeletionTimestamp n = DeletionTimestamp m \<and> Annotations n = Annotations m \<and> OwnerReferences n = OwnerReferences m"
  by (simp add: sameMeta_def ObjectMeta.truncate_def)

lemma wp_invCond [wp]: "wpre (invCond env ty reason status msg) Q s = Q (Ok ())
    (s\<lparr>ticks := Suc (ticks s), self := updInvConds (SetStatusCondition (clock env (ticks s))
        (mkCondition ty reason status msg)) (self s)\<rparr>)"
  by (simp add: invCond_def wp_setCond)

lemma wp_setPlan [wp]: "wpre (setPlan p) Q s = Q (Ok ()) (s\<lparr>self := updInvStatus (\<lambda>st. st\<lparr>mit_Plan := p\<rparr>) (self s)\<rparr>)"
  by (simp add: setPlan_def wp)

lemma wp_failCond [wp]: "wpre (failCond env ty reason wr e) Q s = Q (Err (wr e))
    (s\<lparr>ticks := Suc (ticks s), self := updInvConds (SetStatusCondition (clock env (ticks s))
        (mkCondition ty reason ''False'' (err_text e))) (self s)\<rparr>)"
  by (simp add: failCond_def wp)

lemma safe_invCond [safety]: "(\<And>t x. I x \<Longrightarrow> I (updInvConds (SetStatusCondition t (mkCondition ty reason status msg)) x)) \<Longrightarrow>
    safe I E (invCond env ty reason status msg)"
  unfolding invCond_def by (rule safe_setCond)

lemma safe_setPlan [safety]: "(\<And>x. I x \<Longrightarrow> I (updInvStatus (\<lambda>st. st\<lparr>mit_Plan := p\<rparr>) x)) \<Longrightarrow> safe I E (setPlan p)"
  unfolding setPlan_def by (rule safe_update)

lemma safe_failCond [safety]: "(\<And>t msg x. I x \<Longrightarrow>
      I (updInvConds (SetStatusCondition t (mkCondition ty reason ''False'' msg)) x)) \<Longrightarrow>
    safe I E (failCond env ty reason wr e)"
  unfolding failCond_def by (intro safety)

lemma findOwner_iff: "findOwner i rs = (case find isSelectorRef rs of
     None \<Rightarrow> None | Some r \<Rightarrow> Some (i + length (takeWhile (\<lambda>r. \<not> isSelectorRef r) rs), r))"
  by (induction rs arbitrary: i) (auto split: option.splits)

lemma getSelectorOwner_eq: "getSelectorOwner m = find isSelectorRef (OwnerReferences m)"
  by (simp add: getSelectorOwner_def findSelectorOwner_def findOwner_iff split: option.split)

lemma findOwner_split: "findOwner i rs = Some (j, r) \<Longrightarrow>
    \<exists>as bs. rs = as @ r # bs \<and> j = i + length as \<and> isSelectorRef r \<and> list_all (\<lambda>x. \<not> isSelectorRef x) as"
proof (induction rs arbitrary: i)
  case (Cons x xs)
  show ?case
  proof (cases "isSelectorRef x")
    case True
    with Cons.prems show ?thesis by (intro exI [of _ "[]"] exI [of _ xs]) simp
  next
    case False
    with Cons.prems have "findOwner (Suc i) xs = Some (j, r)" by simp
    from Cons.IH [OF this] obtain as bs where "xs = as @ r # bs \<and> j = Suc i + length as \<and> isSelectorRef r \<and>
        list_all (\<lambda>x. \<not> isSelectorRef x) as" by blast
    with False show ?thesis by (intro exI [of _ "x # as"] exI [of _ bs]) simp
  qed
qed simp

lemma swap_remove: "mset (butlast ((as @ r # bs)[length as := last (as @ r # bs)])) + {#r#} = mset (as @ r # bs)"
proof (cases bs rule: rev_cases)
  case Nil
  then show ?thesis by simp
next
  case (snoc cs c)
  then show ?thesis by (simp add: butlast_append)
qed

lemma remove_mset: "mset (OwnerReferences (removeSelectorOwnerShip m)) =
    mset (OwnerReferences m) - (case getSelectorOwner m of None \<Rightarrow> {#} | Some r \<Rightarrow> {#r#})"
proof (cases "findOwner 0 (OwnerReferences m)")
  case None
  then show ?thesis by (simp add: removeSelectorOwnerShip_def getSelectorOwner_def findSelectorOwner_def)
next
  case (Some p)
  obtain j r where p: "p = (j, r)" by force
  with Some findOwner_split [of 0 "OwnerReferences m" j r] obtain as bs
    where o: "OwnerReferences m = as @ r # bs" and j: "j = length as" by auto
  have "removeSelectorOwnerShip m = m\<lparr>OwnerReferences := butlast ((as @ r # bs)[length as := last (as @ r # bs)])\<rparr>"
    using Some p j by (simp only: removeSelectorOwnerShip_def findSelectorOwner_def o option.case prod.case)
  then have "OwnerReferences (removeSelectorOwnerShip m) = butlast ((as @ r # bs)[length as := last (as @ r # bs)])"
    by simp
  then have "mset (OwnerReferences (removeSelectorOwnerShip m)) + {#r#} = mset (OwnerReferences m)"
    using swap_remove [of as r bs] by (simp only: o)
  moreover have "getSelectorOwner m = Some r"
    using Some p by (simp add: getSelectorOwner_def findSelectorOwner_def)
  ultimately show ?thesis by (metis add_diff_cancel_right' option.case(2))
qed

subsection \<open>No nil dereference\<close>

text \<open>
  The inventories that \<^verbatim>\<open>reconcile\<close> handles without a nil dereference: the pools name their API
  group, the claims are references, and, unless the inventory is being deleted, a \<^verbatim>\<open>Ready\<close> condition
  that says anything but that the plan secret could not be created goes with a plan.
\<close>

definition poolOk :: "TypedLocalObjectReference option \<Rightarrow> bool" where
  "poolOk p \<longleftrightarrow> (case p of None \<Rightarrow> True | Some r \<Rightarrow> tref_APIGroup r \<noteq> None)"

definition poolsOk :: "MachineInventory \<Rightarrow> bool" where
  "poolsOk m \<longleftrightarrow> list_all (poolOk \<circ> snd)
     (mentries (mis_IPAddressPools (mi_Spec m)))"

definition claimsOk :: "MachineInventory \<Rightarrow> bool" where
  "claimsOk m \<longleftrightarrow> list_all (\<lambda>e. snd e \<noteq> None) (mentries (mis_IPAddressClaims (mi_Spec m)))"

definition planKnown :: "MachineInventory \<Rightarrow> bool" where
  "planKnown m \<longleftrightarrow> isDeleting m \<or> mit_Plan (mi_Status m) \<noteq> None \<or>
     condReason (mit_Conditions (mi_Status m)) ReadyCondition \<in> {None, Some PlanCreationFailureReason}"

definition soundInv :: "MachineInventory \<Rightarrow> bool" where
  "soundInv m \<longleftrightarrow> poolsOk m \<and> claimsOk m \<and> planKnown m"

definition plannedInv :: "MachineInventory \<Rightarrow> bool" where
  "plannedInv m \<longleftrightarrow> poolsOk m \<and> claimsOk m \<and> mit_Plan (mi_Status m) \<noteq> None"

lemma planned_sound: "plannedInv m \<Longrightarrow> soundInv m"
  by (simp add: plannedInv_def soundInv_def planKnown_def)

lemma removeOwner_sel [simp]:
  "mi_Status (removeSelectorOwnerShip m) = mi_Status m" "mi_Spec (removeSelectorOwnerShip m) = mi_Spec m"
  "DeletionTimestamp (removeSelectorOwnerShip m) = DeletionTimestamp m"
  by (simp_all add: removeSelectorOwnerShip_def split: option.split)

lemma planned_conds [simp]: "plannedInv (updInvConds f m) = plannedInv m"
  by (simp add: plannedInv_def poolsOk_def claimsOk_def)

lemma planned_plan [simp]: "p \<noteq> None \<Longrightarrow> plannedInv m \<Longrightarrow> plannedInv (updInvStatus (\<lambda>st. st\<lparr>mit_Plan := p\<rparr>) m)"
  by (auto simp: plannedInv_def poolsOk_def claimsOk_def)

lemma planned_owner [simp]: "plannedInv (removeSelectorOwnerShip m) = plannedInv m"
  by (simp add: plannedInv_def poolsOk_def claimsOk_def)

lemma claims_put:
  "list_all (\<lambda>e. snd e \<noteq> None) (mentries m) \<Longrightarrow> v \<noteq> None \<Longrightarrow>
   list_all (\<lambda>e. snd e \<noteq> None) (mentries (mput k v (mmake m)))"
  using mput_entries [of k v "mmake m"] by (auto simp: list_all_iff)

lemma planned_claim [simp]: "plannedInv m \<Longrightarrow>
    plannedInv (updInvSpec (\<lambda>sp. sp\<lparr>mis_IPAddressClaims := mput name (Some c) (mmake (mis_IPAddressClaims sp))\<rparr>) m)"
  by (simp add: plannedInv_def poolsOk_def claimsOk_def claims_put del: not_None_eq)

lemma planned_address [simp]: "plannedInv m \<Longrightarrow>
    plannedInv (updInvSpec (\<lambda>sp. sp\<lparr>mis_Network := f sp\<rparr>) m)"
  by (simp add: plannedInv_def poolsOk_def claimsOk_def del: not_None_eq)

lemma safe_claimStep: "poolOk p \<Longrightarrow> safe plannedInv {} (claimStep env (name, p))"
proof -
  assume "poolOk p"
  then obtain pool where "ConvertToIPPoolReference p = Ok pool"
    by (cases p) (auto simp: ConvertToIPPoolReference_def poolOk_def)
  then show ?thesis
    by (simp add: claimStep_def lift_outcome_Ok) (intro safety, simp)
qed

lemma safe_addressLoop: "list_all (\<lambda>e. snd e \<noteq> None) es \<Longrightarrow> safe plannedInv {} (addressLoop env es)"
proof (induction es)
  case Nil
  then show ?case by (simp add: safe_ret)
next
  case (Cons e es)
  obtain n c where e: "e = (n, c)" by force
  with Cons.prems obtain r where c: "c = Some r" by auto
  have "safe plannedInv {} (addressLoop env es)" using Cons by simp
  then show ?case unfolding e c addressLoop.simps option.case
    by (intro safety) simp_all
qed

lemma safe_reconcileNetworkConfig: "safe plannedInv {} (reconcileNetworkConfig env)"
  unfolding reconcileNetworkConfig_def
proof (intro safe_this safe_andThen safe_forEach)
  fix m x
  assume "plannedInv m" and "x \<in> set (mentries (mis_IPAddressPools (mi_Spec m)))"
  then have "poolOk (snd x)"
    by (simp add: plannedInv_def poolsOk_def list_all_iff)
  from safe_claimStep [OF this] show "safe plannedInv {} (claimStep env x)"
    by (metis prod.collapse)
next
  fix m
  assume "plannedInv m"
  then show "safe plannedInv {} (addressLoop env (mentries (mis_IPAddressClaims (mi_Spec m))))"
    by (intro safe_addressLoop) (simp add: plannedInv_def claimsOk_def)
qed

lemma safe_planStatus: "safe plannedInv {} (updateInventoryWithPlanStatus env)"
  by (rule safeI)
    (auto simp: updateInventoryWithPlanStatus_def setPlanState_def wp Let_def split: sum.split option.split
      dest: planned_plan simp: plannedInv_def poolsOk_def claimsOk_def)

lemma safe_adoption: "safe plannedInv {} (updateInventoryWithAdoptionStatus env)"
  by (rule safeI)
    (auto simp: updateInventoryWithAdoptionStatus_def wp Let_def split: sum.split option.split)

lemma createPlan_wp:
  assumes "soundInv (self s)" and "\<not> isDeleting (self s)"
  shows "wpre (createPlanSecret env) (\<lambda>r s'. case r of
     Ok _ \<Rightarrow> plannedInv (self s') | Err e \<Rightarrow> self s' = self s | Panic p \<Rightarrow> False) s"
proof -
  have "mit_Plan (mi_Status (self s)) \<noteq> None"
    if "FindStatusCondition (mit_Conditions (mi_Status (self s))) ReadyCondition = Some c"
      and "c_Reason c \<noteq> PlanCreationFailureReason" for c
    using assms that by (auto simp: soundInv_def planKnown_def condReason_def)
  moreover have "poolsOk (self s)" "claimsOk (self s)" using assms(1) by (simp_all add: soundInv_def)
  ultimately show ?thesis
    by (auto simp: createPlanSecret_def wp plannedInv_def poolsOk_def claimsOk_def
        split: option.split sum.split simp del: not_None_eq)
qed

definition deletingInv :: "MachineInventory \<Rightarrow> bool" where
  "deletingInv m \<longleftrightarrow> poolsOk m \<and> claimsOk m \<and> isDeleting m"

lemma deleting_sound: "deletingInv m \<Longrightarrow> soundInv m"
  by (simp add: deletingInv_def soundInv_def planKnown_def)

lemma deleting_simps [simp]:
  "deletingInv (updInvStatus f m) = deletingInv m" "deletingInv (updInvConds g m) = deletingInv m"
  "deletingInv (RemoveFinalizer fin m) = deletingInv m"
  by (simp_all add: deletingInv_def poolsOk_def claimsOk_def isDeleting_def updInvStatus_def updInvConds_def
      RemoveFinalizer_def)

abbreviation nilMapPanic :: string where
  "nilMapPanic \<equiv> ''assignment to entry in nil map''"

lemma safe_updateReset: "safe deletingInv {nilMapPanic} (updatePlanSecretWithReset env sec)"
  unfolding updatePlanSecretWithReset_def newResetPlan_def newUnmanagedResetPlan_def Let_def
  by (intro safety) simp_all

lemma planStatus_wp: "mit_Plan (mi_Status (self s)) \<noteq> None \<Longrightarrow>
    wpre (updateInventoryWithPlanStatus env) (\<lambda>r s'. mit_Plan (mi_Status (self s')) \<noteq> None \<and>
      deletingInv (self s') = deletingInv (self s) \<and> (\<forall>p. r \<noteq> Panic p)) s"
  by (auto simp: updateInventoryWithPlanStatus_def setPlanState_def wp Let_def split: sum.split option.split)

lemma safe_resetPlan: "safe deletingInv {nilMapPanic} (reconcileResetPlanSecret env)"
proof (rule safeI)
  fix s :: "MachineInventory st"
  assume D: "deletingInv (self s)"
  have sub: "wpre (updatePlanSecretWithReset env sec)
      (\<lambda>r s'. deletingInv (self s') \<and> (\<forall>p. r = Panic p \<longrightarrow> p \<in> {nilMapPanic})) (s\<lparr>trace := t\<rparr>)" for sec t
    by (rule safeD [OF safe_updateReset]) (simp add: D)
  have plan: "wpre (updateInventoryWithPlanStatus env) (\<lambda>r s'. mit_Plan (mi_Status (self s')) \<noteq> None \<and>
      deletingInv (self s') \<and> (\<forall>p. r \<noteq> Panic p)) (s\<lparr>trace := t\<rparr>)"
    if "mit_Plan (mi_Status (self s)) \<noteq> None" for t
    using planStatus_wp [of "s\<lparr>trace := t\<rparr>"] that D by simp
  have rest: "wpre (andThen (orWrap (updateInventoryWithPlanStatus env) msg)
           (bnd this (\<lambda>m. case mit_Plan (mi_Status m) of
              None \<Rightarrow> crash p | Some p \<Rightarrow> whenM (pl_State p = PlanApplied) dropFinalizer)))
      (\<lambda>r s'. deletingInv (self s') \<and> (\<forall>p. r = Panic p \<longrightarrow> p \<in> {nilMapPanic})) (s\<lparr>trace := t\<rparr>)"
    if "mit_Plan (mi_Status (self s)) \<noteq> None" for t msg p
    unfolding orWrap_def
    by (rule wpre_recoverI [OF plan [OF that]]) (auto simp: wp dropFinalizer_def)
  show "wpre (reconcileResetPlanSecret env)
      (\<lambda>r s'. deletingInv (self s') \<and> (\<forall>p. r = Panic p \<longrightarrow> p \<in> {nilMapPanic})) s"
  proof (cases "Option.bind (mit_Plan (mi_Status (self s))) pl_SecretRef")
    case None
    then show ?thesis using D by (simp add: reconcileResetPlanSecret_def wp dropFinalizer_def)
  next
    case (Some ref)
    then have p: "mit_Plan (mi_Status (self s)) \<noteq> None" by (cases "mit_Plan (mi_Status (self s))") auto
    show ?thesis
      using Some D sub rest [OF p]
      by (auto simp: reconcileResetPlanSecret_def wp_bnd wp_gets wp_if wp_orWrap wp_getObj wp_fail
          wp_update dropFinalizer_def split: sum.split)
  qed
qed

lemma safe_live: "safe plannedInv {nilMapPanic}
    (bnd this (\<lambda>m. if networkNeedsReconcile m then reconcileNetwork env else reconcileStatus env))"
proof -
  note safe_weaken [OF safe_reconcileNetworkConfig, of "{nilMapPanic}"]
    safe_weaken [OF safe_planStatus, of "{nilMapPanic}"] safe_weaken [OF safe_adoption, of "{nilMapPanic}"]
  then show ?thesis
    unfolding reconcileNetwork_def reconcileStatus_def
    by (intro safety) simp_all
qed

lemma sound_failed: "soundInv m \<Longrightarrow>
   soundInv (updInvConds (SetStatusCondition t (mkCondition ReadyCondition PlanCreationFailureReason status msg)) m)"
  by (simp add: soundInv_def planKnown_def poolsOk_def claimsOk_def)

lemma safe_reconcileInv: "safe soundInv {nilMapPanic} (reconcileInv env)"
proof (rule safeI)
  fix s :: "MachineInventory st"
  assume S: "soundInv (self s)"
  let ?Q = "\<lambda>r s'. soundInv (self s') \<and> (\<forall>p. r = Panic p \<longrightarrow> p \<in> {nilMapPanic})"
  have add: "soundInv (AddFinalizer f (self s))" for f
    using S by (simp add: soundInv_def poolsOk_def claimsOk_def planKnown_def isDeleting_def AddFinalizer_def)
  have del: "wpre (andThen (onErr (reconcileResetPlanSecret env)
        (failCond env ReadyCondition PlanFailureReason (wrap ''reconciling reset plan secret'')))
      (ret noResult)) ?Q s" if "isDeleting (self s)"
  proof -
    have D: "deletingInv (self s)" using S that by (simp add: soundInv_def deletingInv_def)
    have "safe deletingInv {nilMapPanic} (andThen (onErr (reconcileResetPlanSecret env)
        (failCond env ReadyCondition PlanFailureReason (wrap ''reconciling reset plan secret'')))
      (ret noResult))"
      by (intro safety safe_resetPlan) simp
    from safeD [OF this D] show ?thesis by (rule wpre_mono) (auto intro: deleting_sound)
  qed
  have live: "wpre (andThen (onErr (createPlanSecret env)
        (failCond env ReadyCondition PlanCreationFailureReason (wrap ''failed to create plan secret'')))
      (bnd this (\<lambda>m. if networkNeedsReconcile m then reconcileNetwork env else reconcileStatus env))) ?Q s"
    if "\<not> isDeleting (self s)"
  proof (rule wpre_recoverI [OF createPlan_wp [OF S that]], goal_cases)
    case (1 x t)
    then have "plannedInv (self t)" by simp
    from safeD [OF safe_live this] show ?case
      by (rule wpre_mono) (auto intro: planned_sound)
  next
    case (2 e t)
    then show ?case using S by (simp add: wp_andThen wp_failCond sound_failed)
  qed simp
  show "wpre (reconcileInv env) ?Q s"
    using add del live S by (auto simp: reconcileInv_def wp_bnd wp_gets wp_if wp_ret wp_andThen wp_update)
qed

subsection \<open>The finalizer\<close>

abbreviation guarded :: "MachineInventory \<Rightarrow> bool" where
  "guarded m \<equiv> ContainsFinalizer m MachineInventoryFinalizer"

text \<open>
  What the reconciler has seen when it lets a resettable inventory go: its own plan secret with a
  reset plan, and in it the checksum of an applied plan, or no checksum at all and in the status a
  plan that was applied before.
\<close>

definition resetConfirmed :: "env \<Rightarrow> MachineInventory \<Rightarrow> call list \<Rightarrow> bool" where
  "resetConfirmed env m t \<longleftrightarrow> (\<exists>p ref sec sec'. mit_Plan (mi_Status m) = Some p \<and> pl_SecretRef p = Some ref \<and>
     answer env (decodeOne asSecret) (CGet KSecret (ref_Namespace ref) (ref_Name ref)) t = Inr sec \<and>
     IsObjectOwned sec (UID m) \<and> mget (Annotations sec) PlanTypeAnnotation = Some PlanTypeReset \<and>
     answer env (decodeOne asSecret) (CGet KSecret (Namespace m) (Name m))
       (CGet KSecret (ref_Namespace ref) (ref_Name ref) # t) = Inr sec' \<and>
     (mstr (sec_Data sec') ''applied-checksum'' \<noteq> [] \<or>
      (mstr (sec_Data sec') ''failed-checksum'' = [] \<and> pl_State p = PlanApplied)))"

lemma guarded_simps [simp]:
  "guarded (updInvStatus f m) = guarded m" "guarded (updInvSpec g m) = guarded m"
  "guarded (updInvConds h m) = guarded m" "guarded (removeSelectorOwnerShip m) = guarded m"
  by (simp_all add: ContainsFinalizer_def updInvStatus_def updInvSpec_def updInvConds_def
      removeSelectorOwnerShip_def split: option.split)

lemma safe_guarded_update: "safe guarded UNIV (updatePlanSecretWithReset env sec)"
  unfolding updatePlanSecretWithReset_def newResetPlan_def newUnmanagedResetPlan_def Let_def
  by (intro safety) simp_all

lemma resetPlan_guarded:
  assumes g: "guarded (self s)"
  shows "wpre (reconcileResetPlanSecret env) (\<lambda>r s'. guarded (self s') \<or>
    mget (Annotations (self s)) ResettableAnnotation \<noteq> Some ''true'' \<or> resetConfirmed env (self s) (trace s)) s"
proof (cases "mget (Annotations (self s)) ResettableAnnotation = Some ''true''")
  case resettable: True
  show ?thesis
  proof (cases "Option.bind (mit_Plan (mi_Status (self s))) pl_SecretRef")
    case None
    then show ?thesis using g resettable by (simp add: reconcileResetPlanSecret_def wp)
  next
    case (Some ref)
    then obtain p where p: "mit_Plan (mi_Status (self s)) = Some p" and ref: "pl_SecretRef p = Some ref"
      by (cases "mit_Plan (mi_Status (self s))") auto
    have sub: "wpre (updatePlanSecretWithReset env sec) (\<lambda>r s'. guarded (self s')) (s\<lparr>trace := t\<rparr>)" for sec t
      by (rule wpre_mono [OF safeD [OF safe_guarded_update]]) (use g in simp_all)
    show ?thesis
      using Some p ref g resettable sub
      by (auto simp: reconcileResetPlanSecret_def wp_bnd wp_gets wp_if wp_orWrap wp_getObj wp_fail wp_andThen
          updateInventoryWithPlanStatus_def setPlanState_def Let_def wp_invCond wp_setPlan wp_whenM
          resetConfirmed_def PlanFailed_def PlanApplied_def dropFinalizer_def wp_update split: sum.split)
  qed
qed (simp add: wpre_def split: prod.split)

lemma safe_guarded_live: "safe guarded UNIV (createPlanSecret env)"
    "safe guarded UNIV (bnd this (\<lambda>m. if networkNeedsReconcile m then reconcileNetwork env else reconcileStatus env))"
proof -
  show "safe guarded UNIV (createPlanSecret env)"
    unfolding createPlanSecret_def by (intro safety) simp_all
  have claim: "safe guarded UNIV (claimStep env e)" for e
    unfolding claimStep_def Let_def by (intro safety) simp_all
  have addr: "safe guarded UNIV (addressLoop env es)" for es
    by (induction env es rule: addressLoop.induct) (auto intro!: safety)
  have plan: "safe guarded UNIV (updateInventoryWithPlanStatus env)"
    unfolding updateInventoryWithPlanStatus_def setPlanState_def Let_def by (intro safety) simp_all
  have adopt: "safe guarded UNIV (updateInventoryWithAdoptionStatus env)"
    unfolding updateInventoryWithAdoptionStatus_def Let_def by (intro safety) simp_all
  show "safe guarded UNIV (bnd this (\<lambda>m. if networkNeedsReconcile m then reconcileNetwork env else reconcileStatus env))"
    unfolding reconcileNetwork_def reconcileStatus_def reconcileNetworkConfig_def
    by (intro safety claim addr plan adopt) simp_all
qed

subsection \<open>Convergence of the network configuration\<close>

abbreviation claimsOf :: "MachineInventory \<Rightarrow> (ObjectReference option) gomap" where
  "claimsOf m \<equiv> mis_IPAddressClaims (mi_Spec m)"

abbreviation addressesOf :: "MachineInventory \<Rightarrow> string gomap" where
  "addressesOf m \<equiv> nc_IPAddresses (mis_Network (mi_Spec m))"

lemma update_names: "fst ` set (AList.update k v al) = insert k (fst ` set al)"
  by (induction al) auto

lemma mkeys_put [simp]: "mkeys (mput k v (mmake m)) = insert k (mkeys m)"
  by (cases m) (simp_all add: mkeys_def mput_def mentries_def mmake_def update_names)

lemma mget_mkeys: "mget m k = None \<longleftrightarrow> k \<notin> mkeys m"
  by (cases m) (auto simp: mkeys_def map_of_eq_None_iff)

definition claimed :: "MachineInventory \<Rightarrow> MachineInventory \<Rightarrow> string set \<Rightarrow> bool" where
  "claimed m m' names \<longleftrightarrow> mis_IPAddressPools (mi_Spec m') = mis_IPAddressPools (mi_Spec m) \<and>
     mkeys (claimsOf m) \<union> names \<subseteq> mkeys (claimsOf m')"

lemma claimed_trans: "claimed m n ns \<Longrightarrow> claimed n p ps \<Longrightarrow> claimed m p (ns \<union> ps)"
  unfolding claimed_def by auto

lemma claimStep_claims: "wpre (claimStep env e) (\<lambda>r s'. claimed (self s) (self s') {} \<and>
    (r = Ok () \<longrightarrow> claimed (self s) (self s') {fst e})) s"
  by (cases e) (simp add: claimStep_def Let_def wp claimed_def ConvertToIPPoolReference_def subset_insertI
      split: sum.split option.split)

lemma claimLoop_claims: "wpre (forEach (claimStep env) es) (\<lambda>r s'. claimed (self s) (self s') {} \<and>
    (r = Ok () \<longrightarrow> claimed (self s) (self s') (fst ` set es))) s"
proof (induction es arbitrary: s)
  case Nil
  then show ?case by (simp add: wp claimed_def)
next
  case (Cons e es)
  show ?case unfolding forEach.simps
  proof (rule wpre_andThenI [OF claimStep_claims], goal_cases)
    case (1 x t)
    show ?case
      by (rule wpre_mono [OF Cons.IH])
        (use 1 claimed_trans [of "self s" "self t" "{fst e}"] claimed_trans [of "self s" "self t" "{}" _ "{}"] in auto)
  qed auto
qed

definition addressed :: "MachineInventory \<Rightarrow> MachineInventory \<Rightarrow> string set \<Rightarrow> bool" where
  "addressed m m' names \<longleftrightarrow> mis_IPAddressPools (mi_Spec m') = mis_IPAddressPools (mi_Spec m) \<and>
     mkeys (addressesOf m) \<union> names \<subseteq> mkeys (addressesOf m')"

lemma addressed_step: "addressed (updInvSpec (\<lambda>sp. sp\<lparr>mis_Network := (mis_Network sp)\<lparr>nc_IPAddresses :=
       mput n a (mmake (nc_IPAddresses (mis_Network sp)))\<rparr>\<rparr>) m) m' ns \<Longrightarrow> addressed m m' (insert n ns)"
  unfolding addressed_def by simp

lemma addressLoop_addresses: "wpre (addressLoop env es) (\<lambda>r s'. case r of
     Ok v \<Rightarrow> (v = noResult \<and> addressed (self s) (self s') (fst ` set es)) \<or>
       (v = requeueAfter second \<and> condStatus (mit_Conditions (mi_Status (self s'))) NetworkConfigReady = Some ''False'')
   | _ \<Rightarrow> True) s"
proof (induction es arbitrary: s)
  case Nil
  then show ?case by (simp add: wp addressed_def)
next
  case (Cons e es)
  obtain n c where e: "e = (n, c)" by force
  have next_one: "wpre (addressLoop env es) (\<lambda>r s'. case r of
     Ok v \<Rightarrow> (v = noResult \<and> addressed (self s) (self s') (insert n (fst ` set es))) \<or>
       (v = requeueAfter second \<and> condStatus (mit_Conditions (mi_Status (self s'))) NetworkConfigReady = Some ''False'')
   | _ \<Rightarrow> True) (s\<lparr>trace := t, self := updInvSpec (\<lambda>sp. sp\<lparr>mis_Network := (mis_Network sp)\<lparr>nc_IPAddresses :=
       mput n a (mmake (nc_IPAddresses (mis_Network sp)))\<rparr>\<rparr>) (self s)\<rparr>)" for t a
    by (rule wpre_mono [OF Cons.IH]) (auto split: outcome.splits dest: addressed_step)
  have names: "fst ` set (e # es) = insert n (fst ` set es)" using e by simp
  show ?case unfolding names
    using next_one by (auto simp: e wp split: option.split sum.split)
qed

text \<open>
  What ends the reconciliation of the network in an error: the last call created a claim and was
  refused, though not because it exists, or read a claim in vain or one that is being deleted, or
  read an address and failed for another reason than that there is none yet.
\<close>

definition netTrouble :: "env \<Rightarrow> call list \<Rightarrow> bool" where
  "netTrouble env t = (case t of [] \<Rightarrow> False | c # past \<Rightarrow> (case c of
      CCreate x \<Rightarrow> (case asClaim x of None \<Rightarrow> False
        | Some claim \<Rightarrow> (case answer env (decodePut asClaim claim) c past of
            Inl e \<Rightarrow> \<not> isAlreadyExists e | Inr _ \<Rightarrow> False))
    | CGet k ns nm \<Rightarrow>
        if k = KClaim then (case answer env (decodeOne asClaim) c past of
            Inl e \<Rightarrow> True
          | Inr claim \<Rightarrow> (case DeletionTimestamp claim of None \<Rightarrow> False | Some t \<Rightarrow> t \<noteq> 0))
        else k = KAddr \<and> (case answer env (decodeOne asAddr) c past of
            Inl e \<Rightarrow> \<not> isNotFound e | Inr _ \<Rightarrow> False)
    | _ \<Rightarrow> False))"

abbreviation netEnds :: "env \<Rightarrow> 'a outcome \<Rightarrow> MachineInventory st \<Rightarrow> bool" where
  "netEnds env r s' \<equiv> case r of Ok _ \<Rightarrow> True | Err e \<Rightarrow> netTrouble env (trace s') | Panic p \<Rightarrow> False"

lemma claimsOk_put [simp]: "claimsOk m \<Longrightarrow>
    claimsOk (updInvSpec (\<lambda>sp. sp\<lparr>mis_IPAddressClaims := mput name (Some c) (mmake (mis_IPAddressClaims sp))\<rparr>) m)"
  by (simp add: claimsOk_def claims_put del: not_None_eq)

lemma claimStep_net:
  assumes "poolOk (snd e)" and "claimsOk (self s)"
  shows "wpre (claimStep env e) (\<lambda>r s'. claimsOk (self s') \<and> netEnds env r s') s"
proof -
  obtain name ref where e: "e = (name, ref)" by force
  with assms(1) obtain pool where "ConvertToIPPoolReference ref = Ok pool"
    by (cases ref) (auto simp: ConvertToIPPoolReference_def poolOk_def)
  with assms(2) show ?thesis
    by (simp add: e claimStep_def Let_def wp lift_outcome_Ok netTrouble_def split: sum.split option.split)
qed

lemma claimLoop_net: "\<forall>e \<in> set es. poolOk (snd e) \<Longrightarrow> claimsOk (self s) \<Longrightarrow>
    wpre (forEach (claimStep env) es) (\<lambda>r s'. claimsOk (self s') \<and> netEnds env r s') s"
proof (induction es arbitrary: s)
  case Nil
  then show ?case by (simp add: wp)
next
  case (Cons e es)
  from Cons.prems have e: "poolOk (snd e)" and es: "\<forall>e \<in> set es. poolOk (snd e)" by simp_all
  show ?case unfolding forEach.simps
    by (rule wpre_andThenI [OF claimStep_net [OF e Cons.prems(2)]]) (auto intro: Cons.IH [OF es])
qed

lemma addressLoop_net: "list_all (\<lambda>e. snd e \<noteq> None) es \<Longrightarrow> wpre (addressLoop env es) (netEnds env) s"
proof (induction es arbitrary: s)
  case Nil
  then show ?case by (simp add: wp)
next
  case (Cons e es)
  then obtain name r where "e = (name, Some r)" by (cases e) auto
  with Cons show ?case by (simp add: wp netTrouble_def split: sum.split)
qed

lemma network_net:
  assumes "poolsOk (self s)" and "claimsOk (self s)"
  shows "wpre (reconcileNetworkConfig env) (netEnds env) s"
proof -
  have pools: "\<forall>e \<in> set (mentries (mis_IPAddressPools (mi_Spec (self s)))). poolOk (snd e)"
    using assms(1) by (simp add: poolsOk_def list_all_iff)
  show ?thesis
    unfolding reconcileNetworkConfig_def wp_bnd wp_gets outcome.case
    by (rule wpre_andThenI [OF claimLoop_net [OF pools assms(2)]])
      (simp_all add: wp_bnd wp_gets addressLoop_net claimsOk_def del: not_None_eq)
qed

subsection \<open>The adoption verdict\<close>

text \<open>
  The abstract decision on an adoption, from what matters of it: the owner, whether the adoption was
  confirmed before, the inventory that the owning selector refers to, and whether the time is up.
\<close>

datatype verdict = Wait | Keep | Validate | Confirm | Release

fun adoptionVerdict :: "bool \<Rightarrow> bool \<Rightarrow> string option \<Rightarrow> string \<Rightarrow> bool \<Rightarrow> verdict" where
  "adoptionVerdict owned confirmed ref name late =
    (if \<not> owned then Wait
     else if confirmed then Keep
     else case ref of
       None \<Rightarrow> if late then Release else Validate
     | Some n \<Rightarrow> if n = name then Confirm else Release)"

definition adoptionStatus :: "MachineInventory \<Rightarrow> string option" where
  "adoptionStatus m = condStatus (mit_Conditions (mi_Status m)) AdoptionReadyCondition"

text \<open>The start of the validation: the last transition to \<^verbatim>\<open>Unknown\<close>, or now.\<close>

definition validatingSince :: "MachineInventory \<Rightarrow> int \<Rightarrow> int" where
  "validatingSince m t = (case FindStatusCondition (mit_Conditions (mi_Status m)) AdoptionReadyCondition of
      Some c \<Rightarrow> if c_Status c = ''Unknown'' then c_LastTransitionTime c else t
    | None \<Rightarrow> t)"

definition selectorAnswer :: "env \<Rightarrow> MachineInventory st \<Rightarrow> goerr + MachineInventorySelector" where
  "selectorAnswer env s = (case getSelectorOwner (self s) of
      None \<Rightarrow> Inl errDecode
    | Some o' \<Rightarrow> answer env (decodeOne asSel) (CGet KSel (Namespace (self s)) (or_Name o')) (trace s))"

definition verdictOf :: "env \<Rightarrow> MachineInventory st \<Rightarrow> MachineInventorySelector \<Rightarrow> verdict" where
  "verdictOf env s sel = adoptionVerdict (getSelectorOwner (self s) \<noteq> None)
     (adoptionStatus (self s) = Some ''True'') (slt_MachineInventoryRef (sl_Status sel)) (Name (self s))
     (validatingSince (self s) (clock env (ticks s)) + adoptionTimeout \<le> clock env (Suc (ticks s)))"

definition enacts :: "verdict \<Rightarrow> MachineInventory \<Rightarrow> bool outcome \<Rightarrow> MachineInventory \<Rightarrow> bool" where
  "enacts v m r m' = (case v of
      Wait \<Rightarrow> r = Ok False \<and> adoptionStatus m' = Some ''False'' \<and> OwnerReferences m' = OwnerReferences m
    | Keep \<Rightarrow> r = Ok False \<and> m' = m
    | Validate \<Rightarrow> r = Ok True \<and> adoptionStatus m' = Some ''Unknown'' \<and> OwnerReferences m' = OwnerReferences m
    | Confirm \<Rightarrow> r = Ok False \<and> adoptionStatus m' = Some ''True'' \<and> OwnerReferences m' = OwnerReferences m
    | Release \<Rightarrow> (\<exists>e. r = Err e) \<and> adoptionStatus m' = Some ''Unknown'' \<and>
        (\<exists>o'. getSelectorOwner m = Some o' \<and>
          mset (OwnerReferences m) = add_mset o' (mset (OwnerReferences m'))))"

lemma owners_conds [simp]:
  "OwnerReferences (updInvConds f m) = OwnerReferences m" "OwnerReferences (updInvStatus g m) = OwnerReferences m"
  "Name (updInvConds f m) = Name m"
  by (simp_all add: updInvConds_def updInvStatus_def)

lemma getOwner_conds [simp]: "getSelectorOwner (updInvConds f m) = getSelectorOwner m"
  by (simp add: getSelectorOwner_eq)

lemma release_owner: "getSelectorOwner m = Some o' \<Longrightarrow>
    mset (OwnerReferences m) = add_mset o' (mset (OwnerReferences (removeSelectorOwnerShip m)))"
proof -
  assume o: "getSelectorOwner m = Some o'"
  then have "o' \<in># mset (OwnerReferences m)"
    by (auto simp: getSelectorOwner_eq find_Some_iff)
  with remove_mset [of m] o show ?thesis by simp
qed

lemma adoptionStatus_conds [simp]:
  "adoptionStatus (removeSelectorOwnerShip m) = adoptionStatus m"
  "adoptionStatus (updInvConds (SetStatusCondition t (mkCondition AdoptionReadyCondition reason st msg)) m) = Some st"
  by (simp_all add: adoptionStatus_def)

lemma since_deadline: "c_LastTransitionTime (case FindStatusCondition cs AdoptionReadyCondition of
       None \<Rightarrow> (mkCondition AdoptionReadyCondition r ''Unknown'' msg)\<lparr>c_LastTransitionTime := t\<rparr>
     | Some old \<Rightarrow> updateCondition t (mkCondition AdoptionReadyCondition r ''Unknown'' msg) old) =
   (case FindStatusCondition cs AdoptionReadyCondition of
      Some c \<Rightarrow> if c_Status c = ''Unknown'' then c_LastTransitionTime c else t | None \<Rightarrow> t)"
  by (simp add: stampOf_def split: option.split)

lemma adoption_wp:
  "wpre (updateInventoryWithAdoptionStatus env) (\<lambda>r s'.
     if getSelectorOwner (self s) \<noteq> None \<and> adoptionStatus (self s) \<noteq> Some ''True'' then
       (case selectorAnswer env s of
          Inl e \<Rightarrow> r = Err (wrap ''failed to get machine inventory selector'' e) \<and> self s' = self s
        | Inr sel \<Rightarrow> enacts (verdictOf env s sel) (self s) r (self s'))
     else \<forall>sel. enacts (verdictOf env s sel) (self s) r (self s')) s"
proof (cases "getSelectorOwner (self s)")
  case None
  then show ?thesis
    by (simp add: updateInventoryWithAdoptionStatus_def wp verdictOf_def enacts_def)
next
  case (Some o')
  show ?thesis
  proof (cases "adoptionStatus (self s) = Some ''True''")
    case True
    with Some show ?thesis
      by (simp add: updateInventoryWithAdoptionStatus_def wp verdictOf_def enacts_def adoptionStatus_def)
  next
    case False
    show ?thesis
    proof (cases "selectorAnswer env s")
      case (Inl e)
      with Some False show ?thesis
        by (simp add: updateInventoryWithAdoptionStatus_def wp adoptionStatus_def selectorAnswer_def)
    next
      case (Inr sel)
      let ?since = "validatingSince (self s) (clock env (ticks s))"
      have rel: "mset (OwnerReferences (self s)) = add_mset o' (mset (OwnerReferences
          (removeSelectorOwnerShip (updInvConds f (self s)))))" for f
        using release_owner [of "updInvConds f (self s)" o'] Some by simp
      show ?thesis
        using Some False Inr rel
        by (auto simp: updateInventoryWithAdoptionStatus_def wp Let_def since_deadline
            validatingSince_def [symmetric] verdictOf_def enacts_def selectorAnswer_def
            adoptionStatus_def [of "self s", symmetric] split: option.split)
    qed
  qed
qed

lemma network_reconciled:
  "wpre (reconcileNetworkConfig env) (\<lambda>r s'. case r of
     Ok v \<Rightarrow> (v = noResult \<and> \<not> networkNeedsReconcile (self s')) \<or>
       (v = requeueAfter second \<and> condStatus (mit_Conditions (mi_Status (self s'))) NetworkConfigReady = Some ''False'')
   | _ \<Rightarrow> True) s"
proof -
  let ?Q = "\<lambda>r s'. case r of
     Ok v \<Rightarrow> (v = noResult \<and> \<not> networkNeedsReconcile (self s')) \<or>
       (v = requeueAfter second \<and> condStatus (mit_Conditions (mi_Status (self s'))) NetworkConfigReady = Some ''False'')
   | _ \<Rightarrow> True"
  show "wpre (reconcileNetworkConfig env) ?Q s"
    unfolding reconcileNetworkConfig_def wp_bnd wp_gets outcome.case
  proof (rule wpre_andThenI [OF claimLoop_claims], goal_cases)
    case (1 x t)
    then have c: "mis_IPAddressPools (mi_Spec (self t)) = mis_IPAddressPools (mi_Spec (self s))"
      "fst ` set (mentries (mis_IPAddressPools (mi_Spec (self s)))) \<subseteq> mkeys (claimsOf (self t))"
      by (auto simp: claimed_def)
    show ?case unfolding wp_bnd wp_gets outcome.case
    proof (rule wpre_mono [OF addressLoop_addresses])
      fix r s'
      assume A: "case r of
        Ok v \<Rightarrow> (v = noResult \<and> addressed (self t) (self s') (fst ` set (mentries (claimsOf (self t))))) \<or>
          (v = requeueAfter second \<and> condStatus (mit_Conditions (mi_Status (self s'))) NetworkConfigReady = Some ''False'')
      | _ \<Rightarrow> True"
      have "\<not> networkNeedsReconcile (self s')"
        if "addressed (self t) (self s') (fst ` set (mentries (claimsOf (self t))))"
      proof -
        have "mkeys (claimsOf (self t)) \<subseteq> mkeys (addressesOf (self s'))"
          "mis_IPAddressPools (mi_Spec (self s')) = mis_IPAddressPools (mi_Spec (self s))"
          using that c(1) by (simp_all add: addressed_def mkeys_def)
        then have "fst ` set (mentries (mis_IPAddressPools (mi_Spec (self s')))) \<subseteq> mkeys (addressesOf (self s'))"
          using subset_trans [OF c(2)] by simp
        then show ?thesis
          by (force simp: networkNeedsReconcile_def list_ex_iff mget_mkeys)
      qed
      with A show "?Q r s'" by (cases r) auto
    qed
  qed simp_all
qed

section \<open>Properties\<close>

text \<open>
  C12: a finalizer that is gone after a reconciliation was dropped for a reason: the inventory was being
  deleted, and it is not resettable, or the reconciler read its own plan secret with a reset plan and
  found in it the checksum of an applied plan, or, with no checksum in it, a status that said applied
  already.
\<close>

theorem finalizer_guard:
  assumes "guarded (self s)" and "reconcileInv env s = (r, s')" and "\<not> guarded (self s')"
  shows "isDeleting (self s) \<and>
    (mget (Annotations (self s)) ResettableAnnotation \<noteq> Some ''true'' \<or> resetConfirmed env (self s) (trace s))"
proof -
  have live: "wpre (andThen (onErr (createPlanSecret env)
        (failCond env ReadyCondition PlanCreationFailureReason (wrap ''failed to create plan secret'')))
      (bnd this (\<lambda>m. if networkNeedsReconcile m then reconcileNetwork env else reconcileStatus env)))
      (\<lambda>r s'. guarded (self s')) s"
  proof -
    have "safe guarded UNIV (andThen (onErr (createPlanSecret env)
        (failCond env ReadyCondition PlanCreationFailureReason (wrap ''failed to create plan secret'')))
      (bnd this (\<lambda>m. if networkNeedsReconcile m then reconcileNetwork env else reconcileStatus env)))"
      by (intro safe_andThen safe_onErr safe_guarded_live safe_failCond) simp
    from safeD [OF this assms(1)] show ?thesis by simp
  qed
  let ?C = "mget (Annotations (self s)) ResettableAnnotation \<noteq> Some ''true'' \<or> resetConfirmed env (self s) (trace s)"
  have del: "wpre (andThen (onErr (reconcileResetPlanSecret env)
        (failCond env ReadyCondition PlanFailureReason (wrap ''reconciling reset plan secret'')))
      (ret noResult)) (\<lambda>r s'. guarded (self s') \<or> ?C) s"
    by (rule wpre_recoverI [OF resetPlan_guarded [OF assms(1)]]) (auto simp: wp)
  have "wpre (reconcileInv env) (\<lambda>r s'. guarded (self s') \<or> (isDeleting (self s) \<and> ?C)) s"
    using live del assms(1)
    by (auto simp: reconcileInv_def wp_bnd wp_gets wp_if wp_ret)
  with assms(2,3) show ?thesis by (simp add: wpre_def)
qed

definition doomed :: "MachineInventory" where
  "doomed = zeroInventory\<lparr>Name := ''m'', Namespace := ''ns'', UID := ''u'', DeletionTimestamp := Some 7,
     Finalizers := [MachineInventoryFinalizer]\<rparr>"

definition reset_secret :: Secret where
  "reset_secret = ObjectMeta.extend (zeroMeta\<lparr>Name := ''m'', Namespace := ''ns'',
     Annotations := Some [(PlanTypeAnnotation, PlanTypeReset)],
     OwnerReferences := [\<lparr>or_APIVersion = GroupVersion, or_Kind = ''MachineInventory'', or_Name = ''m'',
       or_UID = ''u'', or_Controller = Some True,
          or_BlockOwnerDeletion = None\<rparr>]\<rparr>)
   \<lparr>sec_Type = PlanSecretType, sec_Data = Some [(''plan'', ''reset'')], sec_StringData = None\<rparr>"

definition stale_inventory :: MachineInventory where
  "stale_inventory = doomed\<lparr>Annotations := Some [(ResettableAnnotation, ''true'')],
     mi_Status := \<lparr>mit_Conditions = [], mit_Plan = Some \<lparr>pl_SecretRef = Some (mkRef [] ''ns'' ''m''),
       pl_Checksum = ''old'', pl_State = PlanApplied\<rparr>\<rparr>\<rparr>"

text \<open>
  A resettable inventory whose plan is not known to be applied, and its secret with the checksum of
  the applied reset plan: the reconciler confirms the reset before it lets the inventory go. Without
  the checksum the finalizer stays.
\<close>

definition resetting_inventory :: MachineInventory where
  "resetting_inventory = stale_inventory\<lparr>mi_Status := \<lparr>mit_Conditions = [], mit_Plan = Some
     \<lparr>pl_SecretRef = Some (mkRef [] ''ns'' ''m''), pl_Checksum = ''old'', pl_State = []\<rparr>\<rparr>\<rparr>"

definition secret_env :: "(string \<times> string) list \<Rightarrow> env" where
  "secret_env d = demo_env (\<lambda>c. if c = CGet KSecret ''ns'' ''m''
     then Some (RObjs [OSecret (reset_secret\<lparr>sec_Data := Some d\<rparr>)]) else None) []"

theorem finalizer_guard_witness:
  "let run = (\<lambda>d. reconcileInv (secret_env d) (start resetting_inventory)) in
   guarded resetting_inventory \<and> isDeleting resetting_inventory \<and>
   guarded (self (snd (run [(''plan'', ''reset'')]))) \<and>
   \<not> guarded (self (snd (run [(''applied-checksum'', ''sum'')]))) \<and>
   resetConfirmed (secret_env [(''applied-checksum'', ''sum'')]) resetting_inventory []"
proof -
  let ?env = "secret_env [(''applied-checksum'', ''sum'')]" and ?s = "start resetting_inventory"
  have g: "guarded resetting_inventory" by code_simp
  then have gs: "guarded (self ?s)" and s: "self ?s = resetting_inventory" "trace ?s = []" by (simp_all add: start_def)
  have kept: "guarded (self (snd (reconcileInv (secret_env [(''plan'', ''reset'')]) ?s)))" by code_simp
  have gone: "\<not> guarded (self (snd (reconcileInv ?env ?s)))" by code_simp
  have able: "mget (Annotations resetting_inventory) ResettableAnnotation = Some ''true''" by code_simp
  obtain r s' where run: "reconcileInv ?env ?s = (r, s')" by force
  with gone have "\<not> guarded (self s')" by simp
  from finalizer_guard [OF gs run this] able have "isDeleting resetting_inventory" "resetConfirmed ?env resetting_inventory []"
    unfolding s by simp_all
  with g kept gone show ?thesis by (simp add: Let_def)
qed

text \<open>
  C13: the last case happens: a reconciler that wrote the reset plan but whose status update was lost
  finds, at the next run, the status of the plan before. That status says applied, and although the
  secret holds no checksum of the reset plan, the finalizer is dropped and the machine's inventory
  goes before the machine was reset.
\<close>

theorem stale_status_skips_reset:
  assumes "isDeleting (self s)" and "guarded (self s)"
    and "mget (Annotations (self s)) ResettableAnnotation = Some ''true''"
    and "mit_Plan (mi_Status (self s)) = Some p" and "pl_State p = PlanApplied"
    and "pl_SecretRef p = Some ref" and "ref_Namespace ref = Namespace (self s)" and "ref_Name ref = Name (self s)"
    and "\<forall>t. answer env (decodeOne asSecret) (CGet KSecret (Namespace (self s)) (Name (self s))) t = Inr sec"
    and "IsObjectOwned sec (UID (self s))" and "mget (Annotations sec) PlanTypeAnnotation = Some PlanTypeReset"
    and "mstr (sec_Data sec) ''applied-checksum'' = []" and "mstr (sec_Data sec) ''failed-checksum'' = []"
  shows "\<exists>s'. reconcileInv env s = (Ok noResult, s') \<and> \<not> guarded (self s') \<and>
    condReason (mit_Conditions (mi_Status (self s'))) ReadyCondition = Some WaitingForPlanReason"
proof -
  have "wpre (reconcileInv env) (\<lambda>r s'. r = Ok noResult \<and> \<not> guarded (self s') \<and>
    condReason (mit_Conditions (mi_Status (self s'))) ReadyCondition = Some WaitingForPlanReason) s"
    using assms
    by (simp add: reconcileInv_def reconcileResetPlanSecret_def updateInventoryWithPlanStatus_def
        dropFinalizer_def wp Let_def)
      (simp add: RemoveFinalizer_def)
  then show ?thesis by (auto simp: wpre_def split: prod.splits)
qed

theorem stale_status_skips_reset_witness:
  "\<not> guarded (self (snd (reconcileInv (demo_env (\<lambda>c. if c = CGet KSecret ''ns'' ''m''
     then Some (RObjs [OSecret reset_secret]) else None) []) (start stale_inventory))))"
proof -
  let ?env = "demo_env (\<lambda>c. if c = CGet KSecret ''ns'' ''m'' then Some (RObjs [OSecret reset_secret]) else None) []"
  let ?s = "start stale_inventory"
  have "isDeleting (self ?s)" "guarded (self ?s)"
    "mget (Annotations (self ?s)) ResettableAnnotation = Some ''true''"
    "IsObjectOwned reset_secret (UID (self ?s))"
    "mget (Annotations reset_secret) PlanTypeAnnotation = Some PlanTypeReset"
    "mstr (sec_Data reset_secret) ''applied-checksum'' = []" "mstr (sec_Data reset_secret) ''failed-checksum'' = []"
    by code_simp+
  note runs = this
  have "\<forall>t. answer ?env (decodeOne asSecret) (CGet KSecret (Namespace (self ?s)) (Name (self ?s))) t = Inr reset_secret"
    by (simp add: start_def stale_inventory_def doomed_def answer_def demo_env_def demo_respond_def decodeOne_def)
  note reads = this
  let ?ref = "mkRef [] ''ns'' ''m''"
  let ?p = "\<lparr>pl_SecretRef = Some ?ref, pl_Checksum = ''old'', pl_State = PlanApplied\<rparr>"
  have "mit_Plan (mi_Status (self ?s)) = Some ?p" "pl_State ?p = PlanApplied" "pl_SecretRef ?p = Some ?ref"
    "ref_Namespace ?ref = Namespace (self ?s)" "ref_Name ?ref = Name (self ?s)"
    by (simp_all add: start_def stale_inventory_def doomed_def mkRef_def)
  from stale_status_skips_reset [OF runs(1-3) this reads runs(4-7)] obtain s' where
    "reconcileInv ?env ?s = (Ok noResult, s')" "\<not> guarded (self s')" by blast
  then show ?thesis by simp
qed



text \<open>
  A pool reference without an API group, which its type allows, makes the reconciliation of the
  network panic, before any call for it.
\<close>

theorem pool_without_group_panics:
  assumes "mis_IPAddressPools (mi_Spec (self s)) = Some ((name, Some ref) # rest)" and "tref_APIGroup ref = None"
  shows "reconcileNetworkConfig env s = (Panic ''nil pointer dereference'', s)"
  using assms by (simp add: reconcileNetworkConfig_def claimStep_def ConvertToIPPoolReference_def run)

theorem pool_without_group_panics_witness:
  "fst (reconcileNetworkConfig (demo_env (\<lambda>_. None) []) (start (updInvSpec (\<lambda>sp. sp\<lparr>mis_IPAddressPools :=
     Some [(''eth0'', Some \<lparr>tref_APIGroup = None, tref_Kind = ''InClusterIPPool'', tref_Name = ''pool''\<rparr>)]\<rparr>)
       zeroInventory))) = Panic ''nil pointer dereference''"
proof -
  let ?ref = "\<lparr>tref_APIGroup = None, tref_Kind = ''InClusterIPPool'', tref_Name = ''pool''\<rparr>"
  have "tref_APIGroup ?ref = None" by simp
  then show ?thesis
    by (subst pool_without_group_panics [where ref = ?ref]) (simp_all add: start_def)
qed

text \<open>
  C15: for an inventory whose pools name their API group and whose claims are references, the
  reconciliation of the network has exactly these ends: it leaves an address for every pool, so that
  the network needs no further one; or it leaves \<^verbatim>\<open>NetworkConfigReady\<close> false and asks to be repeated
  in a second; or it ends with an error, and then its last call created a claim and was refused, or
  read a claim in vain or one being deleted, or failed to read an address. It never panics.
\<close>

theorem network_converges:
  assumes "poolsOk (self s)" and "claimsOk (self s)"
  shows "case reconcileNetworkConfig env s of
     (Ok res, s') \<Rightarrow> if res = noResult then \<not> networkNeedsReconcile (self s')
       else res = requeueAfter second \<and> condStatus (mit_Conditions (mi_Status (self s'))) NetworkConfigReady = Some ''False''
   | (Err e, s') \<Rightarrow> netTrouble env (trace s')
   | (Panic p, s') \<Rightarrow> False"
  using network_reconciled [of env s] network_net [OF assms, of env]
  by (auto simp: wpre_def noResult_def requeueAfter_def second_def split: prod.splits outcome.splits)

definition pooled_inventory :: MachineInventory where
  "pooled_inventory = updInvSpec (\<lambda>sp. sp\<lparr>mis_IPAddressPools := Some [(''eth0'',
     Some \<lparr>tref_APIGroup = Some ''ipam'', tref_Kind = ''InClusterIPPool'', tref_Name = ''pool''\<rparr>)]\<rparr>)
     (zeroInventory\<lparr>Name := ''m'', Namespace := ''ns''\<rparr>)"

text \<open>The API server stores the claim; it has its address, or not yet.\<close>

definition pool_answers :: "bool \<Rightarrow> call \<Rightarrow> resp option" where
  "pool_answers allocated c = (case c of
      CGet k ns nm \<Rightarrow>
        if k = KClaim then Some (RObjs [OClaim (newClaim pooled_inventory ''eth0''
          \<lparr>ipr_Name = ''pool'', ipr_Kind = ''InClusterIPPool'', ipr_APIGroup = ''ipam''\<rparr>)])
        else if k = KAddr \<and> allocated then Some (RObjs [OAddr (ObjectMeta.extend zeroMeta \<lparr>ipa_Address = ''10.0.0.2''\<rparr>)])
        else None
    | _ \<Rightarrow> None)"

theorem network_converges_witness:
  "let run = (\<lambda>allocated. reconcileNetworkConfig (demo_env (pool_answers allocated) []) (start pooled_inventory)) in
   networkNeedsReconcile pooled_inventory \<and>
   fst (run True) = Ok noResult \<and> \<not> networkNeedsReconcile (self (snd (run True))) \<and>
   fst (run False) = Ok (requeueAfter second) \<and>
   condStatus (mit_Conditions (mi_Status (self (snd (run False))))) NetworkConfigReady = Some ''False''"
proof -
  let ?env = "\<lambda>allocated. demo_env (pool_answers allocated) []"
  have need: "networkNeedsReconcile pooled_inventory" by code_simp
  have "poolsOk (self (start pooled_inventory))" "claimsOk (self (start pooled_inventory))" by code_simp+
  note ends = network_converges [OF this]
  have 1: "fst (reconcileNetworkConfig (?env True) (start pooled_inventory)) = Ok noResult" by code_simp
  have 2: "fst (reconcileNetworkConfig (?env False) (start pooled_inventory)) = Ok (requeueAfter second)" by code_simp
  have "requeueAfter second \<noteq> noResult" by code_simp
  with need 1 2 ends [of "?env True"] ends [of "?env False"] show ?thesis
    by (auto simp: Let_def split: prod.splits outcome.splits)
qed

text \<open>
  C16: the handler of the adoption refines the abstract verdict: it waits without an owner, keeps a
  confirmed adoption, confirms when the owning selector refers back to this inventory, and releases
  exactly the owner (as a multiset, the other owners stay) when the selector refers to another one or
  when the time since the validation began is up.
\<close>

theorem adoption_refines_verdict:
  "case updateInventoryWithAdoptionStatus env s of (r, s') \<Rightarrow>
     (if getSelectorOwner (self s) \<noteq> None \<and> adoptionStatus (self s) \<noteq> Some ''True'' then
       (case selectorAnswer env s of
          Inl e \<Rightarrow> r = Err (wrap ''failed to get machine inventory selector'' e) \<and> self s' = self s
        | Inr sel \<Rightarrow> enacts (verdictOf env s sel) (self s) r (self s'))
      else \<forall>sel. enacts (verdictOf env s sel) (self s) r (self s'))"
  using adoption_wp [of env s] by (simp add: wpre_def)

end
