(* ===== verification/SelectorCtl.thy ===== *)
theory SelectorCtl
  imports InventoryCtl
begin

text \<open>
  The reconciler of machine inventory selectors (\<^verbatim>\<open>controllers/machineselector_controller.go\<close>): it
  looks for a free inventory that its label selector matches and takes it, waits until the
  inventory's own reconciler confirms the adoption, writes the bootstrap plan of the machine that
  owns the selector into the plan secret of the inventory, and publishes the addresses of the
  machine. \<^verbatim>\<open>reconcile\<close> hands a pointer to the inventory from step to step, but by value: a step that
  sets it does not set its caller's, so every step that needs the inventory reads it.
\<close>

section \<open>Constants\<close>

definition WaitingForInventoryReason :: string where
  "WaitingForInventoryReason = ''WaitingForInventory''"

definition SuccessfullyUpdatedPlanReason :: string where
  "SuccessfullyUpdatedPlanReason = ''SuccessfullyUpdatedPlan''"

definition FailedToUpdatePlanReason :: string where
  "FailedToUpdatePlanReason = ''FailedToUpdatePlan''"

definition FailedToSetAdressesReason :: string where
  "FailedToSetAdressesReason = ''FailedToSetAdresses''"

definition SelectorReadyReason :: string where
  "SelectorReadyReason = ''SelectorReady''"

definition WaitForInventoryCheckReason :: string where
  "WaitForInventoryCheckReason = ''WaitForInventoryCheck''"

definition SuccessfullyAdoptedInventoryReason :: string where
  "SuccessfullyAdoptedInventoryReason = ''SuccessfullyAdoptedInventory''"

definition FailedToAdoptInventoryReason :: string where
  "FailedToAdoptInventoryReason = ''FailedToAdoptInventory''"

definition machineGroupVersion :: string where
  "machineGroupVersion = ''cluster.x-k8s.io/v1beta2''"

definition MachineExternalIP :: string where "MachineExternalIP = ''ExternalIP''"

definition MachineInternalIP :: string where "MachineInternalIP = ''InternalIP''"

definition MachineHostName :: string where "MachineHostName = ''Hostname''"

section \<open>Label selectors\<close>

text \<open>
  \<^verbatim>\<open>labels.NewRequirement\<close> checks the syntax of keys and values; that check is a parameter. A selector
  is its list of requirements (which the library keeps sorted by key); matching looks at each.
\<close>

definition NewRequirement :: "env \<Rightarrow> string \<Rightarrow> string \<Rightarrow> string list \<Rightarrow> goerr + requirement" where
  "NewRequirement env key op vals = (case requirement_error (lib env) (key, op, vals) of
      Some e \<Rightarrow> Inl e | None \<Rightarrow> Inr (key, op, vals))"

definition selectorOperator :: "string \<Rightarrow> goerr + string" where
  "selectorOperator op =
    (if op = ''In'' then Inr ''in''
     else if op = ''NotIn'' then Inr ''notin''
     else if op = ''Exists'' then Inr ''exists''
     else if op = ''DoesNotExist'' then Inr ''!''
     else Inl (EMsg (go_quote op @ '' is not a valid label selector operator'')))"

definition exprRequirement :: "env \<Rightarrow> LabelSelectorRequirement \<Rightarrow> goerr + requirement" where
  "exprRequirement env expr = (case selectorOperator (lsr_Operator expr) of
      Inl e \<Rightarrow> Inl e
    | Inr op \<Rightarrow> NewRequirement env (lsr_Key expr) op (lsr_Values expr))"

fun allRight :: "(goerr + 'a) list \<Rightarrow> goerr + 'a list" where
  "allRight [] = Inr []"
| "allRight (x # xs) = (case x of Inl e \<Rightarrow> Inl e
     | Inr y \<Rightarrow> (case allRight xs of Inl e \<Rightarrow> Inl e | Inr ys \<Rightarrow> Inr (y # ys)))"

definition LabelSelectorAsSelector :: "env \<Rightarrow> LabelSelector \<Rightarrow> goerr + requirement list" where
  "LabelSelectorAsSelector env ps = allRight
     (map (\<lambda>(k, v). NewRequirement env k ''='' [v]) (mentries (ls_MatchLabels ps))
      @ map (exprRequirement env) (ls_MatchExpressions ps))"

definition requirementMatches :: "string gomap \<Rightarrow> requirement \<Rightarrow> bool" where
  "requirementMatches ls r = (case r of (key, op, vals) \<Rightarrow>
     if op \<in> set [''in'', ''='', ''=='']
     then (case mget ls key of None \<Rightarrow> False | Some v \<Rightarrow> v \<in> set vals)
     else if op \<in> set [''notin'', ''!='']
     then (case mget ls key of None \<Rightarrow> True | Some v \<Rightarrow> v \<notin> set vals)
     else if op = ''exists'' then mget ls key \<noteq> None
     else if op = ''!'' then mget ls key = None
     else False)"

definition selectorMatches :: "requirement list \<Rightarrow> string gomap \<Rightarrow> bool" where
  "selectorMatches sel ls = list_all (requirementMatches ls) sel"

section \<open>State\<close>

type_synonym 'a sel_handler = "(MachineInventorySelector st, 'a) go"

definition updSelStatus :: "(MachineInventorySelectorStatus \<Rightarrow> MachineInventorySelectorStatus)
    \<Rightarrow> MachineInventorySelector \<Rightarrow> MachineInventorySelector" where
  "updSelStatus f x = x\<lparr>sl_Status := f (sl_Status x)\<rparr>"

definition updSelConds :: "(Condition list \<Rightarrow> Condition list) \<Rightarrow> MachineInventorySelector \<Rightarrow> MachineInventorySelector" where
  "updSelConds f = updSelStatus (\<lambda>st. st\<lparr>slt_Conditions := f (slt_Conditions st)\<rparr>)"

definition setRef :: "string option \<Rightarrow> unit sel_handler" where
  "setRef r = update (updSelStatus (\<lambda>st. st\<lparr>slt_MachineInventoryRef := r\<rparr>))"

definition selCond :: "env \<Rightarrow> string \<Rightarrow> string \<Rightarrow> string \<Rightarrow> string \<Rightarrow> unit sel_handler" where
  "selCond env ty reason status msg = setCond env updSelConds (mkCondition ty reason status msg)"

definition failSel :: "env \<Rightarrow> string \<Rightarrow> string \<Rightarrow> string \<Rightarrow> goerr \<Rightarrow> 'a sel_handler" where
  "failSel env ty reason msg e =
     andThen (selCond env ty reason ''False'' (err_text e)) (fail (wrap msg e))"

section \<open>Finding an inventory\<close>

definition pickInventory :: "MachineInventory list \<Rightarrow> MachineInventory option" where
  "pickInventory xs = find (\<lambda>m. DeletionTimestamp m = None \<and> \<not> isAlreadyOwned m) xs"

definition selectorRef :: "MachineInventorySelector \<Rightarrow> OwnerReference" where
  "selectorRef x = \<lparr>or_APIVersion = GroupVersion, or_Kind = ''MachineInventorySelector'', or_Name = Name x,
     or_UID = UID x, or_Controller = Some True,
          or_BlockOwnerDeletion = None\<rparr>"

definition takenBy :: "MachineInventorySelector \<Rightarrow> MachineInventory \<Rightarrow> MachineInventory" where
  "takenBy x m = m\<lparr>OwnerReferences := [selectorRef x]\<rparr>"

definition findAndAdoptInventory :: "env \<Rightarrow> unit sel_handler" where
  "findAndAdoptInventory env = bnd this (\<lambda>x.
     if slt_MachineInventoryRef (sl_Status x) \<noteq> None then ret ()
     else andThen (selCond env ReadyCondition WaitingForInventoryReason ''False'' [])
    (bnd (orWrap (lift_sum (LabelSelectorAsSelector env (sls_Selector (sl_Spec x))))
           ''failed to convert spec to a label selector'') (\<lambda>labelSelector.
     bnd (listObj env KInv asInv None labelSelector) (\<lambda>items.
     case pickInventory items of
       None \<Rightarrow> ret ()
     | Some m \<Rightarrow>
         bnd (orWrap (putObj env (CPatch True (OInv m) (OInv (takenBy x m))) asInv (takenBy x m))
               ''failed to patch machine inventory'') (\<lambda>m'.
         andThen (setRef (Some (Name m')))
        (bnd (now env) (\<lambda>t. update (updSelConds (SetStatusCondition t
           ((mkCondition InventoryReadyCondition WaitForInventoryCheckReason ''Unknown'' [])
              \<lparr>c_LastTransitionTime := t\<rparr>))))))))))"

section \<open>Waiting for the adoption\<close>

definition minute :: int where
  "minute = 60 * second"

definition isOrphan :: "MachineInventory \<Rightarrow> bool" where
  "isOrphan m \<longleftrightarrow> getSelectorOwner m = None \<or>
     condStatus (mit_Conditions (mi_Status m)) AdoptionReadyCondition \<noteq> Some ''True''"

text \<open>The result is the time after which the reconciliation is to be repeated, 0 for none.\<close>

definition updateAdoptionStatus :: "env \<Rightarrow> int sel_handler" where
  "updateAdoptionStatus env = bnd this (\<lambda>x. case slt_MachineInventoryRef (sl_Status x) of
     None \<Rightarrow> ret minute
   | Some nm \<Rightarrow> (case FindStatusCondition (slt_Conditions (sl_Status x)) InventoryReadyCondition of
       None \<Rightarrow> fail (EMsg ''missing required InventoryReadyCondition it must be already set at this phase'')
     | Some inventoryReady \<Rightarrow>
       if c_Status inventoryReady = ''True'' then ret 0
       else bnd (orWrap (getObj env KInv asInv (Namespace x) nm) ''failed to get machine inventory'') (\<lambda>m.
         let deadLine = c_LastTransitionTime inventoryReady + adoptionTimeout in
         bnd (now env) (\<lambda>t.
         if (case getSelectorOwner m of None \<Rightarrow> False | Some owner \<Rightarrow> or_Name owner \<noteq> Name x)
         then andThen (setRef None)
           (fail (EMsg ''machine inventory ownership mismatch detected, restart adoption''))
         else if isOrphan m \<and> deadLine < t
         then andThen (setRef None)
           (fail (EMsg (''machine inventory adoption validation timeout, restart adoption. Deadline was: ''
             @ show_time (lib env) deadLine)))
         else if isOrphan m
         then andThen (selCond env InventoryReadyCondition WaitForInventoryCheckReason ''Unknown'' []) (ret second)
         else andThen (selCond env InventoryReadyCondition SuccessfullyAdoptedInventoryReason ''True'' []) (ret 0)))))"


section \<open>The bootstrap plan\<close>

text \<open>The first owner that is a machine; no owner gives a nil machine without an error.\<close>

definition isMachineRef :: "OwnerReference \<Rightarrow> bool" where
  "isMachineRef r \<longleftrightarrow> or_APIVersion r = machineGroupVersion \<and> or_Kind r = ''Machine''"

definition getOwnerMachine :: "env \<Rightarrow> Machine option sel_handler" where
  "getOwnerMachine env = bnd this (\<lambda>x. case find isMachineRef (OwnerReferences x) of
     None \<Rightarrow> ret None
   | Some owner \<Rightarrow> bnd (getObj env KMachine asMachine (Namespace x) (or_Name owner)) (\<lambda>m. ret (Some m)))"

definition planFile :: "string \<Rightarrow> string \<Rightarrow> string \<Rightarrow> PlanFile" where
  "planFile content path perm = \<lparr>pf_Content = base64 content, pf_Path = path, pf_Permissions = perm\<rparr>"

definition bootstrapPlan :: "string \<Rightarrow> string \<Rightarrow> string \<Rightarrow> Plan" where
  "bootstrapPlan script labels name = \<lparr>
     plan_Files =
      [planFile script ''/var/lib/rancher/bootstrap.sh'' ''0700'',
       planFile (''node-name: '' @ name) ''/etc/rancher/rke2/config.yaml.d/99-elemental-name.yaml'' ''0600'',
       planFile labels ''/etc/rancher/rke2/config.yaml.d/99-elemental-inventory-labels.yaml'' ''0600'',
       planFile (''node-name: '' @ name) ''/etc/rancher/k3s/config.yaml.d/99-elemental-name.yaml'' ''0600'',
       planFile labels ''/etc/rancher/k3s/config.yaml.d/99-elemental-inventory-labels.yaml'' ''0600'',
       planFile name ''/usr/local/etc/hostname'' ''0644'',
       planFile name ''/run/elemental/persistent/etc/hostname'' ''0644''],
     plan_Instructions =
      [\<lparr>oti_Name = ''configure hostname'', oti_Args = [''set-hostname'', ''--transient'', name],
        oti_Command = ''hostnamectl''\<rparr>,
       \<lparr>oti_Name = [], oti_Args = [''-c'', ''[ -f /var/lib/rancher/bootstrap_done ] || /var/lib/rancher/bootstrap.sh && touch /var/lib/rancher/bootstrap_done''],
        oti_Command = ''bash''\<rparr>]\<rparr>"

definition nodeLabels :: "MachineInventory \<Rightarrow> string list" where
  "nodeLabels m = map (\<lambda>(label, value). label @ ''='' @ value) (mentries (Labels m))"

definition newBootstrapPlan :: "env \<Rightarrow> MachineInventory \<Rightarrow> (string \<times> string) sel_handler" where
  "newBootstrapPlan env m =
     bnd (orWrap (getOwnerMachine env) ''failed to find an owner machine for inventory selector'') (\<lambda>machine.
     case machine of
       None \<Rightarrow> fail (EMsg ''machine for machine inventory selector doesn't exist'')
     | Some mc \<Rightarrow> (case mc_DataSecretName mc of
         None \<Rightarrow> fail (EMsg (''machine '' @ Namespace mc @ ''/'' @ Name mc @ '' missing bootstrap data secret name''))
       | Some nm \<Rightarrow>
           bnd (orWrap (getObj env KSecret asSecret (Namespace mc) nm)
                  ''failed to get a boostrap plan for the machine'') (\<lambda>bootstrapSecret.
           bnd (orWrap (lift_sum (yaml_labels (lib env) (nodeLabels m)))
                  ''failed to marshal node labels from inventory'') (\<lambda>labels.
           lift_sum (encodePlan env (bootstrapPlan (mstr (sec_Data bootstrapSecret) ''value'') labels (Name m)))))))"

definition getInventory :: "env \<Rightarrow> MachineInventory sel_handler" where
  "getInventory env = bnd this (\<lambda>x. case slt_MachineInventoryRef (sl_Status x) of
     None \<Rightarrow> crash ''nil pointer dereference''
   | Some nm \<Rightarrow> orWrap (getObj env KInv asInv (Namespace x) nm) ''failed to get machine inventory'')"

definition bootstrapSecretOf :: "string \<Rightarrow> Secret \<Rightarrow> Secret" where
  "bootstrapSecretOf plan = retypePlan PlanTypeBootstrap [(''plan'', plan)]"

definition setChecksum :: "string \<Rightarrow> unit sel_handler" where
  "setChecksum c = update (updSelStatus (\<lambda>st. st\<lparr>slt_BootstrapPlanChecksum := c\<rparr>))"

definition updatePlanSecretWithBootstrap :: "env \<Rightarrow> unit sel_handler" where
  "updatePlanSecretWithBootstrap env = bnd this (\<lambda>x.
     if condStatus (slt_Conditions (sl_Status x)) InventoryReadyCondition \<noteq> Some ''True'' then ret ()
     else if slt_BootstrapPlanChecksum (sl_Status x) \<noteq> [] then ret ()
     else bnd (getInventory env) (\<lambda>m.
       case Option.bind (mit_Plan (mi_Status m)) pl_SecretRef of
         None \<Rightarrow> ret ()
       | Some ref \<Rightarrow>
           bnd (orWrap (newBootstrapPlan env m) ''failed to get bootstrap plan'') (\<lambda>(checksum, plan).
           bnd (orWrap (getObj env KSecret asSecret (ref_Namespace ref) (ref_Name ref))
                  ''failed to get plan secret'') (\<lambda>planSecret.
           if sec_Data planSecret = None then crash ''assignment to entry in nil map''
           else andThen (orWrap (putObj env (CPatch False (OSecret planSecret)
                    (OSecret (bootstrapSecretOf plan planSecret))) asSecret (bootstrapSecretOf plan planSecret))
                  ''failed to patch plan secret'')
             (andThen (setChecksum checksum)
               (selCond env ReadyCondition SuccessfullyUpdatedPlanReason ''False'' []))))))"

section \<open>Addresses\<close>

definition addressesFrom :: "MachineInventory \<Rightarrow> MachineAddress list" where
  "addressesFrom m = map (\<lambda>(ty, key). \<lparr>ma_Type = ty, ma_Address = mstr (Labels m) key\<rparr>)
     (filter (\<lambda>(ty, key). mstr (Labels m) key \<noteq> [])
       [(MachineExternalIP, ''elemental.cattle.io/ExternalIP''),
        (MachineInternalIP, ''elemental.cattle.io/InternalIP''),
        (MachineHostName, ''elemental.cattle.io/Hostname'')])"

definition setInvetorySelectorAddresses :: "env \<Rightarrow> unit sel_handler" where
  "setInvetorySelectorAddresses env = bnd this (\<lambda>x.
     if slt_MachineInventoryRef (sl_Status x) = None then ret ()
     else if slt_BootstrapPlanChecksum (sl_Status x) = [] then ret ()
     else bnd (getInventory env) (\<lambda>m.
       andThen (update (updSelStatus (\<lambda>st. st\<lparr>slt_Addresses := slt_Addresses st @ addressesFrom m, slt_Ready := True\<rparr>)))
         (selCond env ReadyCondition SelectorReadyReason ''True'' [])))"

section \<open>Reconciliation\<close>

definition reconcileSel :: "env \<Rightarrow> result sel_handler" where
  "reconcileSel env = bnd this (\<lambda>x.
     if DeletionTimestamp x \<noteq> None then ret noResult
     else
       andThen (onErr (findAndAdoptInventory env)
         (failSel env ReadyCondition FailedToAdoptInventoryReason ''failed to find and adopt machine inventory''))
      (bnd (onErr (updateAdoptionStatus env)
         (failSel env InventoryReadyCondition FailedToAdoptInventoryReason ''failed to set adoption status'')) (\<lambda>requeue.
       andThen (onErr (updatePlanSecretWithBootstrap env)
         (failSel env ReadyCondition FailedToUpdatePlanReason ''failed to set bootstrap plan''))
      (andThen (onErr (setInvetorySelectorAddresses env)
         (failSel env ReadyCondition FailedToSetAdressesReason ''failed to set inventory selector address''))
       (ret (if requeue > 0 then requeueAfter requeue else noResult))))))"

definition selResource :: "MachineInventorySelector resource" where
  "selResource = \<lparr>rc_kind = KSel, rc_name = ''machine inventory selector'', rc_inj = OSel, rc_as = asSel,
     rc_restore = (\<lambda>x y. y\<lparr>sl_Status := sl_Status x\<rparr>), rc_sanitize = updSelConds RemoveInvalidConditions,
     rc_lock = True, rc_okPatch = (\<lambda>_. False), rc_okStatus = (\<lambda>_. False)\<rparr>"

definition ReconcileSel :: "env \<Rightarrow> string \<Rightarrow> string \<Rightarrow> ('o st, result) go" where
  "ReconcileSel env ns nm = runReconcile env selResource (reconcileSel env) ns nm"

section \<open>Events\<close>

definition zeroSelStatus :: MachineInventorySelectorStatus where
  "zeroSelStatus = \<lparr>slt_Conditions = [], slt_Ready = False, slt_Addresses = [],
     slt_BootstrapPlanChecksum = [], slt_MachineInventoryRef = None\<rparr>"

definition unversioned :: "MachineInventorySelector \<Rightarrow> MachineInventorySelector" where
  "unversioned x = x\<lparr>sl_Status := zeroSelStatus, ResourceVersion := []\<rparr>"

text \<open>Old and new object of an event are of one type: another type makes the type assertion panic.\<close>

definition filterSelectorUpdateEvents :: "kobj \<Rightarrow> kobj \<Rightarrow> bool outcome" where
  "filterSelectorUpdateEvents old new = (case old of
      OSel oldS \<Rightarrow> (case new of OSel newS \<Rightarrow> Ok (unversioned oldS \<noteq> unversioned newS)
        | _ \<Rightarrow> Panic ''interface conversion'')
    | OInv oldI \<Rightarrow> (case new of OInv newI \<Rightarrow> Ok (length (OwnerReferences newI) \<le> length (OwnerReferences oldI))
        | _ \<Rightarrow> Panic ''interface conversion'')
    | _ \<Rightarrow> Ok True)"

definition hasMatchingLabels :: "env \<Rightarrow> MachineInventorySelector \<Rightarrow> MachineInventory \<Rightarrow> bool" where
  "hasMatchingLabels env x m = (case LabelSelectorAsSelector env (sls_Selector (sl_Spec x)) of
      Inl e \<Rightarrow> False
    | Inr sel \<Rightarrow> if sel = [] then True else selectorMatches sel (Labels m))"

text \<open>The requests are pairs of namespace and name.\<close>

definition MachineInventoryToSelector :: "env \<Rightarrow> kobj \<Rightarrow> ('o st, (string \<times> string) list) go" where
  "MachineInventoryToSelector env ob = (case ob of
      OInv m \<Rightarrow> (case getSelectorOwner m of
          Some owner \<Rightarrow> ret [(Namespace m, or_Name owner)]
        | None \<Rightarrow>
            if Labels m = None then ret []
            else bnd (attempt (listObj env KSel asSel (Some (Namespace m)) [])) (\<lambda>r. case r of
                Inl e \<Rightarrow> ret []
              | Inr xs \<Rightarrow> ret (map (\<lambda>x. (Namespace x, Name x)) (filter (\<lambda>x. hasMatchingLabels env x m) xs))))
    | _ \<Rightarrow> crash ''Expected a MachineInventory'')"


section \<open>Laws\<close>

lemma updSel_simps [simp]:
  "sl_Status (updSelStatus f x) = f (sl_Status x)" "sl_Spec (updSelStatus f x) = sl_Spec x"
  "Name (updSelStatus f x) = Name x" "Namespace (updSelStatus f x) = Namespace x"
  "UID (updSelStatus f x) = UID x" "DeletionTimestamp (updSelStatus f x) = DeletionTimestamp x"
  "OwnerReferences (updSelStatus f x) = OwnerReferences x"
  "sl_Status (updSelConds h x) = (sl_Status x)\<lparr>slt_Conditions := h (slt_Conditions (sl_Status x))\<rparr>"
  "sl_Spec (updSelConds h x) = sl_Spec x"
  "Name (updSelConds h x) = Name x" "Namespace (updSelConds h x) = Namespace x"
  "UID (updSelConds h x) = UID x" "DeletionTimestamp (updSelConds h x) = DeletionTimestamp x"
  "OwnerReferences (updSelConds h x) = OwnerReferences x"
  by (simp_all add: updSelStatus_def updSelConds_def)

lemma wp_selCond [wp]: "wpre (selCond env ty reason status msg) Q s = Q (Ok ())
    (s\<lparr>ticks := Suc (ticks s), self := updSelConds (SetStatusCondition (clock env (ticks s))
        (mkCondition ty reason status msg)) (self s)\<rparr>)"
  by (simp add: selCond_def wp_setCond)

lemma wp_failSel [wp]: "wpre (failSel env ty reason msg e) Q s = Q (Err (wrap msg e))
    (s\<lparr>ticks := Suc (ticks s), self := updSelConds (SetStatusCondition (clock env (ticks s))
        (mkCondition ty reason ''False'' (err_text e))) (self s)\<rparr>)"
  by (simp add: failSel_def wp)

lemma wp_setRef [wp]: "wpre (setRef r) Q s =
    Q (Ok ()) (s\<lparr>self := updSelStatus (\<lambda>st. st\<lparr>slt_MachineInventoryRef := r\<rparr>) (self s)\<rparr>)"
  by (simp add: setRef_def wp)

lemma wp_setChecksum [wp]: "wpre (setChecksum c) Q s =
    Q (Ok ()) (s\<lparr>self := updSelStatus (\<lambda>st. st\<lparr>slt_BootstrapPlanChecksum := c\<rparr>) (self s)\<rparr>)"
  by (simp add: setChecksum_def wp)

lemma pickInventory_free: "pickInventory xs = Some m \<Longrightarrow> m \<in> set xs \<and> DeletionTimestamp m = None \<and> getSelectorOwner m = None"
  by (auto simp: pickInventory_def find_Some_iff isAlreadyOwned_def)

subsection \<open>The chain of the status\<close>

text \<open>
  A ready selector has written its bootstrap plan, which it does for a confirmed adoption only, and
  a confirmed adoption is that of an inventory it refers to.
\<close>

definition inventoryReady :: "MachineInventorySelector \<Rightarrow> string option" where
  "inventoryReady x = condStatus (slt_Conditions (sl_Status x)) InventoryReadyCondition"

definition chained :: "MachineInventorySelector \<Rightarrow> bool" where
  "chained x \<longleftrightarrow>
    (slt_Ready (sl_Status x) \<longrightarrow> slt_BootstrapPlanChecksum (sl_Status x) \<noteq> []) \<and>
    (slt_BootstrapPlanChecksum (sl_Status x) \<noteq> [] \<longrightarrow> inventoryReady x = Some ''True'') \<and>
    (inventoryReady x = Some ''True'' \<longrightarrow> slt_MachineInventoryRef (sl_Status x) \<noteq> None)"

text \<open>What a step does to a selector: an adoption, a bootstrap plan and readiness are never taken back.\<close>

definition grown :: "MachineInventorySelector \<Rightarrow> MachineInventorySelector \<Rightarrow> bool" where
  "grown x y \<longleftrightarrow> chained y \<and> Name y = Name x \<and> Namespace y = Namespace x \<and> UID y = UID x \<and> sl_Spec y = sl_Spec x \<and>
    (inventoryReady x = Some ''True'' \<longrightarrow> inventoryReady y = Some ''True'' \<and>
       slt_MachineInventoryRef (sl_Status y) = slt_MachineInventoryRef (sl_Status x)) \<and>
    (slt_BootstrapPlanChecksum (sl_Status x) \<noteq> [] \<longrightarrow>
       slt_BootstrapPlanChecksum (sl_Status y) = slt_BootstrapPlanChecksum (sl_Status x)) \<and>
    (slt_Ready (sl_Status x) \<longrightarrow> slt_Ready (sl_Status y)) \<and>
    (\<exists>as. slt_Addresses (sl_Status y) = slt_Addresses (sl_Status x) @ as)"

lemma grown_refl: "chained x \<Longrightarrow> grown x x"
  by (simp add: grown_def)

lemma grown_trans: "grown x y \<Longrightarrow> grown y z \<Longrightarrow> grown x z"
  unfolding grown_def by auto

lemma inventoryReady_conds [simp]:
  "inventoryReady (updSelConds (SetStatusCondition t c) x) =
     (if c_Type c = InventoryReadyCondition then Some (c_Status c) else inventoryReady x)"
  by (simp add: inventoryReady_def)

lemma inventoryReady_status: "inventoryReady (updSelStatus f x) = condStatus (slt_Conditions (f (sl_Status x))) InventoryReadyCondition"
  by (simp add: inventoryReady_def)

lemma grownI:
  assumes "\<And>s. chained (self s) \<Longrightarrow> wpre m (\<lambda>r s'. grown (self s) (self s') \<and> (\<forall>p. r = Panic p \<longrightarrow> p \<in> E)) s"
  shows "safe (grown x) E m"
proof (rule safeI)
  fix s :: "MachineInventorySelector st"
  assume g: "grown x (self s)"
  then have "chained (self s)" by (simp add: grown_def)
  from assms [OF this] show "wpre m (\<lambda>r s'. grown x (self s') \<and> (\<forall>p. r = Panic p \<longrightarrow> p \<in> E)) s"
    by (rule wpre_mono) (use g grown_trans in blast)
qed

lemma grown_ready [simp]: "grown x y \<Longrightarrow> grown x (updSelConds (SetStatusCondition t (mkCondition ReadyCondition r st msg)) y)"
  by (simp add: grown_def chained_def condition_types)

lemma safe_findAndAdopt: "safe (grown x) {} (findAndAdoptInventory env)"
  by (rule grownI)
    (auto simp: findAndAdoptInventory_def wp grown_def chained_def condition_types inventoryReady_status
      split: sum.split option.split)

lemma safe_adoptionStatus: "safe (grown x) {} (onErr (updateAdoptionStatus env)
    (failSel env InventoryReadyCondition FailedToAdoptInventoryReason msg))"
  by (rule grownI)
    (auto simp: updateAdoptionStatus_def wp grown_def chained_def condition_types inventoryReady_status Let_def
      inventoryReady_def condStatus_def split: sum.split option.split)

lemma newBootstrap_same: "wpre (newBootstrapPlan env m) (\<lambda>r s'. self s' = self s \<and> (\<forall>p. r \<noteq> Panic p)) s"
  by (auto simp: newBootstrapPlan_def getOwnerMachine_def wp split: sum.split option.split)

lemma safe_addresses: "safe (grown x) {} (setInvetorySelectorAddresses env)"
  by (rule grownI)
    (auto simp: setInvetorySelectorAddresses_def getInventory_def wp grown_def chained_def condition_types
      inventoryReady_status inventoryReady_def split: sum.split option.split)


lemma safe_bootstrap: "safe (grown x) {nilMapPanic} (updatePlanSecretWithBootstrap env)"
proof (rule grownI)
  fix s :: "MachineInventorySelector st"
  assume ch: "chained (self s)"
  let ?Q = "\<lambda>r s'. grown (self s) (self s') \<and> (\<forall>p. r = Panic p \<longrightarrow> p \<in> {nilMapPanic})"
  show "wpre (updatePlanSecretWithBootstrap env) ?Q s"
  proof (cases "inventoryReady (self s) = Some ''True'' \<and> slt_BootstrapPlanChecksum (sl_Status (self s)) = []")
    case False
    then show ?thesis using grown_refl [OF ch]
      by (auto simp: updatePlanSecretWithBootstrap_def wp inventoryReady_def)
  next
    case True
    then obtain nm where nm: "slt_MachineInventoryRef (sl_Status (self s)) = Some nm"
      using ch by (auto simp: chained_def)
    have body: "wpre (bnd (orWrap (newBootstrapPlan env m) msg) (\<lambda>(checksum, plan).
           bnd (orWrap (getObj env KSecret asSecret (ref_Namespace ref) (ref_Name ref)) msg2) (\<lambda>planSecret.
           if sec_Data planSecret = None then crash nilMapPanic
           else andThen (orWrap (putObj env (CPatch False (OSecret planSecret)
                    (OSecret (bootstrapSecretOf plan planSecret))) asSecret (bootstrapSecretOf plan planSecret)) msg3)
             (andThen (setChecksum checksum)
               (selCond env ReadyCondition SuccessfullyUpdatedPlanReason ''False'' []))))) ?Q (s\<lparr>trace := t\<rparr>)"
      for m ref msg msg2 msg3 t
      unfolding orWrap_def
    proof (rule wpre_bndI [OF wpre_onErrI [OF newBootstrap_same, where Q = "\<lambda>r s'. self s' = self s \<and> (\<forall>p. r \<noteq> Panic p)"]],
        goal_cases)
      case (4 v t')
      then show ?case using True ch
        by (auto simp: wp grown_def chained_def condition_types inventoryReady_status inventoryReady_def
            split: sum.split prod.split)
    qed (use grown_refl [OF ch] in \<open>auto simp: wp\<close>)
    show ?thesis
      using True nm body grown_refl [OF ch]
      by (auto simp: updatePlanSecretWithBootstrap_def getInventory_def wp_bnd wp_gets wp_if wp_ret wp_orWrap wp_getObj
          inventoryReady_def split: sum.split option.split)
  qed
qed

lemma safe_reconcileSel: "safe (grown x) {nilMapPanic} (reconcileSel env)"
proof -
  have parts: "safe (grown x) {nilMapPanic} (findAndAdoptInventory env)"
    "safe (grown x) {nilMapPanic} (setInvetorySelectorAddresses env)"
    "safe (grown x) {nilMapPanic} (onErr (updateAdoptionStatus env)
       (failSel env InventoryReadyCondition FailedToAdoptInventoryReason msg))" for msg
    by (rule safe_weaken [OF safe_findAndAdopt] safe_weaken [OF safe_addresses]
        safe_weaken [OF safe_adoptionStatus], simp)+
  have fl: "safe (grown x) {nilMapPanic} (failSel env ReadyCondition reason msg e)" for reason msg e
    unfolding failSel_def selCond_def by (intro safety) simp
  show ?thesis
    unfolding reconcileSel_def
    by (intro safe_bnd [OF safe_gets] safe_bnd [OF parts(3)] safe_if safe_ret safe_andThen
        safe_onErr [OF parts(1) fl] safe_onErr [OF safe_bootstrap fl] safe_onErr [OF parts(2) fl])
qed


subsection \<open>What it writes\<close>

text \<open>
  An adoption is the patch of an inventory from the server's answer to the selector's requirements,
  neither being deleted nor owned, that demands the version read and makes the selector its owner;
  the other write is that of a bootstrap plan into a plan secret.
\<close>

definition adopts :: "env \<Rightarrow> MachineInventorySelector \<Rightarrow> call \<Rightarrow> bool" where
  "adopts env x c \<longleftrightarrow> (\<exists>m sel items t. c = CPatch True (OInv m) (OInv (takenBy x m)) \<and>
     LabelSelectorAsSelector env (sls_Selector (sl_Spec x)) = Inr sel \<and>
     answer env (decodeAll asInv) (CList KInv None sel) t = Inr items \<and> m \<in> set items \<and>
     DeletionTimestamp m = None \<and> getSelectorOwner m = None)"

definition bootstraps :: "call \<Rightarrow> bool" where
  "bootstraps c \<longleftrightarrow> (\<exists>sec plan. c = CPatch False (OSecret sec) (OSecret (bootstrapSecretOf plan sec)))"

definition writesOf :: "'o st \<Rightarrow> 'o st \<Rightarrow> call list \<Rightarrow> bool" where
  "writesOf s s' ws \<longleftrightarrow> (\<exists>cs. trace s' = cs @ trace s \<and> filter isWrite (rev cs) = ws)"

lemma writesOf_trans: "writesOf s t vs \<Longrightarrow> writesOf t u ws \<Longrightarrow> writesOf s u (vs @ ws)"
  unfolding writesOf_def by (metis append_assoc filter_append rev_append)

lemma writesOf_simps [simp]:
  "writesOf s (s\<lparr>self := x\<rparr>) [] = True"
  "writesOf s s ws = (ws = [])"
  by (auto simp: writesOf_def)

lemma writesOf_call: "trace s' = c # trace s \<Longrightarrow> writesOf s s' (if isWrite c then [c] else [])"
  unfolding writesOf_def by (rule exI [of _ "[c]"]) simp

lemma emits_writesOf: "emits (\<lambda>c. \<not> isWrite c) m \<Longrightarrow> wpre m (\<lambda>r s'. writesOf s s' []) s"
  by (auto simp: emits_def wpre_def writesOf_def filter_empty_conv list_all_iff split: prod.splits)
    (metis snd_conv)

lemma wpre_conj: "wpre m P s \<Longrightarrow> wpre m Q s \<Longrightarrow> wpre m (\<lambda>r s'. P r s' \<and> Q r s') s"
  by (auto simp: wpre_def split: prod.splits)

lemma findAndAdopt_trace: "wpre (findAndAdoptInventory env) (\<lambda>r s'. trace s' = trace s \<or>
    (\<exists>sel. trace s' = CList KInv None sel # trace s) \<or>
    (slt_MachineInventoryRef (sl_Status (self s)) = None \<and>
     (\<exists>sel items m. LabelSelectorAsSelector env (sls_Selector (sl_Spec (self s))) = Inr sel \<and>
       answer env (decodeAll asInv) (CList KInv None sel) (trace s) = Inr items \<and> pickInventory items = Some m \<and>
       trace s' = CPatch True (OInv m) (OInv (takenBy (self s) m)) # CList KInv None sel # trace s))) s"
  by (auto simp: findAndAdoptInventory_def wp split: sum.split option.split)

lemma findAndAdopt_writes: "wpre (findAndAdoptInventory env) (\<lambda>r s'. \<exists>ws. writesOf s s' ws \<and>
    (ws \<noteq> [] \<longrightarrow> slt_MachineInventoryRef (sl_Status (self s)) = None \<and> (\<exists>c. ws = [c] \<and> adopts env (self s) c))) s"
proof (rule wpre_mono [OF findAndAdopt_trace], elim disjE exE conjE, goal_cases)
  case (1 r s')
  then show ?case by (intro exI [of _ "[]"]) (simp add: writesOf_def)
next
  case (2 r s' sel)
  then show ?case using writesOf_call [of s' "CList KInv None sel" s] by (intro exI [of _ "[]"]) simp
next
  case (3 r s' sel items m)
  let ?c = "CPatch True (OInv m) (OInv (takenBy (self s) m))"
  from 3 have "adopts env (self s) ?c"
    unfolding adopts_def by (blast dest: pickInventory_free)
  moreover from 3 have "writesOf s s' [?c]"
    unfolding writesOf_def by (intro exI [of _ "[?c, CList KInv None sel]"]) simp
  ultimately show ?case using 3 by (intro exI [of _ "[?c]"]) simp
qed

lemma reads_newBootstrap: "emits (\<lambda>c. \<not> isWrite c) (newBootstrapPlan env m)"
  unfolding newBootstrapPlan_def getOwnerMachine_def by (intro emit) simp_all

lemma writesOf_max:
  assumes "emits (\<lambda>c. isWrite c \<longrightarrow> P c) m" and "maxWrites 1 m"
  shows "wpre m (\<lambda>r s'. \<exists>ws. writesOf s s' ws \<and> (ws \<noteq> [] \<longrightarrow> (\<exists>c. ws = [c] \<and> P c))) s"
proof -
  obtain r s' where m: "m s = (r, s')" by force
  with assms obtain cs where cs: "trace s' = cs @ trace s" "list_all (\<lambda>c. isWrite c \<longrightarrow> P c) cs"
    using emitsD by blast
  moreover have "writes cs \<le> 1"
    using assms(2) cs(1) m unfolding maxWrites_def by (metis append_same_eq snd_conv)
  then have "length (filter isWrite (rev cs)) \<le> 1"
    by (simp add: writes_def rev_filter [symmetric])
  then consider "filter isWrite (rev cs) = []" | c where "filter isWrite (rev cs) = [c]"
    by (cases "filter isWrite (rev cs)") auto
  then have "\<exists>ws. writesOf s s' ws \<and> (ws \<noteq> [] \<longrightarrow> (\<exists>c. ws = [c] \<and> P c))"
  proof cases
    case 1
    with cs show ?thesis by (intro exI [of _ "[]"]) (auto simp: writesOf_def)
  next
    case 2
    then have "c \<in> set (filter isWrite (rev cs))" by simp
    with cs(2) have "P c" by (simp add: list_all_iff)
    with 2 cs(1) show ?thesis by (intro exI [of _ "[c]"]) (auto simp: writesOf_def)
  qed
  with m show ?thesis by (simp add: wpre_def)
qed

lemma bootstrap_emits: "emits (\<lambda>c. isWrite c \<longrightarrow> bootstraps c) (updatePlanSecretWithBootstrap env)"
  unfolding updatePlanSecretWithBootstrap_def getInventory_def setChecksum_def selCond_def
  by (intro emit emits_mono [OF reads_newBootstrap]) (auto simp: bootstraps_def)

lemma bootstrap_max: "maxWrites 1 (updatePlanSecretWithBootstrap env)"
proof -
  have get: "maxWrites 0 (getInventory env)" "maxWrites 0 (newBootstrapPlan env m)"
      "maxWrites 0 (getObj env k as ns nm)" "maxWrites 0 (setChecksum c)"
      "maxWrites 0 (selCond env ty reason status msg)" for m k as ns nm c ty reason status msg
    unfolding getInventory_def setChecksum_def selCond_def
    by (intro maxWrites_emits emit reads_newBootstrap; simp)+
  have or: "maxWrites n m \<Longrightarrow> maxWrites n (orWrap m msg)" for n msg and m :: "(MachineInventorySelector st, 'a) go"
    unfolding orWrap_def by (erule maxWrites_onErr [where j = 0]) (auto intro: maxWrites_emits emit)
  have put: "maxWrites 1 (orWrap (putObj env c as old :: 'c sel_handler) msg)" for c msg as old
    by (intro or maxWrites_putObj) simp
  have tail: "maxWrites 1 (andThen (orWrap (putObj env c as old :: 'c sel_handler) msg)
      (andThen (setChecksum cs) (selCond env ty reason status msg2)))" for c msg as old cs ty reason status msg2
    by (rule maxWrites_andThen [where i = 1 and j = 0], rule put)
      (auto intro: maxWrites_andThen [where i = 0 and j = 0] get)
  have if_rule: "maxWrites n m \<Longrightarrow> maxWrites n k \<Longrightarrow> maxWrites n (if b then m else k)"
    for n b and m k :: "unit sel_handler" by simp
  show ?thesis
    unfolding updatePlanSecretWithBootstrap_def
    by (rule maxWrites_bnd [where i = 0 and j = 1], rule maxWrites_nil, simp add: run)
      (auto intro!: if_rule maxWrites_bnd [where i = 0 and j = 1] tail get or
        maxWrites_emits [OF emits_ret] maxWrites_emits [OF emits_crash]
        split: option.split prod.split)
qed


lemma reads_adoptionStatus: "emits (\<lambda>c. \<not> isWrite c) (onErr (updateAdoptionStatus env)
    (failSel env InventoryReadyCondition reason msg))"
  unfolding updateAdoptionStatus_def failSel_def selCond_def setRef_def Let_def
  by (intro emit) simp_all

lemma reads_failSel: "emits (\<lambda>c. \<not> isWrite c) (failSel env ty reason msg e)"
  unfolding failSel_def selCond_def by (intro emit)

lemma reads_addresses: "emits (\<lambda>c. \<not> isWrite c) (setInvetorySelectorAddresses env)"
  unfolding setInvetorySelectorAddresses_def getInventory_def selCond_def
  by (intro emit) simp_all

lemma grown_from: "chained (self s) \<Longrightarrow> safe (grown (self s)) E m \<Longrightarrow> wpre m (\<lambda>r s'. grown (self s) (self s')) s"
  using safeD [of "grown (self s)" E m s] grown_refl [of "self s"] by (auto elim: wpre_mono)

lemma reconcileSel_writes:
  assumes "chained (self s)"
  shows "wpre (reconcileSel env) (\<lambda>r s'. \<exists>vs ws. writesOf s s' (vs @ ws) \<and>
    (vs \<noteq> [] \<longrightarrow> slt_MachineInventoryRef (sl_Status (self s)) = None \<and> (\<exists>c. vs = [c] \<and> adopts env (self s) c)) \<and>
    (ws \<noteq> [] \<longrightarrow> slt_BootstrapPlanChecksum (sl_Status (self s)) = [] \<and> (\<exists>c. ws = [c] \<and> bootstraps c))) s"
    (is "wpre _ ?Q s")
proof (cases "DeletionTimestamp (self s) = None")
  case False
  then show ?thesis by (auto simp: reconcileSel_def wp)
next
  case True
  let ?V = "\<lambda>vs. vs \<noteq> [] \<longrightarrow> slt_MachineInventoryRef (sl_Status (self s)) = None \<and> (\<exists>c. vs = [c] \<and> adopts env (self s) c)"
  let ?W = "\<lambda>ws. ws \<noteq> [] \<longrightarrow> slt_BootstrapPlanChecksum (sl_Status (self s)) = [] \<and> (\<exists>c. ws = [c] \<and> bootstraps c)"
  have find: "wpre (onErr (findAndAdoptInventory env) (failSel env ReadyCondition FailedToAdoptInventoryReason msg))
      (\<lambda>r s'. grown (self s) (self s') \<and> (\<exists>vs. writesOf s s' vs \<and> ?V vs)) s" for msg
    by (rule wpre_onErrI [OF wpre_conj [OF grown_from [OF assms safe_findAndAdopt] findAndAdopt_writes]])
      (auto simp: wp writesOf_def)
  have rest: "wpre (bnd (onErr (updateAdoptionStatus env) (failSel env InventoryReadyCondition FailedToAdoptInventoryReason msg))
      (\<lambda>requeue. andThen (onErr (updatePlanSecretWithBootstrap env) (failSel env ReadyCondition FailedToUpdatePlanReason msg2))
      (andThen (onErr (setInvetorySelectorAddresses env) (failSel env ReadyCondition FailedToSetAdressesReason msg3))
       (ret (if requeue > 0 then requeueAfter requeue else noResult))))) (\<lambda>r s'. \<exists>ws. writesOf t s' ws \<and> ?W ws) t"
    if g: "grown (self s) (self t)" for t msg msg2 msg3
  proof (rule wpre_bndI [OF wpre_conj [OF grown_from [OF _ safe_adoptionStatus] emits_writesOf [OF reads_adoptionStatus]]],
      goal_cases)
    case 1
    then show ?case using g by (simp add: grown_def)
  next
    case (2 x u)
    then have gu: "grown (self s) (self u)" using grown_trans [OF g] by blast
    have plan: "wpre (onErr (updatePlanSecretWithBootstrap env) (failSel env ReadyCondition FailedToUpdatePlanReason msg2))
        (\<lambda>r s'. \<exists>ws. writesOf u s' ws \<and> ?W ws) u"
    proof (cases "slt_BootstrapPlanChecksum (sl_Status (self u)) = []")
      case False
      then have "wpre (updatePlanSecretWithBootstrap env) (\<lambda>r s'. r = Ok () \<and> s' = u) u"
        by (simp add: updatePlanSecretWithBootstrap_def wp)
      then show ?thesis by (rule wpre_onErrI) auto
    next
      case c: True
      then have "slt_BootstrapPlanChecksum (sl_Status (self s)) = []"
        using gu by (auto simp: grown_def)
      then show ?thesis
        by (intro wpre_onErrI [OF writesOf_max [OF bootstrap_emits bootstrap_max]]) (auto simp: wp writesOf_def)
    qed
    have addr: "wpre (andThen (onErr (setInvetorySelectorAddresses env) (failSel env ReadyCondition FailedToSetAdressesReason msg3))
       (ret (if x > 0 then requeueAfter x else noResult))) (\<lambda>r s'. writesOf w s' []) w" for w
      by (intro emits_writesOf emit reads_addresses reads_failSel)
    have tu: "writesOf t u []" using 2 by simp
    show ?case
    proof (rule wpre_andThenI [OF plan], goal_cases)
      case (1 y w)
      then obtain ws where ws: "writesOf u w ws" "?W ws" by blast
      show ?case
        by (rule wpre_mono [OF addr]) (use ws writesOf_trans [OF tu writesOf_trans [OF ws(1)]] in fastforce)
    qed (use writesOf_trans [OF tu] in fastforce)+
  qed fastforce+
  have "wpre (andThen (onErr (findAndAdoptInventory env) (failSel env ReadyCondition FailedToAdoptInventoryReason msg))
      (bnd (onErr (updateAdoptionStatus env) (failSel env InventoryReadyCondition FailedToAdoptInventoryReason msg1))
      (\<lambda>requeue. andThen (onErr (updatePlanSecretWithBootstrap env) (failSel env ReadyCondition FailedToUpdatePlanReason msg2))
      (andThen (onErr (setInvetorySelectorAddresses env) (failSel env ReadyCondition FailedToSetAdressesReason msg3))
       (ret (if requeue > 0 then requeueAfter requeue else noResult)))))) ?Q s" for msg msg1 msg2 msg3
  proof (rule wpre_andThenI [OF find], goal_cases)
    case (1 x t)
    then obtain vs where vs: "grown (self s) (self t)" "writesOf s t vs" "?V vs" by blast
    show ?case
      by (rule wpre_mono [OF rest [OF vs(1)]]) (use vs(2,3) writesOf_trans [OF vs(2)] in blast)
  next
    case (2 e t)
    then obtain vs where "writesOf s t vs" "?V vs" by blast
    then show ?case by (intro exI [of _ vs] exI [of _ "[]"]) simp
  next
    case (3 p t)
    then obtain vs where "writesOf s t vs" "?V vs" by blast
    then show ?case by (intro exI [of _ vs] exI [of _ "[]"]) simp
  qed
  with True show ?thesis by (simp add: reconcileSel_def wp_bnd wp_gets)
qed


lemma settled_wp:
  assumes "chained (self s)" and "DeletionTimestamp (self s) = None"
    and "slt_BootstrapPlanChecksum (sl_Status (self s)) \<noteq> []"
    and "slt_MachineInventoryRef (sl_Status (self s)) = Some nm"
    and "answer env (decodeOne asInv) (CGet KInv (Namespace (self s)) nm) (trace s) = Inr m"
  shows "wpre (reconcileSel env) (\<lambda>r s'. r = Ok noResult \<and>
     trace s' = CGet KInv (Namespace (self s)) nm # trace s \<and>
     slt_Addresses (sl_Status (self s')) = slt_Addresses (sl_Status (self s)) @ addressesFrom m \<and>
     slt_Ready (sl_Status (self s')) \<and> grown (self s) (self s')) s"
proof -
  have r: "inventoryReady (self s) = Some ''True''" using assms(1,3) by (simp add: chained_def)
  then obtain c where c: "FindStatusCondition (slt_Conditions (sl_Status (self s))) InventoryReadyCondition = Some c"
    "c_Status c = ''True''"
    by (auto simp: inventoryReady_def condStatus_def)
  have "wpre (reconcileSel env) (\<lambda>r s'. r = Ok noResult \<and>
     trace s' = CGet KInv (Namespace (self s)) nm # trace s \<and>
     slt_Addresses (sl_Status (self s')) = slt_Addresses (sl_Status (self s)) @ addressesFrom m \<and>
     slt_Ready (sl_Status (self s'))) s"
    using assms c r
    by (simp add: reconcileSel_def findAndAdoptInventory_def updateAdoptionStatus_def updatePlanSecretWithBootstrap_def
        setInvetorySelectorAddresses_def getInventory_def wp inventoryReady_def)
  from wpre_conj [OF this grown_from [OF assms(1) safe_reconcileSel]] show ?thesis
    by (rule wpre_mono) auto
qed

section \<open>Properties\<close>


definition zeroSelector :: MachineInventorySelector where
  "zeroSelector = ObjectMeta.extend zeroMeta
     \<lparr>sl_Spec = \<lparr>sls_ProviderID = [], sls_Selector = \<lparr>ls_MatchLabels = None, ls_MatchExpressions = []\<rparr>\<rparr>,
      sl_Status = zeroSelStatus\<rparr>"

lemma chained_zero: "chained zeroSelector"
  by code_simp


text \<open>
  C18: a reconciliation writes at most twice: a selector without an inventory may take one, which the
  server listed for its label selector, which is neither being deleted nor owned, and whose version it
  demands to be the one listed; and a selector without a bootstrap plan may write one. So the plan is
  written at most once, and nothing else is ever written.
\<close>

theorem selector_takes_free:
  assumes "chained (self s)" and "reconcileSel env s = (r, s')"
  shows "\<exists>cs vs ws. trace s' = cs @ trace s \<and> filter isWrite (rev cs) = vs @ ws \<and>
    (vs = [] \<or> slt_MachineInventoryRef (sl_Status (self s)) = None \<and> (\<exists>c. vs = [c] \<and> adopts env (self s) c)) \<and>
    (ws = [] \<or> slt_BootstrapPlanChecksum (sl_Status (self s)) = [] \<and> (\<exists>c. ws = [c] \<and> bootstraps c))"
proof -
  from wpreD [OF reconcileSel_writes [OF assms(1)] assms(2)] obtain vs ws where w: "writesOf s s' (vs @ ws)"
    and v: "vs \<noteq> [] \<longrightarrow> slt_MachineInventoryRef (sl_Status (self s)) = None \<and> (\<exists>c. vs = [c] \<and> adopts env (self s) c)"
    and b: "ws \<noteq> [] \<longrightarrow> slt_BootstrapPlanChecksum (sl_Status (self s)) = [] \<and> (\<exists>c. ws = [c] \<and> bootstraps c)"
    by blast
  from w obtain cs where "trace s' = cs @ trace s" "filter isWrite (rev cs) = vs @ ws"
    by (auto simp: writesOf_def)
  with v b show ?thesis by blast
qed

text \<open>Two inventories are listed, the first of them taken by another selector.\<close>

definition open_selector :: MachineInventorySelector where
  "open_selector = zeroSelector\<lparr>Name := ''sel'', Namespace := ''ns'', UID := ''v''\<rparr>"

definition open_inventory :: MachineInventory where
  "open_inventory = zeroInventory\<lparr>Name := ''m2'', Namespace := ''ns'', UID := ''u2''\<rparr>"

definition other_inventory :: MachineInventory where
  "other_inventory = takenBy (zeroSelector\<lparr>Name := ''other'', Namespace := ''ns'', UID := ''w''\<rparr>)
     (zeroInventory\<lparr>Name := ''m1'', Namespace := ''ns'', UID := ''u1''\<rparr>)"

definition two_inventories :: env where
  "two_inventories = demo_env (\<lambda>c. if c = CList KInv None []
     then Some (RObjs [OInv other_inventory, OInv open_inventory]) else None) []"

theorem selector_takes_free_witness:
  "let c = CPatch True (OInv open_inventory) (OInv (takenBy open_selector open_inventory)) in
   filter isWrite (rev (trace (snd (reconcileSel two_inventories (start open_selector))))) = [c] \<and>
   adopts two_inventories open_selector c"
proof -
  let ?s = "start open_selector"
  let ?c = "CPatch True (OInv open_inventory) (OInv (takenBy open_selector open_inventory))"
  have ch: "chained (self ?s)" by code_simp
  have w: "filter isWrite (rev (trace (snd (reconcileSel two_inventories ?s)))) = [?c]" by code_simp
  obtain r s' where run: "reconcileSel two_inventories ?s = (r, s')" by force
  have "\<not> bootstraps ?c" by (simp add: bootstraps_def)
  moreover from selector_takes_free [OF ch run] obtain vs ws where "filter isWrite (rev (trace s')) = vs @ ws"
    "vs = [] \<or> (\<exists>c. vs = [c] \<and> adopts two_inventories (self ?s) c)" "ws = [] \<or> (\<exists>c. ws = [c] \<and> bootstraps c)"
    by (auto simp: start_def)
  ultimately have "adopts two_inventories (self ?s) ?c" using w run by (auto simp: Cons_eq_append_conv)
  moreover have "self ?s = open_selector" by (simp add: start_def)
  ultimately show ?thesis using w by (simp add: Let_def)
qed

text \<open>
  Once the bootstrap plan is written, a reconciliation only reads the inventory; the reference, the
  checksum and the readiness stay, but the addresses of the inventory are appended to those published
  before, so that every reconciliation publishes them once more.
\<close>

theorem settled_selector_addresses:
  assumes "chained (self s)" and "DeletionTimestamp (self s) = None"
    and "slt_BootstrapPlanChecksum (sl_Status (self s)) \<noteq> []"
    and "slt_MachineInventoryRef (sl_Status (self s)) = Some nm"
    and "answer env (decodeOne asInv) (CGet KInv (Namespace (self s)) nm) (trace s) = Inr m"
  shows "\<exists>s'. reconcileSel env s = (Ok noResult, s') \<and> trace s' = CGet KInv (Namespace (self s)) nm # trace s \<and>
    slt_Addresses (sl_Status (self s')) = slt_Addresses (sl_Status (self s)) @ addressesFrom m \<and>
    slt_Ready (sl_Status (self s')) \<and> grown (self s) (self s')"
  using settled_wp [OF assms] by (auto simp: wpre_def split: prod.splits)

definition settled_selector :: MachineInventorySelector where
  "settled_selector = zeroSelector\<lparr>Name := ''sel'', Namespace := ''ns'', sl_Status :=
     \<lparr>slt_Conditions = [mkCondition InventoryReadyCondition SuccessfullyAdoptedInventoryReason ''True'' []],
      slt_Ready = True, slt_Addresses = [\<lparr>ma_Type = MachineExternalIP, ma_Address = ''10.0.0.1''\<rparr>],
      slt_BootstrapPlanChecksum = ''sum'', slt_MachineInventoryRef = Some ''m''\<rparr>\<rparr>"

definition labelled_inventory :: MachineInventory where
  "labelled_inventory = zeroInventory\<lparr>Name := ''m'', Namespace := ''ns'',
     Labels := Some [(''elemental.cattle.io/ExternalIP'', ''10.0.0.1'')]\<rparr>"

theorem settled_selector_addresses_witness:
  "slt_Addresses (sl_Status (self (snd (reconcileSel (demo_env (\<lambda>c. if c = CGet KInv ''ns'' ''m''
     then Some (RObjs [OInv labelled_inventory]) else None) []) (start settled_selector))))) =
   [\<lparr>ma_Type = MachineExternalIP, ma_Address = ''10.0.0.1''\<rparr>, \<lparr>ma_Type = MachineExternalIP, ma_Address = ''10.0.0.1''\<rparr>]"
proof -
  let ?env = "demo_env (\<lambda>c. if c = CGet KInv ''ns'' ''m'' then Some (RObjs [OInv labelled_inventory]) else None) []"
  let ?s = "start settled_selector"
  have "chained (self ?s)" "DeletionTimestamp (self ?s) = None"
    "slt_BootstrapPlanChecksum (sl_Status (self ?s)) \<noteq> []"
    "slt_MachineInventoryRef (sl_Status (self ?s)) = Some ''m''"
    by code_simp+
  moreover have "answer ?env (decodeOne asInv) (CGet KInv (Namespace (self ?s)) ''m'') (trace ?s) = Inr labelled_inventory"
    by (simp add: start_def settled_selector_def answer_def demo_env_def demo_respond_def decodeOne_def)
  ultimately obtain s' where "reconcileSel ?env ?s = (Ok noResult, s')"
    "slt_Addresses (sl_Status (self s')) = slt_Addresses (sl_Status (self ?s)) @ addressesFrom labelled_inventory"
    using settled_selector_addresses [of ?s "''m''" ?env labelled_inventory] by blast
  moreover have "slt_Addresses (sl_Status (self ?s)) @ addressesFrom labelled_inventory =
    [\<lparr>ma_Type = MachineExternalIP, ma_Address = ''10.0.0.1''\<rparr>, \<lparr>ma_Type = MachineExternalIP, ma_Address = ''10.0.0.1''\<rparr>]"
    by code_simp
  ultimately show ?thesis by simp
qed

end
