(* ===== verification/RegistrationCtl.thy ===== *)
theory RegistrationCtl
  imports Reconciler
begin

text \<open>
  The reconciler of machine registrations (\<^verbatim>\<open>controllers/machineregistration_controller.go\<close>): it gives
  a registration its token and its URL, creates the role, the service account, the token secret
  and the role binding of the machines that register with it, and reports all this as the \<^verbatim>\<open>Ready\<close>
  condition.
\<close>

section \<open>Tokens\<close>

definition characters :: string where
  "characters = ''bcdfghjklmnpqrstvwxz2456789''"

definition tokenLength :: nat where
  "tokenLength = 54"

text \<open>\<^verbatim>\<open>randomtoken.Generate\<close>: one draw of the random source for each character.\<close>

fun tokenLoop :: "rand_src \<Rightarrow> nat \<Rightarrow> (nat, string) go" where
  "tokenLoop src 0 = ret []"
| "tokenLoop src (Suc k) = bnd (draw_int src (int (length characters))) (\<lambda>r.
     if nat r < length characters
     then bnd (tokenLoop src k) (\<lambda>rest. ret (characters ! nat r # rest))
     else crash ''index out of range'')"

definition Generate :: "rand_src \<Rightarrow> (nat, string) go" where
  "Generate src = tokenLoop src tokenLength"

section \<open>The handlers\<close>

definition errDuplicateToken :: goerr where
  "errDuplicateToken = ESent ''duplicate token''"

definition updStatus :: "(MachineRegistrationStatus \<Rightarrow> MachineRegistrationStatus) \<Rightarrow> MachineRegistration \<Rightarrow> MachineRegistration" where
  "updStatus f m = m\<lparr>mr_Status := f (mr_Status m)\<rparr>"

definition updConds :: "(Condition list \<Rightarrow> Condition list) \<Rightarrow> MachineRegistration \<Rightarrow> MachineRegistration" where
  "updConds f = updStatus (\<lambda>st. st\<lparr>mrt_Conditions := f (mrt_Conditions st)\<rparr>)"

type_synonym 'a reg_handler = "(MachineRegistration st, 'a) go"

definition isReady :: "env \<Rightarrow> bool reg_handler" where
  "isReady env = bnd this (\<lambda>m.
     if IsStatusConditionTrue (mrt_Conditions (mr_Status m)) ReadyCondition then
       (if mrs_Token (mr_Spec m) \<noteq> [] \<and> mrt_RegistrationToken (mr_Status m) \<noteq> mrs_Token (mr_Spec m)
        then andThen (update (updStatus (\<lambda>st. st\<lparr>mrt_RegistrationToken := [], mrt_RegistrationURL := []\<rparr>)))
               (ret False)
        else bnd (attempt (getObj env KSecret asSecret (Namespace m) (Name m)))
               (\<lambda>r. ret (case r of Inl e \<Rightarrow> False | Inr _ \<Rightarrow> True)))
     else ret False)"

fun tokenInUse :: "MachineRegistration \<Rightarrow> MachineRegistration list \<Rightarrow> MachineRegistration option" where
  "tokenInUse m [] = None"
| "tokenInUse m (x # xs) =
    (if UID x = UID m then tokenInUse m xs
     else if mrt_RegistrationToken (mr_Status x) = mrs_Token (mr_Spec m) then Some x
     else tokenInUse m xs)"

definition checkTokenUniqueness :: "env \<Rightarrow> unit reg_handler" where
  "checkTokenUniqueness env = bnd this (\<lambda>m.
     bnd (orWrap (listObj env KReg asReg None []) ''failed to list machine registrations'') (\<lambda>items.
     case tokenInUse m items of
       Some x \<Rightarrow> fail (wrap (''token '' @ go_quote (mrs_Token (mr_Spec m)) @ '' is already in use by ''
           @ Namespace x @ ''/'' @ Name x) errDuplicateToken)
     | None \<Rightarrow> ret ()))"

definition getRancherServerURL :: "env \<Rightarrow> ('o st, string) go" where
  "getRancherServerURL env =
     bnd (orWrap (getObj env KSetting asSetting [] ''server-url'') ''failed to get server url setting'')
       (\<lambda>s. if set_Value s = [] then fail (EMsg ''server-url is not set'') else ret (set_Value s))"

text \<open>The token that a failing \<^verbatim>\<open>Generate\<close> assigns to the status is the empty one that it has.\<close>

definition setToken :: "string \<Rightarrow> unit reg_handler" where
  "setToken tok = update (updStatus (\<lambda>st. st\<lparr>mrt_RegistrationToken := tok\<rparr>))"

definition registrationURL :: "string \<Rightarrow> string \<Rightarrow> string" where
  "registrationURL serverURL token = serverURL @ ''/elemental/registration/'' @ token"

definition setRegistrationTokenAndURL :: "env \<Rightarrow> unit reg_handler" where
  "setRegistrationTokenAndURL env = bnd this (\<lambda>m.
     andThen
       (if mrt_RegistrationToken (mr_Status m) = [] then
          (if mrs_Token (mr_Spec m) \<noteq> []
           then andThen (checkTokenUniqueness env) (setToken (mrs_Token (mr_Spec m)))
           else bnd (orWrap (withRand (Generate (rnd env))) ''failed to generate registration token'') setToken)
        else ret ())
      (bnd this (\<lambda>m.
       if mrt_RegistrationURL (mr_Status m) = []
       then bnd (orWrap (getRancherServerURL env) ''failed to get the server url'') (\<lambda>serverURL.
         update (updStatus (\<lambda>st. st\<lparr>mrt_RegistrationURL :=
           registrationURL serverURL (mrt_RegistrationToken st)\<rparr>)))
       else ret ())))"

subsection \<open>RBAC objects\<close>

definition ownerReferences :: "MachineRegistration \<Rightarrow> OwnerReference list" where
  "ownerReferences m = [\<lparr>or_APIVersion = GroupVersion, or_Kind = ''MachineRegistration'', or_Name = Name m,
     or_UID = UID m, or_Controller = Some True,
          or_BlockOwnerDeletion = None\<rparr>]"

definition managedMeta :: "MachineRegistration \<Rightarrow> ObjectMeta" where
  "managedMeta m = zeroMeta\<lparr>Name := Name m, Namespace := Namespace m,
     OwnerReferences := ownerReferences m, Labels := Some [(ElementalManagedLabel, ''true'')]\<rparr>"

definition theRole :: "MachineRegistration \<Rightarrow> Role" where
  "theRole m = ObjectMeta.extend (managedMeta m) \<lparr>role_Rules =
     [\<lparr>pr_APIGroups = [[]], pr_Verbs = [''get'', ''watch'', ''list'', ''update'', ''patch''],
       pr_Resources = [''secrets'']\<rparr>,
      \<lparr>pr_APIGroups = [''management.cattle.io''], pr_Verbs = [''get'', ''watch'', ''list''],
       pr_Resources = [''settings'']\<rparr>]\<rparr>"

definition theSecret :: "MachineRegistration \<Rightarrow> Secret" where
  "theSecret m = ObjectMeta.extend
     (zeroMeta\<lparr>Name := Name m @ SASecretSuffix, Namespace := Namespace m,
        OwnerReferences := ownerReferences m,
        Annotations := Some [(''kubernetes.io/service-account.name'', Name m)]\<rparr>)
     \<lparr>sec_Type = SecretTypeServiceAccountToken, sec_Data = None, sec_StringData = None\<rparr>"

definition theRoleBinding :: "MachineRegistration \<Rightarrow> RoleBinding" where
  "theRoleBinding m = ObjectMeta.extend (managedMeta m)
     \<lparr>rb_Subjects = [\<lparr>sj_Kind = ''ServiceAccount'', sj_Name = Name m, sj_Namespace = Namespace m\<rparr>],
      rb_RoleRef = \<lparr>rr_Kind = ''Role'', rr_Name = Name m, rr_APIGroup = ''rbac.authorization.k8s.io''\<rparr>\<rparr>"

definition createOne :: "env \<Rightarrow> kobj \<Rightarrow> string \<Rightarrow> ('o st, unit) go" where
  "createOne env x msg = onErr (writeObj env (CCreate x))
     (\<lambda>e. if isAlreadyExists e then ret () else fail (wrap msg e))"

definition createRBACObjects :: "env \<Rightarrow> unit reg_handler" where
  "createRBACObjects env = bnd this (\<lambda>m.
     andThen (createOne env (ORole (theRole m)) ''failed to create role'')
    (andThen (createOne env (OSA (managedMeta m)) ''Failed to create service account'')
    (andThen (createOne env (OSecret (theSecret m)) ''failed to create secret'')
    (andThen (createOne env (ORB (theRoleBinding m)) ''failed to create service account'')
       (update (updStatus (\<lambda>st. st\<lparr>mrt_ServiceAccountRef := Some
          (mkRef ''ServiceAccount'' (Namespace m) (Name m))\<rparr>)))))))"

subsection \<open>Reconciliation\<close>

definition MissingTokenOrServerURLReason :: string where
  "MissingTokenOrServerURLReason = ''MissingTokenOrServerURL''"

definition DuplicateTokenReason :: string where
  "DuplicateTokenReason = ''DuplicateToken''"

definition RbacCreationFailureReason :: string where
  "RbacCreationFailureReason = ''RbacCreationFailure''"

definition SuccessfullyCreatedReason :: string where
  "SuccessfullyCreatedReason = ''SuccessfullyCreated''"

definition notReady :: "env \<Rightarrow> string \<Rightarrow> string \<Rightarrow> goerr \<Rightarrow> 'a reg_handler" where
  "notReady env reason msg e =
     andThen (setCond env updConds (mkCondition ReadyCondition reason ''False'' (err_text e)))
       (fail (wrap msg e))"

text \<open>The body of \<^verbatim>\<open>reconcile\<close> for a registration that is not ready, and \<^verbatim>\<open>reconcile\<close>.\<close>

definition setUp :: "env \<Rightarrow> result reg_handler" where
  "setUp env =
     andThen (onErr (setRegistrationTokenAndURL env) (\<lambda>e.
         notReady env (if errors_is e ''duplicate token'' then DuplicateTokenReason
                       else MissingTokenOrServerURLReason)
           ''failed to set registration token and url'' e))
    (andThen (onErr (createRBACObjects env) (\<lambda>e.
         notReady env RbacCreationFailureReason ''failed to create RBAC objects'' e))
    (andThen (setCond env updConds (mkCondition ReadyCondition SuccessfullyCreatedReason ''True'' []))
       (ret noResult)))"

definition reconcileReg :: "env \<Rightarrow> result reg_handler" where
  "reconcileReg env = bnd this (\<lambda>m.
     if DeletionTimestamp m \<noteq> None
     then andThen (update (RemoveFinalizer MachineRegistrationFinalizer)) (ret noResult)
     else bnd (isReady env) (\<lambda>ready. if ready then ret noResult else setUp env))"

definition regResource :: "MachineRegistration resource" where
  "regResource = \<lparr>rc_kind = KReg, rc_name = ''machine registration'', rc_inj = OReg, rc_as = asReg,
     rc_restore = (\<lambda>x y. y\<lparr>mr_Status := mr_Status x\<rparr>), rc_sanitize = updConds RemoveInvalidConditions,
     rc_lock = True, rc_okPatch = isNotFound, rc_okStatus = isNotFound\<rparr>"

definition ReconcileReg :: "env \<Rightarrow> string \<Rightarrow> string \<Rightarrow> ('o st, result) go" where
  "ReconcileReg env ns nm = runReconcile env regResource (reconcileReg env) ns nm"

text \<open>
  The event filter: an update that changes the status, the resource version or the managed fields
  only is dropped. The managed fields are not part of the model's metadata.
\<close>

definition ignoreIncrementalStatusUpdate :: "kobj \<Rightarrow> kobj \<Rightarrow> bool" where
  "ignoreIncrementalStatusUpdate old new = (case (asReg old, asReg new) of
      (Some o', Some n) \<Rightarrow> o'\<lparr>mr_Status := mr_Status zeroMR, ResourceVersion := []\<rparr>
                          \<noteq> n\<lparr>mr_Status := mr_Status zeroMR, ResourceVersion := []\<rparr>
    | _ \<Rightarrow> True)"

section \<open>Laws of the handlers\<close>

definition statusOf :: "MachineRegistration st \<Rightarrow> MachineRegistrationStatus" where
  "statusOf s = mr_Status (self s)"

text \<open>\<open>statusOnly m m'\<close>: only the status may differ; \<open>sameConds\<close>: and of it only token and URL.\<close>

definition statusOnly :: "MachineRegistration \<Rightarrow> MachineRegistration \<Rightarrow> bool" where
  "statusOnly m m' \<longleftrightarrow> (\<exists>st. m' = m\<lparr>mr_Status := st\<rparr>)"

definition sameConds :: "MachineRegistration \<Rightarrow> MachineRegistration \<Rightarrow> bool" where
  "sameConds m m' \<longleftrightarrow> statusOnly m m' \<and> mrt_Conditions (mr_Status m') = mrt_Conditions (mr_Status m) \<and>
     mrt_ServiceAccountRef (mr_Status m') = mrt_ServiceAccountRef (mr_Status m)"

lemma statusOnly_put [simp]: "statusOnly m (m\<lparr>mr_Status := st\<rparr>)"
  by (auto simp: statusOnly_def)

lemma statusOnly_upd [simp]: "statusOnly m (updStatus f m)"
  by (simp add: updStatus_def)

lemma statusOnly_refl [simp]: "statusOnly m m"
  unfolding statusOnly_def by (rule exI [of _ "mr_Status m"]) simp

lemma statusOnly_trans: "statusOnly m n \<Longrightarrow> statusOnly n p \<Longrightarrow> statusOnly m p"
  by (auto simp: statusOnly_def)

lemma tokenLoop_wp:
  assumes "rand_ok src"
  shows "wpre (tokenLoop src k) (\<lambda>r n'. case r of
      Ok t \<Rightarrow> length t = k \<and> set t \<subseteq> set characters \<and> n' = n + k
    | Err e \<Rightarrow> n < n' \<and> n' \<le> n + k \<and> src_int src (n' - 1) 27 = Inl e
    | Panic p \<Rightarrow> False) n"
proof (induction k arbitrary: n)
  case 0
  show ?case by (simp add: wp)
next
  case (Suc k)
  have len: "length characters = 27" by (simp add: characters_def)
  show ?case
  proof (cases "src_int src n 27")
    case (Inl e)
    then show ?thesis by (auto simp: wp draw_int_def len wpre_def bnd_def)
  next
    case (Inr v)
    have "0 \<le> v \<and> v < 27"
      using assms Inr unfolding rand_ok_def by (metis zero_less_numeral)
    then have v: "0 \<le> v" "v < 27" by simp_all
    then have i: "nat v < length characters" using len by simp
    have "wpre (tokenLoop src k) (\<lambda>r n'. case r of
          Ok t \<Rightarrow> length (characters ! nat v # t) = Suc k \<and> set (characters ! nat v # t) \<subseteq> set characters
            \<and> n' = n + Suc k
        | Err e \<Rightarrow> n < n' \<and> n' \<le> n + Suc k \<and> src_int src (n' - 1) 27 = Inl e
        | Panic p \<Rightarrow> False) (Suc n)"
    proof (rule wpre_mono [OF Suc.IH [of "Suc n"]])
      fix r n'
      assume "case r of
          Ok t \<Rightarrow> length t = k \<and> set t \<subseteq> set characters \<and> n' = Suc n + k
        | Err e \<Rightarrow> Suc n < n' \<and> n' \<le> Suc n + k \<and> src_int src (n' - 1) 27 = Inl e
        | Panic p \<Rightarrow> False"
      then show "case r of
          Ok t \<Rightarrow> length (characters ! nat v # t) = Suc k \<and> set (characters ! nat v # t) \<subseteq> set characters
            \<and> n' = n + Suc k
        | Err e \<Rightarrow> n < n' \<and> n' \<le> n + Suc k \<and> src_int src (n' - 1) 27 = Inl e
        | Panic p \<Rightarrow> False"
        using nth_mem [OF i] by (cases r) auto
    qed
    then show ?thesis using Inr i len
      by (auto simp: wp draw_int_def wpre_def bnd_def ret_def split: prod.splits outcome.splits)
  qed
qed

lemma Generate_wp:
  assumes "rand_ok src"
  shows "wpre (Generate src) (\<lambda>r n'. case r of
      Ok t \<Rightarrow> length t = 54 \<and> set t \<subseteq> set characters \<and> n' = n + 54
    | Err e \<Rightarrow> n < n' \<and> n' \<le> n + 54 \<and> src_int src (n' - 1) 27 = Inl e
    | Panic p \<Rightarrow> False) n"
  using tokenLoop_wp [OF assms, of 54 n] by (simp add: Generate_def tokenLength_def)

lemma tokenInUse_None: "tokenInUse m items = None \<longleftrightarrow>
    (\<forall>x \<in> set items. mrt_RegistrationToken (mr_Status x) = mrs_Token (mr_Spec m) \<longrightarrow> UID x = UID m)"
  by (induction items) auto

lemma wp_unique: "wpre (checkTokenUniqueness env) Q s =
    (case answer env (decodeAll asReg) (CList KReg None []) (trace s) of
       Inl e \<Rightarrow> Q (Err (wrap ''failed to list machine registrations'' e)) (s\<lparr>trace := CList KReg None [] # trace s\<rparr>)
     | Inr items \<Rightarrow> (case tokenInUse (self s) items of
         Some x \<Rightarrow> Q (Err (wrap (''token '' @ go_quote (mrs_Token (mr_Spec (self s))) @ '' is already in use by ''
           @ Namespace x @ ''/'' @ Name x) errDuplicateToken)) (s\<lparr>trace := CList KReg None [] # trace s\<rparr>)
       | None \<Rightarrow> Q (Ok ()) (s\<lparr>trace := CList KReg None [] # trace s\<rparr>)))"
  by (simp add: checkTokenUniqueness_def wp split: sum.split option.split)

text \<open>
  What \<open>setRegistrationTokenAndURL\<close> leaves: on success both are set, an old token or URL is kept, and
  a token that was not there is the static one, which no other listed registration has, or a
  generated one.
\<close>

definition freshToken :: "env \<Rightarrow> MachineRegistration st \<Rightarrow> string \<Rightarrow> bool" where
  "freshToken env s tok \<longleftrightarrow>
    (if mrs_Token (mr_Spec (self s)) \<noteq> []
     then tok = mrs_Token (mr_Spec (self s)) \<and>
       (\<exists>items. answer env (decodeAll asReg) (CList KReg None []) (trace s) = Inr items \<and>
          tokenInUse (self s) items = None)
     else length tok = 54 \<and> set tok \<subseteq> set characters)"

definition tokenSet :: "env \<Rightarrow> MachineRegistration st \<Rightarrow> MachineRegistration st \<Rightarrow> bool" where
  "tokenSet env s s' \<longleftrightarrow>
     mrt_RegistrationToken (statusOf s') \<noteq> [] \<and> mrt_RegistrationURL (statusOf s') \<noteq> [] \<and>
     (if mrt_RegistrationToken (statusOf s) \<noteq> []
      then mrt_RegistrationToken (statusOf s') = mrt_RegistrationToken (statusOf s)
      else freshToken env s (mrt_RegistrationToken (statusOf s'))) \<and>
     (if mrt_RegistrationURL (statusOf s) \<noteq> []
      then mrt_RegistrationURL (statusOf s') = mrt_RegistrationURL (statusOf s)
      else \<exists>base. base \<noteq> [] \<and> mrt_RegistrationURL (statusOf s') =
        registrationURL base (mrt_RegistrationToken (statusOf s')))"

definition tokenPart :: "env \<Rightarrow> unit reg_handler" where
  "tokenPart env = bnd this (\<lambda>m. if mrt_RegistrationToken (mr_Status m) = [] then
          (if mrs_Token (mr_Spec m) \<noteq> []
           then andThen (checkTokenUniqueness env) (setToken (mrs_Token (mr_Spec m)))
           else bnd (orWrap (withRand (Generate (rnd env))) ''failed to generate registration token'') setToken)
        else ret ())"

definition urlPart :: "env \<Rightarrow> unit reg_handler" where
  "urlPart env = bnd this (\<lambda>m.
       if mrt_RegistrationURL (mr_Status m) = []
       then bnd (orWrap (getRancherServerURL env) ''failed to get the server url'') (\<lambda>serverURL.
         update (updStatus (\<lambda>st. st\<lparr>mrt_RegistrationURL :=
           registrationURL serverURL (mrt_RegistrationToken st)\<rparr>)))
       else ret ())"

lemma setToken_parts: "setRegistrationTokenAndURL env = andThen (tokenPart env) (urlPart env)"
  unfolding setRegistrationTokenAndURL_def tokenPart_def urlPart_def andThen_def bnd_def gets_def
  by (rule ext) (simp split: prod.split outcome.split)

lemma tokenPart_wp:
  assumes "rand_ok (rnd env)"
  shows "wpre (tokenPart env) (\<lambda>r s'. sameConds (self s) (self s') \<and>
     mrt_RegistrationURL (statusOf s') = mrt_RegistrationURL (statusOf s) \<and>
     (case r of
        Ok _ \<Rightarrow> mrt_RegistrationToken (statusOf s') \<noteq> [] \<and>
          (if mrt_RegistrationToken (statusOf s) \<noteq> []
           then mrt_RegistrationToken (statusOf s') = mrt_RegistrationToken (statusOf s)
           else freshToken env s (mrt_RegistrationToken (statusOf s')))
      | Err e \<Rightarrow> mrt_RegistrationToken (statusOf s) = []
      | Panic p \<Rightarrow> False)) s"
proof -
  obtain r n where g: "Generate (rnd env) (draws s) = (r, n)" by force
  with Generate_wp [OF assms, of "draws s"] have "case r of
      Ok t \<Rightarrow> length t = 54 \<and> set t \<subseteq> set characters | Err e \<Rightarrow> True | Panic p \<Rightarrow> False"
    by (cases r) (simp_all add: wpre_def)
  with g show ?thesis
    by (cases r) (auto simp: tokenPart_def wp wp_unique setToken_def sameConds_def statusOf_def freshToken_def
        updStatus_def split: sum.split option.split)
qed

lemma sameConds_trans: "sameConds m n \<Longrightarrow> sameConds n p \<Longrightarrow> sameConds m p"
  using statusOnly_trans [of m n p] by (simp add: sameConds_def)

lemma urlPart_wp:
  "wpre (urlPart env) (\<lambda>r s'. sameConds (self s) (self s') \<and>
     mrt_RegistrationToken (statusOf s') = mrt_RegistrationToken (statusOf s) \<and>
     (case r of
        Ok _ \<Rightarrow> mrt_RegistrationURL (statusOf s') \<noteq> [] \<and>
          (if mrt_RegistrationURL (statusOf s) \<noteq> []
           then mrt_RegistrationURL (statusOf s') = mrt_RegistrationURL (statusOf s)
           else \<exists>base. base \<noteq> [] \<and> mrt_RegistrationURL (statusOf s') =
             registrationURL base (mrt_RegistrationToken (statusOf s')))
      | Err e \<Rightarrow> mrt_RegistrationURL (statusOf s) = []
      | Panic p \<Rightarrow> False)) s"
proof (cases "answer env (decodeOne asSetting) (CGet KSetting [] ''server-url'') (trace s)")
  case (Inl e)
  then show ?thesis by (simp add: urlPart_def getRancherServerURL_def wp sameConds_def statusOf_def)
next
  case (Inr v)
  have "\<exists>base. base \<noteq> [] \<and> registrationURL (set_Value v) x = registrationURL base x"
    if "set_Value v \<noteq> []" for x
    using that by blast
  moreover have "registrationURL b x \<noteq> []" for b x by (simp add: registrationURL_def)
  ultimately show ?thesis using Inr
    by (simp add: urlPart_def getRancherServerURL_def wp sameConds_def statusOf_def updStatus_def)
qed

lemma setRegistrationTokenAndURL_wp:
  assumes "rand_ok (rnd env)"
  shows "wpre (setRegistrationTokenAndURL env) (\<lambda>r s'. sameConds (self s) (self s') \<and>
     (case r of Ok _ \<Rightarrow> tokenSet env s s' | Err e \<Rightarrow> True | Panic p \<Rightarrow> False)) s"
  unfolding setToken_parts wp_andThen
proof (rule wpre_mono [OF tokenPart_wp [OF assms]])
  fix r :: "unit outcome" and t :: "MachineRegistration st"
  assume A: "sameConds (self s) (self t) \<and>
     mrt_RegistrationURL (statusOf t) = mrt_RegistrationURL (statusOf s) \<and>
     (case r of
        Ok _ \<Rightarrow> mrt_RegistrationToken (statusOf t) \<noteq> [] \<and>
          (if mrt_RegistrationToken (statusOf s) \<noteq> []
           then mrt_RegistrationToken (statusOf t) = mrt_RegistrationToken (statusOf s)
           else freshToken env s (mrt_RegistrationToken (statusOf t)))
      | Err e \<Rightarrow> mrt_RegistrationToken (statusOf s) = []
      | Panic p \<Rightarrow> False)"
  have "wpre (urlPart env) (\<lambda>r s'. sameConds (self s) (self s') \<and>
     (case r of Ok _ \<Rightarrow> tokenSet env s s' | Err e \<Rightarrow> True | Panic p \<Rightarrow> False)) t" if r: "r = Ok ()"
  proof (rule wpre_mono [OF urlPart_wp])
    fix q :: "unit outcome" and u :: "MachineRegistration st"
    assume B: "sameConds (self t) (self u) \<and>
       mrt_RegistrationToken (statusOf u) = mrt_RegistrationToken (statusOf t) \<and>
       (case q of
          Ok _ \<Rightarrow> mrt_RegistrationURL (statusOf u) \<noteq> [] \<and>
            (if mrt_RegistrationURL (statusOf t) \<noteq> []
             then mrt_RegistrationURL (statusOf u) = mrt_RegistrationURL (statusOf t)
             else \<exists>base. base \<noteq> [] \<and> mrt_RegistrationURL (statusOf u) =
               registrationURL base (mrt_RegistrationToken (statusOf u)))
        | Err e \<Rightarrow> mrt_RegistrationURL (statusOf t) = []
        | Panic p \<Rightarrow> False)"
    with A have "sameConds (self s) (self u)" by (blast intro: sameConds_trans)
    with A B r show "sameConds (self s) (self u) \<and>
        (case q of Ok _ \<Rightarrow> tokenSet env s u | Err e \<Rightarrow> True | Panic p \<Rightarrow> False)"
      by (cases q) (auto simp: tokenSet_def)
  qed
  with A show "case r of
       Ok x \<Rightarrow> wpre (urlPart env) (\<lambda>r s'. sameConds (self s) (self s') \<and>
         (case r of Ok _ \<Rightarrow> tokenSet env s s' | Err e \<Rightarrow> True | Panic p \<Rightarrow> False)) t
     | Err e \<Rightarrow> sameConds (self s) (self t) \<and>
         (case Err e of Ok _ \<Rightarrow> tokenSet env s t | Err e \<Rightarrow> True | Panic p \<Rightarrow> False)
     | Panic p \<Rightarrow> sameConds (self s) (self t) \<and>
         (case Panic p of Ok _ \<Rightarrow> tokenSet env s t | Err e \<Rightarrow> True | Panic p \<Rightarrow> False)"
    by (cases r) auto
qed

text \<open>A creation counts as done when the object is created or was there already.\<close>

definition accepted :: "env \<Rightarrow> call \<Rightarrow> call list \<Rightarrow> bool" where
  "accepted env c t \<longleftrightarrow> (case respond env (c # t) of RErr e \<Rightarrow> isAlreadyExists e | _ \<Rightarrow> True)"

lemma wp_createOne [wp]: "wpre (createOne env x msg) Q s =
    (if accepted env (CCreate x) (trace s) then Q (Ok ()) (s\<lparr>trace := CCreate x # trace s\<rparr>)
     else case respond env (CCreate x # trace s) of
       RErr e \<Rightarrow> Q (Err (wrap msg e)) (s\<lparr>trace := CCreate x # trace s\<rparr>) | _ \<Rightarrow> True)"
  by (simp add: createOne_def writeObj_def wp accepted_def split: resp.split)

definition theReference :: "MachineRegistration \<Rightarrow> ObjectReference" where
  "theReference m = mkRef ''ServiceAccount'' (Namespace m) (Name m)"

text \<open>The four objects of a registration are there, each created, in this order, or there before.\<close>

definition rbacDone :: "env \<Rightarrow> MachineRegistration \<Rightarrow> call list \<Rightarrow> call list \<Rightarrow> bool" where
  "rbacDone env m t t' \<longleftrightarrow>
    (let c1 = CCreate (ORole (theRole m)); c2 = CCreate (OSA (managedMeta m));
         c3 = CCreate (OSecret (theSecret m)); c4 = CCreate (ORB (theRoleBinding m))
     in t' = c4 # c3 # c2 # c1 # t \<and> accepted env c1 t \<and> accepted env c2 (c1 # t) \<and>
        accepted env c3 (c2 # c1 # t) \<and> accepted env c4 (c3 # c2 # c1 # t))"

lemma createRBACObjects_wp:
  "wpre (createRBACObjects env) (\<lambda>r s'. statusOnly (self s) (self s') \<and>
     mrt_RegistrationToken (statusOf s') = mrt_RegistrationToken (statusOf s) \<and>
     mrt_RegistrationURL (statusOf s') = mrt_RegistrationURL (statusOf s) \<and>
     (case r of
        Ok _ \<Rightarrow> mrt_ServiceAccountRef (statusOf s') = Some (theReference (self s)) \<and>
          rbacDone env (self s) (trace s) (trace s')
      | Err e \<Rightarrow> self s' = self s
      | Panic p \<Rightarrow> False)) s"
  by (auto simp: createRBACObjects_def wp rbacDone_def Let_def statusOf_def theReference_def updStatus_def
      split: resp.split)

lemma wp_isReady: "wpre (isReady env) Q s =
    (if IsStatusConditionTrue (mrt_Conditions (statusOf s)) ReadyCondition then
       (if mrs_Token (mr_Spec (self s)) \<noteq> [] \<and> mrt_RegistrationToken (statusOf s) \<noteq> mrs_Token (mr_Spec (self s))
        then Q (Ok False) (s\<lparr>self := updStatus (\<lambda>st. st\<lparr>mrt_RegistrationToken := [], mrt_RegistrationURL := []\<rparr>) (self s)\<rparr>)
        else Q (Ok (case answer env (decodeOne asSecret) (CGet KSecret (Namespace (self s)) (Name (self s))) (trace s) of
                 Inl e \<Rightarrow> False | Inr _ \<Rightarrow> True))
               (s\<lparr>trace := CGet KSecret (Namespace (self s)) (Name (self s)) # trace s\<rparr>))
     else Q (Ok False) s)"
  by (simp add: isReady_def wp statusOf_def split: sum.split)

lemma theObjects_status [simp]:
  "managedMeta (m\<lparr>mr_Status := st\<rparr>) = managedMeta m" "theRole (m\<lparr>mr_Status := st\<rparr>) = theRole m"
  "theSecret (m\<lparr>mr_Status := st\<rparr>) = theSecret m" "theRoleBinding (m\<lparr>mr_Status := st\<rparr>) = theRoleBinding m"
  "theReference (m\<lparr>mr_Status := st\<rparr>) = theReference m"
  by (simp_all add: managedMeta_def ownerReferences_def theRole_def theSecret_def theRoleBinding_def
      theReference_def)

lemma rbacDone_statusOnly: "statusOnly m m' \<Longrightarrow> rbacDone env m' = rbacDone env m"
  by (auto simp: statusOnly_def rbacDone_def fun_eq_iff)

lemma theReference_statusOnly: "statusOnly m m' \<Longrightarrow> theReference m' = theReference m"
  by (auto simp: statusOnly_def)

definition servable :: "MachineRegistration \<Rightarrow> bool" where
  "servable m \<longleftrightarrow> mrt_RegistrationToken (mr_Status m) \<noteq> [] \<and> mrt_RegistrationURL (mr_Status m) \<noteq> [] \<and>
     mrt_ServiceAccountRef (mr_Status m) = Some (theReference m)"

definition readyStatus :: "MachineRegistration \<Rightarrow> string option" where
  "readyStatus m = condStatus (mrt_Conditions (mr_Status m)) ReadyCondition"

definition setUpReasons :: "string set" where
  "setUpReasons = {MissingTokenOrServerURLReason, DuplicateTokenReason, RbacCreationFailureReason}"

lemma wp_notReady: "wpre (notReady env reason msg e) Q s = Q (Err (wrap msg e))
    (s\<lparr>ticks := Suc (ticks s), self := updConds (SetStatusCondition (clock env (ticks s))
        (mkCondition ReadyCondition reason ''False'' (err_text e))) (self s)\<rparr>)"
  by (simp add: notReady_def wp)

lemma updConds_simps [simp]:
  "mr_Status (updConds f m) = (mr_Status m)\<lparr>mrt_Conditions := f (mrt_Conditions (mr_Status m))\<rparr>"
  "theReference (updConds f m) = theReference m"
  by (auto simp: updConds_def updStatus_def theReference_def)

lemma statusOnly_updConds [simp]: "statusOnly m m' \<Longrightarrow> statusOnly m (updConds f m')"
  by (auto simp: updConds_def updStatus_def statusOnly_def)

definition setUpPost :: "env \<Rightarrow> MachineRegistration st \<Rightarrow> result outcome \<Rightarrow> MachineRegistration st \<Rightarrow> bool" where
  "setUpPost env s r s' \<longleftrightarrow> statusOnly (self s) (self s') \<and>
     (case r of
        Ok v \<Rightarrow> v = noResult \<and> readyStatus (self s') = Some ''True'' \<and> servable (self s') \<and> tokenSet env s s' \<and>
          (\<exists>t. rbacDone env (self s) t (trace s'))
      | Err e \<Rightarrow> readyStatus (self s') = Some ''False'' \<and>
          (\<exists>reason \<in> setUpReasons. condReason (mrt_Conditions (mr_Status (self s'))) ReadyCondition = Some reason)
      | Panic p \<Rightarrow> False)"

lemma setUpPost_Err: "statusOnly (self s) m \<Longrightarrow> reason \<in> setUpReasons \<Longrightarrow>
    setUpPost env s (Err e) (s'\<lparr>self := updConds (SetStatusCondition tm (mkCondition ReadyCondition reason ''False'' msg)) m\<rparr>)"
  by (auto simp: setUpPost_def readyStatus_def)

lemma setUp_rbac:
  assumes "sameConds (self s) (self t)" and "tokenSet env s t"
  shows "wpre (andThen (onErr (createRBACObjects env) (\<lambda>e.
         notReady env RbacCreationFailureReason ''failed to create RBAC objects'' e))
      (andThen (setCond env updConds (mkCondition ReadyCondition SuccessfullyCreatedReason ''True'' []))
        (ret noResult))) (setUpPost env s) t"
proof (rule wpre_recoverI [OF createRBACObjects_wp], goal_cases)
  case (1 x u)
  have "rbacDone env (self s) (trace t) (trace u)"
    using 1 assms(1) rbacDone_statusOnly [of "self s" "self t" env] by (simp add: sameConds_def)
  moreover have "mrt_ServiceAccountRef (statusOf u) = Some (theReference (self u))"
    using 1 theReference_statusOnly [of "self t" "self u"] by simp
  moreover have "statusOnly (self s) (self u)"
    using 1 assms(1) statusOnly_trans by (auto simp: sameConds_def)
  ultimately show ?case using 1 assms(2)
    by (auto simp: wp setUpPost_def readyStatus_def servable_def tokenSet_def statusOf_def)
next
  case (2 e u)
  then have "statusOnly (self s) (self u)" using assms(1) by (simp add: sameConds_def)
  then show ?case
    by (auto simp: wp_andThen wp_notReady setUpReasons_def intro!: setUpPost_Err)
qed simp

lemma setUp_wp:
  assumes "rand_ok (rnd env)"
  shows "wpre (setUp env) (setUpPost env s) s"
  unfolding setUp_def
proof (rule wpre_recoverI [OF setRegistrationTokenAndURL_wp [OF assms]], goal_cases)
  case (1 x t)
  then show ?case using setUp_rbac [of s t env] by simp
next
  case (2 e t)
  then show ?case
    by (auto simp: wp_andThen wp_notReady setUpReasons_def sameConds_def intro!: setUpPost_Err)
qed simp

text \<open>
  The registration was ready before and is left alone: its condition says so, its token is the one
  its specification asks for, if any, and the only call read a secret of its name.
\<close>

definition foundReady :: "env \<Rightarrow> MachineRegistration st \<Rightarrow> MachineRegistration st \<Rightarrow> bool" where
  "foundReady env s s' \<longleftrightarrow> (let c = CGet KSecret (Namespace (self s)) (Name (self s)) in
     self s' = self s \<and> IsStatusConditionTrue (mrt_Conditions (mr_Status (self s))) ReadyCondition \<and>
     mrs_Token (mr_Spec (self s)) \<in> {[], mrt_RegistrationToken (mr_Status (self s))} \<and>
     trace s' = c # trace s \<and> (\<exists>x. answer env (decodeOne asSecret) c (trace s) = Inr x))"

definition reconciled :: "env \<Rightarrow> MachineRegistration st \<Rightarrow> result outcome \<Rightarrow> MachineRegistration st \<Rightarrow> bool" where
  "reconciled env s r s' \<longleftrightarrow> (case r of
     Panic p \<Rightarrow> False
   | Err e \<Rightarrow> DeletionTimestamp (self s) = None \<and> statusOnly (self s) (self s') \<and>
       readyStatus (self s') = Some ''False'' \<and>
       (\<exists>reason \<in> setUpReasons. condReason (mrt_Conditions (mr_Status (self s'))) ReadyCondition = Some reason)
   | Ok v \<Rightarrow> v = noResult \<and>
       (if DeletionTimestamp (self s) \<noteq> None
        then s' = s\<lparr>self := RemoveFinalizer MachineRegistrationFinalizer (self s)\<rparr>
        else statusOnly (self s) (self s') \<and> readyStatus (self s') = Some ''True'' \<and>
          (foundReady env s s' \<or> (servable (self s') \<and> (\<exists>t. rbacDone env (self s) t (trace s'))))))"

lemma foundReady_same: "foundReady env s s' \<Longrightarrow> self s' = self s"
  by (simp add: foundReady_def Let_def)

lemma reconcileReg_wp:
  assumes "rand_ok (rnd env)"
  shows "wpre (reconcileReg env) (reconciled env s) s"
proof (cases "DeletionTimestamp (self s) = None")
  case True
  have sub: "wpre (setUp env) (reconciled env s) s1" if so: "statusOnly (self s) (self s1)" for s1
  proof (rule wpre_mono [OF setUp_wp [OF assms]])
    fix r s'
    assume "setUpPost env s1 r s'"
    then show "reconciled env s r s'"
      using True so statusOnly_trans [of "self s" "self s1" "self s'"]
        rbacDone_statusOnly [of "self s" "self s1" env]
      by (cases r) (auto simp: setUpPost_def reconciled_def)
  qed
  let ?c = "CGet KSecret (Namespace (self s)) (Name (self s))"
  have "wpre (ret noResult) (reconciled env s) (s\<lparr>trace := ?c # trace s\<rparr>)"
    if "IsStatusConditionTrue (mrt_Conditions (statusOf s)) ReadyCondition"
      and "mrs_Token (mr_Spec (self s)) = [] \<or> mrt_RegistrationToken (statusOf s) = mrs_Token (mr_Spec (self s))"
      and "answer env (decodeOne asSecret) ?c (trace s) = Inr x" for x
    using that True by (auto simp: wp reconciled_def foundReady_def Let_def readyStatus_def IsTrue_condStatus statusOf_def)
  with True sub show ?thesis
    by (auto simp: reconcileReg_def wp_bnd wp_gets wp_isReady split: sum.split)
qed (simp add: reconcileReg_def wp reconciled_def)

subsection \<open>The calls of a reconciliation\<close>

text \<open>The only writes are the creations of the four objects of the registration.\<close>

definition rbacCalls :: "MachineRegistration \<Rightarrow> call set" where
  "rbacCalls m = {CCreate (ORole (theRole m)), CCreate (OSA (managedMeta m)), CCreate (OSecret (theSecret m)),
     CCreate (ORB (theRoleBinding m))}"

definition ownCalls :: "MachineRegistration st \<Rightarrow> MachineRegistration st \<Rightarrow> bool" where
  "ownCalls s s' \<longleftrightarrow> statusOnly (self s) (self s') \<and> (\<exists>cs. trace s' = cs @ trace s \<and>
     (\<forall>c \<in> set cs. isWrite c \<longrightarrow> c \<in> rbacCalls (self s)))"

lemma rbacCalls_statusOnly: "statusOnly m m' \<Longrightarrow> rbacCalls m' = rbacCalls m"
  by (auto simp: statusOnly_def rbacCalls_def)

lemma ownCalls_trans: "ownCalls s t \<Longrightarrow> ownCalls t u \<Longrightarrow> ownCalls s u"
proof -
  assume A: "ownCalls s t" and B: "ownCalls t u"
  from A obtain cs where cs: "trace t = cs @ trace s" "\<forall>c \<in> set cs. isWrite c \<longrightarrow> c \<in> rbacCalls (self s)"
    and st: "statusOnly (self s) (self t)" by (auto simp: ownCalls_def)
  from B obtain ds where ds: "trace u = ds @ trace t" "\<forall>c \<in> set ds. isWrite c \<longrightarrow> c \<in> rbacCalls (self t)"
    and tu: "statusOnly (self t) (self u)" by (auto simp: ownCalls_def)
  have "trace u = (ds @ cs) @ trace s" using cs ds by simp
  moreover have "\<forall>c \<in> set (ds @ cs). isWrite c \<longrightarrow> c \<in> rbacCalls (self s)"
    using cs(2) ds(2) rbacCalls_statusOnly [OF st] by auto
  ultimately show ?thesis
    using statusOnly_trans [OF st tu] unfolding ownCalls_def by blast
qed

lemma ownCalls_refl [simp]: "trace s' = trace s \<Longrightarrow> statusOnly (self s) (self s') \<Longrightarrow> ownCalls s s'"
  by (simp add: ownCalls_def)

lemma ownCalls_cond [simp]: "ownCalls s u \<Longrightarrow> ownCalls s (u\<lparr>ticks := n, self := updConds f (self u)\<rparr>)"
  using ownCalls_trans [of s u] by simp

lemma ownCalls_rbac: "wpre (createRBACObjects env) (\<lambda>r s'. ownCalls s s') s"
  by (auto simp: createRBACObjects_def wp ownCalls_def rbacCalls_def split: resp.split)

lemma ownCalls_token:
  assumes "rand_ok (rnd env)"
  shows "wpre (setRegistrationTokenAndURL env) (\<lambda>r s'. ownCalls s s') s"
proof -
  have "emits (\<lambda>c. \<not> isWrite c) (setRegistrationTokenAndURL env)"
    unfolding setRegistrationTokenAndURL_def checkTokenUniqueness_def getRancherServerURL_def setToken_def
    by (intro emit) simp_all
  then obtain cs where "trace (snd (setRegistrationTokenAndURL env s)) = cs @ trace s"
      "list_all (\<lambda>c. \<not> isWrite c) cs"
    by (auto simp: emits_def)
  then show ?thesis
    using setRegistrationTokenAndURL_wp [OF assms, of s]
    by (auto simp: wpre_def ownCalls_def sameConds_def list_all_iff split: prod.splits)
qed

lemma ownCalls_setUp:
  assumes "rand_ok (rnd env)"
  shows "wpre (setUp env) (\<lambda>r s'. ownCalls s s') s"
  unfolding setUp_def
proof (rule wpre_recoverI [OF ownCalls_token [OF assms]], goal_cases)
  case (1 x t)
  show ?case
  proof (rule wpre_recoverI [OF ownCalls_rbac], goal_cases)
    case (1 y u)
    then show ?case using ownCalls_trans [OF \<open>ownCalls s t\<close>] by (simp add: wp)
  next
    case (2 e u)
    then show ?case using ownCalls_trans [OF \<open>ownCalls s t\<close>]
      by (simp add: wp_andThen wp_notReady)
  qed (use ownCalls_trans [OF \<open>ownCalls s t\<close>] in auto)
next
  case (2 e t)
  then show ?case by (simp add: wp_andThen wp_notReady)
qed auto

lemma ownCalls_reconcile:
  assumes "rand_ok (rnd env)" and "DeletionTimestamp (self s) = None"
  shows "wpre (reconcileReg env) (\<lambda>r s'. ownCalls s s') s"
proof -
  have sub: "wpre (setUp env) (\<lambda>r s'. ownCalls s s') s1" if "ownCalls s s1" for s1
    by (rule wpre_mono [OF ownCalls_setUp [OF assms(1)]]) (use that ownCalls_trans in blast)
  have "ownCalls s (s\<lparr>trace := CGet k ns n # trace s\<rparr>)" for k ns n
    by (simp add: ownCalls_def)
  with sub assms(2) show ?thesis
    by (auto simp: reconcileReg_def wp_bnd wp_gets wp_isReady wp_ret split: sum.split)
qed

section \<open>Properties\<close>


definition server_setting :: "call \<Rightarrow> resp option" where
  "server_setting c = (case c of
      CGet KSetting ns name \<Rightarrow> Some (RObjs [OSetting (ObjectMeta.extend zeroMeta
        \<lparr>set_Value = ''https://host'', set_Default = []\<rparr>)])
    | _ \<Rightarrow> None)"

definition new_registration :: MachineRegistration where
  "new_registration = zeroMR\<lparr>Name := ''reg'', Namespace := ''ns'', UID := ''u''\<rparr>"

lemma demo_rand_ok: "rand_ok demo_src"
  by (auto simp: rand_ok_def demo_src_def)

lemma demo_env_rnd [simp]: "rnd (demo_env f frames) = demo_src"
  by (simp add: demo_env_def)


text \<open>An API server that has no secret but those created through this history.\<close>

definition honestSecrets :: "env \<Rightarrow> bool" where
  "honestSecrets env \<longleftrightarrow> (\<forall>t ns n.
     (\<forall>x. CCreate (OSecret x) \<in> set t \<longrightarrow> \<not> (Namespace x = ns \<and> Name x = n)) \<longrightarrow>
     (\<exists>e. answer env (decodeOne asSecret) (CGet KSecret ns n) t = Inl e))"

text \<open>
  C18: \<^verbatim>\<open>isReady\<close> looks for a secret with the name of the registration, while the token secret is
  created under that name with the suffix \<^verbatim>\<open>-token\<close>: right after a successful reconciliation, with
  the condition true, the registration is not found ready, so every later event sets it up again.
\<close>

theorem isReady_wrong_secret:
  assumes "rand_ok (rnd env)" and "honestSecrets env"
    and "DeletionTimestamp (self s) = None" and "trace s = []"
    and "reconcileReg env s = (Ok v, s')"
  shows "readyStatus (self s') = Some ''True'' \<and> fst (isReady env s') = Ok False"
proof -
  have own: "ownCalls s s'"
    using ownCalls_reconcile [OF assms(1,3)] assms(5) by (simp add: wpre_def)
  have ready: "readyStatus (self s') = Some ''True''"
    using reconcileReg_wp [OF assms(1), of s] assms(3,5) by (auto simp: wpre_def reconciled_def)
  have no: "\<not> (Namespace x = Namespace (self s') \<and> Name x = Name (self s'))"
    if "CCreate (OSecret x) \<in> set (trace s')" for x
  proof -
    have "CCreate (OSecret x) \<in> rbacCalls (self s)"
      using own that assms(4) by (auto simp: ownCalls_def)
    then have "Name x = Name (self s) @ ''-token''"
      by (auto simp: rbacCalls_def theSecret_def ObjectMeta.defs SASecretSuffix_def)
    moreover have "Name (self s') = Name (self s)"
      using own by (auto simp: ownCalls_def statusOnly_def)
    ultimately show ?thesis by simp
  qed
  then obtain e where "answer env (decodeOne asSecret)
      (CGet KSecret (Namespace (self s')) (Name (self s'))) (trace s') = Inl e"
    using assms(2) unfolding honestSecrets_def by blast
  then have "wpre (isReady env) (\<lambda>r s''. r = Ok False) s'"
    by (simp add: wp_isReady)
  with ready show ?thesis by (simp add: wpre_def case_prod_beta)
qed

lemma demo_honest: "honestSecrets (demo_env server_setting [])"
  by (simp add: honestSecrets_def answer_def demo_env_def demo_respond_def server_setting_def notFound_def)

theorem isReady_wrong_secret_witness:
  "fst (isReady (demo_env server_setting [])
     (snd (reconcileReg (demo_env server_setting []) (start new_registration)))) = Ok False"
proof -
  let ?s = "start new_registration"
  have "fst (reconcileReg (demo_env server_setting []) ?s) = Ok noResult" by code_simp
  then have run: "reconcileReg (demo_env server_setting []) ?s =
      (Ok noResult, snd (reconcileReg (demo_env server_setting []) ?s))" by (metis prod.collapse)
  have "DeletionTimestamp (self ?s) = None"
    by (simp add: new_registration_def start_def zeroMR_def zeroMeta_def ObjectMeta.defs)
  from isReady_wrong_secret [OF _ demo_honest this _ run] demo_rand_ok show ?thesis
    by (simp add: start_def)
qed

text \<open>
  A generated token has 54 characters, all of its alphabet; a failing source gives an error, at
  the draw that failed.
\<close>

theorem Generate_token:
  assumes "rand_ok src"
  shows "case Generate src n of
     (Ok t, n') \<Rightarrow> length t = 54 \<and> set t \<subseteq> set characters \<and> n' = n + 54
   | (Err e, n') \<Rightarrow> n < n' \<and> n' \<le> n + 54 \<and> src_int src (n' - 1) 27 = Inl e
   | (Panic p, n') \<Rightarrow> False"
  using Generate_wp [OF assms, of n] unfolding wpre_def
  by (cases "Generate src n") (simp split: outcome.splits)

theorem Generate_token_witness: "length (case fst (Generate demo_src 0) of Ok t \<Rightarrow> t | _ \<Rightarrow> []) = 54"
proof -
  have "case fst (Generate demo_src 0) of Ok t \<Rightarrow> True | _ \<Rightarrow> False" by code_simp
  with Generate_token [OF demo_rand_ok, of 0] show ?thesis
    by (auto split: prod.splits outcome.splits)
qed

text \<open>
  The frame of \<^verbatim>\<open>Reconcile\<close>: an object that is gone is no error, and another failing read ends it,
  with no other call; after every run of \<^verbatim>\<open>reconcile\<close>, failed or not, the last two calls patch the
  object and then its status, both against the version that was read, and the status patched is the
  one that \<^verbatim>\<open>reconcile\<close> left, whatever the answer to the first patch contains.
\<close>

theorem ReconcileReg_patches:
  "case answer env (decodeOne asReg) (CGet KReg ns nm) (trace s) of
     Inl e \<Rightarrow> ReconcileReg env ns nm s =
       (if isNotFound e then Ok noResult else Err (wrap ''failed to get machine registration object'' e),
        s\<lparr>trace := CGet KReg ns nm # trace s\<rparr>)
   | Inr m \<Rightarrow> (case reconcileReg env (enter s regResource ns nm m) of
       (Panic p, t) \<Rightarrow> fst (ReconcileReg env ns nm s) = Panic p
     | (_, t) \<Rightarrow> \<exists>y. trace (snd (ReconcileReg env ns nm s)) =
         CStatusPatch True (OReg m) (OReg (y\<lparr>mr_Status := mr_Status (self t)\<rparr>))
         # CPatch True (OReg m) (OReg (self t)) # trace t)"
  using runReconcile_shape [where env = env and d = regResource and ns = ns and nm = nm and s = s and rec = "reconcileReg env"]
  by (simp add: ReconcileReg_def regResource_def patchedBack_def cong: sum.case_cong outcome.case_cong
      split: sum.splits prod.splits outcome.splits)

section \<open>Conditions stay well formed\<close>

definition condTypes :: "MachineRegistration \<Rightarrow> string list" where
  "condTypes m = map c_Type (mrt_Conditions (mr_Status m))"

lemma condTypes_upd [simp]:
  "(\<And>st. mrt_Conditions (f st) = mrt_Conditions st) \<Longrightarrow> condTypes (updStatus f m) = condTypes m"
  by (simp add: condTypes_def updStatus_def)

lemma condTypes_Set: "distinct (condTypes m) \<Longrightarrow> distinct (condTypes (updConds (SetStatusCondition t c) m))"
  by (simp add: condTypes_def Set_distinct)

lemma condTypes_finalizer [simp]: "condTypes (RemoveFinalizer f m) = condTypes m"
  by (simp add: condTypes_def RemoveFinalizer_def)

lemma safe_createOne [safety]: "safe I E (createOne env x msg)"
  unfolding createOne_def by (intro safety)

lemma Generate_noPanic: "rand_ok src \<Longrightarrow> fst (Generate src n) \<noteq> Panic p"
  using Generate_wp [of src n] by (cases "Generate src n") (auto simp: wpre_def)

lemma safe_distinct: "rand_ok (rnd env) \<Longrightarrow> safe (\<lambda>m. distinct (condTypes m)) {} (reconcileReg env)"
  unfolding reconcileReg_def isReady_def setUp_def notReady_def setRegistrationTokenAndURL_def
    checkTokenUniqueness_def setToken_def createRBACObjects_def getRancherServerURL_def
  by (intro safety condTypes_Set) (auto simp: Generate_noPanic)

end
