(* ===== verification/Wire.thy ===== *)
theory Wire
  imports Kube
begin

text \<open>
  The wire format of the registration protocol (\<^verbatim>\<open>pkg/register/websocket.go\<close>): a binary frame
  holds one message, its first byte the message type, an 8-bit number, and the rest the payload.
\<close>

section \<open>Message types\<close>

type_synonym MessageType = "8 word"

definition MsgUndefined :: MessageType where "MsgUndefined = 0"

definition MsgReady :: MessageType where "MsgReady = 1"

definition MsgSmbios :: MessageType where "MsgSmbios = 2"

definition MsgLabels :: MessageType where "MsgLabels = 3"

definition MsgGet :: MessageType where "MsgGet = 4"

definition MsgVersion :: MessageType where "MsgVersion = 5"

definition MsgSystemData :: MessageType where "MsgSystemData = 6"

definition MsgConfig :: MessageType where "MsgConfig = 7"

definition MsgError :: MessageType where "MsgError = 8"

definition MsgAnnotations :: MessageType where "MsgAnnotations = 9"

definition MsgUpdate :: MessageType where "MsgUpdate = 10"

definition MsgSystemDataV2 :: MessageType where "MsgSystemDataV2 = 11"

definition MsgNetworkConfig :: MessageType where "MsgNetworkConfig = 12"

definition MsgLast :: MessageType where "MsgLast = MsgNetworkConfig"

lemmas msg_defs = MsgUndefined_def MsgReady_def MsgSmbios_def MsgLabels_def MsgGet_def
  MsgVersion_def MsgSystemData_def MsgConfig_def MsgError_def MsgAnnotations_def MsgUpdate_def
  MsgSystemDataV2_def MsgNetworkConfig_def MsgLast_def

definition msg_string :: "MessageType \<Rightarrow> string" where
  "msg_string mt =
    (if mt = MsgUndefined then ''Undefined''
     else if mt = MsgReady then ''Ready''
     else if mt = MsgSmbios then ''SMBIOS''
     else if mt = MsgLabels then ''Labels''
     else if mt = MsgGet then ''Get''
     else if mt = MsgVersion then ''Version''
     else if mt = MsgSystemData then ''System''
     else if mt = MsgConfig then ''Config''
     else if mt = MsgError then ''Error''
     else if mt = MsgAnnotations then ''Annotations''
     else if mt = MsgUpdate then ''Update''
     else if mt = MsgSystemDataV2 then ''SystemDataV2''
     else if mt = MsgNetworkConfig then ''NetworkConfig''
     else ''Unknown'')"

definition NewErrorMessage :: "goerr \<Rightarrow> string" where
  "NewErrorMessage e = err_text e"

section \<open>Frames\<close>

definition extractMessageType :: "bytes \<Rightarrow> goerr + MessageType \<times> bytes" where
  "extractMessageType buf = (case buf of
      [] \<Rightarrow> Inl (EMsg ''empty message'')
    | b # rest \<Rightarrow> if b > MsgLast then Inl (EMsg ''unknown message'') else Inr (b, rest))"

definition insertMessageType :: "MessageType \<Rightarrow> bytes \<Rightarrow> bytes" where
  "insertMessageType msg buf = [msg] @ buf"

text \<open>
  Frame type 2 is a binary frame. A failing \<^verbatim>\<open>NextReader\<close> or \<^verbatim>\<open>ReadAll\<close>, or a failing
  \<^verbatim>\<open>NextWriter\<close> or \<^verbatim>\<open>Write\<close>, is an error of the one call that stands for the frame.
\<close>

definition BinaryMessage :: int where
  "BinaryMessage = 2"

definition ReadMessage :: "env \<Rightarrow> ('o st, MessageType \<times> bytes) go" where
  "ReadMessage env = bnd (invoke env WsRead) (\<lambda>r. case r of
      RFrame t data \<Rightarrow>
        (if t \<noteq> BinaryMessage
         then fail (EMsg (''got non binary message (type '' @ show_int t @ '')''))
         else lift_sum (extractMessageType data))
    | _ \<Rightarrow> fail errDecode)"

definition WriteMessage :: "env \<Rightarrow> MessageType \<Rightarrow> bytes \<Rightarrow> ('o st, unit) go" where
  "WriteMessage env msgType data = writeObj env (WsWrite (insertMessageType msgType data))"

text \<open>
  \<^verbatim>\<open>SendJSONData\<close>: the payload is the JSON text of the data, given as the result of its encoder;
  the peer has to answer \<^verbatim>\<open>MsgReady\<close>.
\<close>

definition SendJSONData :: "env \<Rightarrow> MessageType \<Rightarrow> goerr + bytes \<Rightarrow> ('o st, unit) go" where
  "SendJSONData env msgType json = bnd (lift_sum json) (\<lambda>data.
     andThen (WriteMessage env msgType data)
    (bnd (ReadMessage env) (\<lambda>(mt, _).
       if mt \<noteq> MsgReady
       then fail (EMsg (''expecting '' @ [CHR 0x27] @ msg_string MsgReady @ [CHR 0x27] @ '' but got ''
              @ [CHR 0x27] @ msg_string mt @ [CHR 0x27]))
       else ret ())))"

section \<open>Laws\<close>

lemma extract_insert: "m \<le> MsgLast \<Longrightarrow> extractMessageType (insertMessageType m d) = Inr (m, d)"
  by (auto simp: extractMessageType_def insertMessageType_def)

lemma insert_extract: "extractMessageType buf = Inr (m, d) \<Longrightarrow> insertMessageType m d = buf \<and> m \<le> MsgLast"
  by (auto simp: extractMessageType_def insertMessageType_def split: list.splits if_splits)

text \<open>
  A codec of messages into frames, as both ends of the protocol use it: what is inserted is
  extracted again, nothing else is accepted, and so a frame determines its message.
\<close>

locale message_codec =
  fixes enc :: "'m \<Rightarrow> 'p \<Rightarrow> 'f" and dec :: "'f \<Rightarrow> goerr + 'm \<times> 'p" and known :: "'m \<Rightarrow> bool"
  assumes dec_enc: "known m \<Longrightarrow> dec (enc m p) = Inr (m, p)"
    and enc_dec: "dec f = Inr (m, p) \<Longrightarrow> enc m p = f \<and> known m"
begin

lemma enc_inj: "known m \<Longrightarrow> known n \<Longrightarrow> enc m p = enc n q \<Longrightarrow> m = n \<and> p = q"
proof -
  assume "known m" and "known n" and eq: "enc m p = enc n q"
  have "dec (enc m p) = Inr (m, p)" using \<open>known m\<close> by (rule dec_enc)
  moreover have "dec (enc n q) = Inr (n, q)" using \<open>known n\<close> by (rule dec_enc)
  ultimately have "Inr (m, p) = (Inr (n, q) :: goerr + 'm \<times> 'p)" unfolding eq by (rule subst)
  then show ?thesis by simp
qed

lemma dec_iff: "dec f = Inr (m, p) \<longleftrightarrow> known m \<and> f = enc m p"
proof
  assume "dec f = Inr (m, p)"
  from enc_dec [OF this] show "known m \<and> f = enc m p" by simp
next
  assume "known m \<and> f = enc m p"
  then show "dec f = Inr (m, p)" by (simp add: dec_enc)
qed

lemma dec_fails: "(\<exists>e. dec f = Inl e) \<longleftrightarrow> (\<forall>m p. known m \<longrightarrow> f \<noteq> enc m p)"
proof (cases "dec f")
  case (Inl e)
  then show ?thesis using dec_iff [of f] by simp
next
  case (Inr mp)
  obtain m p where mp: "mp = (m, p)" by force
  then have "known m \<and> f = enc m p" using Inr dec_iff [of f m p] by simp
  then show ?thesis using Inr by auto
qed

end

interpretation wire: message_codec insertMessageType extractMessageType "\<lambda>m. m \<le> MsgLast"
  by unfold_locales (auto simp: extract_insert dest: insert_extract)

definition decodeFrame :: "resp \<Rightarrow> goerr + MessageType \<times> bytes" where
  "decodeFrame r = (case r of
      RFrame t data \<Rightarrow>
        (if t \<noteq> BinaryMessage
         then Inl (EMsg (''got non binary message (type '' @ show_int t @ '')''))
         else extractMessageType data)
    | _ \<Rightarrow> Inl errDecode)"

lemma ReadMessage_alt: "ReadMessage env = bnd (invoke env WsRead) (\<lambda>r. lift_sum (decodeFrame r))"
  unfolding ReadMessage_def decodeFrame_def
  by (rule arg_cong [where f = "bnd (invoke env WsRead)"], rule ext)
    (simp add: lift_sum_def split: resp.split)

lemma wp_ReadMessage [wp]: "wpre (ReadMessage env) Q s =
    (case answer env decodeFrame WsRead (trace s) of
       Inl e \<Rightarrow> Q (Err e) (s\<lparr>trace := WsRead # trace s\<rparr>)
     | Inr x \<Rightarrow> Q (Ok x) (s\<lparr>trace := WsRead # trace s\<rparr>))"
  by (simp add: ReadMessage_alt bnd_invoke_answer)

lemma run_ReadMessage [run]: "ReadMessage env s =
    (case answer env decodeFrame WsRead (trace s) of Inl e \<Rightarrow> Err e | Inr x \<Rightarrow> Ok x,
     s\<lparr>trace := WsRead # trace s\<rparr>)"
  by (rule run_wp) (simp add: wp_ReadMessage split: sum.split)

lemma emits_ReadMessage [emit]: "P WsRead \<Longrightarrow> emits P (ReadMessage env)"
  unfolding ReadMessage_alt by (intro emit)

lemma emits_WriteMessage [emit]: "P (WsWrite (insertMessageType m d)) \<Longrightarrow> emits P (WriteMessage env m d)"
  unfolding WriteMessage_def by (intro emit)

lemma answer_frame_known: "answer env decodeFrame c t = Inr (m, d) \<Longrightarrow> m \<le> MsgLast"
  by (auto simp: answer_def decodeFrame_def split: resp.splits if_splits dest: insert_extract)

lemma answer_frame_iff: "answer env decodeFrame WsRead t = Inr (m, d) \<longleftrightarrow>
    m \<le> MsgLast \<and> respond env (WsRead # t) = RFrame BinaryMessage (insertMessageType m d)"
  using wire.dec_iff
  by (auto simp: answer_def decodeFrame_def split: resp.split)

lemma answer_decodeAny: "answer env decodeAny c t =
    (case respond env (c # t) of RErr e \<Rightarrow> Inl e | _ \<Rightarrow> Inr ())"
  by (simp add: answer_def decodeAny_def split: resp.split)

section \<open>Properties\<close>

text \<open>
  A read yields the message \<^verbatim>\<open>(m, d)\<close> exactly when the peer's next frame is a binary frame that
  \<^verbatim>\<open>insertMessageType\<close> made of it and \<^verbatim>\<open>m\<close> is a message of this version: what one end writes the
  other reads back, and a text frame, an empty frame and a type above \<^verbatim>\<open>MsgLast\<close> are all errors.
\<close>

theorem ReadMessage_roundtrip:
  "fst (ReadMessage env s) = Ok (m, d) \<longleftrightarrow>
     m \<le> MsgLast \<and> respond env (WsRead # trace s) = RFrame BinaryMessage (insertMessageType m d)"
  by (simp add: run_ReadMessage answer_frame_iff [symmetric] split: sum.split)

text \<open>
  Data counts as sent only when it was encoded, its frame was written and the peer answered
  that very frame with \<^verbatim>\<open>MsgReady\<close>; every other answer is an error.
\<close>

theorem SendJSONData_acknowledged:
  "fst (SendJSONData env m json s) = Ok () \<longleftrightarrow>
     (\<exists>data d. json = Inr data \<and>
        (\<forall>e. respond env (WsWrite (insertMessageType m data) # trace s) \<noteq> RErr e) \<and>
        respond env (WsRead # WsWrite (insertMessageType m data) # trace s)
          = RFrame BinaryMessage (insertMessageType MsgReady d))"
proof (cases json)
  case (Inl e)
  then show ?thesis by (simp add: SendJSONData_def run)
next
  case (Inr data)
  let ?w = "WsWrite (insertMessageType m data)"
  have known: "MsgReady \<le> MsgLast" by (simp add: msg_defs)
  have *: "(case answer env decodeFrame WsRead t of Inl e \<Rightarrow> False | Inr (mt, _) \<Rightarrow> mt = MsgReady) \<longleftrightarrow>
      (\<exists>d. respond env (WsRead # t) = RFrame BinaryMessage (insertMessageType MsgReady d))" for t
  proof -
    have "respond env (WsRead # t) = RFrame BinaryMessage (insertMessageType MsgReady d) \<longleftrightarrow>
        answer env decodeFrame WsRead t = Inr (MsgReady, d)" for d
      using known by (simp add: answer_frame_iff)
    then show ?thesis by (simp split: sum.split prod.split)
  qed
  have "fst (SendJSONData env m json s) = Ok () \<longleftrightarrow>
      (\<forall>e. respond env (?w # trace s) \<noteq> RErr e) \<and>
      (case answer env decodeFrame WsRead (?w # trace s) of Inl e \<Rightarrow> False | Inr (mt, _) \<Rightarrow> mt = MsgReady)"
    using Inr by (auto simp: SendJSONData_def run WriteMessage_def answer_decodeAny
        split: sum.splits resp.splits)
  then show ?thesis using Inr * by simp
qed

end
