(* ===== verification/LabelTmpl.thy ===== *)
theory LabelTmpl
  imports Wire "HOL-Library.Sublist"
begin

text \<open>
  \<^verbatim>\<open>pkg/server/labeltmpl.go\<close>: how the registration server names an inventory and fills its labels
  and annotations from the registration's templates and from what the client sends, with the
  sanitisers that make the results valid names and label values.
\<close>

section \<open>Sanitising\<close>

definition is_alnum_or :: "string \<Rightarrow> char \<Rightarrow> bool" where
  "is_alnum_or extra c \<longleftrightarrow> is_alnum c \<or> c \<in> set extra"

text \<open>
  \<^verbatim>\<open>reg.ReplaceAllString(s, "-")\<close> for a negated character class (a multi-byte character gives one
  dash here per byte, in the source one in all: the next step makes them one either way), and
  \<^verbatim>\<open>doubleDash.ReplaceAllString(s, "-")\<close>.
\<close>

definition replaceInvalid :: "(char \<Rightarrow> bool) \<Rightarrow> string \<Rightarrow> string" where
  "replaceInvalid ok s = map (\<lambda>c. if ok c then c else CHR ''-'') s"

fun squeeze :: "string \<Rightarrow> string" where
  "squeeze (c # d # cs) =
     (if c = CHR ''-'' \<and> d = CHR ''-'' then squeeze (d # cs) else c # squeeze (d # cs))"
| "squeeze cs = cs"

text \<open>
  The two loops that drop characters from either end. \<open>Ok None\<close> is the early \<^verbatim>\<open>return ""\<close>; slicing
  an empty string would panic.
\<close>

fun trimStart :: "string \<Rightarrow> string option outcome" where
  "trimStart [] = Panic ''slice bounds out of range''"
| "trimStart (c # cs) = (if is_alnum c then Ok (Some (c # cs))
     else if cs = [] then Ok None else trimStart cs)"

function trimEnd :: "string \<Rightarrow> string option outcome" where
  "trimEnd s = (if s = [] then Panic ''slice bounds out of range''
     else if is_alnum (last s) then Ok (Some s)
     else if length s = 1 then Ok None else trimEnd (butlast s))"
  by pat_completeness auto
termination by (relation "measure length") auto

declare trimEnd.simps [simp del]

definition sanitize :: "(char \<Rightarrow> bool) \<Rightarrow> string \<Rightarrow> string outcome" where
  "sanitize ok s =
    (if s = [] then Ok []
     else let s1 = replaceInvalid ok s; s2 = squeeze s1 in
       case trimStart s2 of
         Ok (Some s3) \<Rightarrow> (case trimEnd s3 of
             Ok (Some s4) \<Rightarrow> Ok (if length s4 > 58 then take 58 s4 else s4)
           | Ok None \<Rightarrow> Ok []
           | Err e \<Rightarrow> Err e
           | Panic p \<Rightarrow> Panic p)
       | Ok None \<Rightarrow> Ok []
       | Err e \<Rightarrow> Err e
       | Panic p \<Rightarrow> Panic p)"

definition sanitizeHostname :: "string \<Rightarrow> string outcome" where
  "sanitizeHostname s = sanitize (is_alnum_or ''.'') s"

definition sanitizeLabel :: "string \<Rightarrow> string outcome" where
  "sanitizeLabel s = sanitize (is_alnum_or ''._'') s"

definition sanitizeUserInput :: "string \<Rightarrow> string" where
  "sanitizeUserInput data = html_escape
     (replace_all (replace_all data [CHR 0x0A] []) [CHR 0x0D] [])"

subsection \<open>What the sanitiser computes\<close>

definition lstrip :: "string \<Rightarrow> string" where
  "lstrip s = dropWhile (\<lambda>c. \<not> is_alnum c) s"

definition rstrip :: "string \<Rightarrow> string" where
  "rstrip s = rev (lstrip (rev s))"

definition core :: "(char \<Rightarrow> bool) \<Rightarrow> string \<Rightarrow> string" where
  "core ok s = rstrip (lstrip (squeeze (replaceInvalid ok s)))"

lemma lstrip_simps [simp]:
  "lstrip [] = []"
  "lstrip (c # cs) = (if is_alnum c then c # cs else lstrip cs)"
  by (simp_all add: lstrip_def)

lemma suffix_lstrip: "suffix (lstrip s) s"
  by (simp add: lstrip_def suffix_dropWhile)

lemma prefix_rstrip: "prefix (rstrip s) s"
  using suffix_lstrip [of "rev s"] by (simp add: rstrip_def suffix_to_prefix)

lemma hd_lstrip: "lstrip s = [] \<or> is_alnum (hd (lstrip s))"
  by (induction s) auto

lemma last_rstrip: "rstrip s = [] \<or> is_alnum (last (rstrip s))"
  using hd_lstrip [of "rev s"] by (auto simp: rstrip_def last_rev)

lemma lstrip_id: "s = [] \<or> is_alnum (hd s) \<Longrightarrow> lstrip s = s"
  by (cases s) auto

lemma rstrip_id: "s = [] \<or> is_alnum (last s) \<Longrightarrow> rstrip s = s"
  using lstrip_id [of "rev s"] by (auto simp: rstrip_def hd_rev)

lemma rstrip_Nil: "rstrip s = [] \<Longrightarrow> s = [] \<or> \<not> is_alnum (hd s)"
  by (auto simp: rstrip_def lstrip_def dropWhile_eq_Nil_conv)

lemma squeeze_nonempty [simp]: "squeeze s = [] \<longleftrightarrow> s = []"
  by (induction s rule: squeeze.induct) auto

lemma trimStart_eq: "s \<noteq> [] \<Longrightarrow>
    trimStart s = Ok (if lstrip s = [] then None else Some (lstrip s))"
  by (induction s) auto

lemma trimEnd_rev: "s \<noteq> [] \<Longrightarrow>
    trimEnd (rev s) = Ok (if lstrip s = [] then None else Some (rev (lstrip s)))"
proof (induction s)
  case Nil
  then show ?case by simp
next
  case (Cons c s)
  show ?case
  proof (cases "is_alnum c \<or> s = []")
    case True
    then show ?thesis by (subst trimEnd.simps) auto
  next
    case False
    with Cons.IH show ?thesis by (subst trimEnd.simps) auto
  qed
qed

lemma trimEnd_eq: "s \<noteq> [] \<Longrightarrow> trimEnd s = Ok (if rstrip s = [] then None else Some (rstrip s))"
  using trimEnd_rev [of "rev s"] by (simp add: rstrip_def)

lemma sanitize_eq: "sanitize ok s = Ok (take 58 (core ok s))"
proof (cases "s = []")
  case True
  then show ?thesis by (simp add: sanitize_def core_def replaceInvalid_def rstrip_def)
next
  case False
  let ?t = "lstrip (squeeze (replaceInvalid ok s))"
  have ne: "squeeze (replaceInvalid ok s) \<noteq> []" using False by (simp add: replaceInvalid_def)
  show ?thesis
  proof (cases "?t = []")
    case True
    with ne False show ?thesis
      by (simp add: sanitize_def Let_def trimStart_eq core_def rstrip_def)
  next
    case t: False
    then have "rstrip ?t \<noteq> []" using hd_lstrip [of "squeeze (replaceInvalid ok s)"] rstrip_Nil by blast
    with ne t False show ?thesis
      by (simp add: sanitize_def Let_def trimStart_eq trimEnd_eq core_def)
  qed
qed

lemma no_double_squeeze: "\<not> sublist ''--'' (squeeze s)"
proof (induction s rule: squeeze.induct)
  case (1 c d cs)
  show ?case
  proof (cases "c = CHR ''-'' \<and> d = CHR ''-''")
    case True
    with 1 show ?thesis by simp
  next
    case False
    have "squeeze (d # cs) = [] \<or> hd (squeeze (d # cs)) = d"
      by (induction cs arbitrary: d) auto
    with False 1 show ?thesis
      by (cases "squeeze (d # cs)") (auto simp: sublist_Cons_right)
  qed
qed (auto simp: sublist_Cons_right)

lemma set_squeeze: "set (squeeze s) = set s"
  by (induction s rule: squeeze.induct) auto

lemma squeeze_id: "\<not> sublist ''--'' s \<Longrightarrow> squeeze s = s"
  by (induction s rule: squeeze.induct) (auto simp: sublist_Cons_right)

lemma core_sublist: "sublist (core ok s) (squeeze (replaceInvalid ok s))"
  unfolding core_def
  by (rule sublist_order.order.trans
      [OF prefix_imp_sublist [OF prefix_rstrip] suffix_imp_sublist [OF suffix_lstrip]])

lemma core_chars: "c \<in> set (core ok s) \<Longrightarrow> ok c \<or> c = CHR ''-''"
proof -
  assume "c \<in> set (core ok s)"
  then have "c \<in> set (squeeze (replaceInvalid ok s))"
    using set_mono_sublist [OF core_sublist] by blast
  then show ?thesis by (auto simp: set_squeeze replaceInvalid_def)
qed

lemma core_no_double: "\<not> sublist ''--'' (core ok s)"
  using core_sublist no_double_squeeze sublist_order.order.trans by blast

lemma last_core: "core ok s = [] \<or> is_alnum (last (core ok s))"
  unfolding core_def by (rule last_rstrip)

lemma hd_core: "core ok s = [] \<or> is_alnum (hd (core ok s))"
proof (cases "core ok s = []")
  case False
  let ?t = "lstrip (squeeze (replaceInvalid ok s))"
  obtain u where "?t = core ok s @ u"
    using prefix_rstrip [of ?t] by (auto simp: core_def prefix_def)
  with False hd_lstrip [of "squeeze (replaceInvalid ok s)"] show ?thesis
    by (auto simp: hd_append)
qed simp

lemma core_fixed:
  assumes "set r \<subseteq> {c. ok c} \<union> {CHR ''-''}" and "\<not> sublist ''--'' r"
    and "r \<noteq> []" "is_alnum (hd r)" "is_alnum (last r)"
  shows "core ok r = r"
proof -
  have "replaceInvalid ok r = r"
    using assms(1) by (auto simp: replaceInvalid_def intro!: map_idI)
  then show ?thesis using assms(2-5)
    by (simp add: core_def squeeze_id lstrip_id rstrip_id)
qed

text \<open>A label value or host name as the sanitiser promises it.\<close>

definition sane :: "(char \<Rightarrow> bool) \<Rightarrow> string \<Rightarrow> bool" where
  "sane ok r \<longleftrightarrow> length r \<le> 58 \<and> (\<forall>c \<in> set r. ok c \<or> c = CHR ''-'') \<and> \<not> sublist ''--'' r
     \<and> (r = [] \<or> is_alnum (hd r)) \<and> (r = [] \<or> length r = 58 \<or> is_alnum (last r))"

lemma sanitize_sane: "sane ok (take 58 (core ok s))"
proof -
  have "sublist (take 58 (core ok s)) (core ok s)" by (rule sublist_take)
  then have "\<not> sublist ''--'' (take 58 (core ok s))"
    using core_no_double sublist_order.order.trans by blast
  moreover have "c \<in> set (take 58 (core ok s)) \<Longrightarrow> ok c \<or> c = CHR ''-''" for c
    using core_chars in_set_takeD by metis
  moreover have "core ok s = [] \<or> is_alnum (hd (take 58 (core ok s)))"
    using hd_core [of ok s] by (cases "core ok s") auto
  moreover have "core ok s = [] \<or> length (take 58 (core ok s)) = 58 \<or> is_alnum (last (take 58 (core ok s)))"
    using last_core [of ok s] by (cases "length (core ok s) \<le> 58") auto
  ultimately show ?thesis by (auto simp: sane_def)
qed

lemma sane_fixed: "sane ok r \<Longrightarrow> length r < 58 \<Longrightarrow> sanitize ok r = Ok r"
proof (cases "r = []")
  case True
  then show ?thesis by (simp add: sanitize_def)
next
  case False
  assume "sane ok r" and "length r < 58"
  with False have "core ok r = r" by (intro core_fixed) (auto simp: sane_def)
  with \<open>length r < 58\<close> show ?thesis by (simp add: sanitize_eq)
qed

section \<open>The session\<close>

text \<open>
  What one registration session works on: the inventory, the registration it was read with, the
  template data and the negotiated protocol version. \<open>shared\<close> records that the inventory's
  annotations are the same map object as the registration's \<^verbatim>\<open>MachineInventoryAnnotations\<close>, which
  holds after \<^verbatim>\<open>initInventory\<close> assigned the one to the other: a write through one is seen through
  both.
\<close>

record session =
  inventory :: MachineInventory
  registration :: MachineRegistration
  shared :: bool
  tmpl :: tdata
  proto :: MessageType

type_synonym 'a handler = "(session st, 'a) go"

definition isNewInventory :: "MachineInventory \<Rightarrow> bool" where
  "isNewInventory i \<longleftrightarrow> CreationTimestamp i = 0"

definition updInv :: "(MachineInventory \<Rightarrow> MachineInventory) \<Rightarrow> unit handler" where
  "updInv f = update (\<lambda>x. x\<lparr>inventory := f (inventory x)\<rparr>)"

definition regAnnotations :: "MachineRegistration \<Rightarrow> string gomap" where
  "regAnnotations r = mrs_MachineInventoryAnnotations (mr_Spec r)"

definition setRegAnnotations :: "string gomap \<Rightarrow> MachineRegistration \<Rightarrow> MachineRegistration" where
  "setRegAnnotations m r = r\<lparr>mr_Spec := mr_Spec r\<lparr>mrs_MachineInventoryAnnotations := m\<rparr>\<rparr>"

definition nilMapWrite :: string where
  "nilMapWrite = ''assignment to entry in nil map''"

definition putLabel :: "string \<Rightarrow> string \<Rightarrow> unit handler" where
  "putLabel k v = bnd this (\<lambda>x. if Labels (inventory x) = None then crash nilMapWrite
     else updInv (\<lambda>i. i\<lparr>Labels := mput k v (Labels i)\<rparr>))"

definition writeAnnotation :: "string \<Rightarrow> string \<Rightarrow> session \<Rightarrow> session" where
  "writeAnnotation k v x =
    (let m = mput k v (Annotations (inventory x));
         x' = x\<lparr>inventory := (inventory x)\<lparr>Annotations := m\<rparr>\<rparr>
     in if shared x then x'\<lparr>registration := setRegAnnotations m (registration x)\<rparr> else x')"

definition putAnnotation :: "string \<Rightarrow> string \<Rightarrow> unit handler" where
  "putAnnotation k v = bnd this (\<lambda>x. if Annotations (inventory x) = None then crash nilMapWrite
     else update (writeAnnotation k v))"

definition decode :: "env \<Rightarrow> string \<Rightarrow> string handler" where
  "decode env str = bnd this (\<lambda>x. withRand (Decode (rnd env) (tmpl x) str))"

definition generateInventoryName :: "env \<Rightarrow> string handler" where
  "generateInventoryName env = bnd (withRand (draw_uuid (rnd env)))
     (\<lambda>u. ret (''m-'' @ uuid_string u))"

section \<open>Templates of the registration\<close>

definition updateInventoryName :: "env \<Rightarrow> unit handler" where
  "updateInventoryName env = bnd this (\<lambda>x.
     if \<not> isNewInventory (inventory x) then ret ()
     else bnd (attempt (decode env (Name (inventory x)))) (\<lambda>r. case r of
       Inl e \<Rightarrow>
         if IsValueNotFoundError e
         then bnd (generateInventoryName env) (\<lambda>n. updInv (\<lambda>i. i\<lparr>Name := n\<rparr>))
         else fail (wrap (''templater: cannot decode MachineInventory name '' @ go_quote (Name (inventory x))) e)
     | Inr dec \<Rightarrow> bnd (lift_outcome (sanitizeHostname dec)) (\<lambda>name.
         if name = [] then fail (EMsg (''invalid MachineInventory name: '' @ go_quote name))
         else updInv (\<lambda>i. i\<lparr>Name := to_lower name\<rparr>))))"

text \<open>
  The body of the loop over the registration's labels: a label that is set and whose template is
  random is left alone, a template that does not decode is skipped.
\<close>

definition rendered :: "string gomap \<Rightarrow> string \<Rightarrow> string \<Rightarrow> bool" where
  "rendered m k v \<longleftrightarrow> (case mget m k of None \<Rightarrow> False | Some old \<Rightarrow> old \<noteq> []) \<and> IsRandomLabel v"

definition labelStep :: "env \<Rightarrow> string \<times> string \<Rightarrow> unit handler" where
  "labelStep env kv = (case kv of (k, v) \<Rightarrow> bnd this (\<lambda>x.
     if rendered (Labels (inventory x)) k v then ret ()
     else bnd (attempt (decode env v)) (\<lambda>r. case r of
       Inl e \<Rightarrow> ret ()
     | Inr dec \<Rightarrow> bnd (lift_outcome (sanitizeLabel dec)) (\<lambda>d. putLabel k d))))"

definition updateInventoryLabels :: "env \<Rightarrow> unit handler" where
  "updateInventoryLabels env =
     andThen (updInv (\<lambda>i. i\<lparr>Labels := mmake (Labels i)\<rparr>))
    (bnd this (\<lambda>x. forEach (labelStep env)
       (mentries (mrs_MachineInventoryLabels (mr_Spec (registration x))))))"

definition annotationStep :: "env \<Rightarrow> string \<times> string \<Rightarrow> unit handler" where
  "annotationStep env kv = (case kv of (k, v) \<Rightarrow> bnd this (\<lambda>x.
     if rendered (Annotations (inventory x)) k v then ret ()
     else bnd (attempt (decode env v)) (\<lambda>r. case r of
       Inl e \<Rightarrow> if IsValueNotFoundError e then ret () else fail e
     | Inr dec \<Rightarrow> putAnnotation k dec)))"

text \<open>
  A fresh map for annotations that are nil is not the registration's. The loop writes only the
  key it is at, so it sees the entries the registration had when it started, shared or not.
\<close>

definition makeAnnotations :: "session \<Rightarrow> session" where
  "makeAnnotations x = (if Annotations (inventory x) = None
     then x\<lparr>inventory := (inventory x)\<lparr>Annotations := Some []\<rparr>, shared := False\<rparr> else x)"

definition updateInventoryAnnotations :: "env \<Rightarrow> unit handler" where
  "updateInventoryAnnotations env =
     andThen (update makeAnnotations)
    (bnd this (\<lambda>x. forEach (annotationStep env) (mentries (regAnnotations (registration x)))))"

definition updateInventoryWithTemplates :: "env \<Rightarrow> unit handler" where
  "updateInventoryWithTemplates env =
     andThen (orWrap (updateInventoryName env) ''failed to resolve inventory name'')
    (andThen (orWrap (updateInventoryLabels env) ''failed to update inventory labels'')
    (orWrap (updateInventoryAnnotations env) ''failed to update inventory annotations''))"

section \<open>Labels and annotations of the client\<close>

definition mergeLabelStep :: "env \<Rightarrow> string \<Rightarrow> string \<times> string \<Rightarrow> unit handler" where
  "mergeLabelStep env pfx kv = (case kv of (key, val) \<Rightarrow>
     bnd (attempt (decode env val)) (\<lambda>r. case r of
       Inl e \<Rightarrow> ret ()
     | Inr dec \<Rightarrow> bnd (lift_outcome (sanitizeLabel dec))
         (\<lambda>d. putLabel (pfx @ sanitizeUserInput key) d)))"

definition mergeInventoryLabels :: "env \<Rightarrow> bytes \<Rightarrow> string \<Rightarrow> unit handler" where
  "mergeInventoryLabels env data pfx =
     bnd (orWrap (lift_sum (json_strings (lib env) data)) ''cannot extract inventory labels'') (\<lambda>labels.
     andThen (updInv (\<lambda>i. i\<lparr>Labels := mmake (Labels i)\<rparr>))
    (forEach (mergeLabelStep env pfx) labels))"

definition mergeInventoryAnnotations :: "env \<Rightarrow> bytes \<Rightarrow> string \<Rightarrow> unit handler" where
  "mergeInventoryAnnotations env data pfx =
     bnd (orWrap (lift_sum (json_strings (lib env) data)) ''cannot extract inventory annotations'')
      (\<lambda>annotations. andThen (update makeAnnotations)
        (forEach (\<lambda>(key, val). putAnnotation (pfx @ sanitizeUserInput key) (sanitizeUserInput val))
           annotations))"

section \<open>What the steps do\<close>

lemma wp_decode [wp]: "wpre (decode env str) Q s =
    (case Decode (rnd env) (tmpl (self s)) str (draws s) of (r, n) \<Rightarrow> Q r (s\<lparr>draws := n\<rparr>))"
  by (simp add: wpre_def decode_def run split: prod.split)

lemma Decode_PanicD: "Decode src d str n = (Panic p, n') \<Longrightarrow> False"
  using Decode_no_panic [of src d str n p] by simp

lemma wp_updInv [wp]: "wpre (updInv f) Q s = Q (Ok ()) (s\<lparr>self := (self s)\<lparr>inventory := f (inventory (self s))\<rparr>\<rparr>)"
  by (simp add: updInv_def wp)

lemma wp_putLabel [wp]: "wpre (putLabel k v) Q s =
    (if Labels (inventory (self s)) = None then Q (Panic nilMapWrite) s
     else Q (Ok ()) (s\<lparr>self := (self s)\<lparr>inventory := (inventory (self s))\<lparr>Labels := mput k v (Labels (inventory (self s)))\<rparr>\<rparr>\<rparr>))"
  by (simp add: putLabel_def wp)

lemma wp_putAnnotation [wp]: "wpre (putAnnotation k v) Q s =
    (if Annotations (inventory (self s)) = None then Q (Panic nilMapWrite) s
     else Q (Ok ()) (s\<lparr>self := writeAnnotation k v (self s)\<rparr>))"
  by (simp add: putAnnotation_def wp)

text \<open>\<open>relabelled s s'\<close>: the session differs in the inventory's labels and the random draws only.\<close>

definition relabelled :: "session st \<Rightarrow> session st \<Rightarrow> bool" where
  "relabelled s s' \<longleftrightarrow> (\<exists>m. self s' = (self s)\<lparr>inventory := (inventory (self s))\<lparr>Labels := m\<rparr>\<rparr>) \<and>
     trace s' = trace s \<and> ticks s' = ticks s"

definition labelsOf :: "session st \<Rightarrow> string gomap" where
  "labelsOf s = Labels (inventory (self s))"

lemma relabelledI: "self s' = (self s)\<lparr>inventory := (inventory (self s))\<lparr>Labels := m\<rparr>\<rparr> \<Longrightarrow>
    trace s' = trace s \<Longrightarrow> ticks s' = ticks s \<Longrightarrow> relabelled s s'"
  by (auto simp: relabelled_def)

lemma relabelled_refl [simp]: "relabelled s s"
  by (rule relabelledI [where m = "labelsOf s"]) (simp_all add: labelsOf_def)

lemma relabelled_trans: "relabelled s t \<Longrightarrow> relabelled t u \<Longrightarrow> relabelled s u"
  unfolding relabelled_def by force

lemma relabelled_sel:
  assumes "relabelled s s'"
  shows "registration (self s') = registration (self s)" "shared (self s') = shared (self s)"
    "tmpl (self s') = tmpl (self s)" "proto (self s') = proto (self s)" "trace s' = trace s"
    "ticks s' = ticks s" "mi_Spec (inventory (self s')) = mi_Spec (inventory (self s))"
    "Name (inventory (self s')) = Name (inventory (self s))" "Annotations (inventory (self s')) = Annotations (inventory (self s))"
    "CreationTimestamp (inventory (self s')) = CreationTimestamp (inventory (self s))"
  using assms by (auto simp: relabelled_def)

lemma labelStep_wp:
  assumes "labelsOf s \<noteq> None"
  shows "wpre (labelStep env (k, v)) (\<lambda>r s'. r = Ok () \<and> relabelled s s' \<and>
     (labelsOf s' = labelsOf s \<or> (\<not> rendered (labelsOf s) k v \<and>
        (\<exists>d. sane (is_alnum_or ''._'') d \<and> labelsOf s' = mput k d (labelsOf s))))) s"
proof -
  obtain r n where d: "Decode (rnd env) (tmpl (self s)) v (draws s) = (r, n)" by force
  have rel: "relabelled s (s\<lparr>draws := n\<rparr>)" for n
    by (rule relabelledI [where m = "labelsOf s"]) (simp_all add: labelsOf_def)
  show ?thesis
  proof (cases r)
    case (Ok dec)
    then show ?thesis using assms d rel
      by (auto simp: labelStep_def wp sanitizeLabel_def sanitize_eq labelsOf_def
          intro: sanitize_sane intro!: relabelledI)
  next
    case (Err e)
    then show ?thesis using assms d rel by (auto simp: labelStep_def wp labelsOf_def)
  next
    case (Panic p)
    with d show ?thesis using Decode_PanicD by blast
  qed
qed

definition labelsSane :: "string gomap \<Rightarrow> bool" where
  "labelsSane m \<longleftrightarrow> (\<forall>(k, v) \<in> set (mentries m). sane (is_alnum_or ''._'') v)"

lemma labelsSane_mput: "labelsSane m \<Longrightarrow> sane (is_alnum_or ''._'') d \<Longrightarrow> labelsSane (mput k d m)"
  using mput_entries [of k d m] by (auto simp: labelsSane_def)

text \<open>
  Setting the labels never fails; it keeps values sane, and leaves a rendered random label alone.
\<close>

lemma updateInventoryLabels_wp:
  "wpre (updateInventoryLabels env) (\<lambda>r s'. r = Ok () \<and> relabelled s s' \<and> labelsOf s' \<noteq> None \<and>
     (labelsSane (labelsOf s) \<longrightarrow> labelsSane (labelsOf s')) \<and>
     (mwf (mrs_MachineInventoryLabels (mr_Spec (registration (self s)))) \<longrightarrow>
        (\<forall>k v. mget (mrs_MachineInventoryLabels (mr_Spec (registration (self s)))) k = Some v \<longrightarrow>
           rendered (labelsOf s) k v \<longrightarrow> mget (labelsOf s') k = mget (labelsOf s) k))) s"
proof -
  let ?tm = "mrs_MachineInventoryLabels (mr_Spec (registration (self s)))"
  let ?s0 = "s\<lparr>self := (self s)\<lparr>inventory := (inventory (self s))\<lparr>Labels := mmake (Labels (inventory (self s)))\<rparr>\<rparr>\<rparr>"
  let ?I = "\<lambda>s'. relabelled s s' \<and> labelsOf s' \<noteq> None \<and>
      (labelsSane (labelsOf s) \<longrightarrow> labelsSane (labelsOf s')) \<and>
      (mwf ?tm \<longrightarrow> (\<forall>k v. mget ?tm k = Some v \<longrightarrow> rendered (labelsOf s) k v \<longrightarrow>
          mget (labelsOf s') k = mget (labelsOf s) k))"
  have step: "wpre (labelStep env kv) (\<lambda>r s''. r = Ok () \<and> ?I s'') s'"
    if "kv \<in> set (mentries ?tm)" and I: "?I s'" for kv s'
  proof -
    obtain k v where kv: "kv = (k, v)" by force
    have tm: "mget ?tm k = Some v" if "mwf ?tm"
      using that \<open>kv \<in> set (mentries ?tm)\<close> kv
      by (cases ?tm) (auto simp: mwf_def)
    have "wpre (labelStep env (k, v)) (\<lambda>r s''. r = Ok () \<and> relabelled s' s'' \<and>
       (labelsOf s'' = labelsOf s' \<or> (\<not> rendered (labelsOf s') k v \<and>
        (\<exists>d. sane (is_alnum_or ''._'') d \<and> labelsOf s'' = mput k d (labelsOf s'))))) s'"
      using I by (intro labelStep_wp) simp
    then show ?thesis unfolding kv
    proof (rule wpre_mono)
      fix r s''
      assume A: "r = Ok () \<and> relabelled s' s'' \<and> (labelsOf s'' = labelsOf s' \<or>
        (\<not> rendered (labelsOf s') k v \<and>
          (\<exists>d. sane (is_alnum_or ''._'') d \<and> labelsOf s'' = mput k d (labelsOf s'))))"
      have "relabelled s s''" using I A relabelled_trans by blast
      moreover have "labelsOf s'' \<noteq> None" using I A mput_not_nil by metis
      moreover have "labelsSane (labelsOf s) \<longrightarrow> labelsSane (labelsOf s'')"
        using I A labelsSane_mput by auto
      moreover have "mget (labelsOf s'') k' = mget (labelsOf s) k'"
        if "mwf ?tm" "mget ?tm k' = Some v'" "rendered (labelsOf s) k' v'" for k' v'
      proof -
        have same: "mget (labelsOf s') k' = mget (labelsOf s) k'" using I that by blast
        show ?thesis
        proof (cases "k' = k")
          case True
          with tm that have "rendered (labelsOf s') k v" using same by (simp add: rendered_def)
          with A same show ?thesis by auto
        next
          case False
          with A I same show ?thesis by (auto simp: mget_mput)
        qed
      qed
      ultimately show "r = Ok () \<and> ?I s''" using A by blast
    qed
  qed
  have "?I ?s0"
    by (auto simp: labelsOf_def labelsSane_def intro!: relabelledI)
  then have "wpre (forEach (labelStep env) (mentries ?tm)) (\<lambda>r s'. r = Ok () \<and> ?I s') ?s0"
    by (intro forEach_ok step) auto
  then show ?thesis
    by (simp add: updateInventoryLabels_def wp)
qed

definition validName :: "env \<Rightarrow> string \<Rightarrow> bool" where
  "validName env name \<longleftrightarrow> (\<exists>h. name = to_lower h \<and> h \<noteq> [] \<and> sane (is_alnum_or ''.'') h) \<or>
     (\<exists>i. name = ''m-'' @ uuid_string (src_uuid (rnd env) i))"

definition named :: "string \<Rightarrow> session st \<Rightarrow> session st" where
  "named name s = s\<lparr>self := (self s)\<lparr>inventory := (inventory (self s))\<lparr>Name := name\<rparr>\<rparr>\<rparr>"

lemma updateInventoryName_wp:
  "wpre (updateInventoryName env) (\<lambda>r s'.
     (case r of
        Ok _ \<Rightarrow> if isNewInventory (inventory (self s))
           then \<exists>n name. validName env name \<and> s' = named name (s\<lparr>draws := n\<rparr>)
           else s' = s
      | Err e \<Rightarrow> isNewInventory (inventory (self s)) \<and> self s' = self s \<and> trace s' = trace s
      | Panic p \<Rightarrow> False)) s"
proof (cases "isNewInventory (inventory (self s))")
  case False
  then show ?thesis by (simp add: updateInventoryName_def wp)
next
  case True
  obtain r n where d: "Decode (rnd env) (tmpl (self s)) (Name (inventory (self s))) (draws s) = (r, n)"
    by force
  show ?thesis
  proof (cases r)
    case (Ok dec)
    let ?h = "take 58 (core (is_alnum_or ''.'') dec)"
    have "?h \<noteq> [] \<Longrightarrow> validName env (to_lower ?h)"
      using sanitize_sane [of "is_alnum_or ''.''" dec] by (auto simp: validName_def)
    moreover have "wpre (updateInventoryName env) (\<lambda>r s'. if ?h = [] then
        (\<exists>e. r = Err e) \<and> self s' = self s \<and> trace s' = trace s
        else r = Ok () \<and> s' = named (to_lower ?h) (s\<lparr>draws := n\<rparr>)) s"
      using True d Ok by (simp add: updateInventoryName_def wp sanitizeHostname_def sanitize_eq named_def)
    ultimately show ?thesis
      using True by (elim wpre_mono) (auto split: if_splits)
  next
    case (Err e)
    have g: "validName env (''m-'' @ uuid_string (src_uuid (rnd env) i))" for i
      by (auto simp: validName_def)
    have "wpre (updateInventoryName env) (\<lambda>r s'. if IsValueNotFoundError e
        then r = Ok () \<and> s' = named (''m-'' @ uuid_string (src_uuid (rnd env) n)) (s\<lparr>draws := Suc n\<rparr>)
        else (\<exists>e. r = Err e) \<and> self s' = self s \<and> trace s' = trace s) s"
      using True d Err
      by (simp add: updateInventoryName_def generateInventoryName_def wp run_draw_uuid named_def)
    with g show ?thesis
      using True by (elim wpre_mono) (auto split: if_splits)
  next
    case (Panic p)
    with d show ?thesis using Decode_PanicD by blast
  qed
qed

section \<open>Properties\<close>

text \<open>
  C8: the sanitisers are total: for every input they return, without a panic, a string of at most
  58 characters of the allowed set and dashes, without two dashes in a row, that is empty or starts
  with a letter or digit, and also ends with one unless it was cut at 58; sanitising a result that
  was not cut changes nothing.
\<close>

theorem sanitizers_sane:
  "\<exists>l h. sanitizeLabel s = Ok l \<and> sane (is_alnum_or ''._'') l \<and> (length l = 58 \<or> sanitizeLabel l = Ok l)
     \<and> sanitizeHostname s = Ok h \<and> sane (is_alnum_or ''.'') h \<and> (length h = 58 \<or> sanitizeHostname h = Ok h)"
proof -
  have cut: "sane ok r \<Longrightarrow> length r = 58 \<or> sanitize ok r = Ok r" for ok r
    using sane_fixed [of ok r] by (cases "length r < 58") (auto simp: sane_def)
  have "sanitize ok s = Ok r \<Longrightarrow> sane ok r" for ok r
    by (auto simp: sanitize_eq sanitize_sane)
  moreover have "\<exists>r. sanitize ok s = Ok r" for ok
    by (simp add: sanitize_eq)
  ultimately show ?thesis
    unfolding sanitizeLabel_def sanitizeHostname_def using cut by metis
qed

text \<open>
  The cut at 58 characters comes after the trimming, so a sanitised label can end in a dash,
  which Kubernetes refuses as a label value.
\<close>

theorem sanitize_cut_dash:
  "sanitizeLabel (replicate 57 (CHR ''a'') @ ''-b'') = Ok (replicate 57 (CHR ''a'') @ ''-'')
     \<and> \<not> is_alnum (CHR ''-'')"
proof
  show "sanitizeLabel (replicate 57 (CHR ''a'') @ ''-b'') = Ok (replicate 57 (CHR ''a'') @ ''-'')"
    by code_simp
  show "\<not> is_alnum (CHR ''-'')"
    by code_simp
qed

text \<open>
  Filling the labels of an inventory from its registration always succeeds and touches nothing
  but the labels (and the random source); label values stay sane, and a label that is already set
  and whose template is random keeps its value.
\<close>

theorem updateInventoryLabels_keeps:
  assumes "labelsSane (Labels (inventory (self s)))"
    and "mwf (mrs_MachineInventoryLabels (mr_Spec (registration (self s))))"
    and "mget (mrs_MachineInventoryLabels (mr_Spec (registration (self s)))) k = Some v"
    and "rendered (Labels (inventory (self s))) k v"
  shows "\<exists>s'. updateInventoryLabels env s = (Ok (), s') \<and> relabelled s s' \<and>
    labelsSane (Labels (inventory (self s'))) \<and>
    mget (Labels (inventory (self s'))) k = mget (Labels (inventory (self s))) k"
  using updateInventoryLabels_wp [of env s] assms
  by (cases "updateInventoryLabels env s") (auto simp: wpre_def labelsOf_def)

definition demo_session :: session where
  "demo_session = \<lparr>inventory = zeroInventory\<lparr>Labels := Some [(''id'', ''abc'')]\<rparr>,
     registration = zeroMR\<lparr>mr_Spec := mr_Spec zeroMR\<lparr>mrs_MachineInventoryLabels :=
       Some [(''id'', ''${Random/UUID}''), (''env'', ''prod'')]\<rparr>\<rparr>,
     shared = False, tmpl = [], proto = 0\<rparr>"

theorem updateInventoryLabels_keeps_witness:
  "\<exists>s'. updateInventoryLabels (demo_env (\<lambda>_. None) []) (start demo_session) = (Ok (), s') \<and>
    mget (Labels (inventory (self s'))) ''id'' = Some ''abc''"
proof -
  have "sane (is_alnum_or ''._'') ''abc''" by code_simp
  then have l: "labelsSane (Labels (inventory (self (start demo_session))))"
    by (simp add: start_def demo_session_def labelsSane_def)
  have w: "mwf (mrs_MachineInventoryLabels (mr_Spec (registration (self (start demo_session)))))"
    by (simp add: start_def demo_session_def mwf_def)
  have g: "mget (mrs_MachineInventoryLabels (mr_Spec (registration (self (start demo_session))))) ''id'' =
      Some ''${Random/UUID}''"
    by (simp add: start_def demo_session_def)
  have "IsRandomLabel ''${Random/UUID}''" by code_simp
  then have r: "rendered (Labels (inventory (self (start demo_session)))) ''id'' ''${Random/UUID}''"
    by (simp add: start_def demo_session_def rendered_def)
  have "mget (Labels (inventory (self (start demo_session)))) ''id'' = Some ''abc''"
    by (simp add: start_def demo_session_def)
  with updateInventoryLabels_keeps [OF l w g r, of "demo_env (\<lambda>_. None) []"]
  show ?thesis by auto
qed

text \<open>
  Only a new inventory is named, from the registration's machine name: the name is a non-empty
  sanitised host name in lower case, or the generated \<^verbatim>\<open>m-\<close> and UUID when a template value is
  missing; an error leaves the session as it was and there is no panic.
\<close>

theorem updateInventoryName_valid:
  "case updateInventoryName env s of
     (Ok _, s') \<Rightarrow> (if isNewInventory (inventory (self s))
        then (\<exists>n name. validName env name \<and> s' = named name (s\<lparr>draws := n\<rparr>))
        else s' = s)
   | (Err e, s') \<Rightarrow> isNewInventory (inventory (self s)) \<and> self s' = self s \<and> trace s' = trace s
   | (Panic p, s') \<Rightarrow> False"
  using updateInventoryName_wp [of env s] unfolding wpre_def
  by (simp add: case_prod_beta cong: outcome.case_cong)

end
