(* ===== verification/Auth.thy ===== *)
theory Auth
  imports LabelTmpl
begin

unbundle bit_operations_syntax

text \<open>
  The two ways a machine authenticates: by its TPM (\<^verbatim>\<open>pkg/tpm\<close>) and by a plain identifier
  (\<^verbatim>\<open>pkg/plainauth\<close>), each with its server side, which finds or prepares the inventory of the
  machine, and its client side, which makes the token.
\<close>

section \<open>Servers\<close>

text \<open>What the server reads of an HTTP request.\<close>

record request =
  rq_path :: string
  rq_authorization :: string
  rq_upgrade :: bool

type_synonym 'o authenticator =
  "request \<Rightarrow> string \<Rightarrow> ('o st, MachineInventory option \<times> bool) go"

text \<open>
  The loop that looks for the one inventory with a hash: a second match is an error that names
  both. \<open>label\<close> is how the message calls the hash.
\<close>

fun findByHash :: "string \<Rightarrow> (MachineInventory \<Rightarrow> string) \<Rightarrow> string \<Rightarrow> MachineInventory option
    \<Rightarrow> MachineInventory list \<Rightarrow> goerr + MachineInventory option" where
  "findByHash label hash h found [] = Inr found"
| "findByHash label hash h found (m # ms) =
    (if hash m = h
     then (case found of
         Some f \<Rightarrow> Inl (EMsg (''failed to find inventory machine: '' @ label @ '' hash '' @ h
             @ '' is present in both '' @ Namespace f @ ''/'' @ Name f @ '' and ''
             @ Namespace m @ ''/'' @ Name m))
       | None \<Rightarrow> findByHash label hash h (Some m) ms)
     else findByHash label hash h found ms)"

definition freshInventory :: "string \<Rightarrow> (MachineInventorySpec \<Rightarrow> MachineInventorySpec) \<Rightarrow> MachineInventory" where
  "freshInventory ns f = zeroInventory\<lparr>Namespace := ns, mi_Spec := f (mi_Spec zeroInventory)\<rparr>"

abbreviation tpmHashOf :: "MachineInventory \<Rightarrow> string" where
  "tpmHashOf m \<equiv> mis_TPMHash (mi_Spec m)"

abbreviation machineHashOf :: "MachineInventory \<Rightarrow> string" where
  "machineHashOf m \<equiv> mis_MachineHash (mi_Spec m)"

definition listInventories :: "env \<Rightarrow> ('o st, MachineInventory list) go" where
  "listInventories env = listObj env KInv asInv None []"

definition plainAuthenticate :: "env \<Rightarrow> 'o authenticator" where
  "plainAuthenticate env rq regNamespace =
    (let header = rq_authorization rq in
     if \<not> has_prefix header ''Bearer PLAIN'' then ret (None, True)
     else let idToken = trim_prefix header ''Bearer PLAIN'' in
       if idToken = [] then fail (EMsg ''cannot find token ID'')
       else let hashedToken = sha256_hex (lib env) idToken in
         bnd (orWrap (listInventories env) ''failed to get MachineInventories list'') (\<lambda>items.
         bnd (lift_sum (findByHash ''Machine'' machineHashOf hashedToken None items)) (\<lambda>found.
         ret (Some (case found of
             Some m \<Rightarrow> m
           | None \<Rightarrow> freshInventory regNamespace (\<lambda>sp. sp\<lparr>mis_MachineHash := hashedToken\<rparr>)), False))))"

text \<open>\<^verbatim>\<open>verifyChain\<close> asks the certificate of the key to verify itself, which is nil for a bare key.\<close>

definition verifyChain :: "env \<Rightarrow> string \<Rightarrow> string \<Rightarrow> ('o st, unit) go" where
  "verifyChain env ek ns =
     bnd (attempt (getObj env KSecret asSecret ns ''tpm-ca'')) (\<lambda>r. case r of
       Inl e \<Rightarrow> if isNotFound e then ret () else fail (wrap ''failed to get secret'' e)
     | Inr secret \<Rightarrow>
         if \<not> ek_certified (lib env) ek then crash nilDereference
         else (case x509_verify (lib env) (mget (sec_Data secret) ''tls.crt'') ek of
           None \<Rightarrow> ret () | Some e \<Rightarrow> fail e))"

definition validHash :: "env \<Rightarrow> string \<Rightarrow> string \<Rightarrow> ('o st, MachineInventory) go" where
  "validHash env ek registerNamespace =
     bnd (onErr (lift_sum (tpm_hash (lib env) ek))
            (\<lambda>e. fail (EMsg (''tpm: could not get public key hash: '' @ err_text e)))) (\<lambda>hashEncoded.
     andThen (orWrap (verifyChain env ek registerNamespace) ''verifying chain'')
    (bnd (orWrap (listInventories env) ''failed to get MachineInventories list'') (\<lambda>items.
     bnd (lift_sum (findByHash ''TPM'' tpmHashOf hashEncoded None items)) (\<lambda>found.
     ret (case found of
         Some m \<Rightarrow> m
       | None \<Rightarrow> freshInventory registerNamespace (\<lambda>sp. sp\<lparr>mis_TPMHash := hashEncoded\<rparr>))))))"

definition writeRead :: "env \<Rightarrow> bytes \<Rightarrow> ('o st, bytes) go" where
  "writeRead env input =
     andThen (writeObj env (WsWrite input))
    (bnd (invoke env WsRead) (\<lambda>r. case r of RFrame t data \<Rightarrow> ret data | _ \<Rightarrow> fail errDecode))"

definition GenerateChallenge :: "env \<Rightarrow> string \<Rightarrow> string \<Rightarrow> ('o st, string \<times> bytes) go" where
  "GenerateChallenge env ek att =
     bnd (withRand (\<lambda>n. (Ok n, Suc n))) (\<lambda>n. lift_sum (tpm_challenge (lib env) n ek att))"

definition tpmAuthenticate :: "env \<Rightarrow> 'o authenticator" where
  "tpmAuthenticate env rq registerNamespace =
    (let header = rq_authorization rq in
     if \<not> has_prefix header ''Bearer TPM'' then ret (None, True)
     else bnd (lift_sum (tpm_data (lib env) header)) (\<lambda>(ek, attestationData).
       bnd (validHash env ek registerNamespace) (\<lambda>machine.
       bnd (GenerateChallenge env ek attestationData) (\<lambda>(secret, challenge).
       bnd (writeRead env challenge) (\<lambda>challResp.
       case tpm_validate (lib env) secret challResp of
         Some e \<Rightarrow> fail e
       | None \<Rightarrow> ret (Some machine, False))))))"

text \<open>\<^verbatim>\<open>InventoryServer.authMachine\<close>: the first authenticator that does not pass decides.\<close>

primrec authMachine :: "'o authenticator list \<Rightarrow> request \<Rightarrow> string \<Rightarrow> ('o st, MachineInventory option) go" where
  "authMachine [] rq ns = ret None"
| "authMachine (a # as) rq ns = bnd (a rq ns) (\<lambda>(machine, cont).
     if machine \<noteq> None \<or> \<not> cont then ret machine else authMachine as rq ns)"

section \<open>Clients\<close>

text \<open>What the clients read of the host: the SMBIOS product UUID, the network cards, a random number.\<close>

record host =
  host_product :: "goerr + string"
  host_nics :: "goerr + nic list"
  host_uuid_parse :: "string \<Rightarrow> (8 word list) option"
  host_int63 :: "int"

record plainClient =
  pc_idType :: string
  pc_idVal :: string

definition isNotFilled :: "string \<Rightarrow> bool" where
  "isNotFilled value \<longleftrightarrow> value = [] \<or> value = ''Unspecified'' \<or> value = ''None'' \<or> has_prefix value ''Not ''"

text \<open>\<^verbatim>\<open>strings.Compare\<close> orders by bytes.\<close>

fun str_less :: "string \<Rightarrow> string \<Rightarrow> bool" where
  "str_less s [] = False"
| "str_less [] (d # ds) = True"
| "str_less (c # cs) (d # ds) = (code c < code d \<or> (code c = code d \<and> str_less cs ds))"

definition usableNic :: "nic \<Rightarrow> bool" where
  "usableNic n \<longleftrightarrow> \<not> (nic_IsVirtual n \<or> nic_MacAddress n = [] \<or> nic_MacAddress n = ''00:00:00:00:00:00'')"

fun lowestMac :: "string \<Rightarrow> nic list \<Rightarrow> string" where
  "lowestMac hwAddr [] = hwAddr"
| "lowestMac hwAddr (n # ns) =
    (if \<not> usableNic n then lowestMac hwAddr ns
     else if hwAddr = [] then lowestMac (nic_MacAddress n) ns
     else if str_less (nic_MacAddress n) hwAddr then lowestMac (nic_MacAddress n) ns
     else lowestMac hwAddr ns)"

definition getHostMacAddr :: "host \<Rightarrow> goerr + string" where
  "getHostMacAddr h = (case host_nics h of
      Inl e \<Rightarrow> Inl (wrap ''cannot access networking data'' e)
    | Inr nics \<Rightarrow> (let hwAddr = lowestMac [] nics in
        if hwAddr = [] then Inl (EMsg ''cannot retrieve MAC address from any network interface'')
        else Inr hwAddr))"

definition plainInit :: "host \<Rightarrow> Registration \<Rightarrow> plainClient \<Rightarrow> goerr + plainClient" where
  "plainInit h rg auth =
    (if pc_idVal auth \<noteq> [] then Inr auth
     else if rg_Auth rg = ''sys-uuid'' then
       (case host_product h of
          Inl e \<Rightarrow> Inl (wrap ''cannot access SMBIOS data'' e)
        | Inr uuid \<Rightarrow> if isNotFilled uuid then Inl (EMsg ''SMBIOS UUID is empty'')
            else Inr (auth\<lparr>pc_idType := rg_Auth rg, pc_idVal := uuid\<rparr>))
     else if rg_Auth rg = ''mac'' then
       (case getHostMacAddr h of
          Inl e \<Rightarrow> Inl (wrap ''cannot get MAC address'' e)
        | Inr mac \<Rightarrow> Inr (auth\<lparr>pc_idType := rg_Auth rg, pc_idVal := mac\<rparr>))
     else Inl (EMsg (''unknown authentication type: '' @ pc_idType auth)))"

definition notInitialized :: goerr where
  "notInitialized = EMsg ''plainauth data is not initialized: have you called Init()?''"

definition plainGetToken :: "plainClient \<Rightarrow> goerr + string" where
  "plainGetToken auth = (if pc_idVal auth = [] then Inl notInitialized
     else Inr (''Bearer PLAIN'' @ pc_idVal auth))"

definition plainGetPubHash :: "env \<Rightarrow> plainClient \<Rightarrow> goerr + string" where
  "plainGetPubHash env auth = (if pc_idVal auth = [] then Inl notInitialized
     else Inr (sha256_hex (lib env) (pc_idVal auth)))"

text \<open>FNV-1a on 64-bit words, and the seed of an emulated TPM.\<close>

definition fnv64a :: "8 word list \<Rightarrow> 64 word" where
  "fnv64a bs = fold (\<lambda>b h. (h XOR ucast b) * 1099511628211) bs 14695981039346656037"

definition randomTPMSeed :: "host \<Rightarrow> int" where
  "randomTPMSeed h = (case host_product h of
      Inl e \<Rightarrow> host_int63 h
    | Inr uuid \<Rightarrow> (case host_uuid_parse h uuid of
        None \<Rightarrow> host_int63 h
      | Some u \<Rightarrow> sint (fnv64a u)))"

definition GetTPMSeed :: "host \<Rightarrow> Registration \<Rightarrow> bool \<Rightarrow> int \<Rightarrow> int" where
  "GetTPMSeed h rg usePreviousSeed previousSeed =
    (if rg_EmulateTPM rg \<and> rg_EmulatedTPMSeed rg = -1 \<and> \<not> usePreviousSeed then randomTPMSeed h
     else if rg_EmulateTPM rg \<and> rg_EmulatedTPMSeed rg \<noteq> -1 \<and> usePreviousSeed then previousSeed
     else if rg_EmulateTPM rg \<and> rg_EmulatedTPMSeed rg \<noteq> -1 \<and> \<not> usePreviousSeed then rg_EmulatedTPMSeed rg
     else previousSeed)"

section \<open>The authenticator contract\<close>

text \<open>
  An authenticator recognises its requests by the Authorization header: it passes on the others
  without a trace, and decides on its own by an error or an inventory.
\<close>

locale authenticator =
  fixes auth :: "'o authenticator" and accepts :: "string \<Rightarrow> bool"
  assumes passes: "\<not> accepts (rq_authorization rq) \<Longrightarrow> auth rq ns = ret (None, True)"
    and decides: "accepts (rq_authorization rq) \<Longrightarrow> auth rq ns s = (Ok (m, c), s') \<Longrightarrow> m \<noteq> None \<and> \<not> c"
begin

lemma alone: "accepts (rq_authorization rq) \<Longrightarrow>
    authMachine (auth # as) rq ns = bnd (auth rq ns) (\<lambda>(machine, cont). ret machine)"
proof (rule ext)
  fix s
  assume acc: "accepts (rq_authorization rq)"
  obtain r s' where r: "auth rq ns s = (r, s')" by force
  show "authMachine (auth # as) rq ns s = bnd (auth rq ns) (\<lambda>(machine, cont). ret machine) s"
  proof (cases r)
    case (Ok mc)
    obtain m c where mc: "mc = (m, c)" by force
    with decides [OF acc] r Ok have "m \<noteq> None" by blast
    then show ?thesis using r Ok mc by (simp add: run)
  qed (use r in \<open>simp_all add: run\<close>)
qed

lemma skipped: "\<not> accepts (rq_authorization rq) \<Longrightarrow> authMachine (auth # as) rq ns = authMachine as rq ns"
  by (simp add: passes bnd_ret_left)

end

locale auth_pair = a: authenticator a acc_a + b: authenticator b acc_b
  for a b :: "'o authenticator" and acc_a acc_b +
  assumes exclusive: "\<not> (acc_a h \<and> acc_b h)"
begin

lemma order: "authMachine [a, b] rq ns = authMachine [b, a] rq ns"
proof -
  consider "acc_a (rq_authorization rq)" "\<not> acc_b (rq_authorization rq)"
    | "\<not> acc_a (rq_authorization rq)" "acc_b (rq_authorization rq)"
    | "\<not> acc_a (rq_authorization rq)" "\<not> acc_b (rq_authorization rq)"
    using exclusive by blast
  then show ?thesis
    by cases (simp_all add: a.alone a.skipped b.alone b.skipped del: authMachine.simps(2))
qed

lemma nobody: "\<not> acc_a (rq_authorization rq) \<Longrightarrow> \<not> acc_b (rq_authorization rq) \<Longrightarrow>
    authMachine [a, b] rq ns = ret None"
  by (simp add: a.skipped b.skipped del: authMachine.simps(2))

lemma somebody: "acc_a (rq_authorization rq) \<or> acc_b (rq_authorization rq) \<Longrightarrow>
    authMachine [a, b] rq ns s \<noteq> (Ok None, s')"
proof
  assume acc: "acc_a (rq_authorization rq) \<or> acc_b (rq_authorization rq)"
    and res: "authMachine [a, b] rq ns s = (Ok None, s')"
  show False
  proof (cases "acc_a (rq_authorization rq)")
    case True
    obtain r t where r: "a rq ns s = (r, t)" by force
    with True res obtain c where "r = Ok (None, c)"
      by (cases r) (auto simp: a.alone run simp del: authMachine.simps(2))
    with a.decides [OF True] r show False by blast
  next
    case False
    with acc have b: "acc_b (rq_authorization rq)" by blast
    obtain r t where r: "b rq ns s = (r, t)" by force
    with False b res obtain c where "r = Ok (None, c)"
      by (cases r) (auto simp: a.skipped b.alone run simp del: authMachine.simps(2))
    with b.decides [OF b] r show False by blast
  qed
qed

end

lemma wp_listInventories [wp]: "wpre (listInventories env) Q s =
    (case answer env (decodeAll asInv) (CList KInv None []) (trace s) of
       Inl e \<Rightarrow> Q (Err e) (s\<lparr>trace := CList KInv None [] # trace s\<rparr>)
     | Inr x \<Rightarrow> Q (Ok x) (s\<lparr>trace := CList KInv None [] # trace s\<rparr>))"
  by (simp add: listInventories_def wp)

lemma wp_writeRead [wp]: "wpre (writeRead env input) Q s =
    (case answer env decodeAny (WsWrite input) (trace s) of
       Inl e \<Rightarrow> Q (Err e) (s\<lparr>trace := WsWrite input # trace s\<rparr>)
     | Inr _ \<Rightarrow> (case answer env (\<lambda>r. case r of RFrame t data \<Rightarrow> Inr data | _ \<Rightarrow> Inl errDecode) WsRead
           (WsWrite input # trace s) of
         Inl e \<Rightarrow> Q (Err e) (s\<lparr>trace := WsRead # WsWrite input # trace s\<rparr>)
       | Inr data \<Rightarrow> Q (Ok data) (s\<lparr>trace := WsRead # WsWrite input # trace s\<rparr>)))"
  by (simp add: writeRead_def wp answer_def split: sum.split resp.split)

lemma findByHash_eq:
  "findByHash label hash h None ms = (case filter (\<lambda>m. hash m = h) ms of
      [] \<Rightarrow> Inr None
    | [m] \<Rightarrow> Inr (Some m)
    | f # m # _ \<Rightarrow> Inl (EMsg (''failed to find inventory machine: '' @ label @ '' hash '' @ h
             @ '' is present in both '' @ Namespace f @ ''/'' @ Name f @ '' and ''
             @ Namespace m @ ''/'' @ Name m)))"
proof -
  have some: "findByHash label hash h (Some f) ms = (case filter (\<lambda>m. hash m = h) ms of
      [] \<Rightarrow> Inr (Some f)
    | m # _ \<Rightarrow> Inl (EMsg (''failed to find inventory machine: '' @ label @ '' hash '' @ h
             @ '' is present in both '' @ Namespace f @ ''/'' @ Name f @ '' and ''
             @ Namespace m @ ''/'' @ Name m)))" for f ms
    by (induction ms) auto
  show ?thesis
    by (induction ms) (auto simp: some split: list.split)
qed

lemma freshInventory_sel [simp]:
  "CreationTimestamp (freshInventory ns f) = 0"
  "Namespace (freshInventory ns f) = ns"
  "mi_Spec (freshInventory ns f) = f (mi_Spec zeroInventory)"
  by (simp_all add: freshInventory_def zeroInventory_def ObjectMeta.defs zeroMeta_def)

lemma plain_wp: "wpre (plainAuthenticate env rq ns) (\<lambda>r s'. case r of
     Ok (m, c) \<Rightarrow> (if has_prefix (rq_authorization rq) ''Bearer PLAIN''
        then \<not> c \<and> (\<exists>i. m = Some i \<and> machineHashOf i =
             sha256_hex (lib env) (trim_prefix (rq_authorization rq) ''Bearer PLAIN''))
        else m = None \<and> c \<and> s' = s)
   | Err e \<Rightarrow> has_prefix (rq_authorization rq) ''Bearer PLAIN''
   | Panic p \<Rightarrow> False) s"
  by (auto simp: plainAuthenticate_def Let_def wp findByHash_eq filter_eq_Cons_iff
      split: sum.split option.split list.split)

lemma tpm_wp: "wpre (tpmAuthenticate env rq ns) (\<lambda>r s'. case r of
     Ok (m, c) \<Rightarrow> (if has_prefix (rq_authorization rq) ''Bearer TPM''
        then \<not> c \<and> (\<exists>i ek att hash secret challenge data. m = Some i \<and>
          tpm_data (lib env) (rq_authorization rq) = Inr (ek, att) \<and>
          tpm_hash (lib env) ek = Inr hash \<and> tpmHashOf i = hash \<and>
          tpm_challenge (lib env) (draws s) ek att = Inr (secret, challenge) \<and>
          trace s' = WsRead # WsWrite challenge # drop 2 (trace s') \<and>
          (\<exists>t. respond env (trace s') = RFrame t data) \<and>
          tpm_validate (lib env) secret data = None)
        else m = None \<and> c \<and> s' = s)
   | Err e \<Rightarrow> has_prefix (rq_authorization rq) ''Bearer TPM''
   | Panic p \<Rightarrow> p = nilDereference \<and> (\<exists>ek att. tpm_data (lib env) (rq_authorization rq) = Inr (ek, att) \<and>
        \<not> ek_certified (lib env) ek)) s"
proof (cases "has_prefix (rq_authorization rq) ''Bearer TPM''")
  case False
  then show ?thesis by (simp add: tpmAuthenticate_def Let_def wp)
next
  case True
  have ans: "answer env (\<lambda>r. case r of RFrame t data \<Rightarrow> Inr data | _ \<Rightarrow> Inl errDecode) WsRead t = Inr d \<Longrightarrow>
      \<exists>ty. respond env (WsRead # t) = RFrame ty d" for t d
    by (auto simp: answer_def split: resp.splits)
  have valid: "wpre (validHash env ek ns) (\<lambda>r s'. case r of
      Ok i \<Rightarrow> tpm_hash (lib env) ek = Inr (tpmHashOf i) \<and> draws s' = draws s
    | Err e \<Rightarrow> True | Panic p \<Rightarrow> p = nilDereference \<and> \<not> ek_certified (lib env) ek) s" for ek
    by (auto simp: validHash_def verifyChain_def wp findByHash_eq filter_eq_Cons_iff
        split: sum.split option.split list.split)
  show ?thesis
  proof (cases "tpm_data (lib env) (rq_authorization rq)")
    case (Inl e)
    with True show ?thesis by (simp add: tpmAuthenticate_def Let_def wp)
  next
    case (Inr d)
    obtain ek att where d: "d = (ek, att)" by force
    obtain r t where v: "validHash env ek ns s = (r, t)" by force
    from valid [of ek] v have r: "case r of
      Ok i \<Rightarrow> tpm_hash (lib env) ek = Inr (tpmHashOf i) \<and> draws t = draws s
    | Err e \<Rightarrow> True | Panic p \<Rightarrow> p = nilDereference \<and> \<not> ek_certified (lib env) ek" by (simp add: wpre_def)
    have w: "wpre (validHash env ek ns) Q s = Q r t" for Q
      by (simp add: wpre_def v)
    show ?thesis
      using True Inr d r
      by (cases r) (auto simp: tpmAuthenticate_def GenerateChallenge_def Let_def wp w
          dest!: ans split: sum.split option.split)
  qed
qed

definition isTPM :: "string \<Rightarrow> bool" where
  "isTPM h = has_prefix h ''Bearer TPM''"

definition isPLAIN :: "string \<Rightarrow> bool" where
  "isPLAIN h = has_prefix h ''Bearer PLAIN''"

interpretation servers: auth_pair "tpmAuthenticate env" "plainAuthenticate env" isTPM isPLAIN
  for env
proof unfold_locales
  fix rq ns
  show "\<not> isTPM (rq_authorization rq) \<Longrightarrow> tpmAuthenticate env rq ns = ret (None, True)"
    by (simp add: isTPM_def tpmAuthenticate_def Let_def)
  show "\<not> isPLAIN (rq_authorization rq) \<Longrightarrow> plainAuthenticate env rq ns = ret (None, True)"
    by (simp add: isPLAIN_def plainAuthenticate_def Let_def)
next
  fix rq ns s m c s'
  show "isTPM (rq_authorization rq) \<Longrightarrow> tpmAuthenticate env rq ns s = (Ok (m, c), s') \<Longrightarrow> m \<noteq> None \<and> \<not> c"
    using tpm_wp [of env rq ns s] by (auto simp: isTPM_def wpre_def)
  show "isPLAIN (rq_authorization rq) \<Longrightarrow> plainAuthenticate env rq ns s = (Ok (m, c), s') \<Longrightarrow> m \<noteq> None \<and> \<not> c"
    using plain_wp [of env rq ns s] by (auto simp: isPLAIN_def wpre_def)
next
  fix h
  show "\<not> (isTPM h \<and> isPLAIN h)"
    by (auto simp: isTPM_def isPLAIN_def has_prefix_iff)
qed

section \<open>Properties\<close>

text \<open>
  The order of the two authenticators does not matter: every request gets the same answer and
  leaves the same trace either way; a request is left unauthenticated, without any call, exactly
  when its header is neither of the two kinds.
\<close>

theorem authMachine_order:
  "authMachine [tpmAuthenticate env, plainAuthenticate env] rq ns s
     = authMachine [plainAuthenticate env, tpmAuthenticate env] rq ns s \<and>
   (if isTPM (rq_authorization rq) \<or> isPLAIN (rq_authorization rq)
    then fst (authMachine [tpmAuthenticate env, plainAuthenticate env] rq ns s) \<noteq> Ok None
    else authMachine [tpmAuthenticate env, plainAuthenticate env] rq ns s = (Ok None, s))"
proof -
  have "fst (authMachine [tpmAuthenticate env, plainAuthenticate env] rq ns s) \<noteq> Ok None"
    if "isTPM (rq_authorization rq) \<or> isPLAIN (rq_authorization rq)"
    using servers.somebody [OF that, of env ns s] by (metis prod.collapse)
  moreover have "authMachine [tpmAuthenticate env, plainAuthenticate env] rq ns s = (Ok None, s)"
    if "\<not> isTPM (rq_authorization rq)" "\<not> isPLAIN (rq_authorization rq)"
    unfolding servers.nobody [OF that] by (rule run_ret)
  moreover have "authMachine [tpmAuthenticate env, plainAuthenticate env] rq ns s
     = authMachine [plainAuthenticate env, tpmAuthenticate env] rq ns s"
    by (rule fun_cong [OF servers.order])
  ultimately show ?thesis by (simp del: authMachine.simps)
qed

text \<open>
  With a certificate authority configured for the namespace of the registration, a key that came bare
  makes the authentication panic.
\<close>

lemma bare_key_panics:
  assumes "has_prefix (rq_authorization rq) ''Bearer TPM''" and "tpm_data (lib env) (rq_authorization rq) = Inr (ek, att)"
    and "tpm_hash (lib env) ek = Inr hash" and "\<not> ek_certified (lib env) ek"
    and "answer env (decodeOne asSecret) (CGet KSecret ns ''tpm-ca'') (trace s) = Inr secret"
  shows "fst (tpmAuthenticate env rq ns s) = Panic nilDereference"
  using assms by (simp add: tpmAuthenticate_def validHash_def verifyChain_def Let_def run)

text \<open>
  C3: a machine that the TPM authenticator lets in has the TPM hash of the endorsement key in the
  request's header, and its answer to the challenge drawn for that key in this very request was
  found valid: the challenge and the answer are the last two frames of the connection.
\<close>

theorem tpm_authenticated:
  assumes "tpmAuthenticate env rq ns s = (Ok (Some m, c), s')"
  shows "\<exists>ek att secret challenge t data.
    tpm_data (lib env) (rq_authorization rq) = Inr (ek, att) \<and>
    tpm_hash (lib env) ek = Inr (tpmHashOf m) \<and>
    tpm_challenge (lib env) (draws s) ek att = Inr (secret, challenge) \<and>
    trace s' = WsRead # WsWrite challenge # drop 2 (trace s') \<and>
    respond env (trace s') = RFrame t data \<and>
    tpm_validate (lib env) secret data = None"
  using tpm_wp [of env rq ns s] assms by (auto simp: wpre_def split: if_splits)

definition demo_request :: "string \<Rightarrow> request" where
  "demo_request h = \<lparr>rq_path = ''/elemental/registration/tok'', rq_authorization = h, rq_upgrade = True\<rparr>"

theorem tpm_authenticated_witness:
  "\<exists>m s'. tpmAuthenticate (demo_env (\<lambda>_. None) [[7]]) (demo_request ''Bearer TPMx'') ''ns'' (start ()) = (Ok (Some m, False), s')
     \<and> tpm_hash demo_lib ''Bearer TPMx'' = Inr (tpmHashOf m)"
proof -
  let ?env = "demo_env (\<lambda>_. None) [[7]]" and ?rq = "demo_request ''Bearer TPMx''"
  obtain m s' where r: "tpmAuthenticate ?env ?rq ''ns'' (start ()) = (Ok (Some m, False), s')"
    by (simp add: tpmAuthenticate_def validHash_def verifyChain_def listInventories_def
        GenerateChallenge_def writeRead_def demo_request_def Let_def run answer_def demo_env_def
        demo_respond_def demo_lib_def notFound_def isNotFound_def decodeAll_def start_def decodeAny_def)
  from tpm_authenticated [OF r] have "tpm_hash demo_lib ''Bearer TPMx'' = Inr (tpmHashOf m)"
    by (auto simp: demo_env_def demo_lib_def demo_request_def)
  with r show ?thesis by blast
qed

text \<open>
  C6: both ends of plain authentication agree: with an initialised client, the server accepts the
  client's token, and the inventory it finds or prepares for it carries the hash that the client
  computes itself; a prepared inventory is new and in the registration's namespace.
\<close>

theorem plain_agree:
  assumes "pc_idVal auth \<noteq> []"
    and "respond env (CList KInv None [] # trace s) = RObjs (map OInv items)"
    and "length (filter (\<lambda>m. machineHashOf m = sha256_hex (lib env) (pc_idVal auth)) items) \<le> 1"
  shows "\<exists>token hash m. plainGetToken auth = Inr token \<and> plainGetPubHash env auth = Inr hash \<and>
     fst (plainAuthenticate env \<lparr>rq_path = p, rq_authorization = token, rq_upgrade = u\<rparr> ns s) = Ok (Some m, False) \<and>
     machineHashOf m = hash \<and>
     (m \<in> set items \<or> (isNewInventory m \<and> Namespace m = ns))"
proof -
  let ?h = "sha256_hex (lib env) (pc_idVal auth)"
  let ?f = "filter (\<lambda>m. machineHashOf m = ?h) items"
  have those: "those (map (asInv \<circ> OInv) items) = Some items"
    by (induction items) auto
  have l: "answer env (decodeAll asInv) (CList KInv None []) (trace s) = Inr items"
    using assms(2) those by (simp add: answer_def decodeAll_def)
  have "?f = [] \<or> (\<exists>m. ?f = [m])"
    using assms(3) by (cases ?f) auto
  then obtain m where "findByHash ''Machine'' machineHashOf ?h None items = Inr None \<and>
        m = freshInventory ns (\<lambda>sp. sp\<lparr>mis_MachineHash := ?h\<rparr>) \<or>
      findByHash ''Machine'' machineHashOf ?h None items = Inr (Some m) \<and> m \<in> set items \<and> machineHashOf m = ?h"
    by (auto simp: findByHash_eq filter_eq_Cons_iff)
  then show ?thesis
    using assms(1) l
    by (intro exI [of _ "''Bearer PLAIN'' @ pc_idVal auth"] exI [of _ ?h] exI [of _ m])
      (auto simp: plainGetToken_def plainGetPubHash_def plainAuthenticate_def Let_def run
        listInventories_def isNewInventory_def trim_prefix_def)
qed

text \<open>A client of the second of two machines that the API server lists, and one of a machine it does not know.\<close>

definition known_machine :: "string \<Rightarrow> MachineInventory" where
  "known_machine h = zeroInventory\<lparr>Name := ''m-'' @ h, Namespace := ''other'',
     mi_Spec := (mi_Spec zeroInventory)\<lparr>mis_MachineHash := h\<rparr>\<rparr>"

definition machines_env :: env where
  "machines_env = demo_env (\<lambda>c. if c = CList KInv None []
     then Some (RObjs (map OInv [known_machine ''cc'', known_machine ''aa''])) else None) []"

theorem plain_agree_witness:
  "let client = (\<lambda>i. \<lparr>pc_idType = ''mac'', pc_idVal = i\<rparr>);
       serve = (\<lambda>i. fst (plainAuthenticate machines_env
         \<lparr>rq_path = [], rq_authorization = ''Bearer PLAIN'' @ i, rq_upgrade = True\<rparr> ''ns'' (start ()))) in
   plainGetToken (client ''aa'') = Inr (''Bearer PLAIN'' @ ''aa'') \<and>
   serve ''aa'' = Ok (Some (known_machine ''aa''), False) \<and>
   plainGetPubHash machines_env (client ''aa'') = Inr (machineHashOf (known_machine ''aa'')) \<and>
   (\<exists>m. serve ''bb'' = Ok (Some m, False) \<and> plainGetPubHash machines_env (client ''bb'') = Inr (machineHashOf m) \<and>
     isNewInventory m \<and> Namespace m = ''ns'')"
proof -
  let ?c = "\<lambda>i. \<lparr>pc_idType = ''mac'', pc_idVal = i\<rparr>" and ?ms = "[known_machine ''cc'', known_machine ''aa'']"
  let ?serve = "\<lambda>token. fst (plainAuthenticate machines_env \<lparr>rq_path = [], rq_authorization = token, rq_upgrade = True\<rparr>
    ''ns'' (start ()))"
  have hash: "machineHashOf (known_machine h) = h" for h by (simp add: known_machine_def)
  have list: "respond machines_env (CList KInv None [] # trace (start ())) = RObjs (map OInv ?ms)"
    by (simp add: machines_env_def demo_env_def demo_respond_def)
  have sha: "sha256_hex (lib machines_env) = id" by (simp add: machines_env_def demo_env_def demo_lib_def)
  have agree: "\<exists>m. ?serve (''Bearer PLAIN'' @ i) = Ok (Some m, False) \<and> plainGetPubHash machines_env (?c i) = Inr i \<and>
      machineHashOf m = i \<and> (m \<in> set ?ms \<or> isNewInventory m \<and> Namespace m = ''ns'')" if "i \<in> {''aa'', ''bb''}" for i
  proof -
    have 1: "pc_idVal (?c i) \<noteq> []" using that by auto
    have 3: "length (filter (\<lambda>m. machineHashOf m = sha256_hex (lib machines_env) (pc_idVal (?c i))) ?ms) \<le> 1"
      using that by (auto simp: hash sha)
    have tok: "plainGetToken (?c i) = Inr (''Bearer PLAIN'' @ i)" "plainGetPubHash machines_env (?c i) = Inr i"
      using 1 by (simp_all add: plainGetToken_def plainGetPubHash_def sha)
    from plain_agree [OF 1 list 3, of "[]" True "''ns''"] tok show ?thesis by auto
  qed
  have known: "?serve (''Bearer PLAIN'' @ ''aa'') = Ok (Some (known_machine ''aa''), False)" by code_simp
  have new: "isNewInventory m \<and> Namespace m = ''ns''" if "m \<in> set ?ms \<or> isNewInventory m \<and> Namespace m = ''ns''"
    "machineHashOf m = ''bb''" for m
    using that by (auto simp: hash)
  have tok: "plainGetToken (?c ''aa'') = Inr (''Bearer PLAIN'' @ ''aa'')" by (simp add: plainGetToken_def)
  from agree [of "''aa''"] agree [of "''bb''"] known new tok show ?thesis
    unfolding Let_def hash by fastforce
qed

text \<open>
  Once a machine registered with an emulated TPM, its seed does not change: whatever seed the
  configuration asks for at a later registration, the stored one is used again.
\<close>

theorem seed_stable:
  assumes "seed = GetTPMSeed h rg used previous"
  shows "GetTPMSeed h' rg' True seed = seed \<and>
    (if rg_EmulateTPM rg \<and> \<not> used \<and> rg_EmulatedTPMSeed rg \<noteq> -1 then seed = rg_EmulatedTPMSeed rg
     else if rg_EmulateTPM rg \<and> \<not> used then seed = randomTPMSeed h
     else seed = previous)"
  using assms by (auto simp: GetTPMSeed_def)

theorem seed_stable_witness:
  "GetTPMSeed \<lparr>host_product = Inl errDecode, host_nics = Inr [], host_uuid_parse = (\<lambda>_. None), host_int63 = 5\<rparr>
     (zeroRegistration\<lparr>rg_EmulateTPM := True, rg_EmulatedTPMSeed := 9\<rparr>) True 5 = 5"
proof -
  let ?h = "\<lparr>host_product = Inl errDecode, host_nics = Inr [], host_uuid_parse = (\<lambda>_. None), host_int63 = 5\<rparr>"
  let ?rg = "zeroRegistration\<lparr>rg_EmulateTPM := True, rg_EmulatedTPMSeed := -1\<rparr>"
  have "5 = GetTPMSeed ?h ?rg False 0"
    by (simp add: GetTPMSeed_def zeroRegistration_def randomTPMSeed_def)
  from seed_stable [OF this] show ?thesis by blast
qed

end
