(* ===== verification/Server.thy ===== *)
theory Server
  imports Auth
begin

text \<open>
  \<^verbatim>\<open>pkg/server/server.go\<close> and \<^verbatim>\<open>api_seedimage.go\<close>: how the registration server starts an
  inventory, commits it, finds the registration and the seed image of a token, and forwards a
  download. The handlers of \<^verbatim>\<open>api_registration.go\<close> are in theory \<open>Serving\<close>.
\<close>

section \<open>Inventories\<close>

definition setNetwork :: "(NetworkConfig \<Rightarrow> NetworkConfig) \<Rightarrow> MachineInventory \<Rightarrow> MachineInventory" where
  "setNetwork f i = i\<lparr>mi_Spec := mi_Spec i\<lparr>mis_Network := f (mis_Network (mi_Spec i))\<rparr>\<rparr>"

definition ConfiguratorNone :: string where
  "ConfiguratorNone = ''none''"

text \<open>
  The annotations of the inventory become the registration's map itself: \<open>shared\<close> is set unless
  that map is nil.
\<close>

definition adoptAnnotations :: "session \<Rightarrow> session" where
  "adoptAnnotations x = x\<lparr>
     inventory := (inventory x)\<lparr>Annotations := regAnnotations (registration x)\<rparr>,
     shared := regAnnotations (registration x) \<noteq> None\<rparr>"

definition forwardNetwork :: "session \<Rightarrow> session" where
  "forwardNetwork x =
    (let nt = cf_Network (mrs_Config (mr_Spec (registration x)));
         i1 = setNetwork (\<lambda>n. n\<lparr>nc_Configurator := nt_Configurator nt, nc_Config := nt_Config nt\<rparr>)
                (inventory x);
         i = (if nt_Configurator nt \<noteq> ConfiguratorNone
              then i1\<lparr>mi_Spec := mi_Spec i1\<lparr>mis_IPAddressPools := nt_IPAddresses nt\<rparr>\<rparr>
              else inventory x);
         i' = (if nt_Configurator nt = [] then setNetwork (\<lambda>n. n\<lparr>nc_Configurator := ConfiguratorNone\<rparr>) i
               else i)
     in x\<lparr>inventory := i'\<rparr>)"

definition markResettable :: "unit handler" where
  "markResettable = andThen (update makeAnnotations) (putAnnotation ResettableAnnotation ''true'')"

definition initInventory :: "env \<Rightarrow> unit handler" where
  "initInventory env =
     bnd this (\<lambda>x0.
     andThen (updInv (\<lambda>i. i\<lparr>Name := mrs_MachineName (mr_Spec (registration x0))\<rparr>))
    (andThen (if mrs_MachineName (mr_Spec (registration x0)) = []
       then bnd (generateInventoryName env) (\<lambda>n. updInv (\<lambda>i. i\<lparr>Name := n\<rparr>)) else ret ())
    (andThen (updInv (\<lambda>i. i\<lparr>Namespace := Namespace (registration x0)\<rparr>))
    (andThen (update adoptAnnotations)
    (andThen (updInv (\<lambda>i. i\<lparr>Labels := Some []\<rparr>))
    (andThen (whenM (rs_Enabled (el_Reset (cf_Elemental (mrs_Config (mr_Spec (registration x0))))))
       markResettable)
    (update forwardNetwork)))))))"

text \<open>
  The loop of \<^verbatim>\<open>createMachineInventory\<close> over the inventories that exist: the hash that clashes,
  if any, with the inventory that has it.
\<close>

fun clashing :: "bool \<Rightarrow> MachineInventory \<Rightarrow> MachineInventory list \<Rightarrow> (string \<times> MachineInventory) option" where
  "clashing tpm i [] = None"
| "clashing tpm i (m # ms) =
    (let hash = (if tpm then (if tpmHashOf m = tpmHashOf i then tpmHashOf m else [])
                 else (if machineHashOf m = machineHashOf i then machineHashOf m else []))
     in if hash \<noteq> [] then Some (hash, m) else clashing tpm i ms)"

definition createMachineInventory :: "env \<Rightarrow> MachineInventory \<Rightarrow> (session st, MachineInventory) go" where
  "createMachineInventory env i =
    (let tpm = (tpmHashOf i \<noteq> []); hashType = (if tpm then ''TPM'' else ''Machine'') in
     if \<not> tpm \<and> machineHashOf i = []
     then fail (EMsg ''machine inventory TPMHash and MachineHash are both empty'')
     else bnd (orWrap (listInventories env) ''cannot retrieve machine inventory list'') (\<lambda>items.
       case clashing tpm i items of
         Some (hash, m) \<Rightarrow> fail (EMsg (''machine inventory with '' @ hashType @ '' hash '' @ [CHR 0x27] @ hash
            @ [CHR 0x27] @ '' already present: '' @ Namespace m @ ''/'' @ Name m))
       | None \<Rightarrow> orWrap (putObj env (CCreate (OInv i)) asInv i)
           (''failed to create machine inventory '' @ Namespace i @ ''/'' @ Name i)))"

definition updateMachineInventory :: "env \<Rightarrow> MachineInventory \<Rightarrow> (session st, MachineInventory) go" where
  "updateMachineInventory env i = orWrap (putObj env (CUpdate (OInv i)) asInv i)
     (''failed to update machine inventory '' @ Namespace i @ ''/'' @ Name i)"

definition commitMachineInventory :: "env \<Rightarrow> (session st, unit) go" where
  "commitMachineInventory env = bnd this (\<lambda>x.
     bnd (if CreationTimestamp (inventory x) = 0
          then orWrap (createMachineInventory env (inventory x)) ''MachineInventory creation failed''
          else orWrap (updateMachineInventory env (inventory x)) ''MachineInventory update failed'')
       (\<lambda>i. updInv (\<lambda>_. i)))"

section \<open>Registrations and seed images\<close>

definition dropNewlines :: "string \<Rightarrow> string" where
  "dropNewlines s = replace_all (replace_all s [CHR 0x0A] []) [CHR 0x0D] []"

fun findByToken :: "string \<Rightarrow> MachineRegistration option \<Rightarrow> MachineRegistration list
    \<Rightarrow> goerr + MachineRegistration option" where
  "findByToken tok found [] = Inr found"
| "findByToken tok found (m # ms) =
    (if mrt_RegistrationToken (mr_Status m) = tok
     then (case found of
         Some f \<Rightarrow> Inl (EMsg (''machine registrations '' @ Namespace f @ ''/'' @ Name f @ '' and ''
            @ Namespace m @ ''/'' @ Name m @ '' have the same registration token '' @ tok))
       | None \<Rightarrow> findByToken tok (Some m) ms)
     else findByToken tok found ms)"

definition readyRegistration :: "MachineRegistration \<Rightarrow> bool" where
  "readyRegistration m = list_ex (\<lambda>c. c_Type c = ''Ready'' \<and> c_Status c = ''True'') (mrt_Conditions (mr_Status m))"

definition getMachineRegistration :: "env \<Rightarrow> string \<Rightarrow> ('o st, MachineRegistration) go" where
  "getMachineRegistration env token =
    (let escapedToken = dropNewlines token in
     bnd (onErr (listObj env KReg asReg None []) (\<lambda>_. fail (EMsg ''failed to list machine registrations''))) (\<lambda>items.
     bnd (lift_sum (findByToken escapedToken None items)) (\<lambda>found.
     case found of
       None \<Rightarrow> fail (EMsg (''failed to find machine registration with registration token '' @ escapedToken))
     | Some m \<Rightarrow> if \<not> readyRegistration m
         then fail (EMsg (''MachineRegistration '' @ Namespace m @ ''/'' @ Name m @ '' is not ready''))
         else ret m)))"

definition getSeedImage :: "env \<Rightarrow> string \<Rightarrow> ('o st, SeedImage) go" where
  "getSeedImage env token =
    (let escapedToken = dropNewlines token in
     bnd (onErr (listObj env KSeed asSeed None []) (\<lambda>_. fail (EMsg ''failed to list seed images''))) (\<lambda>items.
     case find (\<lambda>s. path_base (sit_DownloadToken (si_Status s)) = escapedToken) items of
       None \<Rightarrow> fail (EMsg (''failed to find seed image with token path '' @ escapedToken))
     | Some s \<Rightarrow> if list_ex (\<lambda>c. c_Status c \<noteq> ''True'') (sit_Conditions (si_Status s))
         then fail (EMsg (''seedimage '' @ Namespace s @ ''/'' @ Name s @ '' is not ready''))
         else ret s))"

definition httpError :: "env \<Rightarrow> nat \<Rightarrow> string \<Rightarrow> ('o st, unit) go" where
  "httpError env status msg = bnd (attempt (writeObj env (HttpError status msg))) (\<lambda>_. ret ())"

definition failHttp :: "env \<Rightarrow> nat \<Rightarrow> goerr \<Rightarrow> ('o st, 'a) go" where
  "failHttp env status e = andThen (httpError env status (err_text e)) (fail e)"

definition apiSeedImage :: "env \<Rightarrow> string list \<Rightarrow> ('o st, unit) go" where
  "apiSeedImage env splittedPath =
    (if length splittedPath < 3
     then failHttp env 404 (EMsg (''unexpected path: ['' @ str_join splittedPath '' '' @ '']''))
     else let token = splittedPath ! 1; fileName = splittedPath ! 2 in
       bnd (onErr (getSeedImage env token) (failHttp env 404)) (\<lambda>seedImg.
       bnd (onErr (getObj env KService asService (Namespace seedImg) (Name seedImg))
              (\<lambda>e. failHttp env 500 (wrap (''failed to get service for seed image '' @ Namespace seedImg
                 @ ''/'' @ Name seedImg) e))) (\<lambda>svc.
       let rawURL = ''http://'' @ svc_ClusterIP svc @ ''/'' @ fileName in
       if \<not> url_ok (lib env) rawURL
       then failHttp env 500 (EMsg (''failed to parse url '' @ [CHR 0x27] @ rawURL @ [CHR 0x27]))
       else bnd (attempt (writeObj env (HttpProxy rawURL))) (\<lambda>_. ret ()))))"

end
