(* ===== verification/Serving.thy ===== *)
theory Serving
  imports Server
begin

text \<open>
  \<^verbatim>\<open>pkg/server/api_registration.go\<close>: the registration protocol as the server runs it, from the
  HTTP request through authentication to the message loop, the commit of the inventory and the
  configuration that is sent back, with the HTTP entry point \<^verbatim>\<open>ServeHTTP\<close> of \<^verbatim>\<open>server.go\<close>.
\<close>

section \<open>Replies\<close>

definition unauthenticatedResponse :: "env \<Rightarrow> MachineRegistration \<Rightarrow> ('o st, unit) go" where
  "unauthenticatedResponse env rg =
     bnd (GetRancherCACert env) (\<lambda>cacert.
     bnd (lift_sum (GetClientRegistrationConfig rg cacert)) (\<lambda>config.
     writeObj env (HttpConfig config)))"

definition isAgentTLSModeStrict :: "env \<Rightarrow> ('o st, bool) go" where
  "isAgentTLSModeStrict env = bnd (attempt (GetSettingsValue env ''agent-tls-mode'')) (\<lambda>r.
     let mode = (case r of Inl e \<Rightarrow> [] | Inr v \<Rightarrow> v) in
     ret (if mode = ''strict'' then True else if mode = ''system-store'' then False else True))"

definition writeError :: "env \<Rightarrow> MessageType \<Rightarrow> string \<Rightarrow> ('o st, unit) go" where
  "writeError env protoVersion msg =
    (if protoVersion < MsgError then ret ()
     else bnd (orWrap (lift_sum (yaml_error (lib env) msg)) ''error marshalling error-message'')
       (\<lambda>data. WriteMessage env MsgError data))"

text \<open>Reporting an error to the client is best effort: its own failure is only logged.\<close>

definition reportError :: "env \<Rightarrow> MessageType \<Rightarrow> goerr \<Rightarrow> ('o st, unit) go" where
  "reportError env protoVersion e =
     bnd (attempt (writeError env protoVersion (NewErrorMessage e))) (\<lambda>_. ret ())"

definition decodeProtocolVersion :: "bytes \<Rightarrow> goerr + MessageType" where
  "decodeProtocolVersion data =
    (case data of
       [clientVersion] \<Rightarrow>
         if clientVersion \<noteq> MsgLast then
           (if clientVersion \<le> MsgGet
            then Inl (EMsg (''elemental-register protocol version is deprecated (elemental-register client too old, protocol version = ''
                   @ show_nat (unat clientVersion) @ '')''))
            else if clientVersion > MsgLast then Inr MsgLast else Inr clientVersion)
         else Inr clientVersion
     | _ \<Rightarrow> Inl (EMsg (''unknown format: ['' @ str_join (map (\<lambda>b. show_nat (unat b)) data) '' '' @ ''] (''
         @ map (\<lambda>b. char_of (unat b)) data @ '')'')))"

text \<open>
  The configuration for the client, with the system agent's part. A secret of another type is an
  error that wraps no error; a registration without a service account reference is a nil
  dereference.
\<close>

definition agentConfig :: "env \<Rightarrow> MachineRegistration \<Rightarrow> MachineInventory \<Rightarrow> ObjectReference
    \<Rightarrow> ('o st, Config) go" where
  "agentConfig env rg i ref =
     bnd (orWrap (getObj env KSA asSA (ref_Namespace ref) (ref_Name ref))
            ''failed to get service account'') (\<lambda>sa.
     bnd (orWrap (getObj env KSecret asSecret (Namespace sa) (Name sa @ SASecretSuffix))
            ''failed to get secret'') (\<lambda>secret.
     if sec_Type secret \<noteq> SecretTypeServiceAccountToken
     then fail (EMsg ''failed to get secret: %!w(<nil>)'')
     else bnd (orWrap (GetSettingsValue env ''server-url'') ''failed to get server-url'') (\<lambda>serverURL.
     if serverURL = [] then fail (EMsg ''server-url is not set'')
     else bnd (GetRancherCACert env) (\<lambda>cacert.
     bnd (lift_sum (GetClientRegistrationConfig rg cacert)) (\<lambda>config.
     bnd (isAgentTLSModeStrict env) (\<lambda>strict.
     ret (config\<lparr>cf_Elemental := (cf_Elemental config)\<lparr>
          el_SystemAgent := \<lparr>sa_StrictTLSMode = strict,
            sa_URL = serverURL @ ''/k8s/clusters/local'',
            sa_Token = mstr (sec_Data secret) ''token'',
            sa_SecretName = Name i, sa_SecretNamespace = Namespace i\<rparr>,
          el_Install := el_Install (cf_Elemental (mrs_Config (mr_Spec rg))),
          el_Reset := el_Reset (cf_Elemental (mrs_Config (mr_Spec rg)))\<rparr>,
        cf_CloudConfig := cf_CloudConfig (mrs_Config (mr_Spec rg))\<rparr>)))))))"

definition clientConfig :: "env \<Rightarrow> (session st, Config) go" where
  "clientConfig env = bnd this (\<lambda>x. case mrt_ServiceAccountRef (mr_Status (registration x)) of
       None \<Rightarrow> crash ''nil pointer dereference''
     | Some ref \<Rightarrow> agentConfig env (registration x) (inventory x) ref)"

definition writeMachineInventoryCloudConfig :: "env \<Rightarrow> NetworkConfig \<Rightarrow> unit handler" where
  "writeMachineInventoryCloudConfig env netConf =
     bnd (clientConfig env) (\<lambda>config. bnd this (\<lambda>x.
     if proto x < MsgConfig
     then bnd (lift_sum (yaml_config (lib env) config)) (\<lambda>data. writeObj env (WsWrite data))
     else bnd (lift_sum (yaml_config (lib env) config)) (\<lambda>data.
       bnd (if nc_Configurator netConf \<noteq> ConfiguratorNone \<and> nc_Configurator netConf \<noteq> []
            then bnd (lift_sum (yaml_network (lib env) netConf)) (\<lambda>netData. ret (data @ netData))
            else ret data) (\<lambda>data. WriteMessage env MsgConfig data))))"

section \<open>The final exchange\<close>

text \<open>
  The scan of the conditions: the \<^verbatim>\<open>continue\<close> on a false condition continues the inner loop, so a
  found condition counts whatever its status is.
\<close>

fun conditionFound :: "bool \<Rightarrow> Condition list \<Rightarrow> bool" where
  "conditionFound found [] = found"
| "conditionFound found (c # cs) =
    (if c_Type c = NetworkConfigReady
     then (if c_Status c = ''False'' then conditionFound True cs else conditionFound True cs)
     else conditionFound found cs)"

definition outOfFuel :: string where
  "outOfFuel = ''out of fuel''"

text \<open>
  \<^verbatim>\<open>handleGetNetworkConfig\<close>: a round reads the clock against the deadline, sleeps for a second and
  reads the inventory again. The rounds are bounded by fuel; \<open>netLoop_fuel\<close> shows how much is enough.
\<close>

fun netLoop :: "env \<Rightarrow> int \<Rightarrow> nat \<Rightarrow> (session st, NetworkConfig) go" where
  "netLoop env deadline 0 = crash outOfFuel"
| "netLoop env deadline (Suc fuel) = bnd (now env) (\<lambda>t.
     if t \<ge> deadline then fail (EMsg ''NewtworkConfig not ready'')
     else bnd this (\<lambda>x.
       bnd (orWrap (getObj env KInv asInv (Namespace (inventory x)) (Name (inventory x)))
              ''getting machine inventory'') (\<lambda>i.
       andThen (updInv (\<lambda>_. i))
      (if \<not> conditionFound False (mit_Conditions (mi_Status i))
       then netLoop env deadline fuel
       else ret (mis_Network (mi_Spec i))))))"

definition registrationDeadline :: int where
  "registrationDeadline = 10 * 1000000000"

definition handleGetNetworkConfig :: "env \<Rightarrow> (session st, NetworkConfig) go" where
  "handleGetNetworkConfig env = bnd (now env) (\<lambda>t. netLoop env (t + registrationDeadline) 11)"

definition handleGet :: "env \<Rightarrow> unit handler" where
  "handleGet env = bnd this (\<lambda>x. let protoVersion = proto x in
     andThen (onErr (commitMachineInventory env)
               (\<lambda>e. andThen (reportError env protoVersion e) (fail e)))
    (bnd (if protoVersion \<ge> MsgNetworkConfig
          then onErr (handleGetNetworkConfig env)
                 (\<lambda>e. andThen (reportError env protoVersion e) (fail e))
          else ret zeroNetworkConfig) (\<lambda>netConf.
     onErr (writeMachineInventoryCloudConfig env netConf)
       (\<lambda>e. andThen (reportError env protoVersion e)
              (fail (wrap ''failed sending elemental cloud config'' e))))))"

definition errInventoryNotFound :: goerr where
  "errInventoryNotFound = ESent ''MachineInventory not found''"

definition handleUpdate :: "env \<Rightarrow> unit handler" where
  "handleUpdate env = bnd this (\<lambda>x.
     if isNewInventory (inventory x)
     then andThen (reportError env (proto x) errInventoryNotFound) (fail errInventoryNotFound)
     else ret ())"

section \<open>The message loop\<close>

text \<open>
  One round after a message was read: the effect of the message, and either the reply to send or
  the end of the loop.
\<close>

datatype step = Reply MessageType bytes | Done

definition fillTemplates :: "tdata \<Rightarrow> unit handler" where
  "fillTemplates d = update (\<lambda>x. x\<lparr>tmpl := Fill d (tmpl x)\<rparr>)"

definition serveMessage :: "env \<Rightarrow> MessageType \<Rightarrow> bytes \<Rightarrow> step handler" where
  "serveMessage env msgType data = bnd this (\<lambda>x.
     if msgType = MsgVersion then
       bnd (orWrap (lift_sum (decodeProtocolVersion data)) ''failed to negotiate protocol version'') (\<lambda>v.
       andThen (update (\<lambda>x. x\<lparr>proto := v\<rparr>)) (ret (Reply MsgVersion [v])))
     else if msgType = MsgSmbios then
       bnd (orWrap (lift_sum (json_object (lib env) data)) ''failed to extract labels from SMBIOS data'') (\<lambda>d.
       andThen (fillTemplates d) (ret (Reply MsgReady [])))
     else if msgType = MsgLabels then
       andThen (mergeInventoryLabels env data (GetLabelPrefix (mr_Spec (registration x))))
         (ret (Reply MsgReady []))
     else if msgType = MsgAnnotations then
       andThen (orWrap (mergeInventoryAnnotations env data (GetLabelPrefix (mr_Spec (registration x))))
           ''failed to decode dynamic data'') (ret (Reply MsgReady []))
     else if msgType = MsgGet then
       andThen (updateInventoryWithTemplates env) (andThen (handleGet env) (ret Done))
     else if msgType = MsgUpdate then
       andThen (orWrap (handleUpdate env) ''failed to negotiate registration update'')
         (ret (Reply MsgReady []))
     else if msgType = MsgSystemData then
       bnd (orWrap (lift_outcome (FillData (json_hostinfo (lib env)) data)) ''failed to parse system data'') (\<lambda>d.
       andThen (fillTemplates d) (ret (Reply MsgReady [])))
     else if msgType = MsgSystemDataV2 then
       bnd (orWrap (lift_sum (json_object (lib env) data)) ''failed to parse system data'') (\<lambda>d.
       andThen (fillTemplates d) (ret (Reply MsgReady [])))
     else fail (EMsg (''got unexpected message: '' @ msg_string msgType)))"

fun serveRounds :: "env \<Rightarrow> nat \<Rightarrow> unit handler" where
  "serveRounds env 0 = crash outOfFuel"
| "serveRounds env (Suc fuel) =
     bnd (orWrap (ReadMessage env) ''websocket communication interrupted'') (\<lambda>(msgType, data).
     bnd (serveMessage env msgType data) (\<lambda>r. case r of
       Done \<Rightarrow> ret ()
     | Reply t d \<Rightarrow>
         andThen (onErr (WriteMessage env t d)
                    (\<lambda>_. fail (EMsg (''cannot complete '' @ msg_string msgType @ '' exchange''))))
           (serveRounds env fuel)))"

definition serveLoop :: "env \<Rightarrow> nat \<Rightarrow> unit handler" where
  "serveLoop env fuel =
     andThen (update (\<lambda>x. x\<lparr>proto := MsgUndefined, tmpl := NewTemplater\<rparr>)) (serveRounds env fuel)"

section \<open>The HTTP interface\<close>

definition apiRegistration :: "env \<Rightarrow> nat \<Rightarrow> request \<Rightarrow> ('o st, unit) go" where
  "apiRegistration env fuel rq =
     bnd (onErr (getMachineRegistration env (path_base (rq_path rq))) (failHttp env 404)) (\<lambda>rg.
     if \<not> rq_upgrade rq then unauthenticatedResponse env rg
     else
       andThen (writeObj env WsUpgrade)
      (bnd (onErr (authMachine [tpmAuthenticate env, plainAuthenticate env] rq (Namespace rg))
              (\<lambda>e. andThen (httpError env 401 ''authentication failure'') (fail e))) (\<lambda>found.
       case found of
         None \<Rightarrow>
           if rq_authorization rq \<noteq> []
           then httpError env 401 ''unrecognized authentication method''
           else unauthenticatedResponse env rg
       | Some i \<Rightarrow>
           andThen (WriteMessage env MsgReady [])
          (bnd (withSelf \<lparr>inventory = i, registration = rg, shared = False, tmpl = [], proto = 0\<rparr>
                  (andThen (whenM (isNewInventory i) (initInventory env)) (serveLoop env fuel)))
             (\<lambda>_. ret ())))))"

definition ServeHTTP :: "env \<Rightarrow> nat \<Rightarrow> request \<Rightarrow> ('o st, unit) go" where
  "ServeHTTP env fuel rq =
    (let splittedPath = str_split (sanitizeUserInput (rq_path rq)) ''/'' in
     if length splittedPath < 3 then httpError env 404 []
     else let rest = drop 2 splittedPath; api = rest ! 0 in
       if api = ''registration'' then bnd (attempt (apiRegistration env fuel rq)) (\<lambda>_. ret ())
       else if api = ''seedimage'' then bnd (attempt (apiSeedImage env rest)) (\<lambda>_. ret ())
       else httpError env 400 (''unknwon api: '' @ api))"

end
