(* ===== verification/ServerProps.thy ===== *)
theory ServerProps
  imports Serving
begin

text \<open>
  What the registration server guarantees: who is served (one ready registration per token), what
  is committed (one write of the inventory, and no two inventories with one hash), what is told to
  the client when that fails, that the message loop ends, and which frame alone makes it panic.
\<close>

section \<open>The registration of a token\<close>

lemma findByToken_eq: "findByToken tok None ms =
    (case filter (\<lambda>m. mrt_RegistrationToken (mr_Status m) = tok) ms of
       [] \<Rightarrow> Inr None
     | [m] \<Rightarrow> Inr (Some m)
     | f # m # _ \<Rightarrow> Inl (EMsg (''machine registrations '' @ Namespace f @ ''/'' @ Name f @ '' and ''
            @ Namespace m @ ''/'' @ Name m @ '' have the same registration token '' @ tok)))"
proof -
  have some: "findByToken tok (Some f) ms =
    (case filter (\<lambda>m. mrt_RegistrationToken (mr_Status m) = tok) ms of
       [] \<Rightarrow> Inr (Some f)
     | m # _ \<Rightarrow> Inl (EMsg (''machine registrations '' @ Namespace f @ ''/'' @ Name f @ '' and ''
            @ Namespace m @ ''/'' @ Name m @ '' have the same registration token '' @ tok)))" for f ms
    by (induction ms) auto
  show ?thesis
    by (induction ms) (auto simp: some split: list.split)
qed

lemma readyRegistration_iff:
  "distinct (map c_Type (mrt_Conditions (mr_Status m))) \<Longrightarrow>
   readyRegistration m = IsStatusConditionTrue (mrt_Conditions (mr_Status m)) ReadyCondition"
proof -
  have "distinct (map c_Type cs) \<Longrightarrow>
      list_ex (\<lambda>c. c_Type c = ''Ready'' \<and> c_Status c = ''True'') cs =
      IsStatusConditionPresentAndEqual cs ''Ready'' ''True''" for cs :: "Condition list"
  proof (induction cs)
    case (Cons c cs)
    show ?case
    proof (cases "c_Type c = ''Ready''")
      case True
      with Cons.prems have "\<forall>d \<in> set cs. c_Type d \<noteq> ''Ready''" by (auto simp: image_iff)
      with True show ?thesis by (auto simp: list_ex_iff)
    next
      case False
      with Cons show ?thesis by simp
    qed
  qed simp
  then show "distinct (map c_Type (mrt_Conditions (mr_Status m))) \<Longrightarrow> ?thesis"
    by (simp add: readyRegistration_def IsStatusConditionTrue_def ReadyCondition_def)
qed

text \<open>
  A token is served by a registration exactly when the listing holds one registration with
  that token (line breaks dropped) and it is ready; an unknown or doubled token, a registration
  that is not ready and a failing listing are errors. The only call is the listing.
\<close>

theorem getMachineRegistration_unique:
  "getMachineRegistration env token s =
    (case answer env (decodeAll asReg) (CList KReg None []) (trace s) of
       Inl e \<Rightarrow> Err (EMsg ''failed to list machine registrations'')
     | Inr items \<Rightarrow>
        (case filter (\<lambda>m. mrt_RegistrationToken (mr_Status m) = dropNewlines token) items of
           [] \<Rightarrow> Err (EMsg (''failed to find machine registration with registration token '' @ dropNewlines token))
         | [m] \<Rightarrow> if readyRegistration m then Ok m
              else Err (EMsg (''MachineRegistration '' @ Namespace m @ ''/'' @ Name m @ '' is not ready''))
         | f # m # _ \<Rightarrow> Err (EMsg (''machine registrations '' @ Namespace f @ ''/'' @ Name f @ '' and ''
            @ Namespace m @ ''/'' @ Name m @ '' have the same registration token '' @ dropNewlines token))),
     s\<lparr>trace := CList KReg None [] # trace s\<rparr>)"
  by (auto simp: getMachineRegistration_def Let_def run findByToken_eq split: sum.split list.split)

section \<open>Commits\<close>

lemma clashing_None: "clashing tpm i ms = None \<longleftrightarrow>
    (\<forall>m \<in> set ms. if tpm then tpmHashOf m = tpmHashOf i \<longrightarrow> tpmHashOf m = []
                  else machineHashOf m = machineHashOf i \<longrightarrow> machineHashOf m = [])"
  by (induction ms) (auto simp: Let_def)

text \<open>The hash under which an inventory is unique: the TPM's, or the machine's without one.\<close>

definition sameMachine :: "MachineInventory \<Rightarrow> MachineInventory \<Rightarrow> bool" where
  "sameMachine i m = (if tpmHashOf i \<noteq> [] then tpmHashOf m = tpmHashOf i else machineHashOf m = machineHashOf i)"

text \<open>
  C2: a new inventory is created only with a hash, and only when the inventories listed just
  before hold no other one of the same machine; the creation is the last call. When it is not
  created, nothing is written, unless the API server refused the creation itself.
\<close>

theorem create_no_duplicate:
  "case createMachineInventory env i s of
     (Ok i', s') \<Rightarrow> \<exists>items. answer env (decodeAll asInv) (CList KInv None []) (trace s) = Inr items \<and>
        \<not> (tpmHashOf i = [] \<and> machineHashOf i = []) \<and> \<not> list_ex (sameMachine i) items \<and>
        trace s' = CCreate (OInv i) # CList KInv None [] # trace s \<and>
        answer env (decodePut asInv i) (CCreate (OInv i)) (CList KInv None [] # trace s) = Inr i'
   | (Err e, s') \<Rightarrow> trace s' = trace s \<or> trace s' = CList KInv None [] # trace s \<or>
        (\<exists>e'. trace s' = CCreate (OInv i) # CList KInv None [] # trace s \<and>
          answer env (decodePut asInv i) (CCreate (OInv i)) (CList KInv None [] # trace s) = Inl e')
   | (Panic p, s') \<Rightarrow> False"
proof -
  have "wpre (createMachineInventory env i) (\<lambda>r s'. case r of
     Ok i' \<Rightarrow> \<exists>items. answer env (decodeAll asInv) (CList KInv None []) (trace s) = Inr items \<and>
        \<not> (tpmHashOf i = [] \<and> machineHashOf i = []) \<and> \<not> list_ex (sameMachine i) items \<and>
        trace s' = CCreate (OInv i) # CList KInv None [] # trace s \<and>
        answer env (decodePut asInv i) (CCreate (OInv i)) (CList KInv None [] # trace s) = Inr i'
   | Err e \<Rightarrow> trace s' = trace s \<or> trace s' = CList KInv None [] # trace s \<or>
        (\<exists>e'. trace s' = CCreate (OInv i) # CList KInv None [] # trace s \<and>
          answer env (decodePut asInv i) (CCreate (OInv i)) (CList KInv None [] # trace s) = Inl e')
   | Panic p \<Rightarrow> False) s"
    by (auto simp: createMachineInventory_def Let_def wp clashing_None list_ex_iff sameMachine_def
        split: sum.split option.split if_splits)
  then show ?thesis by (simp add: wpre_def case_prod_beta cong: outcome.case_cong)
qed

section \<open>Protocol versions\<close>

text \<open>
  The negotiated version is the lower of the two sides' versions; a client whose version does
  not exceed \<^verbatim>\<open>MsgGet\<close>, or a payload that is not one byte, is refused.
\<close>

theorem decodeProtocolVersion_min:
  "(if length data = 1 \<and> hd data > MsgGet
    then decodeProtocolVersion data = Inr (min (hd data) MsgLast)
    else \<exists>e. decodeProtocolVersion data = Inl e) \<and> MsgGet < MsgLast"
proof -
  have less: "MsgGet < MsgLast" by (simp add: msg_defs)
  have one: "decodeProtocolVersion [v] = (if v > MsgGet then Inr (min v MsgLast) else
      Inl (EMsg (''elemental-register protocol version is deprecated (elemental-register client too old, protocol version = ''
                   @ show_nat (unat v) @ '')'')))" for v
  proof (cases "v \<le> MsgGet")
    case True
    then show ?thesis using less by (auto simp: decodeProtocolVersion_def)
  next
    case False
    then have "MsgGet < v" by simp
    moreover have "MsgLast < v \<Longrightarrow> min v MsgLast = MsgLast" by (intro min.absorb2 less_imp_le)
    moreover have "\<not> MsgLast < v \<Longrightarrow> min v MsgLast = v" by (intro min.absorb1) simp
    ultimately show ?thesis using False by (simp add: decodeProtocolVersion_def)
  qed
  have "length data = 1 \<longleftrightarrow> (\<exists>v. data = [v])" by (cases data) auto
  moreover have "\<not> (\<exists>v. data = [v]) \<Longrightarrow> \<exists>e. decodeProtocolVersion data = Inl e"
    by (auto simp: decodeProtocolVersion_def split: list.split)
  ultimately show ?thesis using one less by auto
qed

section \<open>One commit\<close>

lemmas handler_defs = unauthenticatedResponse_def isAgentTLSModeStrict_def writeError_def
  reportError_def agentConfig_def clientConfig_def writeMachineInventoryCloudConfig_def handleUpdate_def
  updateInventoryName_def updateInventoryLabels_def updateInventoryAnnotations_def
  updateInventoryWithTemplates_def labelStep_def annotationStep_def mergeLabelStep_def
  mergeInventoryLabels_def mergeInventoryAnnotations_def putLabel_def putAnnotation_def updInv_def
  decode_def generateInventoryName_def fillTemplates_def listInventories_def initInventory_def

abbreviation quiet :: "(session st, 'a) go \<Rightarrow> bool" where
  "quiet m \<equiv> emits (\<lambda>c. \<not> isWrite c) m"

text \<open>A tactic for handlers without API writes: their calls are computed along their text.\<close>

lemma not_write [emit]:
  "\<not> isWrite (CGet k ns n)" "\<not> isWrite (CList k nss sel)" "\<not> isWrite WsRead" "\<not> isWrite (WsWrite d)"
  "\<not> isWrite WsUpgrade" "\<not> isWrite (HttpError st msg)" "\<not> isWrite (HttpConfig c)" "\<not> isWrite (HttpProxy u)"
  by simp_all

lemma quiet_basic [emit]:
  "quiet (updInv f)" "quiet (decode env str)" "quiet (generateInventoryName env)"
  "quiet (putLabel k v)" "quiet (putAnnotation k v)" "quiet (fillTemplates d)"
  unfolding handler_defs by (intro emit)+

lemma quiet_templates [emit]:
  "quiet (updateInventoryName env)" "quiet (labelStep env kv)" "quiet (updateInventoryLabels env)"
  "quiet (annotationStep env kv)" "quiet (updateInventoryAnnotations env)"
  unfolding updateInventoryName_def labelStep_def updateInventoryLabels_def annotationStep_def
    updateInventoryAnnotations_def
  by (intro emit)+

lemma quiet_merge [emit]:
  "quiet (mergeInventoryLabels env data pfx)" "quiet (mergeInventoryAnnotations env data pfx)"
  "quiet (updateInventoryWithTemplates env)"
  unfolding mergeInventoryLabels_def mergeInventoryAnnotations_def mergeLabelStep_def
    updateInventoryWithTemplates_def
  by (intro emit)+

lemma quiet_replies [emit]:
  "quiet (WriteMessage env t d)" "quiet (reportError env v e)" "quiet (handleUpdate env)"
  "quiet (writeMachineInventoryCloudConfig env nc)"
  unfolding WriteMessage_def reportError_def writeError_def handleUpdate_def
    writeMachineInventoryCloudConfig_def agentConfig_def clientConfig_def isAgentTLSModeStrict_def Let_def
  by (intro emit)+

lemma quiet_network [emit]: "quiet (netLoop env d n)" "quiet (handleGetNetworkConfig env)"
proof -
  show n: "quiet (netLoop env d n)" for d n
    by (induction n) (simp_all, (intro emit)+)
  show "quiet (handleGetNetworkConfig env)"
    unfolding handleGetNetworkConfig_def by (intro emit n)
qed

lemma once_quiet: "quiet m \<Longrightarrow> maxWrites 1 m"
  by (rule maxWrites_emits)

lemma once_before: "quiet m \<Longrightarrow> (\<And>x. maxWrites 1 (k x)) \<Longrightarrow> maxWrites 1 (bnd m k)"
  by (rule maxWrites_bnd [where i = 0 and j = 1]) (simp_all add: maxWrites_emits)

lemma once_after: "maxWrites 1 m \<Longrightarrow> (\<And>x. quiet (k x)) \<Longrightarrow> maxWrites 1 (bnd m k)"
  by (rule maxWrites_bnd [where i = 1 and j = 0]) (simp_all add: maxWrites_emits)

lemma once_thenBefore: "quiet m \<Longrightarrow> maxWrites 1 k \<Longrightarrow> maxWrites 1 (andThen m k)"
  unfolding andThen_def by (rule once_before)

lemma once_thenAfter: "maxWrites 1 m \<Longrightarrow> quiet k \<Longrightarrow> maxWrites 1 (andThen m k)"
  unfolding andThen_def by (rule once_after)

lemma once_onErr: "maxWrites 1 m \<Longrightarrow> (\<And>x. quiet (h x)) \<Longrightarrow> maxWrites 1 (onErr m h)"
  by (rule maxWrites_onErr [where i = 1 and j = 0]) (simp_all add: maxWrites_emits)

lemma once_orWrap: "maxWrites 1 (m :: (session st, 'a) go) \<Longrightarrow> maxWrites 1 (orWrap m msg)"
  unfolding orWrap_def by (intro once_onErr emits_fail)

lemma once_put: "maxWrites 1 (putObj env c as old)"
  by (rule maxWrites_putObj) simp

lemma once_if: "maxWrites 1 m \<Longrightarrow> maxWrites 1 n \<Longrightarrow> maxWrites 1 (if b then m else n)"
  by simp

lemma once_option: "maxWrites 1 m \<Longrightarrow> (\<And>x. maxWrites 1 (k x)) \<Longrightarrow>
    maxWrites 1 (case y of None \<Rightarrow> m | Some x \<Rightarrow> k x)"
  by (simp split: option.split)

lemma once_prod: "(\<And>x y. maxWrites 1 (k x y)) \<Longrightarrow> maxWrites 1 (case p of (x, y) \<Rightarrow> k x y)"
  by (simp split: prod.split)

lemmas once_rules = once_orWrap once_put once_if once_option once_prod once_quiet [OF emits_fail]
  once_quiet [OF emits_ret]

lemma once_create: "maxWrites 1 (createMachineInventory env i)"
  unfolding createMachineInventory_def Let_def listInventories_def
  by (intro once_rules once_before emit)

lemma once_commit: "maxWrites 1 (commitMachineInventory env)"
  unfolding commitMachineInventory_def updateMachineInventory_def
  by (intro once_before [OF emits_gets] once_after once_rules once_create emit)

lemma once_handleGet: "maxWrites 1 (handleGet env)"
  unfolding handleGet_def Let_def
  by (intro once_before [OF emits_gets] once_thenAfter once_onErr once_commit emit)

lemma quiet_message: "msgType \<noteq> MsgGet \<Longrightarrow> quiet (serveMessage env msgType data)"
  unfolding serveMessage_def by (intro emit) simp_all

lemma get_message: "serveMessage env MsgGet data =
    andThen (updateInventoryWithTemplates env) (andThen (handleGet env) (ret Done))"
proof -
  have "MsgGet \<noteq> MsgVersion" "MsgGet \<noteq> MsgSmbios" "MsgGet \<noteq> MsgLabels" "MsgGet \<noteq> MsgAnnotations"
    by (simp_all add: msg_defs)
  then show ?thesis
    by (simp add: serveMessage_def bnd_def fun_eq_iff run_gets)
qed

text \<open>A get request ends the loop: it is never followed by another message.\<close>

lemma get_ends: "bnd (serveMessage env MsgGet data) (\<lambda>r. case r of Done \<Rightarrow> ret () | Reply t d \<Rightarrow> k t d) =
    andThen (updateInventoryWithTemplates env) (handleGet env)"
proof -
  have "(\<lambda>_ :: unit. ret ()) = ret" by (rule ext) simp
  then have "bnd (handleGet env) (\<lambda>_. ret ()) = handleGet env"
    using bnd_ret_right [of "handleGet env"] by metis
  then show ?thesis
    by (simp add: get_message andThen_def bnd_assoc bnd_ret_left)
qed

lemma once_rounds: "maxWrites 1 (serveRounds env fuel)"
proof (induction fuel)
  case 0
  show ?case unfolding serveRounds.simps by (rule once_quiet [OF emits_crash])
next
  case (Suc fuel)
  let ?k = "\<lambda>msgType r. case r of
       Done \<Rightarrow> ret ()
     | Reply t d \<Rightarrow>
         andThen (onErr (WriteMessage env t d)
                    (\<lambda>_. fail (EMsg (''cannot complete '' @ msg_string msgType @ '' exchange''))))
           (serveRounds env fuel)"
  have w: "quiet (onErr (WriteMessage env t d) (\<lambda>_. fail e))" for t d e
    by (intro emit)
  have k: "maxWrites 1 (?k msgType r)" for msgType r
  proof (cases r)
    case (Reply t d)
    show ?thesis unfolding Reply step.case by (intro once_thenBefore w Suc)
  next
    case Done
    show ?thesis unfolding Done step.case by (rule once_quiet [OF emits_ret])
  qed
  have round: "maxWrites 1 (bnd (serveMessage env msgType data) (?k msgType))" for msgType data
  proof (cases "msgType = MsgGet")
    case True
    show ?thesis unfolding True get_ends
      by (intro once_thenBefore emit once_handleGet)
  next
    case False
    then show ?thesis by (intro once_before quiet_message k)
  qed
  have read: "quiet (orWrap (ReadMessage env) msg)" for msg
    by (intro emit)
  show ?case
    unfolding serveRounds.simps by (rule once_before [OF read], rule once_prod, rule round)
qed

text \<open>
  C4: a session writes to the API server at most once, however many messages the client sends and
  in whatever order: only a get request commits, and it ends the loop.
\<close>

theorem serveLoop_one_commit:
  "\<exists>cs. trace (snd (serveLoop env fuel s)) = cs @ trace s \<and> writes cs \<le> 1"
proof -
  have "maxWrites 1 (serveLoop env fuel)"
    unfolding serveLoop_def by (intro once_thenBefore emit once_rounds)
  then show ?thesis by (simp add: maxWrites_def)
qed

section \<open>No panics, and an end\<close>

text \<open>
  The invariant of a session: the status of its registration, with the reference to the service
  account that the final exchange dereferences.
\<close>

definition served :: "MachineRegistrationStatus \<Rightarrow> session \<Rightarrow> bool" where
  "served st x \<longleftrightarrow> mr_Status (registration x) = st"

lemma served_simps [simp]:
  "served st (x\<lparr>inventory := i\<rparr>) = served st x" "served st (x\<lparr>proto := w\<rparr>) = served st x"
  "served st (x\<lparr>tmpl := d\<rparr>) = served st x" "served st (makeAnnotations x) = served st x"
  "served st (writeAnnotation k v x) = served st x" "served st (adoptAnnotations x) = served st x"
  "served st (forwardNetwork x) = served st x" "served st (x\<lparr>shared := b\<rparr>) = served st x"
  by (simp_all add: served_def makeAnnotations_def writeAnnotation_def setRegAnnotations_def
      adoptAnnotations_def forwardNetwork_def Let_def)

abbreviation noPanic :: "MachineRegistrationStatus \<Rightarrow> (session st, 'a) go \<Rightarrow> bool" where
  "noPanic st m \<equiv> safe (served st) {} m"

lemma noPanicI:
  "(\<And>s. served st (self s) \<Longrightarrow>
     wpre m (\<lambda>r s'. (r = Ok () \<or> (\<exists>e. r = Err e)) \<and> served st (self s')) s) \<Longrightarrow> noPanic st m"
  by (rule safeI) (erule meta_allE, erule meta_mp [THEN wpre_mono], auto)

lemma noPanic_basic [safety]:
  "noPanic st (updInv f)" "noPanic st (decode env str)" "noPanic st (generateInventoryName env)"
  "noPanic st (fillTemplates d)"
  unfolding updInv_def decode_def generateInventoryName_def fillTemplates_def
  by (intro safety Decode_no_panic; simp add: run)+

lemma noPanic_name [safety]: "noPanic st (updateInventoryName env)"
  by (rule noPanicI) (auto intro!: wpre_mono [OF updateInventoryName_wp]
      simp: named_def split: outcome.splits if_splits)

lemma noPanic_labels [safety]: "noPanic st (updateInventoryLabels env)"
  by (rule noPanicI, rule wpre_mono [OF updateInventoryLabels_wp])
    (auto simp: served_def relabelled_sel)

definition annotated :: "session \<Rightarrow> bool" where
  "annotated x \<longleftrightarrow> Annotations (inventory x) \<noteq> None"

lemma annotated_simps [simp]:
  "annotated (writeAnnotation k v x) = annotated x" "annotated (makeAnnotations x)"
  by (simp_all add: annotated_def writeAnnotation_def makeAnnotations_def Let_def del: not_None_eq)

lemma wp_annotated: "annotated (self s) \<Longrightarrow>
    wpre (putAnnotation k v) Q s = Q (Ok ()) (s\<lparr>self := writeAnnotation k v (self s)\<rparr>)"
  by (simp add: wp annotated_def del: not_None_eq)

lemma noPanic_annotations [safety]: "noPanic st (updateInventoryAnnotations env)"
proof (rule noPanicI)
  fix s :: "session st"
  let ?I = "\<lambda>s. annotated (self s) \<and> served st (self s)"
  assume s: "served st (self s)"
  have step: "wpre (annotationStep env kv) (\<lambda>r s'. (r = Ok () \<or> (\<exists>e. r = Err e)) \<and> ?I s') s'"
    if "?I s'" for kv s'
  proof -
    obtain k v where kv: "kv = (k, v)" by force
    obtain r n where "Decode (rnd env) (tmpl (self s')) v (draws s') = (r, n)" by force
    then show ?thesis using that
      by (cases r) (auto simp: annotationStep_def kv wp_bnd wp_gets wp_attempt wp_decode wp_ret wp_fail
          wp_annotated dest: Decode_PanicD)
  qed
  have "wpre (forEach (annotationStep env) xs) (\<lambda>r s'. (r = Ok () \<or> (\<exists>e. r = Err e)) \<and> served st (self s'))
      (s\<lparr>self := makeAnnotations (self s)\<rparr>)" for xs
    by (rule wpre_mono [OF forEach_err [OF step]]) (use s in auto)
  then show "wpre (updateInventoryAnnotations env)
      (\<lambda>r s'. (r = Ok () \<or> (\<exists>e. r = Err e)) \<and> served st (self s')) s"
    by (simp add: updateInventoryAnnotations_def wp)
qed

lemma noPanic_mergeLabels [safety]: "noPanic st (mergeInventoryLabels env data pfx)"
proof (rule noPanicI)
  fix s :: "session st"
  let ?I = "\<lambda>s. Labels (inventory (self s)) \<noteq> None \<and> served st (self s)"
  assume s: "served st (self s)"
  have step: "wpre (mergeLabelStep env pfx kv) (\<lambda>r s'. r = Ok () \<and> ?I s') s'" if "?I s'" for kv s'
  proof -
    obtain k v where kv: "kv = (k, v)" by force
    obtain r n where "Decode (rnd env) (tmpl (self s')) v (draws s') = (r, n)" by force
    then show ?thesis using that
      by (cases r) (auto simp: mergeLabelStep_def kv wp sanitizeLabel_def sanitize_eq mput_def dest: Decode_PanicD)
  qed
  have "wpre (forEach (mergeLabelStep env pfx) xs) (\<lambda>r s'. (r = Ok () \<or> (\<exists>e. r = Err e)) \<and> served st (self s'))
      (s\<lparr>self := (self s)\<lparr>inventory := (inventory (self s))\<lparr>Labels := mmake (Labels (inventory (self s)))\<rparr>\<rparr>\<rparr>)" for xs
    by (rule wpre_mono [OF forEach_ok [OF step]]) (use s in auto)
  then show "wpre (mergeInventoryLabels env data pfx)
      (\<lambda>r s'. (r = Ok () \<or> (\<exists>e. r = Err e)) \<and> served st (self s')) s"
    using s by (auto simp: mergeInventoryLabels_def wp split: sum.split)
qed

lemma noPanic_mergeAnnotations [safety]: "noPanic st (mergeInventoryAnnotations env data pfx)"
proof (rule noPanicI)
  fix s :: "session st"
  let ?I = "\<lambda>s. annotated (self s) \<and> served st (self s)"
  let ?f = "\<lambda>(key, val). putAnnotation (pfx @ sanitizeUserInput key) (sanitizeUserInput val)"
  assume s: "served st (self s)"
  have step: "wpre (?f kv) (\<lambda>r s'. r = Ok () \<and> ?I s') s'" if "?I s'" for kv s'
    using that by (cases kv) (simp add: wp_annotated)
  have "wpre (forEach ?f xs) (\<lambda>r s'. (r = Ok () \<or> (\<exists>e. r = Err e)) \<and> served st (self s')) (s\<lparr>self := makeAnnotations (self s)\<rparr>)" for xs
    by (rule wpre_mono [OF forEach_ok [OF step]]) (use s in auto)
  then show "wpre (mergeInventoryAnnotations env data pfx)
      (\<lambda>r s'. (r = Ok () \<or> (\<exists>e. r = Err e)) \<and> served st (self s')) s"
    using s by (auto simp: mergeInventoryAnnotations_def wp split: sum.split)
qed

lemma noPanic_templates [safety]: "noPanic st (updateInventoryWithTemplates env)"
  unfolding updateInventoryWithTemplates_def by (intro safety)

lemma noPanic_init [safety]: "noPanic st (initInventory env)"
proof -
  have "noPanic st markResettable"
    unfolding markResettable_def by (rule noPanicI) (simp add: wp_andThen wp_update wp_annotated)
  then show ?thesis
    unfolding initInventory_def by (intro safety) simp_all
qed

lemma noPanic_replies [safety]:
  "noPanic st (WriteMessage env t d)" "noPanic st (reportError env v e)"
  "noPanic st (handleUpdate env)" "noPanic st (commitMachineInventory env)"
  unfolding WriteMessage_def reportError_def writeError_def handleUpdate_def
    commitMachineInventory_def createMachineInventory_def updateMachineInventory_def
    listInventories_def Let_def
  by (intro safety)+

lemma noPanic_config [safety]:
  assumes "mrt_ServiceAccountRef st \<noteq> None"
  shows "noPanic st (writeMachineInventoryCloudConfig env nc)"
proof -
  have a: "noPanic st (agentConfig env rg i ref)" for rg i ref
    unfolding agentConfig_def isAgentTLSModeStrict_def Let_def by (intro safety)
  have "noPanic st (clientConfig env)"
  proof (rule safeI)
    fix s :: "session st"
    assume s: "served st (self s)"
    obtain ref where "mrt_ServiceAccountRef (mr_Status (registration (self s))) = Some ref"
      using assms s by (auto simp: served_def)
    with safeD [OF a s]
    show "wpre (clientConfig env) (\<lambda>r s'. served st (self s') \<and> (\<forall>p. r = Panic p \<longrightarrow> p \<in> {})) s"
      by (simp add: clientConfig_def wp_bnd wp_gets)
  qed
  then show ?thesis
    unfolding writeMachineInventoryCloudConfig_def WriteMessage_def
    by (intro safety)
qed

text \<open>
  The pace of the clock: between two readings of \<open>netLoop\<close> there is a sleep of a second, so the
  reading \<open>i\<close> after the first round's comes at least \<open>i\<close> seconds after the loop began.
\<close>

definition paced :: "env \<Rightarrow> bool" where
  "paced env \<longleftrightarrow> (\<forall>n i. clock env n + int i * 1000000000 \<le> clock env (n + 1 + i))"

lemma netLoop_fuel:
  assumes "paced env"
  shows "served st (self s) \<Longrightarrow> ticks s = n + 1 + i \<Longrightarrow> fuel + i = 11 \<Longrightarrow> 0 < fuel \<Longrightarrow>
    wpre (netLoop env (clock env n + registrationDeadline) fuel)
      (\<lambda>r s'. served st (self s') \<and> (\<forall>p. r \<noteq> Panic p)) s"
proof (induction fuel arbitrary: s i)
  case 0
  then show ?case by (simp add: wp)
next
  case (Suc fuel)
  show ?case
  proof (cases "fuel = 0")
    case True
    then have "i = 10" using Suc.prems by simp
    then have "clock env n + registrationDeadline \<le> clock env (ticks s)"
      using assms Suc.prems(2) spec [OF spec [OF assms [unfolded paced_def], of n], of i]
      by (simp add: registrationDeadline_def)
    then show ?thesis using Suc.prems by (simp add: wp)
  next
    case False
    have "wpre (netLoop env (clock env n + registrationDeadline) fuel)
        (\<lambda>r s'. served st (self s') \<and> (\<forall>p. r \<noteq> Panic p)) s'"
      if "served st (self s')" "ticks s' = n + 1 + Suc i" for s'
      using Suc.IH [of s' "Suc i"] that Suc.prems(3) False by simp
    then show ?thesis using Suc.prems
      by (auto simp: wp split: sum.split)
  qed
qed

lemma noPanic_network [safety]: "paced env \<Longrightarrow> noPanic st (handleGetNetworkConfig env)"
proof (rule safeI)
  fix s :: "session st"
  assume p: "paced env" and s: "served st (self s)"
  have "wpre (netLoop env (clock env (ticks s) + registrationDeadline) 11)
      (\<lambda>r s'. served st (self s') \<and> (\<forall>p. r \<noteq> Panic p)) (s\<lparr>ticks := Suc (ticks s)\<rparr>)"
    by (rule netLoop_fuel [OF p, where i = 0]) (use s in simp_all)
  then show "wpre (handleGetNetworkConfig env)
      (\<lambda>r s'. served st (self s') \<and> (\<forall>p. r = Panic p \<longrightarrow> p \<in> {})) s"
    by (simp add: handleGetNetworkConfig_def wp)
qed

text \<open>
  The one panic that a message can cause: system data of the old kind that decodes into a nil pointer,
  or into hardware with a nil element.
\<close>

definition badSystemData :: "env \<Rightarrow> bytes \<Rightarrow> bool" where
  "badSystemData env d \<longleftrightarrow> (\<exists>hi. json_hostinfo (lib env) d = Inr hi \<and> Option.bind hi ExtractLabelsLegacy = None)"

text \<open>The connection ends with the reading of such data, under the old type of message.\<close>

definition readBadData :: "env \<Rightarrow> call list \<Rightarrow> bool" where
  "readBadData env t \<longleftrightarrow> (case t of [] \<Rightarrow> False
     | c # past \<Rightarrow> c = WsRead \<and> (case answer env decodeFrame WsRead past of
         Inl e \<Rightarrow> False | Inr (msgType, d) \<Rightarrow> msgType = MsgSystemData \<and> badSystemData env d))"

lemma FillData_Panic: "FillData (json_hostinfo (lib env)) d = Panic p \<longleftrightarrow> p = nilDereference \<and> badSystemData env d"
  by (auto simp: FillData_def badSystemData_def split: sum.split option.split)

lemma noPanic_message:
  assumes "mrt_ServiceAccountRef st \<noteq> None" and "paced env" and "msgType \<noteq> MsgSystemData"
  shows "noPanic st (serveMessage env msgType data)"
  unfolding serveMessage_def handleGet_def Let_def
  by (intro safety assms(1,2)) (use assms(3) in simp_all)

lemma system_message: "serveMessage env MsgSystemData data =
    bnd (orWrap (lift_outcome (FillData (json_hostinfo (lib env)) data)) ''failed to parse system data'') (\<lambda>d.
    andThen (fillTemplates d) (ret (Reply MsgReady [])))"
proof -
  have "MsgSystemData \<noteq> MsgVersion" "MsgSystemData \<noteq> MsgSmbios" "MsgSystemData \<noteq> MsgLabels"
    "MsgSystemData \<noteq> MsgAnnotations" "MsgSystemData \<noteq> MsgGet" "MsgSystemData \<noteq> MsgUpdate"
    by (simp_all add: msg_defs)
  then show ?thesis
    by (simp add: serveMessage_def bnd_def fun_eq_iff run_gets)
qed

lemma safe_message:
  assumes "mrt_ServiceAccountRef st \<noteq> None" and "paced env"
  shows "safe (served st) {nilDereference} (serveMessage env msgType data)"
proof (cases "msgType = MsgSystemData")
  case True
  have "safe (served st) {nilDereference} (fillTemplates d)" for d
    by (rule safe_weaken [OF noPanic_basic(4)]) simp
  then show ?thesis
    unfolding True system_message by (intro safety) (auto simp: FillData_Panic)
next
  case False
  show ?thesis by (rule safe_weaken [OF noPanic_message [OF assms False]]) simp
qed

lemma message_panics:
  assumes "mrt_ServiceAccountRef st \<noteq> None" and "paced env" and "served st (self s)"
    and "serveMessage env msgType data s = (Panic p, s')"
  shows "p = nilDereference \<and> msgType = MsgSystemData \<and> badSystemData env data \<and> trace s' = trace s"
proof (cases "msgType = MsgSystemData")
  case True
  note run = assms(4) [unfolded True system_message]
  have "fillTemplates d s \<noteq> (Panic q, u)" for d q u
    using safeD [OF noPanic_basic(4) assms(3), of d] by (auto simp: wpre_def)
  with run True show ?thesis
    by (cases "FillData (json_hostinfo (lib env)) data")
      (auto simp: FillData_Panic run_bnd run_orWrap run_lift_outcome run_andThen run_ret split: prod.splits outcome.splits)
next
  case False
  from safeD [OF noPanic_message [OF assms(1,2) False] assms(3), of data] assms(4) show ?thesis
    by (simp add: wpre_def)
qed

text \<open>The frames of the peer run out: after \<open>k\<close> reads the next one fails (the read deadline).\<close>

definition readsOf :: "call list \<Rightarrow> nat" where
  "readsOf t = length (filter (\<lambda>c. c = WsRead) t)"

definition bounded :: "env \<Rightarrow> nat \<Rightarrow> bool" where
  "bounded env k \<longleftrightarrow> (\<forall>t. k \<le> readsOf t \<longrightarrow> (\<exists>e. answer env decodeFrame WsRead t = Inl e))"

lemma grows: "m s = (r, s') \<Longrightarrow> emits (\<lambda>_. True) m \<Longrightarrow> readsOf (trace s) \<le> readsOf (trace s')"
  using emitsD [of "\<lambda>_. True" m s r s'] by (auto simp: readsOf_def)

lemma emits_all: "emits (\<lambda>_. True) (serveMessage env msgType data)"
proof (cases "msgType = MsgGet")
  case True
  have c: "emits (\<lambda>_. True) (commitMachineInventory env)"
    unfolding commitMachineInventory_def createMachineInventory_def updateMachineInventory_def
      listInventories_def updInv_def Let_def
    by (intro emit TrueI)
  have q: "quiet m \<Longrightarrow> emits (\<lambda>_. True) m" for m :: "(session st, 'a) go"
    by (rule emits_mono) simp_all
  have h: "emits (\<lambda>_. True) (handleGet env)"
    unfolding handleGet_def Let_def
    by (intro emit c q [OF quiet_network(2)] q [OF quiet_replies(2)] q [OF quiet_replies(4)])
  show ?thesis
    unfolding True get_message by (intro emit h q [OF quiet_merge(3)])
next
  case False
  show ?thesis by (rule emits_mono [OF quiet_message [OF False]]) simp
qed

lemma serveRounds_total:
  assumes "mrt_ServiceAccountRef st \<noteq> None" and "paced env" and "bounded env k"
  shows "served st (self s) \<Longrightarrow> 0 < fuel \<Longrightarrow> k < readsOf (trace s) + fuel \<Longrightarrow>
    wpre (serveRounds env fuel) (\<lambda>r s'. served st (self s') \<and> (\<forall>p. r = Panic p \<longrightarrow> p = nilDereference \<and> readBadData env (trace s'))) s"
proof (induction fuel arbitrary: s)
  case 0
  then show ?case by simp
next
  case (Suc fuel)
  let ?t = "s\<lparr>trace := WsRead # trace s\<rparr>"
  have next_round: "wpre (serveRounds env fuel) (\<lambda>r s'. served st (self s') \<and> (\<forall>p. r = Panic p \<longrightarrow> p = nilDereference \<and> readBadData env (trace s'))) u"
    if read: "answer env decodeFrame WsRead (trace s) = Inr m"
      and u: "served st (self u)" "readsOf (trace ?t) \<le> readsOf (trace u)" for m u
  proof (rule Suc.IH)
    have "readsOf (trace s) < k"
      using assms(3) read unfolding bounded_def by (metis Inl_Inr_False not_le)
    with Suc.prems(3) show "0 < fuel" by simp
    show "served st (self u)" by (rule u)
    show "k < readsOf (trace u) + fuel" using u(2) Suc.prems(3) by (simp add: readsOf_def)
  qed
  have round: "wpre (serveMessage env msgType data) (\<lambda>r s'. case r of
       Ok Done \<Rightarrow> served st (self s')
     | Ok (Reply t d) \<Rightarrow> served st (self s') \<and>
         wpre (andThen (onErr (WriteMessage env t d) (\<lambda>_. fail e)) (serveRounds env fuel))
           (\<lambda>r s'. served st (self s') \<and> (\<forall>p. r = Panic p \<longrightarrow> p = nilDereference \<and> readBadData env (trace s'))) s'
     | Err e \<Rightarrow> served st (self s')
     | Panic p \<Rightarrow> served st (self s') \<and> p = nilDereference \<and> readBadData env (trace s')) ?t"
    if read: "answer env decodeFrame WsRead (trace s) = Inr (msgType, data)" for msgType data e
  proof (rule wpreI)
    fix r s'
    assume run: "serveMessage env msgType data ?t = (r, s')"
    have served: "served st (self ?t)" using Suc.prems(1) by simp
    from safeD [OF safe_message [OF assms(1,2)] this, of msgType data] have "served st (self s')"
      using run by (simp add: wpre_def)
    moreover from message_panics [OF assms(1,2) served] run read
    have "p = nilDereference \<and> readBadData env (trace s')" if "r = Panic p" for p
      using that by (auto simp: readBadData_def)
    ultimately have inv: "served st (self s') \<and> (\<forall>p. r = Panic p \<longrightarrow> p = nilDereference \<and> readBadData env (trace s'))"
      by blast
    have "readsOf (trace ?t) \<le> readsOf (trace s')"
      using grows [OF run emits_all] .
    then have "wpre (andThen (onErr (WriteMessage env t d) (\<lambda>_. fail e)) (serveRounds env fuel))
           (\<lambda>r s'. served st (self s') \<and> (\<forall>p. r = Panic p \<longrightarrow> p = nilDereference \<and> readBadData env (trace s'))) s'" for t d
      using next_round [OF read, of "s'\<lparr>trace := WsWrite (insertMessageType t d) # trace s'\<rparr>"] inv
      by (auto simp: wp WriteMessage_def readsOf_def split: sum.split)
    with inv show "case r of
       Ok Done \<Rightarrow> served st (self s')
     | Ok (Reply t d) \<Rightarrow> served st (self s') \<and>
         wpre (andThen (onErr (WriteMessage env t d) (\<lambda>_. fail e)) (serveRounds env fuel))
           (\<lambda>r s'. served st (self s') \<and> (\<forall>p. r = Panic p \<longrightarrow> p = nilDereference \<and> readBadData env (trace s'))) s'
     | Err e \<Rightarrow> served st (self s')
     | Panic p \<Rightarrow> served st (self s') \<and> p = nilDereference \<and> readBadData env (trace s')"
      by (cases r) (auto split: step.split)
  qed
  show ?case
  proof (cases "answer env decodeFrame WsRead (trace s)")
    case (Inl e)
    then show ?thesis using Suc.prems(1) by (simp add: wp_bnd wp_orWrap wp_ReadMessage)
  next
    case (Inr m)
    obtain msgType data where m: "m = (msgType, data)" by force
    show ?thesis
      using Inr m round [OF Inr [unfolded m], of "EMsg (''cannot complete '' @ msg_string msgType @ '' exchange'')"]
      by (auto simp: wp_bnd wp_orWrap wp_ReadMessage wp_ret elim!: wpre_mono
          split: outcome.splits step.splits)
  qed
qed

lemma serveLoop_wp:
  assumes "mrt_ServiceAccountRef (mr_Status (registration (self s))) \<noteq> None"
    and "paced env" and "bounded env k" and "k < fuel"
  shows "wpre (serveLoop env fuel)
    (\<lambda>r s'. served (mr_Status (registration (self s))) (self s') \<and> (\<forall>p. r = Panic p \<longrightarrow> p = nilDereference \<and> readBadData env (trace s'))) s"
proof -
  let ?st = "mr_Status (registration (self s))"
  have "wpre (serveRounds env fuel) (\<lambda>r s'. served ?st (self s') \<and> (\<forall>p. r = Panic p \<longrightarrow> p = nilDereference \<and> readBadData env (trace s')))
      (s\<lparr>self := (self s)\<lparr>proto := MsgUndefined, tmpl := NewTemplater\<rparr>\<rparr>)"
    by (rule serveRounds_total [OF assms(1-3)]) (use assms(4) in \<open>simp_all add: served_def\<close>)
  then show ?thesis by (simp add: serveLoop_def wp_andThen wp_update)
qed

lemma serveLoop_returns:
  assumes "mrt_ServiceAccountRef (mr_Status (registration (self s))) \<noteq> None"
    and "paced env" and "bounded env k" and "k < fuel"
  shows "\<exists>r s'. serveLoop env fuel s = (r, s') \<and> (r = Ok () \<or> (\<exists>e. r = Err e) \<or> r = Panic nilDereference \<and> readBadData env (trace s')) \<and>
    mr_Status (registration (self s')) = mr_Status (registration (self s))"
proof -
  obtain r s' where "serveLoop env fuel s = (r, s')" by force
  with serveLoop_wp [OF assms] have "serveLoop env fuel s = (r, s')" "\<forall>p. r = Panic p \<longrightarrow> p = nilDereference \<and> readBadData env (trace s')"
    "served (mr_Status (registration (self s))) (self s')" by (simp_all add: wpre_def)
  then show ?thesis by (cases r) (auto simp: served_def)
qed


definition sa_registration :: MachineRegistration where
  "sa_registration = zeroMR\<lparr>mr_Status := (mr_Status zeroMR)\<lparr>mrt_ServiceAccountRef :=
     Some (mkRef ''ServiceAccount'' ''ns'' ''reg'')\<rparr>\<rparr>"

lemma demo_paced: "paced (demo_env f frames)"
  by (simp add: paced_def demo_env_def)

lemma demo_bounded: "bounded (demo_env (\<lambda>_. None) frames) (length frames)"
  by (simp add: bounded_def demo_env_def demo_respond_def answer_def readsOf_def)


text \<open>
  System data of the old kind that decodes into nil makes the session panic right away: nothing
  is committed and no error message is sent. The payload \<^verbatim>\<open>null\<close> is such data.
\<close>

theorem system_data_panics:
  assumes "answer env decodeFrame WsRead (trace s) = Inr (MsgSystemData, d)" and "badSystemData env d" and "0 < fuel"
  shows "\<exists>s'. serveLoop env fuel s = (Panic nilDereference, s') \<and> trace s' = WsRead # trace s"
proof -
  obtain f where f: "fuel = Suc f" using assms(3) by (cases fuel) auto
  have p: "FillData (json_hostinfo (lib env)) d = Panic nilDereference"
    using assms(2) by (simp add: FillData_Panic)
  show ?thesis
    using assms(1) p by (simp add: serveLoop_def f run system_message)
qed

theorem system_data_panics_witness:
  "\<exists>s'. serveLoop (demo_env (\<lambda>_. None) [[6, 110, 117, 108, 108]]) 2 (start demo_session) = (Panic nilDereference, s')"
proof -
  let ?env = "demo_env (\<lambda>_. None) [[6, 110, 117, 108, 108]]"
  have 1: "answer ?env decodeFrame WsRead (trace (start demo_session)) = Inr (MsgSystemData, [110, 117, 108, 108])"
    by (simp add: answer_def demo_env_def demo_respond_def start_def decodeFrame_def BinaryMessage_def
        extractMessageType_def msg_defs)
  have 2: "badSystemData ?env [110, 117, 108, 108]"
    by (simp add: badSystemData_def demo_env_def demo_lib_def)
  from system_data_panics [OF 1 2, of 2] show ?thesis by auto
qed

section \<open>What the client is told\<close>

lemma run_reportError: "reportError env v e s = (Ok (), s\<lparr>trace :=
    (if v < MsgError then [] else case yaml_error (lib env) (NewErrorMessage e) of
        Inl _ \<Rightarrow> [] | Inr d \<Rightarrow> [WsWrite (insertMessageType MsgError d)]) @ trace s\<rparr>)"
  by (auto simp: reportError_def writeError_def WriteMessage_def run split: sum.split)

definition isConfigFrame :: "MessageType \<Rightarrow> call \<Rightarrow> bool" where
  "isConfigFrame v c \<longleftrightarrow> (\<exists>d. c = WsWrite (if v < MsgConfig then d else insertMessageType MsgConfig d))"

lemma safe_updInv: "(\<And>x. I x \<Longrightarrow> I (x\<lparr>inventory := f (inventory x)\<rparr>)) \<Longrightarrow> safe I E (updInv f)"
  unfolding updInv_def by (rule safe_update)

lemma clientConfig_self: "clientConfig env s = (r, s') \<Longrightarrow> self s' = self s"
proof -
  have "safe (\<lambda>x. x = self s) UNIV (agentConfig env rg i ref)" for rg i ref
    unfolding agentConfig_def isAgentTLSModeStrict_def Let_def by (intro safety)
  then have "safe (\<lambda>x. x = self s) UNIV (clientConfig env)"
    unfolding clientConfig_def by (intro safety) simp_all
  from safeD [OF this, of s] show "clientConfig env s = (r, s') \<Longrightarrow> self s' = self s"
    by (simp add: wpre_def)
qed

lemma config_frame: "writeMachineInventoryCloudConfig env nc s = (Ok (), s') \<Longrightarrow>
    isConfigFrame (proto (self s)) (hd (trace s')) \<and> fst (clientConfig env s) \<noteq> Panic p"
proof -
  assume w: "writeMachineInventoryCloudConfig env nc s = (Ok (), s')"
  obtain r t where c: "clientConfig env s = (r, t)" by force
  then have self: "self t = self s" by (rule clientConfig_self)
  show ?thesis
    using w c self
    by (cases r) (auto simp: writeMachineInventoryCloudConfig_def WriteMessage_def run isConfigFrame_def
        split: sum.splits if_splits)
qed

text \<open>
  C5: the final exchange commits first. When the commit fails, the client gets no configuration: the
  error is the handler's result and, for a client that understands it, the only frame written after
  the commit is an error message with its text. When the exchange succeeds, the commit succeeded
  before and the last call is the frame with the configuration.
\<close>

theorem handleGet_commits_first:
  "case commitMachineInventory env s of
     (Ok _, s1) \<Rightarrow> fst (handleGet env s) = Ok () \<longrightarrow>
        isConfigFrame (proto (self s)) (hd (trace (snd (handleGet env s))))
   | (Err e, s1) \<Rightarrow> handleGet env s = (Err e, s1\<lparr>trace :=
        (if proto (self s) < MsgError then [] else case yaml_error (lib env) (err_text e) of
            Inl _ \<Rightarrow> [] | Inr d \<Rightarrow> [WsWrite (insertMessageType MsgError d)]) @ trace s1\<rparr>)
   | (Panic p, s1) \<Rightarrow> False"
proof -
  obtain r s1 where c: "commitMachineInventory env s = (r, s1)" by force
  have np: "wpre (commitMachineInventory env) (\<lambda>r s'. proto (self s') = proto (self s) \<and> (\<forall>p. r \<noteq> Panic p)) s"
  proof -
    have "safe (\<lambda>x. proto x = proto (self s)) {} (commitMachineInventory env)"
      unfolding commitMachineInventory_def createMachineInventory_def updateMachineInventory_def
        listInventories_def updInv_def Let_def
      by (intro safety) simp
    from safeD [OF this] show ?thesis by simp
  qed
  then have s1: "proto (self s1) = proto (self s)" "\<forall>p. r \<noteq> Panic p"
    using c by (simp_all add: wpre_def)
  show ?thesis
  proof (cases r)
    case (Err e)
    with c show ?thesis
      by (simp add: handleGet_def Let_def run run_reportError NewErrorMessage_def)
  next
    case (Panic p)
    with s1 show ?thesis by simp
  next
    case (Ok u)
    let ?n = "if MsgNetworkConfig \<le> proto (self s) then onErr (handleGetNetworkConfig env)
        (\<lambda>e. andThen (reportError env (proto (self s)) e) (fail e)) else ret zeroNetworkConfig"
    obtain rn s2 where n: "?n s1 = (rn, s2)" by force
    have "safe (\<lambda>x. proto x = proto (self s)) UNIV (netLoop env d f)" for d f
      by (induction f) (simp_all, intro safety safe_updInv, simp, intro safety safe_updInv, simp_all)
    then have "safe (\<lambda>x. proto x = proto (self s)) UNIV ?n"
      unfolding handleGetNetworkConfig_def reportError_def writeError_def WriteMessage_def
      by (intro safety)
    from safeD [OF this, of s1] s1 n have s2: "proto (self s2) = proto (self s)"
      by (simp add: wpre_def)
    have g: "handleGet env s = (case rn of
        Ok nc \<Rightarrow> onErr (writeMachineInventoryCloudConfig env nc)
            (\<lambda>e. andThen (reportError env (proto (self s)) e)
              (fail (wrap ''failed sending elemental cloud config'' e))) s2
      | Err e \<Rightarrow> (Err e, s2) | Panic p \<Rightarrow> (Panic p, s2))"
      using c Ok n unfolding handleGet_def Let_def bnd_def andThen_def onErr_def gets_def
      by simp
    have "isConfigFrame (proto (self s)) (hd (trace (snd (handleGet env s))))"
      if fin: "fst (handleGet env s) = Ok ()"
    proof -
      obtain nc where nc: "rn = Ok nc" using fin g by (cases rn) auto
      obtain rw s3 where w: "writeMachineInventoryCloudConfig env nc s2 = (rw, s3)" by force
      then have "rw = Ok ()" "snd (handleGet env s) = s3"
        using fin g nc by (cases rw; simp add: run run_reportError)+
      with config_frame w s2 show ?thesis by metis
    qed
    then show ?thesis using c Ok by simp
  qed
qed

text \<open>A first session: a ready registration, a new inventory, an accepting API server.\<close>

definition demo_machine :: MachineInventory where
  "demo_machine = zeroInventory\<lparr>Namespace := ''ns'', mi_Spec := (mi_Spec zeroInventory)\<lparr>mis_TPMHash := ''ek''\<rparr>\<rparr>"

section \<open>Waiting for the network configuration\<close>

lemma conditionFound_iff: "conditionFound found cs \<longleftrightarrow> found \<or> condStatus cs NetworkConfigReady \<noteq> None"
  by (induction cs arbitrary: found) (auto simp: condStatus_def FindStatusCondition_def)

text \<open>
  The server waits for the \<^verbatim>\<open>NetworkConfigReady\<close> condition to exist, not for it to hold: with
  the condition present, whatever its status, the first read ends the wait and the network
  configuration of that read is what the client gets.
\<close>

theorem network_wait_presence:
  assumes "answer env (decodeOne asInv)
      (CGet KInv (Namespace (inventory (self s))) (Name (inventory (self s)))) (trace s) = Inr i"
    and "condStatus (mit_Conditions (mi_Status i)) NetworkConfigReady = Some status"
    and "clock env (Suc (ticks s)) < clock env (ticks s) + registrationDeadline"
  shows "fst (handleGetNetworkConfig env s) = Ok (mis_Network (mi_Spec i))"
proof -
  have "wpre (handleGetNetworkConfig env) (\<lambda>r s'. r = Ok (mis_Network (mi_Spec i))) s"
    using assms by (simp add: handleGetNetworkConfig_def numeral_eq_Suc wp conditionFound_iff)
  then show ?thesis by (simp add: wpre_def case_prod_beta)
qed

definition waiting_machine :: MachineInventory where
  "waiting_machine = demo_machine\<lparr>mi_Status := \<lparr>mit_Conditions =
     [(mkCondition NetworkConfigReady ''WaitingForIPAddress'' ''False'' [])], mit_Plan = None\<rparr>\<rparr>"

theorem network_wait_presence_witness:
  "fst (handleGetNetworkConfig (demo_env (\<lambda>c. if c = CGet KInv ''ns'' [] then Some (RObjs [OInv waiting_machine]) else None) [])
     (start (demo_session\<lparr>inventory := demo_machine\<rparr>))) = Ok zeroNetworkConfig"
proof -
  let ?env = "demo_env (\<lambda>c. if c = CGet KInv ''ns'' [] then Some (RObjs [OInv waiting_machine]) else None) []"
  let ?s = "start (demo_session\<lparr>inventory := demo_machine\<rparr>)"
  have 1: "answer ?env (decodeOne asInv)
      (CGet KInv (Namespace (inventory (self ?s))) (Name (inventory (self ?s)))) (trace ?s) = Inr waiting_machine"
    by (simp add: answer_def demo_env_def demo_respond_def start_def demo_machine_def zeroInventory_def
        ObjectMeta.defs zeroMeta_def decodeOne_def)
  have 2: "condStatus (mit_Conditions (mi_Status waiting_machine)) NetworkConfigReady = Some ''False''"
    by (simp add: waiting_machine_def condStatus_def FindStatusCondition_def)
  have 3: "clock ?env (Suc (ticks ?s)) < clock ?env (ticks ?s) + registrationDeadline"
    by (simp add: demo_env_def registrationDeadline_def)
  from network_wait_presence [OF 1 2 3] show ?thesis
    by (simp add: waiting_machine_def demo_machine_def zeroInventory_def ObjectMeta.defs)
qed

section \<open>Random annotations\<close>

lemma annotations_kept:
  assumes "mget (Annotations (inventory (self s))) k = Some v" and "IsRandomLabel v"
    and "\<forall>v'. (k, v') \<in> set (mentries (regAnnotations (registration (self s)))) \<longrightarrow> v' = v"
  shows "wpre (updateInventoryAnnotations env) (\<lambda>r s'. (r = Ok () \<or> (\<exists>e. r = Err e)) \<and>
    mget (Annotations (inventory (self s'))) k = Some v) s"
proof -
  let ?I = "\<lambda>s'. mget (Annotations (inventory (self s'))) k = Some v"
  have v: "v \<noteq> []" using assms(2) by (auto simp: IsRandomLabel_def contains_def)
  have step: "wpre (annotationStep env (k', v')) (\<lambda>r s''. (r = Ok () \<or> (\<exists>e. r = Err e)) \<and> ?I s'') s'"
    if "k' = k \<longrightarrow> v' = v" and I: "?I s'" for k' v' s'
  proof (cases "k' = k")
    case True
    then have "rendered (Annotations (inventory (self s'))) k' v'"
      using that I v assms(2) by (simp add: rendered_def)
    then show ?thesis using I by (simp add: annotationStep_def wp)
  next
    case False
    have a: "Annotations (inventory (self s')) \<noteq> None"
      using I by (cases "Annotations (inventory (self s'))") auto
    have put: "?I (s'\<lparr>draws := n, self := writeAnnotation k' d (self s')\<rparr>)" for d n
      using I False a by (simp add: writeAnnotation_def Let_def mget_mput)
    obtain r n where "Decode (rnd env) (tmpl (self s')) v' (draws s') = (r, n)" by force
    then show ?thesis using I a put
      by (cases r) (auto simp: annotationStep_def wp dest: Decode_PanicD)
  qed
  have "wpre (forEach (annotationStep env) (mentries (regAnnotations (registration (self s)))))
      (\<lambda>r s'. (r = Ok () \<or> (\<exists>e. r = Err e)) \<and> ?I s') s"
  proof (rule forEach_err [where I = ?I])
    fix x and s' :: "session st"
    assume x: "x \<in> set (mentries (regAnnotations (registration (self s))))" and I: "?I s'"
    obtain k' v' where kv: "x = (k', v')" by (cases x)
    have "k' = k \<longrightarrow> v' = v" using assms(3) x kv by blast
    from step [OF this I] show "wpre (annotationStep env x) (\<lambda>r s'. (r = Ok () \<or> (\<exists>e. r = Err e)) \<and> ?I s') s'"
      using kv by simp
  qed (rule assms(1))
  moreover have "makeAnnotations (self s) = self s" using assms(1) by (auto simp: makeAnnotations_def)
  ultimately show ?thesis by (simp add: updateInventoryAnnotations_def wp)
qed

lemma init_annotations:
  assumes "regAnnotations (registration (self s)) = Some al"
  shows "wpre (initInventory env) (\<lambda>r s'. r = Ok () \<and>
     (Annotations (inventory (self s')) = Some al \<or>
      Annotations (inventory (self s')) = mput ResettableAnnotation ''true'' (Some al)) \<and>
     regAnnotations (registration (self s')) = Annotations (inventory (self s'))) s"
  using assms
  by (auto simp: initInventory_def markResettable_def generateInventoryName_def wp run_draw_uuid
      adoptAnnotations_def makeAnnotations_def forwardNetwork_def Let_def setNetwork_def
      writeAnnotation_def setRegAnnotations_def regAnnotations_def)

text \<open>
  On a new inventory an annotation whose template is random is never rendered: \<^verbatim>\<open>initInventory\<close>
  makes the registration's annotations the inventory's, templates included, so the update takes
  the template text itself for a value that is already rendered.
\<close>

theorem random_annotation_raw:
  assumes "regAnnotations (registration (self s)) = Some al" and "distinct (map fst al)"
    and "map_of al k = Some v" and "IsRandomLabel v" and "k \<noteq> ResettableAnnotation"
  shows "case andThen (initInventory env) (updateInventoryAnnotations env) s of
     (Panic p, s') \<Rightarrow> False
   | (r, s') \<Rightarrow> mget (Annotations (inventory (self s'))) k = Some v"
proof -
  have m: "mget m k = Some v \<and> (\<forall>v'. (k, v') \<in> set (mentries m) \<longrightarrow> v' = v)"
    if "m = Some al \<or> m = mput ResettableAnnotation ''true'' (Some al)" for m
  proof -
    have w: "mwf (Some al)" using assms(2) by (simp add: mwf_def)
    have "mwf m \<and> mget m k = Some v"
      using that w assms(3,5) mwf_mput [OF w] by (auto simp: mget_mput)
    then show ?thesis
      by (cases m) (auto simp: mwf_def)
  qed
  have "wpre (andThen (initInventory env) (updateInventoryAnnotations env))
     (\<lambda>r s'. (r = Ok () \<or> (\<exists>e. r = Err e)) \<and> mget (Annotations (inventory (self s'))) k = Some v) s"
    unfolding wp_andThen
  proof (rule wpre_mono [OF init_annotations [OF assms(1)]])
    fix r :: "unit outcome" and s' :: "session st"
    assume A: "r = Ok () \<and>
     (Annotations (inventory (self s')) = Some al \<or>
      Annotations (inventory (self s')) = mput ResettableAnnotation ''true'' (Some al)) \<and>
     regAnnotations (registration (self s')) = Annotations (inventory (self s'))"
    with m have "mget (Annotations (inventory (self s'))) k = Some v"
      "\<forall>v'. (k, v') \<in> set (mentries (regAnnotations (registration (self s')))) \<longrightarrow> v' = v"
      by auto
    from annotations_kept [OF this(1) assms(4) this(2)] A
    show "case r of Ok x \<Rightarrow> wpre (updateInventoryAnnotations env)
        (\<lambda>r s'. (r = Ok () \<or> (\<exists>e. r = Err e)) \<and> mget (Annotations (inventory (self s'))) k = Some v) s'
      | Err e \<Rightarrow> (Err e = Ok () \<or> (\<exists>ea. Err e = Err ea)) \<and> mget (Annotations (inventory (self s'))) k = Some v
      | Panic p \<Rightarrow> (Panic p = Ok () \<or> (\<exists>e. Panic p = Err e)) \<and> mget (Annotations (inventory (self s'))) k = Some v"
      by simp
  qed
  then show ?thesis by (auto simp: wpre_def split: prod.splits outcome.splits)
qed

theorem random_annotation_raw_witness:
  "case andThen (initInventory (demo_env (\<lambda>_. None) [])) (updateInventoryAnnotations (demo_env (\<lambda>_. None) []))
      (start (demo_session\<lparr>registration := setRegAnnotations (Some [(''id'', ''${Random/UUID}'')]) zeroMR\<rparr>)) of
     (Panic p, s') \<Rightarrow> False
   | (r, s') \<Rightarrow> mget (Annotations (inventory (self s'))) ''id'' = Some ''${Random/UUID}''"
proof (rule random_annotation_raw)
  show "regAnnotations (registration (self (start (demo_session\<lparr>registration :=
      setRegAnnotations (Some [(''id'', ''${Random/UUID}'')]) zeroMR\<rparr>)))) = Some [(''id'', ''${Random/UUID}'')]"
    by (simp add: start_def regAnnotations_def setRegAnnotations_def)
  show "IsRandomLabel ''${Random/UUID}''" by code_simp
qed (simp_all add: ResettableAnnotation_def)

section \<open>A session that succeeds\<close>

definition ready_registration :: MachineRegistration where
  "ready_registration = sa_registration\<lparr>mr_Status := (mr_Status sa_registration)\<lparr>
     mrt_Conditions := [mkCondition ReadyCondition ''SuccessfullyCreated'' ''True'' []],
     mrt_RegistrationURL := ''https://host/elemental/registration/tok'', mrt_RegistrationToken := ''tok''\<rparr>\<rparr>"

definition ready_calls :: "call \<Rightarrow> resp option" where
  "ready_calls c = (case c of
      CGet KSA ns name \<Rightarrow> Some (RObjs [OSA (zeroMeta\<lparr>Namespace := ns, Name := name\<rparr>)])
    | CGet KSecret ns name \<Rightarrow> Some (RObjs [OSecret (ObjectMeta.extend zeroMeta
        \<lparr>sec_Type = SecretTypeServiceAccountToken, sec_Data = Some [(''token'', ''secret'')], sec_StringData = None\<rparr>)])
    | CGet KSetting ns name \<Rightarrow> Some (RObjs [OSetting (ObjectMeta.extend zeroMeta
        \<lparr>set_Value = ''https://host'', set_Default = []\<rparr>)])
    | _ \<Rightarrow> None)"

definition ready_session :: "session st" where
  "ready_session = start (demo_session\<lparr>inventory := demo_machine, registration := ready_registration,
     proto := MsgSystemDataV2\<rparr>)"

lemma ready_run: "fst (commitMachineInventory (demo_env ready_calls []) ready_session) = Ok () \<and>
  fst (handleGet (demo_env ready_calls []) ready_session) = Ok ()"
  by code_simp

theorem handleGet_commits_first_witness:
  "isConfigFrame MsgSystemDataV2 (hd (trace (snd (handleGet (demo_env ready_calls []) ready_session))))"
proof -
  obtain s1 where s1: "commitMachineInventory (demo_env ready_calls []) ready_session = (Ok (), s1)"
    using ready_run by (metis prod.collapse)
  have "proto (self ready_session) = MsgSystemDataV2"
    by (simp add: ready_session_def start_def)
  with handleGet_commits_first [of "demo_env ready_calls []" ready_session] s1 ready_run
  show ?thesis by simp
qed

end
