(* ===== verification/RegFlow.thy ===== *)
theory RegFlow
  imports RegistrationCtl ServerProps
begin

text \<open>
  How the registration reconciler and the registration server work together. A registration changes
  by edits of its users and by reconciliations; whatever their order, a registration that the server
  takes for ready has all that the server needs of it, and the URL that the reconciler made leads
  back to it.
\<close>

section \<open>The life of a resource\<close>

text \<open>The resources that steps reach from the initial ones.\<close>

inductive reach :: "('r \<Rightarrow> bool) \<Rightarrow> ('r \<Rightarrow> 'r \<Rightarrow> bool) \<Rightarrow> 'r \<Rightarrow> bool" for fresh stp where
  reach_fresh: "fresh x \<Longrightarrow> reach fresh stp x"
| reach_step: "reach fresh stp x \<Longrightarrow> stp x y \<Longrightarrow> reach fresh stp y"

text \<open>
  The contract of the writers of a resource with its readers: fresh resources are good, and each
  step of a writer keeps them good; a good resource whose flag is up has what the readers use.
\<close>

locale life_cycle =
  fixes fresh :: "'r \<Rightarrow> bool" and stp :: "'r \<Rightarrow> 'r \<Rightarrow> bool"
    and good :: "'r \<Rightarrow> bool" and flag :: "'r \<Rightarrow> bool" and usable :: "'r \<Rightarrow> bool"
  assumes fresh_good: "fresh x \<Longrightarrow> good x"
    and step_good: "good x \<Longrightarrow> stp x y \<Longrightarrow> good y"
    and flag_usable: "good x \<Longrightarrow> flag x \<Longrightarrow> usable x"
begin

lemma reach_good: "reach fresh stp x \<Longrightarrow> good x"
  by (induction rule: reach.induct) (auto intro: fresh_good step_good)

lemma reach_usable: "reach fresh stp x \<Longrightarrow> flag x \<Longrightarrow> usable x"
  by (rule flag_usable) (rule reach_good)

end

section \<open>The life of a registration\<close>

text \<open>
  A registration is created without a status. An edit changes anything but the status, the name and
  the namespace. A reconciliation, in any environment and from any history, replaces the status by
  the one it computed, when the API server accepts the patch.
\<close>

definition newReg :: "MachineRegistration \<Rightarrow> bool" where
  "newReg m \<longleftrightarrow> mr_Status m = mr_Status zeroMR"

inductive regStep :: "MachineRegistration \<Rightarrow> MachineRegistration \<Rightarrow> bool" where
  edit: "mr_Status m' = mr_Status m \<Longrightarrow> Name m' = Name m \<Longrightarrow> Namespace m' = Namespace m \<Longrightarrow> regStep m m'"
| reconciliation: "rand_ok (rnd env) \<Longrightarrow> self s = updConds RemoveInvalidConditions m \<Longrightarrow>
    reconcileReg env s = (r, t) \<Longrightarrow> regStep m (m\<lparr>mr_Status := mr_Status (self t)\<rparr>)"

inductive_cases regStepE: "regStep m m'"

definition goodReg :: "MachineRegistration \<Rightarrow> bool" where
  "goodReg m \<longleftrightarrow> distinct (condTypes m) \<and> (readyStatus m = Some ''True'' \<longrightarrow> servable m)"

lemma servable_cong: "mr_Status m' = mr_Status m \<Longrightarrow> Name m' = Name m \<Longrightarrow> Namespace m' = Namespace m \<Longrightarrow>
    servable m' = servable m"
  by (simp add: servable_def theReference_def)

lemma find_filter_distinct:
  assumes "distinct (map f xs)" and "find (\<lambda>x. f x = t) (filter P xs) = Some y"
  shows "find (\<lambda>x. f x = t) xs = Some y"
  using assms
proof (induction xs)
  case (Cons x xs)
  show ?case
  proof (cases "f x = t")
    case True
    moreover have "f x \<notin> f ` set xs" using Cons.prems(1) by simp
    ultimately have "\<forall>z \<in> set xs. f z \<noteq> t" by (metis imageI)
    then have "find (\<lambda>x. f x = t) (filter P xs) = None" by (simp add: find_None_iff)
    with True Cons.prems(2) show ?thesis by (simp split: if_splits)
  next
    case False
    with Cons show ?thesis by (simp split: if_splits)
  qed
qed simp

lemma distinct_types_filter:
  assumes "distinct (map c_Type cs)" and "condStatus (filter P cs) t = Some v"
  shows "condStatus cs t = Some v"
  using assms find_filter_distinct [of c_Type cs t P] by (auto simp: condStatus_def FindStatusCondition_def)

lemma goodReg_sanitize: "goodReg m \<Longrightarrow> goodReg (updConds RemoveInvalidConditions m)"
proof -
  assume g: "goodReg m"
  let ?cs = "mrt_Conditions (mr_Status m)"
  have d: "distinct (map c_Type ?cs)" using g by (simp add: goodReg_def condTypes_def)
  then have "distinct (map c_Type (filter validCondition ?cs))"
    by (rule distinct_map_filter)
  moreover have "servable m" if "condStatus (filter validCondition ?cs) ReadyCondition = Some ''True''"
    using distinct_types_filter [OF d that] g by (simp add: goodReg_def readyStatus_def)
  moreover have "servable (updConds RemoveInvalidConditions m) = servable m"
    by (simp add: servable_def)
  ultimately show ?thesis
    by (simp add: goodReg_def condTypes_def readyStatus_def RemoveInvalidConditions_def)
qed

lemma goodReg_cong: "mr_Status m' = mr_Status m \<Longrightarrow> Name m' = Name m \<Longrightarrow> Namespace m' = Namespace m \<Longrightarrow>
    goodReg m' = goodReg m"
  using servable_cong [of m' m] by (simp add: goodReg_def condTypes_def readyStatus_def)

lemma goodReg_reconcile:
  assumes "rand_ok (rnd env)" and "goodReg (self s)" and "reconcileReg env s = (r, t)"
  shows "goodReg (self t)"
proof -
  have "distinct (condTypes (self t))"
    using safeD [OF safe_distinct [OF assms(1)], of s] assms(2,3) by (simp add: goodReg_def wpre_def)
  moreover have "reconciled env s r t"
    using reconcileReg_wp [OF assms(1), of s] assms(3) by (simp add: wpre_def)
  moreover have "servable (RemoveFinalizer f m) = servable m" "readyStatus (RemoveFinalizer f m) = readyStatus m"
    for f and m :: MachineRegistration
    by (simp_all add: servable_def theReference_def readyStatus_def RemoveFinalizer_def)
  ultimately show ?thesis using assms(2)
    by (cases r) (auto simp: goodReg_def reconciled_def readyStatus_def split: if_splits dest: foundReady_same)
qed

lemma reconcile_same_object:
  assumes "rand_ok (rnd env)" and "reconcileReg env s = (r, t)"
  shows "Name (self t) = Name (self s) \<and> Namespace (self t) = Namespace (self s)"
proof -
  have "reconciled env s r t"
    using reconcileReg_wp [OF assms(1), of s] assms(2) by (simp add: wpre_def)
  then show ?thesis
    by (auto simp: reconciled_def statusOnly_def RemoveFinalizer_def split: outcome.splits if_splits dest: foundReady_same)
qed

lemma goodReg_step: "goodReg m \<Longrightarrow> regStep m m' \<Longrightarrow> goodReg m'"
proof -
  assume g: "goodReg m" and step: "regStep m m'"
  from step show ?thesis
  proof (rule regStepE)
    assume same: "mr_Status m' = mr_Status m" "Name m' = Name m" "Namespace m' = Namespace m"
    from goodReg_cong [OF same] g show ?thesis by (rule iffD2)
  next
    fix env s r t
    assume 2: "m' = m\<lparr>mr_Status := mr_Status (self t)\<rparr>" "rand_ok (rnd env)"
      "self s = updConds RemoveInvalidConditions m" "reconcileReg env s = (r, t)"
    have "goodReg (self s)" unfolding 2(3) by (rule goodReg_sanitize [OF g])
    from goodReg_reconcile [OF 2(2) this 2(4)] have "goodReg (self t)" .
    moreover have "Name (self t) = Name m" "Namespace (self t) = Namespace m"
      using reconcile_same_object [OF 2(2,4)] 2(3) by (simp_all add: updConds_def updStatus_def)
    then have "goodReg m' = goodReg (self t)"
      unfolding 2(1) by (intro goodReg_cong) simp_all
    ultimately show ?thesis by (simp only:)
  qed
qed

interpretation registration_life: life_cycle newReg regStep goodReg readyRegistration servable
proof unfold_locales
  show "newReg m \<Longrightarrow> goodReg m" for m
    by (simp add: newReg_def goodReg_def condTypes_def readyStatus_def zeroMR_def condStatus_def
        FindStatusCondition_def ObjectMeta.defs)
  show "goodReg m \<Longrightarrow> regStep m m' \<Longrightarrow> goodReg m'" for m m'
    by (rule goodReg_step)
  show "goodReg m \<Longrightarrow> readyRegistration m \<Longrightarrow> servable m" for m
    by (simp add: goodReg_def condTypes_def readyRegistration_iff IsTrue_condStatus readyStatus_def)
qed

lemma reach_good_reg: "reach newReg regStep m \<Longrightarrow> goodReg m"
  by (rule registration_life.reach_good)

section \<open>Properties\<close>


definition reconciled_registration :: MachineRegistration where
  "reconciled_registration = new_registration\<lparr>mr_Status :=
     mr_Status (self (snd (reconcileReg (demo_env server_setting []) (start new_registration))))\<rparr>"

lemma reconciled_reach: "reach newReg regStep reconciled_registration"
proof (rule reach_step [OF reach_fresh])
  show "newReg new_registration"
    by (simp add: newReg_def new_registration_def)
  have "self (start new_registration) = updConds RemoveInvalidConditions new_registration"
    by (simp add: start_def new_registration_def updConds_def updStatus_def zeroMR_def RemoveInvalidConditions_def
        ObjectMeta.defs)
  then show "regStep new_registration reconciled_registration"
    unfolding reconciled_registration_def
    by (intro reconciliation [of "demo_env server_setting []" "start new_registration"
          _ "fst (reconcileReg (demo_env server_setting []) (start new_registration))"])
      (simp_all add: demo_rand_ok)
qed


definition tokenChar :: "char \<Rightarrow> bool" where
  "tokenChar c \<longleftrightarrow> is_lower c \<or> is_digit c \<or> c = CHR ''-''"

lemma tokenChar_plain: "tokenChar c \<Longrightarrow> c \<noteq> CHR ''/'' \<and> c \<noteq> CHR 0x0A \<and> c \<noteq> CHR 0x0D"
  by (auto simp: tokenChar_def is_lower_def is_digit_def)

lemma dropNewlines_token: "\<forall>c \<in> set t. tokenChar c \<Longrightarrow> dropNewlines t = t"
  by (auto simp: dropNewlines_def replace_char_all filter_id_conv dest!: bspec tokenChar_plain)

lemma path_base_token:
  assumes "t \<noteq> []" and "\<forall>c \<in> set t. tokenChar c"
  shows "path_base (p @ ''/'' @ t) = t"
proof -
  have noslash: "\<forall>c \<in> set (rev t). c \<noteq> CHR ''/''" using assms(2) tokenChar_plain by auto
  obtain a as where r: "rev t = a # as" using assms(1) by (cases "rev t") auto
  have "dropWhile (\<lambda>c. c = CHR ''/'') (rev (p @ ''/'' @ t)) = rev t @ CHR ''/'' # rev p"
    using noslash r by simp
  moreover have "takeWhile (\<lambda>c. c \<noteq> CHR ''/'') (rev t @ CHR ''/'' # rev p) = rev t"
    using noslash by (subst takeWhile_append2) auto
  ultimately show ?thesis using assms(1)
    by (simp add: path_base_def Let_def)
qed

text \<open>
  C11: the URL that the reconciler writes leads back to its registration: from the path of the URL
  the server takes out the very token, and finds the registration when it is ready and no other one
  listed has the token. The token is one of the alphabet that the CRD's validation admits, which
  includes every generated token.
\<close>

theorem registration_url_found:
  assumes "\<forall>c \<in> set (mrt_RegistrationToken (mr_Status m)). tokenChar c"
    and "mrt_RegistrationToken (mr_Status m) \<noteq> []"
    and "answer env (decodeAll asReg) (CList KReg None []) (trace s) = Inr items"
    and "filter (\<lambda>x. mrt_RegistrationToken (mr_Status x) = mrt_RegistrationToken (mr_Status m)) items = [m]"
    and "readyRegistration m"
  shows "fst (getMachineRegistration env (path_base (registrationURL base (mrt_RegistrationToken (mr_Status m)))) s) = Ok m
    \<and> list_all tokenChar characters"
proof
  let ?t = "mrt_RegistrationToken (mr_Status m)"
  have "registrationURL base ?t = (base @ ''/elemental/registration'') @ ''/'' @ ?t"
    by (simp add: registrationURL_def)
  then have "path_base (registrationURL base ?t) = ?t"
    using path_base_token [OF assms(2,1)] by metis
  then show "fst (getMachineRegistration env (path_base (registrationURL base ?t)) s) = Ok m"
    using assms(3-5) dropNewlines_token [OF assms(1)] findByToken_eq [of ?t items]
    by (simp add: getMachineRegistration_def Let_def run)
  show "list_all tokenChar characters" by code_simp
qed

theorem registration_url_found_witness:
  "fst (getMachineRegistration
      (demo_env (\<lambda>c. if c = CList KReg None [] then Some (RObjs [OReg ready_registration]) else None) [])
      (path_base (registrationURL ''https://host'' ''tok'')) (start ())) = Ok ready_registration"
proof -
  let ?env = "demo_env (\<lambda>c. if c = CList KReg None [] then Some (RObjs [OReg ready_registration]) else None) []"
  have t: "mrt_RegistrationToken (mr_Status ready_registration) = ''tok''"
    by (simp add: ready_registration_def)
  have 1: "\<forall>c \<in> set (mrt_RegistrationToken (mr_Status ready_registration)). tokenChar c"
    unfolding t by code_simp
  have 3: "answer ?env (decodeAll asReg) (CList KReg None []) (trace (start ())) = Inr [ready_registration]"
    by (simp add: answer_def demo_env_def demo_respond_def start_def decodeAll_def)
  have 5: "readyRegistration ready_registration" by code_simp
  from registration_url_found [OF 1 _ 3 _ 5, of "''https://host''"] show ?thesis
    by (simp add: t)
qed

end
