(* ===== verification/Adoption.thy ===== *)
theory Adoption
  imports SelectorCtl RegFlow
begin

text \<open>
  The adoption of an inventory by a selector, as the two reconcilers carry it out between them: the
  selector's takes the inventory by a patch of its owner and waits for the inventory's, which
  confirms when the selector refers back to it and gives the inventory free otherwise. Neither
  calls the other; each acts on what it reads of the other's object.
\<close>

section \<open>Steps\<close>

text \<open>The reads of a selector's reconciliation: the inventory as it is, or, if it was free, as the selector took it.\<close>

definition sees :: "env \<Rightarrow> MachineInventory \<Rightarrow> MachineInventorySelector \<Rightarrow> bool" where
  "sees env m x \<longleftrightarrow> (\<forall>t y. answer env (decodeOne asInv) (CGet KInv (Namespace m) (Name m)) t = Inr y \<longrightarrow>
     y = m \<or> (y = takenBy x m \<and> getSelectorOwner m = None))"

text \<open>The reads of an inventory's reconciliation: the selector as it is.\<close>

definition looksAt :: "env \<Rightarrow> MachineInventorySelector \<Rightarrow> bool" where
  "looksAt env x \<longleftrightarrow> (\<forall>t y. answer env (decodeOne asSel) (CGet KSel (Namespace x) (Name x)) t = Inr y \<longrightarrow> y = x)"

text \<open>The calls hold a patch by which the selector takes the inventory and that the server accepted.\<close>

fun takes :: "env \<Rightarrow> MachineInventory \<Rightarrow> MachineInventorySelector \<Rightarrow> call list \<Rightarrow> bool" where
  "takes env m x [] = False"
| "takes env m x (c # t) \<longleftrightarrow> takes env m x t \<or> (c = CPatch True (OInv m) (OInv (takenBy x m)) \<and>
     (case answer env (decodePut asInv (takenBy x m)) c t of Inl e \<Rightarrow> False | Inr y \<Rightarrow> True))"

inductive adoptStep :: "MachineInventory \<times> MachineInventorySelector \<Rightarrow> MachineInventory \<times> MachineInventorySelector \<Rightarrow> bool" where
  selector: "sees env m x \<Longrightarrow> reconcileSel env (start x) = (r, t) \<Longrightarrow>
    adoptStep (m, x) (if takes env m x (trace t) then takenBy x m else m, self t)"
| inventory: "looksAt env x \<Longrightarrow> reconcileInv env (start m) = (r, t) \<Longrightarrow> adoptStep (m, x) (self t, x)"
| edit: "Name m' = Name m \<Longrightarrow> Namespace m' = Namespace m \<Longrightarrow> OwnerReferences m' = OwnerReferences m \<Longrightarrow>
    mi_Status m' = mi_Status m \<Longrightarrow> Name x' = Name x \<Longrightarrow> Namespace x' = Namespace x \<Longrightarrow>
    sl_Status x' = sl_Status x \<Longrightarrow> adoptStep (m, x) (m', x')"

inductive_cases adoptStepE: "adoptStep (m, x) p"

section \<open>The agreement\<close>

definition ownedBy :: "MachineInventory \<Rightarrow> MachineInventorySelector \<Rightarrow> bool" where
  "ownedBy m x \<longleftrightarrow> (\<exists>o'. getSelectorOwner m = Some o' \<and> or_Name o' = Name x)"

definition adopted :: "MachineInventory \<Rightarrow> MachineInventorySelector \<Rightarrow> bool" where
  "adopted m x \<longleftrightarrow> adoptionStatus m = Some ''True'' \<and> ownedBy m x"

definition holds :: "MachineInventory \<times> MachineInventorySelector \<Rightarrow> bool" where
  "holds p \<longleftrightarrow> inventoryReady (snd p) = Some ''True'' \<and> slt_MachineInventoryRef (sl_Status (snd p)) = Some (Name (fst p))"

definition agreeing :: "MachineInventory \<times> MachineInventorySelector \<Rightarrow> bool" where
  "agreeing p \<longleftrightarrow> chained (snd p) \<and> Namespace (snd p) = Namespace (fst p) \<and>
     (adoptionStatus (fst p) = Some ''True'' \<longrightarrow> getSelectorOwner (fst p) \<noteq> None) \<and>
     (holds p \<longrightarrow> adopted (fst p) (snd p))"

definition newPair :: "MachineInventory \<times> MachineInventorySelector \<Rightarrow> bool" where
  "newPair p \<longleftrightarrow> mi_Status (fst p) = mi_Status zeroInventory \<and> sl_Status (snd p) = zeroSelStatus \<and>
     Namespace (snd p) = Namespace (fst p)"

subsection \<open>The selector's side\<close>

text \<open>A selector whose adoption was confirmed in this run has read an inventory that it owns and that is confirmed.\<close>

definition confirmedNow :: "env \<Rightarrow> MachineInventorySelector \<Rightarrow> MachineInventorySelector \<Rightarrow> bool" where
  "confirmedNow env x y \<longleftrightarrow> (\<exists>nm t m. slt_MachineInventoryRef (sl_Status y) = Some nm \<and>
     answer env (decodeOne asInv) (CGet KInv (Namespace x) nm) t = Inr m \<and> adopted m x)"

definition confirming :: "env \<Rightarrow> MachineInventorySelector \<Rightarrow> MachineInventorySelector \<Rightarrow> bool" where
  "confirming env x y \<longleftrightarrow> grown x y \<and>
     (inventoryReady y = Some ''True'' \<longrightarrow> inventoryReady x = Some ''True'' \<or> confirmedNow env x y)"

lemma orphan_free [simp]: "getSelectorOwner m = None \<Longrightarrow> isOrphan m"
  by (simp add: isOrphan_def)

lemma adopted_if: "\<not> isOrphan m \<Longrightarrow> getSelectorOwner m = Some o' \<Longrightarrow> or_Name o' = Name x \<Longrightarrow> adopted m x"
  by (simp add: isOrphan_def adopted_def ownedBy_def adoptionStatus_def)

lemma confirmingI:
  assumes "\<And>s. chained (self s) \<Longrightarrow> wpre m (\<lambda>r s'. confirming env (self s) (self s') \<and> (\<forall>p. r = Panic p \<longrightarrow> p \<in> E)) s"
  shows "safe (confirming env x) E m"
proof (rule safeI)
  fix s :: "MachineInventorySelector st"
  assume c: "confirming env x (self s)"
  then have "chained (self s)" by (simp add: confirming_def grown_def)
  from assms [OF this] show "wpre m (\<lambda>r s'. confirming env x (self s') \<and> (\<forall>p. r = Panic p \<longrightarrow> p \<in> E)) s"
  proof (rule wpre_mono, elim conjE, intro conjI)
    fix s' :: "MachineInventorySelector st"
    assume d: "confirming env (self s) (self s')"
    have "grown x (self s)" "grown (self s) (self s')" using c d by (simp_all add: confirming_def)
    then show "confirming env x (self s')"
      using c d grown_trans [of x "self s" "self s'"]
      by (auto simp: confirming_def confirmedNow_def grown_def adopted_def ownedBy_def)
  qed
qed

lemma confirming_adoption: "safe (confirming env x) {} (onErr (updateAdoptionStatus env)
    (failSel env InventoryReadyCondition FailedToAdoptInventoryReason msg))"
proof (rule confirmingI)
  fix s :: "MachineInventorySelector st"
  assume ch: "chained (self s)"
  have "wpre (onErr (updateAdoptionStatus env) (failSel env InventoryReadyCondition FailedToAdoptInventoryReason msg))
      (\<lambda>r s'. inventoryReady (self s') = Some ''True'' \<longrightarrow>
         inventoryReady (self s) = Some ''True'' \<or> confirmedNow env (self s) (self s')) s"
    by (auto simp: updateAdoptionStatus_def wp condition_types inventoryReady_status Let_def
        inventoryReady_def condStatus_def confirmedNow_def split: sum.split option.split)
      (blast intro: adopted_if)
  from wpre_conj [OF this safeD [OF safe_adoptionStatus grown_refl [OF ch]]]
  show "wpre (onErr (updateAdoptionStatus env) (failSel env InventoryReadyCondition FailedToAdoptInventoryReason msg))
      (\<lambda>r s'. confirming env (self s) (self s') \<and> (\<forall>p. r = Panic p \<longrightarrow> p \<in> {})) s"
    by (rule wpre_mono) (auto simp: confirming_def)
qed

lemma safe_same:
  assumes "\<And>x. safe (grown x) E m" and "\<And>s. chained (self s) \<Longrightarrow> wpre m (\<lambda>r s'. inventoryReady (self s') = Some ''True'' \<longrightarrow>
      inventoryReady (self s) = Some ''True'') s"
  shows "safe (confirming env x) E m"
proof (rule confirmingI)
  fix s :: "MachineInventorySelector st"
  assume ch: "chained (self s)"
  from wpre_conj [OF assms(2) [OF ch] safeD [OF assms(1) grown_refl [OF ch]]]
  show "wpre m (\<lambda>r s'. confirming env (self s) (self s') \<and> (\<forall>p. r = Panic p \<longrightarrow> p \<in> E)) s"
    by (rule wpre_mono) (auto simp: confirming_def)
qed

lemma sameReady_rest:
  "wpre (findAndAdoptInventory env) (\<lambda>r s'. inventoryReady (self s') = Some ''True'' \<longrightarrow> inventoryReady (self s) = Some ''True'') s"
  "wpre (setInvetorySelectorAddresses env) (\<lambda>r s'. inventoryReady (self s') = Some ''True'' \<longrightarrow> inventoryReady (self s) = Some ''True'') s"
  "wpre (updatePlanSecretWithBootstrap env) (\<lambda>r s'. inventoryReady (self s') = Some ''True'' \<longrightarrow> inventoryReady (self s) = Some ''True'') s"
  "wpre (failSel env ReadyCondition reason msg e :: 'a sel_handler) (\<lambda>r s'. inventoryReady (self s') = Some ''True'' \<longrightarrow> inventoryReady (self s) = Some ''True'') s"
  subgoal by (auto simp: findAndAdoptInventory_def wp condition_types inventoryReady_status inventoryReady_def split: sum.split option.split)
  subgoal by (auto simp: setInvetorySelectorAddresses_def getInventory_def wp condition_types inventoryReady_status inventoryReady_def split: sum.split option.split)
  subgoal
  proof (cases "inventoryReady (self s) = Some ''True''")
    case True
    then show ?thesis by (auto intro: wpreI)
  next
    case False
    then show ?thesis by (simp add: updatePlanSecretWithBootstrap_def inventoryReady_def wp)
  qed
  subgoal by (simp add: wp condition_types inventoryReady_def)
  done

lemma confirming_reconcile: "safe (confirming env x) {nilMapPanic} (reconcileSel env)"
proof -
  have parts: "safe (confirming env x) {nilMapPanic} (findAndAdoptInventory env)"
    "safe (confirming env x) {nilMapPanic} (setInvetorySelectorAddresses env)"
    "safe (confirming env x) {nilMapPanic} (onErr (updateAdoptionStatus env)
       (failSel env InventoryReadyCondition FailedToAdoptInventoryReason msg))" for msg
    by (rule safe_weaken [OF safe_same [OF safe_findAndAdopt sameReady_rest(1)]]
        safe_weaken [OF safe_same [OF safe_addresses sameReady_rest(2)]]
        safe_weaken [OF confirming_adoption], simp)+
  have plan: "safe (confirming env x) {nilMapPanic} (updatePlanSecretWithBootstrap env)"
    by (rule safe_same [OF safe_bootstrap sameReady_rest(3)])
  have fl: "safe (confirming env x) {nilMapPanic} (failSel env ReadyCondition reason msg e)" for reason msg e
  proof (rule safe_same)
    show "safe (grown x) {nilMapPanic} (failSel env ReadyCondition reason msg e)" for x
      unfolding failSel_def selCond_def by (intro safety) simp
  qed (rule sameReady_rest)
  show ?thesis
    unfolding reconcileSel_def
    by (intro safe_bnd [OF safe_gets] safe_bnd [OF parts(3)] safe_if safe_ret safe_andThen
        safe_onErr [OF parts(1) fl] safe_onErr [OF plan fl] safe_onErr [OF parts(2) fl])
qed


subsection \<open>The inventory's side\<close>

definition sameBond :: "MachineInventory \<Rightarrow> MachineInventory \<Rightarrow> bool" where
  "sameBond m n \<longleftrightarrow> Name n = Name m \<and> Namespace n = Namespace m \<and> OwnerReferences n = OwnerReferences m \<and>
     adoptionStatus n = adoptionStatus m"

text \<open>What a reconciliation does to the bond: nothing to a confirmed one, and none is confirmed without an owner.\<close>

definition bonded :: "MachineInventory \<Rightarrow> MachineInventory \<Rightarrow> bool" where
  "bonded m n \<longleftrightarrow> Name n = Name m \<and> Namespace n = Namespace m \<and>
     (adoptionStatus m = Some ''True'' \<and> getSelectorOwner m \<noteq> None \<longrightarrow>
        OwnerReferences n = OwnerReferences m \<and> adoptionStatus n = Some ''True'') \<and>
     ((adoptionStatus m = Some ''True'' \<longrightarrow> getSelectorOwner m \<noteq> None) \<longrightarrow>
        adoptionStatus n = Some ''True'' \<longrightarrow> getSelectorOwner n \<noteq> None)"

lemma sameBond_refl [simp]: "sameBond m m"
  by (simp add: sameBond_def)

lemma owner_cong: "OwnerReferences n = OwnerReferences m \<Longrightarrow> getSelectorOwner n = getSelectorOwner m"
  by (simp add: getSelectorOwner_eq)

lemma sameBond_bonded: "sameBond m n \<Longrightarrow> bonded m n"
  using owner_cong [of n m] by (auto simp: sameBond_def bonded_def)

lemma bonded_trans: "bonded m n \<Longrightarrow> bonded n p \<Longrightarrow> bonded m p"
  using owner_cong [of n m] owner_cong [of p n] by (auto simp: bonded_def)

lemma sameBond_upd [simp]:
  "sameBond m (updInvSpec f n) = sameBond m n"
  "sameBond m (updInvStatus (\<lambda>st. st\<lparr>mit_Plan := p\<rparr>) n) = sameBond m n"
  "ty \<noteq> AdoptionReadyCondition \<Longrightarrow> sameBond m (updInvConds (SetStatusCondition t (mkCondition ty r st msg)) n) = sameBond m n"
  "sameBond m (AddFinalizer fin n) = sameBond m n" "sameBond m (RemoveFinalizer fin n) = sameBond m n"
  by (simp_all add: sameBond_def adoptionStatus_def updInvSpec_def updInvStatus_def updInvConds_def
      AddFinalizer_def RemoveFinalizer_def)

lemma condTypes_differ [simp]: "ReadyCondition \<noteq> AdoptionReadyCondition" "NetworkConfigReady \<noteq> AdoptionReadyCondition"
  by (simp_all add: condition_types)

lemma same_parts:
  "safe (sameBond m) UNIV (createPlanSecret env)" "safe (sameBond m) UNIV (reconcileNetworkConfig env)"
  "safe (sameBond m) UNIV (updateInventoryWithPlanStatus env)" "safe (sameBond m) UNIV (reconcileResetPlanSecret env)"
proof -
  show "safe (sameBond m) UNIV (createPlanSecret env)"
    unfolding createPlanSecret_def by (intro safety) simp_all
  have claim: "safe (sameBond m) UNIV (claimStep env e)" for e
    unfolding claimStep_def Let_def by (intro safety) simp_all
  have addr: "safe (sameBond m) UNIV (addressLoop env es)" for es
    by (induction env es rule: addressLoop.induct) (auto intro!: safety)
  show "safe (sameBond m) UNIV (reconcileNetworkConfig env)"
    unfolding reconcileNetworkConfig_def by (intro safety claim addr)
  show plan: "safe (sameBond m) UNIV (updateInventoryWithPlanStatus env)"
    unfolding updateInventoryWithPlanStatus_def setPlanState_def Let_def by (intro safety) simp_all
  show "safe (sameBond m) UNIV (reconcileResetPlanSecret env)"
    unfolding reconcileResetPlanSecret_def updatePlanSecretWithReset_def newResetPlan_def newUnmanagedResetPlan_def
      dropFinalizer_def Let_def
    by (intro safety plan) simp_all
qed

lemma bondedI:
  assumes "\<And>s. wpre m (\<lambda>r s'. bonded (self s) (self s')) s"
  shows "safe (bonded x) UNIV m"
proof (rule safeI)
  fix s :: "MachineInventory st"
  assume "bonded x (self s)"
  with assms [of s] show "wpre m (\<lambda>r s'. bonded x (self s') \<and> (\<forall>p. r = Panic p \<longrightarrow> p \<in> UNIV)) s"
    by (auto intro: bonded_trans elim!: wpre_mono)
qed

lemma bonded_same: "(\<And>x. safe (sameBond x) UNIV m) \<Longrightarrow> safe (bonded y) UNIV m"
proof (rule bondedI)
  fix s :: "MachineInventory st"
  assume "\<And>x. safe (sameBond x) UNIV m"
  from safeD [OF this sameBond_refl] show "wpre m (\<lambda>r s'. bonded (self s) (self s')) s"
    by (rule wpre_mono) (simp add: sameBond_bonded)
qed

lemma removeOwner_name [simp]: "Name (removeSelectorOwnerShip m) = Name m" "Namespace (removeSelectorOwnerShip m) = Namespace m"
  by (simp_all add: removeSelectorOwnerShip_def split: option.split)

lemma names_conds [simp]: "Name (updInvConds f m) = Name m" "Namespace (updInvConds f m) = Namespace m"
  by (simp_all add: updInvConds_def updInvStatus_def)

lemma bonded_adoption: "safe (bonded x) UNIV (onErr (updateInventoryWithAdoptionStatus env)
    (failCond env AdoptionReadyCondition AdoptionFailureReason failedUpdate))"
proof (rule bondedI)
  fix s :: "MachineInventory st"
  have own: "getSelectorOwner (updInvConds f m) = getSelectorOwner m" for f m by simp
  show "wpre (onErr (updateInventoryWithAdoptionStatus env)
      (failCond env AdoptionReadyCondition AdoptionFailureReason failedUpdate)) (\<lambda>r s'. bonded (self s) (self s')) s"
    by (auto simp: updateInventoryWithAdoptionStatus_def wp Let_def bonded_def own
        adoptionStatus_def [of "self s"] split: option.split sum.split)
qed

lemma bonded_cond: "ty \<noteq> AdoptionReadyCondition \<Longrightarrow> bonded x n \<Longrightarrow>
    bonded x (updInvConds (SetStatusCondition t (mkCondition ty r st msg)) n)"
  by (rule bonded_trans, assumption, rule sameBond_bonded, simp)

lemma bonded_reconcile: "safe (bonded x) UNIV (reconcileInv env)"
proof -
  have cond: "safe (bonded x) UNIV (invCond env ty reason status msg)"
    "safe (bonded x) UNIV (failCond env ty reason wr e)" if "ty \<noteq> AdoptionReadyCondition" for ty reason status msg wr e
    using that by (auto intro!: safe_invCond safe_failCond bonded_cond)
  have fin: "safe (bonded x) UNIV (update (AddFinalizer f))" for f
    by (intro bonded_same safety) simp
  note parts = bonded_same [OF same_parts(1)] bonded_same [OF same_parts(2)]
    bonded_same [OF same_parts(3)] bonded_same [OF same_parts(4)]
  show ?thesis
    unfolding reconcileInv_def reconcileNetwork_def reconcileStatus_def
    by (intro safe_bnd [OF safe_gets] safe_bnd [OF bonded_adoption] safe_if safe_ret safe_andThen
        safe_onErr [OF parts(1)] safe_onErr [OF parts(2)] safe_onErr [OF parts(3)] safe_onErr [OF parts(4)]
        cond fin) simp_all
qed


subsection \<open>Every step keeps the agreement\<close>

lemma takes_call: "takes env m x t \<Longrightarrow> CPatch True (OInv m) (OInv (takenBy x m)) \<in> set t"
  by (induction t) auto

lemma takes_free:
  assumes "chained x" and "reconcileSel env (start x) = (r, t)" and "takes env m x (trace t)"
  shows "getSelectorOwner m = None \<and> slt_MachineInventoryRef (sl_Status x) = None"
proof -
  let ?c = "CPatch True (OInv m) (OInv (takenBy x m))"
  from wpreD [OF reconcileSel_writes [of "start x" env] assms(2)] assms(1) obtain vs ws where
    w: "writesOf (start x) t (vs @ ws)"
    and v: "vs \<noteq> [] \<longrightarrow> slt_MachineInventoryRef (sl_Status x) = None \<and> (\<exists>c. vs = [c] \<and> adopts env x c)"
    and b: "ws \<noteq> [] \<longrightarrow> (\<exists>c. ws = [c] \<and> bootstraps c)"
    by (auto simp: start_def)
  from w have "filter isWrite (rev (trace t)) = vs @ ws"
    by (simp add: writesOf_def start_def)
  moreover have "?c \<in> set (filter isWrite (rev (trace t)))" using takes_call [OF assms(3)] by simp
  ultimately have "?c \<in> set vs \<or> ?c \<in> set ws" by (metis Un_iff set_append)
  moreover have "?c \<notin> set ws" using b by (auto simp: bootstraps_def)
  ultimately have "vs = [?c]" using v by (cases vs) auto
  with v have "slt_MachineInventoryRef (sl_Status x) = None" "adopts env x ?c" by auto
  then show ?thesis by (auto simp: adopts_def)
qed

lemma takenBy_sel [simp]:
  "Name (takenBy x m) = Name m" "Namespace (takenBy x m) = Namespace m"
  "adoptionStatus (takenBy x m) = adoptionStatus m" "getSelectorOwner (takenBy x m) = Some (selectorRef x)"
  by (simp_all add: takenBy_def adoptionStatus_def getSelectorOwner_eq isSelectorRef_def selectorRef_def)

lemma adopted_owner: "adopted m x \<Longrightarrow> getSelectorOwner m \<noteq> None"
  by (auto simp: adopted_def ownedBy_def)

lemma agreeing_selector:
  assumes "agreeing (m, x)" and "sees env m x" and run: "reconcileSel env (start x) = (r, t)"
  shows "agreeing (if takes env m x (trace t) then takenBy x m else m, self t)"
    (is "agreeing (?m, _)")
proof -
  have ch: "chained x" using assms(1) by (simp add: agreeing_def)
  have "confirming env x (self (start x))" using grown_refl [OF ch] by (simp add: confirming_def start_def)
  from wpreD [OF safeD [OF confirming_reconcile this] run] have c: "confirming env x (self t)" by simp
  then have g: "grown x (self t)" by (simp add: confirming_def)
  have nm: "Name ?m = Name m" "Namespace ?m = Namespace m" "Name (self t) = Name x" "Namespace (self t) = Namespace m"
    using g assms(1) by (simp_all add: grown_def agreeing_def)
  have "adopted m x \<and> \<not> takes env m x (trace t)" if h: "holds (?m, self t)"
  proof (cases "inventoryReady x = Some ''True''")
    case True
    with ch g h nm(1) have "slt_MachineInventoryRef (sl_Status x) = Some (Name m)"
      by (simp add: grown_def chained_def holds_def)
    moreover from this True have "adopted m x" using assms(1) by (simp add: agreeing_def holds_def)
    ultimately show ?thesis using takes_free [OF ch run] by auto
  next
    case False
    with c h nm(1) obtain u y where a: "answer env (decodeOne asInv) (CGet KInv (Namespace x) (Name m)) u = Inr y"
      and y: "adopted y x"
      by (auto simp: confirming_def holds_def confirmedNow_def)
    from a have "y = m \<or> (y = takenBy x m \<and> getSelectorOwner m = None)"
      using assms(1,2) by (auto simp: sees_def agreeing_def)
    moreover have "\<not> (y = takenBy x m \<and> getSelectorOwner m = None)"
      using y assms(1) by (auto simp: agreeing_def adopted_def)
    ultimately have "adopted m x" using y by blast
    with adopted_owner takes_free [OF ch run] show ?thesis by blast
  qed
  then show ?thesis
    using g assms(1) nm by (auto simp: agreeing_def grown_def adopted_def ownedBy_def)
qed

lemma agreeing_inventory:
  assumes "agreeing (m, x)" and run: "reconcileInv env (start m) = (r, t)"
  shows "agreeing (self t, x)"
proof -
  have "bonded m (self (start m))" by (simp add: start_def sameBond_bonded)
  from wpreD [OF safeD [OF bonded_reconcile this] run] have b: "bonded m (self t)" by simp
  have "adopted (self t) x" if "holds (self t, x)"
  proof -
    have "adopted m x" using that b assms(1) by (simp add: agreeing_def holds_def bonded_def)
    then show ?thesis using b owner_cong [of "self t" m] by (auto simp: adopted_def ownedBy_def bonded_def)
  qed
  with b assms(1) show ?thesis by (auto simp: agreeing_def bonded_def)
qed

lemma agreeing_step: "agreeing p \<Longrightarrow> adoptStep p q \<Longrightarrow> agreeing q"
proof -
  assume a: "agreeing p" and "adoptStep p q"
  obtain m x where p: "p = (m, x)" by force
  with \<open>adoptStep p q\<close> have "adoptStep (m, x) q" by simp
  then show ?thesis
  proof (rule adoptStepE)
    fix env r t
    assume "q = (if takes env m x (trace t) then takenBy x m else m, self t)" "sees env m x"
      "reconcileSel env (start x) = (r, t)"
    with agreeing_selector a p show ?thesis by blast
  next
    fix env r t
    assume "q = (self t, x)" "reconcileInv env (start m) = (r, t)"
    with agreeing_inventory a p show ?thesis by blast
  next
    fix m' x'
    assume q: "q = (m', x')" and e: "Name m' = Name m" "Namespace m' = Namespace m" "OwnerReferences m' = OwnerReferences m"
      "mi_Status m' = mi_Status m" "Name x' = Name x" "Namespace x' = Namespace x" "sl_Status x' = sl_Status x"
    then show ?thesis using a p owner_cong [OF e(3)]
      by (simp add: agreeing_def holds_def adopted_def ownedBy_def adoptionStatus_def chained_def inventoryReady_def)
  qed
qed

interpretation adoption_life: life_cycle newPair adoptStep agreeing holds "\<lambda>p. adopted (fst p) (snd p)"
proof unfold_locales
  show "newPair p \<Longrightarrow> agreeing p" for p
    by (cases p) (simp add: newPair_def agreeing_def chained_def holds_def inventoryReady_def zeroSelStatus_def
        adoptionStatus_def zeroInventory_def condStatus_def FindStatusCondition_def ObjectMeta.defs)
  show "agreeing p \<Longrightarrow> adoptStep p q \<Longrightarrow> agreeing q" for p q
    by (rule agreeing_step)
  show "agreeing p \<Longrightarrow> holds p \<Longrightarrow> adopted (fst p) (snd p)" for p
    by (simp add: agreeing_def)
qed


section \<open>Runs\<close>

lemma owner_is: "ownedBy m x \<Longrightarrow> \<exists>o'. getSelectorOwner m = Some o' \<and> or_Name o' = Name x"
  by (simp add: ownedBy_def)

text \<open>A selector that waits for the inventory it took, and reads it confirmed, is confirmed by this run.\<close>

definition waitingFor :: "string \<Rightarrow> MachineInventorySelector \<Rightarrow> bool" where
  "waitingFor nm x \<longleftrightarrow> chained x \<and> DeletionTimestamp x = None \<and> slt_MachineInventoryRef (sl_Status x) = Some nm \<and>
     inventoryReady x \<noteq> None \<and> inventoryReady x \<noteq> Some ''True''"

lemma waiting_confirms:
  assumes "waitingFor nm (self s)" and "\<forall>t. answer env (decodeOne asInv) (CGet KInv (Namespace (self s)) nm) t = Inr m"
    and "adopted m (self s)"
  shows "wpre (reconcileSel env) (\<lambda>r s'. inventoryReady (self s') = Some ''True'' \<and>
    slt_MachineInventoryRef (sl_Status (self s')) = Some nm \<and> Name (self s') = Name (self s) \<and>
    Namespace (self s') = Namespace (self s)) s" (is "wpre _ ?Q s")
proof -
  have ch: "chained (self s)" using assms(1) by (simp add: waitingFor_def)
  have skip: "wpre (onErr (findAndAdoptInventory env) (failSel env ReadyCondition reason msg)) (\<lambda>r s'. r = Ok () \<and> s' = s) s"
    for reason msg
    using assms(1) by (simp add: findAndAdoptInventory_def wp waitingFor_def del: not_None_eq)
  obtain c where c: "FindStatusCondition (slt_Conditions (sl_Status (self s))) InventoryReadyCondition = Some c"
    "c_Status c \<noteq> ''True''"
    using assms(1) by (auto simp: waitingFor_def inventoryReady_def condStatus_def)
  obtain o' where o': "getSelectorOwner m = Some o'" "or_Name o' = Name (self s)"
    using assms(3) by (auto simp: adopted_def ownedBy_def)
  have orphan: "\<not> isOrphan m" using assms(3) o' by (simp add: isOrphan_def adopted_def adoptionStatus_def)
  have wait: "wpre (onErr (updateAdoptionStatus env) (failSel env InventoryReadyCondition reason msg))
      (\<lambda>r s'. grown (self s) (self s') \<and> inventoryReady (self s') = Some ''True'' \<and>
        slt_MachineInventoryRef (sl_Status (self s')) = Some nm) s" for reason msg
    using assms(1,2) c o' orphan ch
    by (simp add: updateAdoptionStatus_def wp Let_def waitingFor_def grown_def chained_def)
  have after: "wpre (andThen (onErr (updatePlanSecretWithBootstrap env) (failSel env ReadyCondition reason msg))
      (andThen (onErr (setInvetorySelectorAddresses env) (failSel env ReadyCondition reason2 msg2)) (ret res)))
      (\<lambda>r s'. grown (self u) (self s')) u" if "chained (self u)" for reason msg reason2 msg2 and res :: result and u
  proof (rule grown_from [OF that])
    have fl: "safe (grown (self u)) UNIV (failSel env ReadyCondition reason msg e)" for reason msg e
      unfolding failSel_def selCond_def by (intro safety) simp
    show "safe (grown (self u)) UNIV (andThen (onErr (updatePlanSecretWithBootstrap env) (failSel env ReadyCondition reason msg))
      (andThen (onErr (setInvetorySelectorAddresses env) (failSel env ReadyCondition reason2 msg2)) (ret res)))"
      by (intro safe_andThen safe_ret safe_onErr [OF safe_weaken [OF safe_bootstrap] fl]
          safe_onErr [OF safe_weaken [OF safe_addresses] fl]) simp_all
  qed
  have "wpre (andThen (onErr (findAndAdoptInventory env) (failSel env ReadyCondition reason msg))
      (bnd (onErr (updateAdoptionStatus env) (failSel env InventoryReadyCondition reason1 msg1))
      (\<lambda>requeue. andThen (onErr (updatePlanSecretWithBootstrap env) (failSel env ReadyCondition reason2 msg2))
      (andThen (onErr (setInvetorySelectorAddresses env) (failSel env ReadyCondition reason3 msg3))
       (ret (if requeue > 0 then requeueAfter requeue else noResult)))))) ?Q s" for reason msg reason1 msg1 reason2 msg2 reason3 msg3
  proof (rule wpre_andThenI [OF skip], goal_cases)
    case (1 x t)
    show ?case unfolding conjunct2 [OF 1]
    proof (rule wpre_bndI [OF wait], goal_cases)
      case (1 x u)
      then have "chained (self u)" by (simp add: grown_def)
      from after [OF this] show ?case
        by (rule wpre_mono) (use 1 in \<open>auto simp: grown_def\<close>)
    qed (auto simp: grown_def)
  qed simp_all
  with assms(1) show ?thesis by (simp add: reconcileSel_def wp_bnd wp_gets waitingFor_def)
qed


text \<open>The run in which a selector takes an inventory leaves it waiting for that inventory.\<close>

lemma started_at:
  assumes "condStatus cs ty \<noteq> Some st" and "t \<noteq> 0"
  shows "\<exists>c. FindStatusCondition (SetStatusCondition u ((mkCondition ty r st msg)\<lparr>c_LastTransitionTime := t\<rparr>) cs) ty = Some c \<and>
    c_Status c = st \<and> c_LastTransitionTime c = t"
  using assms Find_Set_same [of u "(mkCondition ty r st msg)\<lparr>c_LastTransitionTime := t\<rparr>" cs]
  by (auto simp: updateCondition_def stampOf_def condStatus_def Let_def split: option.split)

lemma takes_waits:
  assumes "chained x" and "DeletionTimestamp x = None" and "slt_MachineInventoryRef (sl_Status x) = None"
    and "LabelSelectorAsSelector env (sls_Selector (sl_Spec x)) = Inr q"
    and "answer env (decodeAll asInv) (CList KInv None q) [] = Inr items" and "pickInventory items = Some m"
    and "answer env (decodePut asInv (takenBy x m)) (CPatch True (OInv m) (OInv (takenBy x m))) [CList KInv None q] =
      Inr (takenBy x m)"
    and "inventoryReady x \<noteq> Some ''Unknown''"
    and "\<forall>t y. answer env (decodeOne asInv) (CGet KInv (Namespace x) (Name m)) t = Inr y \<longrightarrow>
      isOrphan y \<and> (getSelectorOwner y = None \<or> ownedBy y x)"
    and "\<forall>i j. clock env i \<le> clock env j + adoptionTimeout" and "\<forall>i. clock env i \<noteq> 0"
  shows "wpre (reconcileSel env) (\<lambda>r s'. waitingFor (Name m) (self s') \<and> takes env m x (trace s') \<and>
    Name (self s') = Name x \<and> Namespace (self s') = Namespace x \<and>
    slt_BootstrapPlanChecksum (sl_Status (self s')) = []) (start x)"
proof -
  have r: "inventoryReady x \<noteq> Some ''True''" and b: "slt_BootstrapPlanChecksum (sl_Status x) = []"
    "\<not> slt_Ready (sl_Status x)"
    using assms(1,3) by (auto simp: chained_def)
  let ?Q = "\<lambda>s'. waitingFor (Name m) (self s') \<and> takes env m x (trace s') \<and> Name (self s') = Name x \<and>
      Namespace (self s') = Namespace x \<and> slt_BootstrapPlanChecksum (sl_Status (self s')) = []"
  have st: "condStatus (SetStatusCondition (clock env 0) (mkCondition ReadyCondition WaitingForInventoryReason ''False'' [])
      (slt_Conditions (sl_Status x))) InventoryReadyCondition \<noteq> Some ''Unknown''"
    using assms(8) by (simp add: inventoryReady_def condition_types)
  from started_at [OF st, where t = "clock env (Suc 0)" and u = "clock env (Suc 0)" and r = WaitForInventoryCheckReason and msg = "[]"] assms(11)
  have begun: "\<exists>c. FindStatusCondition (SetStatusCondition (clock env (Suc 0))
      ((mkCondition InventoryReadyCondition WaitForInventoryCheckReason ''Unknown'' [])\<lparr>c_LastTransitionTime := clock env (Suc 0)\<rparr>)
      (SetStatusCondition (clock env 0) (mkCondition ReadyCondition WaitingForInventoryReason ''False'' [])
        (slt_Conditions (sl_Status x)))) InventoryReadyCondition = Some c \<and> c_Status c = ''Unknown'' \<and>
      (\<exists>i. c_LastTransitionTime c = clock env i)" by blast
  have find: "wpre (onErr (findAndAdoptInventory env) (failSel env ReadyCondition reason msg))
      (\<lambda>r s'. r = Ok () \<and> ?Q s' \<and>
        (\<exists>c i. FindStatusCondition (slt_Conditions (sl_Status (self s'))) InventoryReadyCondition = Some c \<and>
           c_Status c = ''Unknown'' \<and> c_LastTransitionTime c = clock env i)) (start x)" for reason msg
    using assms(1-8) r b begun
    by (auto simp: findAndAdoptInventory_def start_def wp waitingFor_def chained_def)
  have wait: "wpre (onErr (updateAdoptionStatus env) (failSel env InventoryReadyCondition reason msg)) (\<lambda>r s'. ?Q s') u"
    if "?Q u" "FindStatusCondition (slt_Conditions (sl_Status (self u))) InventoryReadyCondition = Some c"
      "c_Status c = ''Unknown''" "c_LastTransitionTime c = clock env i" for u c i reason msg
  proof (cases "answer env (decodeOne asInv) (CGet KInv (Namespace x) (Name m)) (trace u)")
    have nr: "\<not> slt_Ready (sl_Status (self u))" using that(1) by (auto simp: waitingFor_def chained_def)
    case (Inl e)
    with nr show ?thesis using that
      by (simp add: updateAdoptionStatus_def wp Let_def waitingFor_def chained_def)
  next
    have nr: "\<not> slt_Ready (sl_Status (self u))" using that(1) by (auto simp: waitingFor_def chained_def)
    case (Inr y)
    with assms(9) have y: "isOrphan y" "getSelectorOwner y = None \<or> ownedBy y x" by blast+
    then have "(case getSelectorOwner y of None \<Rightarrow> False | Some owner \<Rightarrow> or_Name owner \<noteq> Name (self u)) = False"
      using that(1) by (auto simp: ownedBy_def)
    moreover have "\<not> clock env i + adoptionTimeout < clock env j" for i j using assms(10) by (simp add: leD)
    ultimately show ?thesis using that Inr y(1) nr
      by (simp add: updateAdoptionStatus_def wp Let_def waitingFor_def chained_def)
  qed
  have after: "wpre (andThen (onErr (updatePlanSecretWithBootstrap env) (failSel env ReadyCondition reason msg))
      (andThen (onErr (setInvetorySelectorAddresses env) (failSel env ReadyCondition reason2 msg2)) (ret res)))
      (\<lambda>r s'. s' = u) u" if "?Q u" for reason msg reason2 msg2 and res :: result and u
    using that
    by (simp add: updatePlanSecretWithBootstrap_def setInvetorySelectorAddresses_def wp waitingFor_def inventoryReady_def)
  have "wpre (andThen (onErr (findAndAdoptInventory env) (failSel env ReadyCondition reason msg))
      (bnd (onErr (updateAdoptionStatus env) (failSel env InventoryReadyCondition reason1 msg1))
      (\<lambda>requeue. andThen (onErr (updatePlanSecretWithBootstrap env) (failSel env ReadyCondition reason2 msg2))
      (andThen (onErr (setInvetorySelectorAddresses env) (failSel env ReadyCondition reason3 msg3))
       (ret (if requeue > 0 then requeueAfter requeue else noResult)))))) (\<lambda>r s'. ?Q s') (start x)"
    for reason msg reason1 msg1 reason2 msg2 reason3 msg3
  proof (rule wpre_andThenI [OF find], goal_cases)
    case (1 y t)
    then obtain c i where c: "FindStatusCondition (slt_Conditions (sl_Status (self t))) InventoryReadyCondition = Some c"
      "c_Status c = ''Unknown''" "c_LastTransitionTime c = clock env i" and q: "?Q t" by blast
    show ?case
    proof (rule wpre_bndI [OF wait [OF q c]], goal_cases)
      case (1 z u)
      from after [OF 1] show ?case by (rule wpre_mono) (use 1 in simp)
    qed assumption+
  qed simp_all
  from this assms(2) show ?thesis by (simp add: reconcileSel_def wp_bnd wp_gets start_def)
qed


text \<open>The server lists \<open>m\<close> as the first free inventory and accepts that \<open>x\<close> takes it.\<close>

definition offers :: "env \<Rightarrow> MachineInventorySelector \<Rightarrow> MachineInventory \<Rightarrow> bool" where
  "offers env x m \<longleftrightarrow> (\<exists>q items. LabelSelectorAsSelector env (sls_Selector (sl_Spec x)) = Inr q \<and>
     answer env (decodeAll asInv) (CList KInv None q) [] = Inr items \<and> pickInventory items = Some m \<and>
     answer env (decodePut asInv (takenBy x m)) (CPatch True (OInv m) (OInv (takenBy x m))) [CList KInv None q] =
       Inr (takenBy x m))"

text \<open>The run takes less than the time an adoption may take.\<close>

definition prompt :: "env \<Rightarrow> bool" where
  "prompt env \<longleftrightarrow> (\<forall>i j. clock env i \<le> clock env j + adoptionTimeout) \<and> (\<forall>i. clock env i \<noteq> 0)"

definition unbound :: "MachineInventorySelector \<Rightarrow> bool" where
  "unbound x \<longleftrightarrow> chained x \<and> DeletionTimestamp x = None \<and> slt_MachineInventoryRef (sl_Status x) = None \<and>
     inventoryReady x \<noteq> Some ''Unknown''"

lemma offered_waits:
  assumes "unbound x" and "offers env x m" and "prompt env"
    and "\<forall>t y. answer env (decodeOne asInv) (CGet KInv (Namespace x) (Name m)) t = Inr y \<longrightarrow>
      isOrphan y \<and> (getSelectorOwner y = None \<or> ownedBy y x)"
    and "reconcileSel env (start x) = (r, s')"
  shows "waitingFor (Name m) (self s') \<and> takes env m x (trace s') \<and> Name (self s') = Name x \<and>
    Namespace (self s') = Namespace x"
proof -
  from assms(2) obtain q items where q: "LabelSelectorAsSelector env (sls_Selector (sl_Spec x)) = Inr q"
    "answer env (decodeAll asInv) (CList KInv None q) [] = Inr items" "pickInventory items = Some m"
    "answer env (decodePut asInv (takenBy x m)) (CPatch True (OInv m) (OInv (takenBy x m))) [CList KInv None q] =
       Inr (takenBy x m)" by (auto simp: offers_def)
  have u: "chained x" "DeletionTimestamp x = None" "slt_MachineInventoryRef (sl_Status x) = None"
    "inventoryReady x \<noteq> Some ''Unknown''" using assms(1) by (simp_all add: unbound_def)
  have c: "\<forall>i j. clock env i \<le> clock env j + adoptionTimeout" "\<forall>i. clock env i \<noteq> 0"
    using assms(3) by (simp_all add: prompt_def)
  from wpreD [OF takes_waits [OF u(1-3) q u(4) assms(4) c] assms(5)] show ?thesis by simp
qed

lemma adoption_names: "wpre (updateInventoryWithAdoptionStatus env) (\<lambda>r s'. Name (self s') = Name (self s)) s"
  by (auto simp: updateInventoryWithAdoptionStatus_def wp Let_def split: option.split sum.split)

lemma confirm_run:
  assumes "ownedBy m x" and "adoptionStatus m \<noteq> Some ''True''" and "Namespace m = Namespace x"
    and "answer env (decodeOne asSel) (CGet KSel (Namespace x) (Name x)) (trace s) = Inr y"
    and "slt_MachineInventoryRef (sl_Status y) = Some (Name m)"
    and "self s = m" and "updateInventoryWithAdoptionStatus env s = (r, s')"
  shows "r = Ok False \<and> adoptionStatus (self s') = Some ''True'' \<and> OwnerReferences (self s') = OwnerReferences m \<and>
    Name (self s') = Name m"
proof -
  obtain o' where o': "getSelectorOwner m = Some o'" "or_Name o' = Name x" using assms(1) by (auto simp: ownedBy_def)
  then have "selectorAnswer env s = Inr y" using assms(3,4,6) by (simp add: selectorAnswer_def)
  moreover have "verdictOf env s y = Confirm"
    using o' assms(2,5,6) by (simp add: verdictOf_def)
  ultimately have "enacts Confirm m r (self s')"
    using wpreD [OF adoption_wp assms(7)] o' assms(2,6) by simp
  then show ?thesis using wpreD [OF adoption_names assms(7)] assms(6) by (simp add: enacts_def)
qed

subsection \<open>A selector that cannot see its inventory\<close>

definition stuck :: "env \<Rightarrow> string \<Rightarrow> MachineInventorySelector \<Rightarrow> bool" where
  "stuck env nm x \<longleftrightarrow> waitingFor nm x \<and>
     (\<forall>t. \<exists>e. answer env (decodeOne asInv) (CGet KInv (Namespace x) nm) t = Inl e)"

lemma stuck_step:
  assumes "stuck env nm (self s)"
  shows "wpre (reconcileSel env) (\<lambda>r s'. (\<exists>e. r = Err e) \<and> stuck env nm (self s')) s"
proof -
  obtain e where e: "answer env (decodeOne asInv) (CGet KInv (Namespace (self s)) nm) (trace s) = Inl e"
    using assms by (auto simp: stuck_def)
  obtain c where c: "FindStatusCondition (slt_Conditions (sl_Status (self s))) InventoryReadyCondition = Some c"
    "c_Status c \<noteq> ''True''"
    using assms by (auto simp: stuck_def waitingFor_def inventoryReady_def condStatus_def)
  show ?thesis
    using assms e c
    by (auto simp: stuck_def waitingFor_def reconcileSel_def findAndAdoptInventory_def updateAdoptionStatus_def wp
        chained_def)
qed


section \<open>Properties\<close>

text \<open>
  C19: whatever the order in which the two reconcilers run and whatever users edit in between, as long as
  each run reads the other object as it is, a selector that holds an inventory for adopted and the
  inventory agree: the inventory is confirmed, and owned by the selector.
\<close>

theorem adoption_agreement:
  assumes "reach newPair adoptStep (m, x)" and "inventoryReady x = Some ''True''"
    and "slt_MachineInventoryRef (sl_Status x) = Some (Name m)"
  shows "adoptionStatus m = Some ''True'' \<and> (\<exists>o'. getSelectorOwner m = Some o' \<and> or_Name o' = Name x)"
proof -
  have "holds (m, x)" using assms(2,3) by (simp add: holds_def)
  from adoption_life.reach_usable [OF assms(1) this] show ?thesis
    by (simp add: adopted_def ownedBy_def)
qed

definition free_inventory :: MachineInventory where
  "free_inventory = zeroInventory\<lparr>Name := ''m'', Namespace := ''ns'', UID := ''u'',
     Finalizers := [MachineInventoryFinalizer]\<rparr>"

definition fresh_selector :: MachineInventorySelector where
  "fresh_selector = zeroSelector\<lparr>Name := ''sel'', Namespace := ''ns'', UID := ''v''\<rparr>"

definition plan_secret :: Secret where
  "plan_secret = ObjectMeta.extend (zeroMeta\<lparr>Name := ''m'', Namespace := ''ns''\<rparr>)
     \<lparr>sec_Type = PlanSecretType, sec_Data = Some [(''plan'', ''{}'')], sec_StringData = None\<rparr>"

definition still :: "env \<Rightarrow> env" where
  "still env = env\<lparr>clock := \<lambda>_. 1\<rparr>"

definition list_env :: env where
  "list_env = still (demo_env (\<lambda>c. if c = CList KInv None [] then Some (RObjs [OInv free_inventory]) else None) [])"

definition sel_env :: "MachineInventorySelector \<Rightarrow> env" where
  "sel_env x = demo_env (\<lambda>c. if c = CGet KSel ''ns'' ''sel'' then Some (RObjs [OSel x])
     else if c = CGet KSecret ''ns'' ''m'' then Some (RObjs [OSecret plan_secret]) else None) []"

definition inv_env :: "MachineInventory \<Rightarrow> env" where
  "inv_env m = demo_env (\<lambda>c. if c = CGet KInv ''ns'' ''m'' then Some (RObjs [OInv m]) else None) []"

definition sel1 :: MachineInventorySelector where
  "sel1 = self (snd (reconcileSel list_env (start fresh_selector)))"

definition inv1 :: MachineInventory where
  "inv1 = takenBy fresh_selector free_inventory"

definition inv2 :: MachineInventory where
  "inv2 = self (snd (reconcileInv (sel_env sel1) (start inv1)))"

definition sel2 :: MachineInventorySelector where
  "sel2 = self (snd (reconcileSel (inv_env inv2) (start sel1)))"

lemma list_env_reads: "answer list_env (decodeOne as) (CGet k ns nm) t = Inl (EApi NotFound ''not found'')"
  by (simp add: list_env_def still_def answer_def demo_env_def demo_respond_def notFound_def)

lemma sel_env_reads: "answer (sel_env x) (decodeOne asSel) (CGet KSel ''ns'' ''sel'') t = Inr x"
  by (simp add: sel_env_def answer_def demo_env_def demo_respond_def decodeOne_def)

lemma inv_env_reads: "answer (inv_env m) (decodeOne asInv) (CGet KInv ''ns'' ''m'') t = Inr m"
  by (simp add: inv_env_def answer_def demo_env_def demo_respond_def decodeOne_def)

lemma sel1_names: "Name sel1 = ''sel'' \<and> Namespace sel1 = ''ns''"
  by code_simp

lemma inv2_names: "Name inv2 = ''m'' \<and> Namespace inv2 = ''ns''"
  by code_simp

lemma sel2_ready: "inventoryReady sel2 = Some ''True'' \<and> slt_MachineInventoryRef (sl_Status sel2) = Some ''m''"
  by code_simp

lemma sel1_takes: "takes list_env free_inventory fresh_selector (trace (snd (reconcileSel list_env (start fresh_selector))))"
  by code_simp

lemma pair_reached: "reach newPair adoptStep (inv2, sel2)"
proof -
  have 0: "newPair (free_inventory, fresh_selector)" by code_simp
  have "sees list_env free_inventory fresh_selector" by (simp add: sees_def list_env_reads)
  from adoptStep.selector [OF this, of "fst (reconcileSel list_env (start fresh_selector))"
      "snd (reconcileSel list_env (start fresh_selector))"]
  have 1: "adoptStep (free_inventory, fresh_selector) (inv1, sel1)"
    by (simp add: sel1_takes inv1_def sel1_def)
  have "looksAt (sel_env sel1) sel1" using sel1_names by (simp add: looksAt_def sel_env_reads)
  from adoptStep.inventory [OF this, of inv1 "fst (reconcileInv (sel_env sel1) (start inv1))"
      "snd (reconcileInv (sel_env sel1) (start inv1))"]
  have 2: "adoptStep (inv1, sel1) (inv2, sel1)" by (simp add: inv2_def)
  have "\<not> takes (inv_env inv2) inv2 sel1 (trace (snd (reconcileSel (inv_env inv2) (start sel1))))" by code_simp
  moreover have "sees (inv_env inv2) inv2 sel1" using inv2_names by (simp add: sees_def inv_env_reads)
  ultimately have 3: "adoptStep (inv2, sel1) (inv2, sel2)"
    using adoptStep.selector [of "inv_env inv2" inv2 sel1 "fst (reconcileSel (inv_env inv2) (start sel1))"
        "snd (reconcileSel (inv_env inv2) (start sel1))"]
    by (simp add: sel2_def)
  have "reach newPair adoptStep (free_inventory, fresh_selector)" by (rule reach_fresh) (rule 0)
  then have "reach newPair adoptStep (inv1, sel1)" by (rule reach_step) (rule 1)
  then have "reach newPair adoptStep (inv2, sel1)" by (rule reach_step) (rule 2)
  then show ?thesis by (rule reach_step) (rule 3)
qed

theorem adoption_agreement_witness: "adoptionStatus inv2 = Some ''True''"
  using adoption_agreement [OF pair_reached] sel2_ready inv2_names by simp


text \<open>
  C20: an adoption that nothing disturbs is complete after three runs: the selector's takes the inventory
  that is free, the inventory's handler confirms it, the selector's notices; it does not matter how
  long after each other they come, nor what fails of the rest of the last run.
\<close>

theorem handshake_completes:
  assumes "unbound x" and "offers env1 x m" and "prompt env1" and "sees env1 m x"
    and "Namespace m = Namespace x" and "adoptionStatus m \<noteq> Some ''True''" and "getSelectorOwner m = None"
    and "reconcileSel env1 (start x) = (r1, s1)"
    and "answer env2 (decodeOne asSel) (CGet KSel (Namespace x) (Name x)) [] = Inr (self s1)"
    and "updateInventoryWithAdoptionStatus env2 (start (takenBy x m)) = (r2, s2)"
    and "\<forall>t. answer env3 (decodeOne asInv) (CGet KInv (Namespace x) (Name m)) t = Inr (self s2)"
    and "reconcileSel env3 (start (self s1)) = (r3, s3)"
  shows "takes env1 m x (trace s1) \<and> r2 = Ok False \<and> holds (self s2, self s3) \<and> adopted (self s2) (self s3)"
proof -
  have "\<forall>t y. answer env1 (decodeOne asInv) (CGet KInv (Namespace x) (Name m)) t = Inr y \<longrightarrow>
      isOrphan y \<and> (getSelectorOwner y = None \<or> ownedBy y x)"
  proof (intro allI impI)
    fix t y
    assume "answer env1 (decodeOne asInv) (CGet KInv (Namespace x) (Name m)) t = Inr y"
    with assms(4,5) have "y = m \<or> y = takenBy x m" by (auto simp: sees_def)
    then have "adoptionStatus y = adoptionStatus m" "getSelectorOwner y = None \<or> ownedBy y x"
      using assms(7) by (auto simp: ownedBy_def) (simp_all add: selectorRef_def)
    then show "isOrphan y \<and> (getSelectorOwner y = None \<or> ownedBy y x)"
      using assms(6) by (simp add: isOrphan_def adoptionStatus_def)
  qed
  from offered_waits [OF assms(1-3) this assms(8)] have 1: "waitingFor (Name m) (self s1)"
    "takes env1 m x (trace s1)" "Name (self s1) = Name x" "Namespace (self s1) = Namespace x" by simp_all
  have "ownedBy (takenBy x m) x" by (simp add: ownedBy_def selectorRef_def)
  moreover have "slt_MachineInventoryRef (sl_Status (self s1)) = Some (Name (takenBy x m))"
    using 1(1) by (simp add: waitingFor_def)
  ultimately have 2: "r2 = Ok False" "adoptionStatus (self s2) = Some ''True''" "Name (self s2) = Name m"
    "OwnerReferences (self s2) = OwnerReferences (takenBy x m)"
    using confirm_run [of "takenBy x m" x env2 "start (takenBy x m)" "self s1" r2 s2] assms(5,6,9,10)
    by (simp_all add: start_def)
  then have own: "getSelectorOwner (self s2) = Some (selectorRef x)"
    using owner_cong [OF 2(4)] by simp
  then have ad: "adopted (self s2) (self (start (self s1)))"
    using 2(2) 1(3) by (simp add: adopted_def ownedBy_def selectorRef_def start_def)
  have w: "waitingFor (Name m) (self (start (self s1)))" using 1(1) by (simp add: start_def)
  have g: "\<forall>t. answer env3 (decodeOne asInv) (CGet KInv (Namespace (self (start (self s1)))) (Name m)) t = Inr (self s2)"
    using assms(11) 1(4) by (simp add: start_def)
  from wpreD [OF waiting_confirms [OF w g ad] assms(12)] 1(2) 2 ad show ?thesis
    by (simp add: holds_def adopted_def ownedBy_def start_def)
qed

theorem handshake_completes_witness:
  "holds (self (snd (updateInventoryWithAdoptionStatus (sel_env sel1) (start inv1))),
     self (snd (reconcileSel (inv_env (self (snd (updateInventoryWithAdoptionStatus (sel_env sel1) (start inv1)))))
       (start sel1))))"
proof -
  let ?m = free_inventory and ?x = fresh_selector
  let ?i2 = "self (snd (updateInventoryWithAdoptionStatus (sel_env sel1) (start (takenBy ?x ?m))))"
  have names: "Name ?m = ''m''" "Namespace ?m = ''ns''" "Namespace ?x = ''ns''" "Name ?x = ''sel''"
    by (simp_all add: free_inventory_def fresh_selector_def)
  have u: "unbound ?x" by code_simp
  have "LabelSelectorAsSelector list_env (sls_Selector (sl_Spec ?x)) = Inr []" "pickInventory [?m] = Some ?m"
    by code_simp+
  then have o: "offers list_env ?x ?m" unfolding offers_def
    by (intro exI [of _ "[]"] exI [of _ "[?m]"])
      (simp add: list_env_def still_def answer_def demo_env_def demo_respond_def decodeAll_def decodePut_def)
  have p: "prompt list_env" by (simp add: prompt_def list_env_def still_def adoptionTimeout_def second_def)
  have s: "sees list_env ?m ?x" by (simp add: sees_def list_env_reads)
  have m: "Namespace ?m = Namespace ?x" "adoptionStatus ?m \<noteq> Some ''True''" "getSelectorOwner ?m = None" by code_simp+
  have r1: "reconcileSel list_env (start ?x) =
      (fst (reconcileSel list_env (start ?x)), snd (reconcileSel list_env (start ?x)))" by simp
  have a: "answer (sel_env sel1) (decodeOne asSel) (CGet KSel (Namespace ?x) (Name ?x)) [] =
      Inr (self (snd (reconcileSel list_env (start ?x))))"
    unfolding names sel_env_reads by (simp add: sel1_def)
  have b: "\<forall>t. answer (inv_env ?i2) (decodeOne asInv) (CGet KInv (Namespace ?x) (Name ?m)) t = Inr ?i2"
    unfolding names by (simp add: inv_env_reads)
  have "holds (?i2, self (snd (reconcileSel (inv_env ?i2) (start (self (snd (reconcileSel list_env (start ?x))))))))"
    using handshake_completes [OF u o p s m r1 a prod.collapse [symmetric] b prod.collapse [symmetric]] by blast
  then show ?thesis by (simp add: inv1_def sel1_def)
qed


text \<open>
  C21: two runs that read before either has written can part the two: when the time is up, the selector's
  run drops its reference while the inventory's, from the selector it read, confirms. Both writes
  succeed, for they are to different objects; from then on the inventory stays confirmed and owned,
  no run of its handler gives it free, and no selector can take it.
\<close>

theorem adoption_race:
  assumes "waitingFor (Name m) x" and "ownedBy m x" and "adoptionStatus m \<noteq> Some ''True''"
    and "Namespace m = Namespace x"
    and "FindStatusCondition (slt_Conditions (sl_Status x)) InventoryReadyCondition = Some c"
    and "\<forall>t. answer env1 (decodeOne asInv) (CGet KInv (Namespace x) (Name m)) t = Inr m"
    and "\<forall>i. c_LastTransitionTime c + adoptionTimeout < clock env1 i"
    and "\<forall>t. answer env2 (decodeOne asSel) (CGet KSel (Namespace x) (Name x)) t = Inr x"
    and "reconcileSel env1 (start x) = (r1, s1)"
    and "updateInventoryWithAdoptionStatus env2 (start m) = (r2, s2)"
  shows "slt_MachineInventoryRef (sl_Status (self s1)) = None \<and> adopted (self s2) x \<and>
    (\<forall>env3 s3. self s3 = self s2 \<longrightarrow> updateInventoryWithAdoptionStatus env3 s3 = (Ok False, s3)) \<and>
    (\<forall>items. pickInventory items \<noteq> Some (self s2))"
proof -
  obtain o' where o': "getSelectorOwner m = Some o'" "or_Name o' = Name x" using assms(2) by (auto simp: ownedBy_def)
  have orphan: "isOrphan m" using assms(3) by (simp add: isOrphan_def adoptionStatus_def)
  have cs: "c_Status c \<noteq> ''True''"
    using assms(1,5) by (simp add: waitingFor_def inventoryReady_def condStatus_def)
  have "wpre (reconcileSel env1) (\<lambda>r s'. slt_MachineInventoryRef (sl_Status (self s')) = None) (start x)"
    using assms(1,5,6,7) cs o' orphan
    by (simp add: reconcileSel_def findAndAdoptInventory_def updateAdoptionStatus_def wp Let_def waitingFor_def start_def)
  from wpreD [OF this assms(9)] have 1: "slt_MachineInventoryRef (sl_Status (self s1)) = None" .
  have "slt_MachineInventoryRef (sl_Status x) = Some (Name m)" using assms(1) by (simp add: waitingFor_def)
  from confirm_run [OF assms(2-4) _ this _ assms(10)] assms(8)
  have 2: "adoptionStatus (self s2) = Some ''True''" "OwnerReferences (self s2) = OwnerReferences m"
    by (simp_all add: start_def)
  have own: "getSelectorOwner (self s2) = Some o'" using owner_cong [OF 2(2)] o' by simp
  have keep: "updateInventoryWithAdoptionStatus env3 s3 = (Ok False, s3)" if "self s3 = self s2" for env3 s3
    using that own 2(1) by (simp add: updateInventoryWithAdoptionStatus_def run adoptionStatus_def)
  have "pickInventory items \<noteq> Some (self s2)" for items
    using pickInventory_free [of items "self s2"] own by auto
  with 1 2 own o' keep show ?thesis by (auto simp: adopted_def ownedBy_def)
qed

definition late_env :: "MachineInventory \<Rightarrow> env" where
  "late_env m = (inv_env m)\<lparr>clock := \<lambda>_. 10 * adoptionTimeout\<rparr>"

theorem adoption_race_witness:
  "slt_MachineInventoryRef (sl_Status (self (snd (reconcileSel (late_env inv1) (start sel1))))) = None \<and>
   adopted (self (snd (updateInventoryWithAdoptionStatus (sel_env sel1) (start inv1)))) sel1"
proof -
  have names: "Name inv1 = ''m''" "Namespace sel1 = ''ns''" "Name sel1 = ''sel''" by code_simp+
  have w: "waitingFor (Name inv1) sel1"
    unfolding waitingFor_def by (intro conjI) code_simp+
  have o: "ownedBy inv1 sel1"
    by (simp add: ownedBy_def inv1_def names selectorRef_def) (simp add: fresh_selector_def)
  have s: "adoptionStatus inv1 \<noteq> Some ''True''" "Namespace inv1 = Namespace sel1" by code_simp+
  obtain c where c: "FindStatusCondition (slt_Conditions (sl_Status sel1)) InventoryReadyCondition = Some c"
    using w by (auto simp: waitingFor_def inventoryReady_def condStatus_def)
  have "map_option c_LastTransitionTime (FindStatusCondition (slt_Conditions (sl_Status sel1)) InventoryReadyCondition) = Some 1"
    by code_simp
  then have t: "\<forall>i. c_LastTransitionTime c + adoptionTimeout < clock (late_env inv1) i"
    using c by (simp add: late_env_def adoptionTimeout_def second_def)
  have a: "\<forall>t. answer (late_env inv1) (decodeOne asInv) (CGet KInv (Namespace sel1) (Name inv1)) t = Inr inv1"
    unfolding names by (simp add: late_env_def inv_env_def answer_def demo_env_def demo_respond_def decodeOne_def)
  have b: "\<forall>t. answer (sel_env sel1) (decodeOne asSel) (CGet KSel (Namespace sel1) (Name sel1)) t = Inr sel1"
    unfolding names by (simp add: sel_env_reads)
  from adoption_race [OF w o s c a t b prod.collapse [symmetric] prod.collapse [symmetric]] show ?thesis by blast
qed

text \<open>
  A selector lists the inventories of all namespaces but reads the one it took in its own. When the
  first free one is of another namespace, the selector waits forever for what it cannot see: every
  later run fails and keeps the reference, and the inventory, whose handler in turn does not find the
  selector in its namespace, keeps the owner.
\<close>

theorem cross_namespace_stuck:
  assumes "unbound x" and "offers env x m" and "prompt env" and "Namespace m \<noteq> Namespace x"
    and "\<forall>t. \<exists>e. answer env (decodeOne asInv) (CGet KInv (Namespace x) (Name m)) t = Inl e"
    and "\<forall>t. \<exists>e. answer env2 (decodeOne asSel) (CGet KSel (Namespace m) (Name x)) t = Inl e"
    and "adoptionStatus m \<noteq> Some ''True''" and "reconcileSel env (start x) = (r, s')"
  shows "takes env m x (trace s') \<and> stuck env (Name m) (self s') \<and>
    (\<forall>u. stuck env (Name m) (self u) \<longrightarrow>
      (\<exists>e u'. reconcileSel env u = (Err e, u') \<and> stuck env (Name m) (self u'))) \<and>
    (\<forall>u. self u = takenBy x m \<longrightarrow>
      (\<exists>e u'. updateInventoryWithAdoptionStatus env2 u = (Err e, u') \<and> self u' = takenBy x m))"
proof -
  have "\<forall>t y. answer env (decodeOne asInv) (CGet KInv (Namespace x) (Name m)) t = Inr y \<longrightarrow>
      isOrphan y \<and> (getSelectorOwner y = None \<or> ownedBy y x)"
    using assms(5) by (metis Inl_Inr_False)
  from offered_waits [OF assms(1-3) this assms(8)] have 1: "takes env m x (trace s')" "stuck env (Name m) (self s')"
    using assms(5) by (simp_all add: stuck_def)
  have 2: "\<exists>e u'. reconcileSel env u = (Err e, u') \<and> stuck env (Name m) (self u')" if "stuck env (Name m) (self u)" for u
    using stuck_step [OF that] by (auto simp: wpre_def split: prod.splits)
  have 3: "\<exists>e u'. updateInventoryWithAdoptionStatus env2 u = (Err e, u') \<and> self u' = takenBy x m"
    if "self u = takenBy x m" for u
  proof -
    obtain r' u' where run: "updateInventoryWithAdoptionStatus env2 u = (r', u')" by force
    obtain e where e: "answer env2 (decodeOne asSel) (CGet KSel (Namespace m) (Name x)) (trace u) = Inl e"
      using assms(6) by blast
    then have "selectorAnswer env2 u = Inl e" using that by (simp add: selectorAnswer_def selectorRef_def)
    with wpreD [OF adoption_wp run] that assms(7) have "r' = Err (wrap ''failed to get machine inventory selector'' e)"
      "self u' = takenBy x m" by simp_all
    with run show ?thesis by blast
  qed
  from 1 2 3 show ?thesis by blast
qed

definition foreign_inventory :: MachineInventory where
  "foreign_inventory = free_inventory\<lparr>Namespace := ''other''\<rparr>"

definition foreign_env :: env where
  "foreign_env = still (demo_env (\<lambda>c. if c = CList KInv None [] then Some (RObjs [OInv foreign_inventory]) else None) [])"

theorem cross_namespace_stuck_witness:
  "stuck foreign_env ''m'' (self (snd (reconcileSel foreign_env (start fresh_selector))))"
proof -
  let ?m = foreign_inventory and ?x = fresh_selector
  have nm: "Name ?m = ''m''" "Namespace ?m \<noteq> Namespace ?x" "adoptionStatus ?m \<noteq> Some ''True''" by code_simp+
  have u: "unbound ?x" by code_simp
  have "LabelSelectorAsSelector foreign_env (sls_Selector (sl_Spec ?x)) = Inr []" "pickInventory [?m] = Some ?m"
    by code_simp+
  then have o: "offers foreign_env ?x ?m" unfolding offers_def
    by (intro exI [of _ "[]"] exI [of _ "[?m]"])
      (simp add: foreign_env_def still_def answer_def demo_env_def demo_respond_def decodeAll_def decodePut_def)
  have p: "prompt foreign_env" by (simp add: prompt_def foreign_env_def still_def adoptionTimeout_def second_def)
  have "\<forall>t. \<exists>e. answer foreign_env (decodeOne asInv) (CGet KInv (Namespace ?x) (Name ?m)) t = Inl e"
    "\<forall>t. \<exists>e. answer foreign_env (decodeOne asSel) (CGet KSel (Namespace ?m) (Name ?x)) t = Inl e"
    by (simp_all add: foreign_env_def still_def answer_def demo_env_def demo_respond_def notFound_def)
  from cross_namespace_stuck [OF u o p nm(2) this nm(3) prod.collapse [symmetric]] show ?thesis
    unfolding nm(1) by blast
qed

end
