(* ===== verification/CtlLib.thy ===== *)
theory CtlLib
  imports Reconciler
begin

text \<open>
  What the reconcilers of images, versions and channels share: the owner references of
  \<^verbatim>\<open>controllerutil\<close>, the names of \<^verbatim>\<open>wrangler\<close>, and the helpers of \<^verbatim>\<open>pkg/util/util.go\<close> for
  cloud-config and URLs.
\<close>

section \<open>Owner references\<close>

text \<open>The group of an API version; none for a text that is not one.\<close>

definition apiGroup :: "string \<Rightarrow> string option" where
  "apiGroup gv = (if gv = [] \<or> gv = ''/'' then Some []
     else case str_split gv ''/'' of [_] \<Rightarrow> Some [] | [g, _] \<Rightarrow> Some g | _ \<Rightarrow> None)"

definition referSameObject :: "OwnerReference \<Rightarrow> OwnerReference \<Rightarrow> bool" where
  "referSameObject a b \<longleftrightarrow> (case (apiGroup (or_APIVersion a), apiGroup (or_APIVersion b)) of
      (Some g, Some h) \<Rightarrow> g = h \<and> or_Kind a = or_Kind b \<and> or_Name a = or_Name b
    | _ \<Rightarrow> False)"

definition validateOwner :: "('a ObjectMeta_scheme) \<Rightarrow> ('b ObjectMeta_scheme) \<Rightarrow> goerr + unit" where
  "validateOwner owner object =
    (if Namespace owner = [] then Inr ()
     else if Namespace object = []
     then Inl (EMsg (''cluster-scoped resource must not have a namespace-scoped owner, owner's namespace ''
            @ Namespace owner))
     else if Namespace owner \<noteq> Namespace object
     then Inl (EMsg (''cross-namespace owner references are disallowed, owner's namespace '' @ Namespace owner
            @ '', obj's namespace '' @ Namespace object))
     else Inr ())"

definition upsertOwnerRef :: "OwnerReference \<Rightarrow> OwnerReference list \<Rightarrow> OwnerReference list" where
  "upsertOwnerRef ref owners =
    (if list_ex (\<lambda>r. referSameObject r ref) owners
     then setFirst (\<lambda>r. referSameObject r ref) (\<lambda>_. ref) owners
     else owners @ [ref])"

text \<open>The group, version and kind of the owner are those its type is registered with.\<close>

definition SetOwnerReference :: "string \<Rightarrow> ('a ObjectMeta_scheme) \<Rightarrow> ('b ObjectMeta_scheme)
    \<Rightarrow> goerr + ('b ObjectMeta_scheme)" where
  "SetOwnerReference kd owner object = (case validateOwner owner object of
      Inl e \<Rightarrow> Inl e
    | Inr _ \<Rightarrow> Inr (object\<lparr>OwnerReferences := upsertOwnerRef
        \<lparr>or_APIVersion = GroupVersion, or_Kind = kd, or_Name = Name owner, or_UID = UID owner,
          or_Controller = None, or_BlockOwnerDeletion = None\<rparr> (OwnerReferences object)\<rparr>))"

definition GetControllerOf :: "('a ObjectMeta_scheme) \<Rightarrow> OwnerReference option" where
  "GetControllerOf object = find (\<lambda>r. or_Controller r = Some True) (OwnerReferences object)"

definition SetControllerReference :: "string \<Rightarrow> ('a ObjectMeta_scheme) \<Rightarrow> ('b ObjectMeta_scheme)
    \<Rightarrow> goerr + ('b ObjectMeta_scheme)" where
  "SetControllerReference kd owner controlled = (case validateOwner owner controlled of
      Inl e \<Rightarrow> Inl e
    | Inr _ \<Rightarrow>
        (let ref = \<lparr>or_APIVersion = GroupVersion, or_Kind = kd, or_Name = Name owner, or_UID = UID owner,
               or_Controller = Some True, or_BlockOwnerDeletion = Some True\<rparr>
         in case GetControllerOf controlled of
              Some existing \<Rightarrow>
                if referSameObject existing ref
                then Inr (controlled\<lparr>OwnerReferences := upsertOwnerRef ref (OwnerReferences controlled)\<rparr>)
                else Inl (EMsg (''Object '' @ Namespace controlled @ ''/'' @ Name controlled
                       @ '' is already owned by another '' @ or_Kind existing @ '' controller ''
                       @ or_Name existing))
            | None \<Rightarrow> Inr (controlled\<lparr>OwnerReferences := upsertOwnerRef ref (OwnerReferences controlled)\<rparr>)))"

lemma SetControllerReference_fresh:
  assumes "OwnerReferences x = []" and "Namespace x = Namespace owner"
  shows "SetControllerReference kd owner x = Inr (x\<lparr>OwnerReferences :=
    [\<lparr>or_APIVersion = GroupVersion, or_Kind = kd, or_Name = Name owner, or_UID = UID owner,
      or_Controller = Some True, or_BlockOwnerDeletion = Some True\<rparr>]\<rparr>)"
  using assms by (simp add: SetControllerReference_def validateOwner_def GetControllerOf_def upsertOwnerRef_def)

lemma IsObjectOwned_alt: "IsObjectOwned x uid \<longleftrightarrow> (\<exists>r \<in> set (OwnerReferences x). or_UID r = uid)"
  by (simp add: IsObjectOwned_def list_ex_iff)

lemma upsertOwnerRef_in: "apiGroup (or_APIVersion ref) \<noteq> None \<Longrightarrow> ref \<in> set (upsertOwnerRef ref rs)"
proof -
  have "list_ex p rs \<Longrightarrow> y \<in> set (setFirst p (\<lambda>_. y) rs)" for p and y :: OwnerReference
    by (induction rs) auto
  then show ?thesis by (auto simp: upsertOwnerRef_def)
qed

section \<open>Names, pull secrets, URLs\<close>

definition SafeConcatName :: "lib \<Rightarrow> string list \<Rightarrow> string" where
  "SafeConcatName l names =
    (let fullPath = str_join names ''-'' in
     if length fullPath < 64 then fullPath
     else let digest = sha256_hex l fullPath; c = fullPath ! 56 in
       if is_lower c \<or> is_digit c then take 57 fullPath @ ''-'' @ take 5 digest
       else take 56 fullPath @ ''-'' @ take 6 digest)"

lemma SafeConcatName_length: "length (SafeConcatName l names) < 64"
  by (auto simp: SafeConcatName_def Let_def min_def)

text \<open>
  The secrets of the reconciler, then those of the object; \<^verbatim>\<open>slices.CompactFunc\<close> drops a name
  only when it repeats the one before it.
\<close>

definition pullSecretsOf :: "string list \<Rightarrow> string list \<Rightarrow> string list" where
  "pullSecretsOf secrets own = compact_on id (secrets @ own)"

text \<open>The scheme of a URL as \<^verbatim>\<open>net/url\<close> finds it; a leading colon makes \<^verbatim>\<open>url.Parse\<close> fail.\<close>

fun schemeLen :: "nat \<Rightarrow> string \<Rightarrow> nat option" where
  "schemeLen i [] = None"
| "schemeLen i (c # s) =
    (if is_lower c \<or> is_upper c then schemeLen (Suc i) s
     else if is_digit c \<or> c \<in> set ''+-.'' then (if i = 0 then None else schemeLen (Suc i) s)
     else if c = CHR '':'' then Some i
     else None)"

definition urlScheme :: "string \<Rightarrow> string" where
  "urlScheme uri = (case schemeLen 0 uri of None \<Rightarrow> [] | Some i \<Rightarrow> to_lower (take i uri))"

definition IsHTTP :: "lib \<Rightarrow> string \<Rightarrow> bool" where
  "IsHTTP l uri \<longleftrightarrow> url_ok l uri \<and> has_prefix (urlScheme uri) ''http''"

section \<open>Cloud-config\<close>

text \<open>A byte array as the text of its bytes.\<close>

definition textOf :: "bytes \<Rightarrow> string" where
  "textOf bs = map (\<lambda>b. char_of (unat b)) bs"

definition JSONObjectToYamlBytes :: "lib \<Rightarrow> string gomap \<Rightarrow> goerr + string" where
  "JSONObjectToYamlBytes l object = (case to_yaml_object l object of
      [] \<Rightarrow> Inl (EMsg ''could not convert json object to yaml'')
    | v # _ \<Rightarrow> (case yaml_value l v of
        Inl e \<Rightarrow> Inl (wrap ''marshalling yaml'' e) | Inr y \<Rightarrow> Inr y))"

definition cloudConfigHeader :: string where
  "cloudConfigHeader = ''#cloud-config'' @ [CHR 0x0A]"

definition MarshalCloudConfig :: "lib \<Rightarrow> string gomap \<Rightarrow> goerr + string" where
  "MarshalCloudConfig l cloudConfig =
    (if mentries cloudConfig = [] then Inr []
     else case JSONObjectToYamlBytes l cloudConfig of
       Inl e \<Rightarrow> Inl (wrap ''converting cloud config to yaml'' e)
     | Inr yamlData \<Rightarrow> (case yip_stages l yamlData of
         Inr n \<Rightarrow> if 0 < n then Inr yamlData else Inr (cloudConfigHeader @ yamlData)
       | Inl _ \<Rightarrow> Inr (cloudConfigHeader @ yamlData)))"

section \<open>Order of strings\<close>

text \<open>The order of \<^verbatim>\<open>sort.Strings\<close>, by bytes.\<close>

fun str_le :: "string \<Rightarrow> string \<Rightarrow> bool" where
  "str_le [] t = True"
| "str_le (c # s) [] = False"
| "str_le (c # s) (d # t) = (code c < code d \<or> c = d \<and> str_le s t)"

section \<open>What a handler may do\<close>

text \<open>
  \<open>acts I E P m\<close>: from a state whose object satisfies \<open>I\<close>, a run of \<open>m\<close> keeps \<open>I\<close>, panics, if at
  all, with a message of \<open>E\<close>, and adds only calls that satisfy \<open>P\<close> to the trace.
\<close>

named_theorems acting \<open>introduction rules for what a handler may do\<close>

definition added :: "(call \<Rightarrow> bool) \<Rightarrow> call list \<Rightarrow> call list \<Rightarrow> bool" where
  "added P t t' \<longleftrightarrow> (\<exists>cs. t' = cs @ t \<and> list_all P cs)"

definition acts :: "('o \<Rightarrow> bool) \<Rightarrow> string set \<Rightarrow> (call \<Rightarrow> bool) \<Rightarrow> ('o st, 'a) go \<Rightarrow> bool" where
  "acts I E P m \<longleftrightarrow> (\<forall>s. I (self s) \<longrightarrow>
     wpre m (\<lambda>r s'. I (self s') \<and> (\<forall>p. r = Panic p \<longrightarrow> p \<in> E) \<and> added P (trace s) (trace s')) s)"

lemma added_refl [simp]: "added P t t"
  by (simp add: added_def)

lemma added_Cons [simp]: "P c \<Longrightarrow> added P t (c # t)"
  unfolding added_def by (rule exI [of _ "[c]"]) simp

lemma added_trans: "added P t u \<Longrightarrow> added P u v \<Longrightarrow> added P t v"
  unfolding added_def by (metis append_assoc list_all_append)

lemma added_mono: "added P t u \<Longrightarrow> (\<And>c. P c \<Longrightarrow> Q c) \<Longrightarrow> added Q t u"
  unfolding added_def by (metis list_all_iff)

lemma addedD: "added P t u \<Longrightarrow> c \<in> set u \<Longrightarrow> c \<in> set t \<or> P c"
  by (auto simp: added_def list_all_iff)

lemma actsI: "(\<And>s. I (self s) \<Longrightarrow> wpre m (\<lambda>r s'. I (self s') \<and> (\<forall>p. r = Panic p \<longrightarrow> p \<in> E)
    \<and> added P (trace s) (trace s')) s) \<Longrightarrow> acts I E P m"
  by (simp add: acts_def)

lemma actsD: "acts I E P m \<Longrightarrow> I (self s) \<Longrightarrow> wpre m (\<lambda>r s'. I (self s') \<and> (\<forall>p. r = Panic p \<longrightarrow> p \<in> E)
    \<and> added P (trace s) (trace s')) s"
  by (simp add: acts_def)

lemma acts_run: "acts I E P m \<Longrightarrow> I (self s) \<Longrightarrow> m s = (r, s') \<Longrightarrow>
    I (self s') \<and> (\<forall>p. r = Panic p \<longrightarrow> p \<in> E) \<and> added P (trace s) (trace s')"
  using actsD [of I E P m s] by (simp add: wpre_def)

lemma acts_safe: "acts I E P m \<Longrightarrow> safe I E m"
  by (intro safeI) (auto elim: wpre_mono dest: actsD)

lemma acts_weaken: "acts I E P m \<Longrightarrow> E \<subseteq> F \<Longrightarrow> (\<And>c. P c \<Longrightarrow> Q c) \<Longrightarrow> acts I F Q m"
proof (rule actsI)
  fix s :: "'a st"
  assume "acts I E P m" and "E \<subseteq> F" and "\<And>c. P c \<Longrightarrow> Q c" and "I (self s)"
  from actsD [OF this(1,4)]
  show "wpre m (\<lambda>r s'. I (self s') \<and> (\<forall>p. r = Panic p \<longrightarrow> p \<in> F) \<and> added Q (trace s) (trace s')) s"
    by (rule wpre_mono) (use \<open>E \<subseteq> F\<close> \<open>\<And>c. P c \<Longrightarrow> Q c\<close> in \<open>blast intro: added_mono\<close>)
qed

text \<open>Sequencing: whatever follows the first part starts from a state that keeps the invariant.\<close>

lemma acts_next:
  assumes "wpre m (\<lambda>r s'. I (self s') \<and> (\<forall>p. r = Panic p \<longrightarrow> p \<in> E) \<and> added P t (trace s')) s"
    and "\<And>r s'. I (self s') \<Longrightarrow> (\<forall>p. r = Panic p \<longrightarrow> p \<in> E) \<Longrightarrow> added P t (trace s') \<Longrightarrow> R r s'"
  shows "wpre m R s"
  using assms by (auto elim: wpre_mono)

lemma acts_then: "acts I E P m \<Longrightarrow> I (self s') \<Longrightarrow> added P t (trace s') \<Longrightarrow>
    wpre m (\<lambda>r s''. I (self s'') \<and> (\<forall>p. r = Panic p \<longrightarrow> p \<in> E) \<and> added P t (trace s'')) s'"
  by (auto elim!: wpre_mono dest: actsD intro: added_trans)

lemma acts_ret [acting]: "acts I E P (ret x)"
  and acts_fail [acting]: "acts I E P (fail e)"
  and acts_gets [acting]: "acts I E P (gets f)"
  and acts_now [acting]: "acts I E P (now env)"
  by (simp_all add: acts_def wp)

lemma acts_crash [acting]: "p \<in> E \<Longrightarrow> acts I E P (crash p)"
  by (simp add: acts_def wp)

lemma acts_update [acting]: "(\<And>x. I x \<Longrightarrow> I (f x)) \<Longrightarrow> acts I E P (update f)"
  by (simp add: acts_def wp)

lemma acts_withRand [acting]: "(\<And>n p. fst (m n) \<noteq> Panic p) \<Longrightarrow> acts I E P (withRand m)"
  by (auto simp: acts_def wp split: prod.split) (metis fst_conv)

lemma acts_invoke [acting]: "P c \<Longrightarrow> acts I E P (invoke env c)"
  by (simp add: acts_def wp split: resp.split)

lemma acts_bnd [acting]: "acts I E P m \<Longrightarrow> (\<And>x. acts I E P (k x)) \<Longrightarrow> acts I E P (bnd m k)"
  by (intro actsI, unfold wp_bnd, erule (1) acts_next [OF actsD])
    (auto intro: acts_then split: outcome.split)

lemma acts_onErr [acting]: "acts I E P m \<Longrightarrow> (\<And>e. acts I E P (h e)) \<Longrightarrow> acts I E P (onErr m h)"
  by (intro actsI, unfold wp_onErr, erule (1) acts_next [OF actsD])
    (auto intro: acts_then split: outcome.split)

lemma acts_attempt [acting]: "acts I E P m \<Longrightarrow> acts I E P (attempt m)"
  by (intro actsI, unfold wp_attempt, erule (1) acts_next [OF actsD]) (auto split: outcome.split)

lemma acts_andThen [acting]: "acts I E P m \<Longrightarrow> acts I E P k \<Longrightarrow> acts I E P (andThen m k)"
  by (simp add: andThen_def acts_bnd)

lemma acts_orWrap [acting]: "acts I E P m \<Longrightarrow> acts I E P (orWrap m msg)"
  by (simp add: orWrap_def acts_onErr acts_fail)

lemma acts_lift_sum [acting]: "acts I E P (lift_sum r)"
  by (simp add: lift_sum_def acts_ret acts_fail split: sum.split)

lemma acts_whenM [acting]: "(b \<Longrightarrow> acts I E P m) \<Longrightarrow> acts I E P (whenM b m)"
  by (simp add: whenM_def acts_ret)

lemma acts_if [acting]: "(b \<Longrightarrow> acts I E P m) \<Longrightarrow> (\<not> b \<Longrightarrow> acts I E P n) \<Longrightarrow> acts I E P (if b then m else n)"
  by simp

lemma acts_option [acting]: "(y = None \<Longrightarrow> acts I E P m) \<Longrightarrow> (\<And>x. y = Some x \<Longrightarrow> acts I E P (k x)) \<Longrightarrow>
    acts I E P (case y of None \<Rightarrow> m | Some x \<Rightarrow> k x)"
  by (simp split: option.split)

lemma acts_sum [acting]: "(\<And>e. r = Inl e \<Longrightarrow> acts I E P (h e)) \<Longrightarrow> (\<And>x. r = Inr x \<Longrightarrow> acts I E P (k x)) \<Longrightarrow>
    acts I E P (case r of Inl e \<Rightarrow> h e | Inr x \<Rightarrow> k x)"
  by (simp split: sum.split)

lemma acts_let [acting]: "acts I E P (k v) \<Longrightarrow> acts I E P (let x = v in k x)"
  by simp

text \<open>Reading the object gives a value that satisfies the invariant.\<close>

lemma acts_this: "(\<And>x. I x \<Longrightarrow> acts I E P (k x)) \<Longrightarrow> acts I E P (bnd this k)"
  by (auto simp: acts_def wp)

lemma acts_setCond [acting]: "(\<And>t x. I x \<Longrightarrow> I (upd (SetStatusCondition t c) x)) \<Longrightarrow> acts I E P (setCond env upd c)"
  unfolding setCond_def by (intro acting) simp

lemma acts_getObj [acting]: "P (CGet k ns name) \<Longrightarrow> acts I E P (getObj env k as ns name)"
  unfolding getObj_def by (intro acting)

lemma acts_listObj [acting]: "P (CList k ns sel) \<Longrightarrow> acts I E P (listObj env k as ns sel)"
  unfolding listObj_def by (intro acting)

lemma acts_putObj [acting]: "P c \<Longrightarrow> acts I E P (putObj env c as old)"
  unfolding putObj_alt by (intro acting)

lemma acts_writeObj [acting]: "P c \<Longrightarrow> acts I E P (writeObj env c)"
  unfolding writeObj_def by (intro acting)

lemma acts_Settings [acting]: "P (CGet KSetting [] name) \<Longrightarrow> acts I E P (GetSettingsValue env name)"
  unfolding GetSettingsValue_def by (intro acting)

lemma acts_CACert [acting]: "P (CGet KSetting [] ''cacerts'') \<Longrightarrow> acts I E P (GetRancherCACert env)"
  unfolding GetRancherCACert_def by (intro acting)

lemma acts_forEach [acting]: "(\<And>x. x \<in> set xs \<Longrightarrow> acts I E P (f x)) \<Longrightarrow> acts I E P (forEach f xs)"
  by (induction xs) (auto intro: acts_ret acts_andThen)

text \<open>A write of the object that establishes more than the invariant, for what follows it.\<close>

lemma acts_enter:
  assumes "\<And>x. I x \<Longrightarrow> J (f x)" and "acts J E P m" and "\<And>x. J x \<Longrightarrow> I x"
  shows "acts I E P (andThen (update f) m)"
proof (rule actsI)
  fix s :: "'a st" assume "I (self s)"
  then have "J (self (s\<lparr>self := f (self s)\<rparr>))" using assms(1) by simp
  from actsD [OF assms(2) this]
  show "wpre (andThen (update f) m) (\<lambda>r s'. I (self s') \<and> (\<forall>p. r = Panic p \<longrightarrow> p \<in> E)
      \<and> added P (trace s) (trace s')) s"
    unfolding wp_andThen wp_update by simp (auto elim!: wpre_mono intro: assms(3))
qed

lemma SetControllerReference_owned:
  "SetControllerReference kd owner x = Inr y \<Longrightarrow>
     IsObjectOwned y (UID owner) \<and> Name y = Name x \<and> Namespace y = Namespace x"
proof -
  have g: "apiGroup GroupVersion \<noteq> None" by code_simp
  have "IsObjectOwned (x\<lparr>OwnerReferences := upsertOwnerRef
      \<lparr>or_APIVersion = GroupVersion, or_Kind = kd, or_Name = Name owner, or_UID = UID owner,
        or_Controller = Some True, or_BlockOwnerDeletion = Some True\<rparr> (OwnerReferences x)\<rparr>) (UID owner)"
    unfolding IsObjectOwned_alt
    by (simp, rule bexI [OF _ upsertOwnerRef_in]) (simp_all add: g)
  then show "SetControllerReference kd owner x = Inr y \<Longrightarrow>
     IsObjectOwned y (UID owner) \<and> Name y = Name x \<and> Namespace y = Namespace x"
    by (auto simp: SetControllerReference_def Let_def split: sum.splits option.splits if_splits)
qed

text \<open>A binding whose first part yields results that satisfy \<open>R\<close>.\<close>

lemma acts_bnd_yields:
  assumes "acts I E P m" and "\<And>s x s'. I (self s) \<Longrightarrow> m s = (Ok x, s') \<Longrightarrow> R x"
    and "\<And>x. R x \<Longrightarrow> acts I E P (k x)"
  shows "acts I E P (bnd m k)"
proof (rule actsI)
  fix s :: "'a st" assume I: "I (self s)"
  obtain r s' where m: "m s = (r, s')" by force
  from acts_run [OF assms(1) I m] have s': "I (self s')" "\<forall>p. r = Panic p \<longrightarrow> p \<in> E"
    "added P (trace s) (trace s')" by simp_all
  show "wpre (bnd m k) (\<lambda>r s'. I (self s') \<and> (\<forall>p. r = Panic p \<longrightarrow> p \<in> E)
      \<and> added P (trace s) (trace s')) s"
  proof (cases r)
    case (Ok x)
    then have "R x" using assms(2) I m by blast
    from acts_then [OF assms(3) [OF this] s'(1) s'(3)] show ?thesis
      by (simp add: wp_bnd wpre_def [of m] m Ok)
  qed (use s' in \<open>auto simp: wp_bnd wpre_def [of m] m\<close>)
qed

section \<open>A run of Reconcile\<close>

text \<open>
  A reconciliation that read its object: it panics as \<^verbatim>\<open>reconcile\<close> does, and otherwise ends with
  the two patches of what \<^verbatim>\<open>reconcile\<close> left.
\<close>

lemma runReconcile_panic:
  assumes "answer env (decodeOne (rc_as d)) (CGet (rc_kind d) ns nm) (trace s) = Inr x"
    and "rec (enter s d ns nm x) = (Panic p, t)"
  shows "trace (snd (runReconcile env d rec ns nm s)) = trace t"
  using assms by (simp add: runReconcile_def run withSelf_def enter_def)

lemma runReconcile_run:
  assumes "answer env (decodeOne (rc_as d)) (CGet (rc_kind d) ns nm) (trace s) = Inr x"
    and "rec (enter s d ns nm x) = (res, t)"
  obtains (panic) p where "res = Panic p" "fst (runReconcile env d rec ns nm s) = Panic p"
  | (patched) y q where "\<And>p. res \<noteq> Panic p" "\<And>p. q \<noteq> Panic p"
      "fst (runReconcile env d rec ns nm s) = q"
      "trace (snd (runReconcile env d rec ns nm s)) =
         CStatusPatch (rc_lock d) (rc_inj d x) (rc_inj d (rc_restore d (self t) y))
         # CPatch (rc_lock d) (rc_inj d x) (rc_inj d (self t)) # trace t"
proof (cases "\<exists>p. res = Panic p")
  case True
  then obtain p where p: "res = Panic p" by blast
  with runReconcile_shape [where env = env and d = d and ns = ns and nm = nm and s = s and rec = rec] assms panic show ?thesis by simp
next
  case False
  obtain q u where both: "patchBoth env d x t = (q, u)" by force
  with patchBoth_patches [of env d x t] have pb: "\<exists>errs. q = Ok errs" by (simp add: wpre_def)
  have rec: "rec \<lparr>self = rc_sanitize d x, trace = CGet (rc_kind d) ns nm # trace s,
      ticks = ticks s, draws = draws s\<rparr> = (res, t)"
    using assms(2) by (simp add: enter_def)
  have np: "fst (runReconcile env d rec ns nm s) \<noteq> Panic p" for p
    using assms(1) rec both pb False by (cases res) (auto simp: runReconcile_def run withSelf_def split: if_splits)
  from runReconcile_shape [where env = env and d = d and ns = ns and nm = nm and s = s and rec = rec] assms False
  have "patchedBack d x t (trace (snd (runReconcile env d rec ns nm s)))"
    by (cases res) auto
  with np False patched show ?thesis by (auto simp: patchedBack_def)
qed

section \<open>Splitting\<close>

lemma split_cons: "d \<notin> set l \<Longrightarrow> str_split (l @ d # rest) [d] = l # str_split rest [d]"
  by (subst str_split.simps) (simp add: str_cut_def str_index_append_single)

lemma split_last: "d \<notin> set l \<Longrightarrow> str_split l [d] = [l]"
  by (subst str_split.simps) (simp add: str_cut_def str_index_notin)

text \<open>A child: an object of the given name and namespace that the given object owns.\<close>

definition childOf :: "string \<Rightarrow> string \<Rightarrow> string \<Rightarrow> ('a ObjectMeta_scheme) \<Rightarrow> bool" where
  "childOf ns nm u x \<longleftrightarrow> Namespace x = ns \<and> Name x = nm \<and> IsObjectOwned x u"

section \<open>Handlers that change the invariant\<close>

text \<open>\<open>moves I J E P m\<close>: as \<open>acts\<close>, but from \<open>I\<close> to \<open>J\<close>.\<close>

definition moves :: "('o \<Rightarrow> bool) \<Rightarrow> ('o \<Rightarrow> bool) \<Rightarrow> string set \<Rightarrow> (call \<Rightarrow> bool) \<Rightarrow> ('o st, 'a) go \<Rightarrow> bool" where
  "moves I J E P m \<longleftrightarrow> (\<forall>s. I (self s) \<longrightarrow>
     wpre m (\<lambda>r s'. J (self s') \<and> (\<forall>p. r = Panic p \<longrightarrow> p \<in> E) \<and> added P (trace s) (trace s')) s)"

lemma moves_acts: "acts I E P m \<Longrightarrow> (\<And>x. I x \<Longrightarrow> J x) \<Longrightarrow> moves I J E P m"
  unfolding moves_def acts_def by (blast intro: wpre_mono)

lemma acts_moves: "moves I I E P m \<Longrightarrow> acts I E P m"
  by (simp add: moves_def acts_def)

lemma moves_pre: "moves K J E P m \<Longrightarrow> (\<And>x. I x \<Longrightarrow> K x) \<Longrightarrow> moves I J E P m"
  by (simp add: moves_def)

lemma moves_bnd:
  fixes m :: "('o st, 'x) go"
  assumes "acts I E P m" and "\<And>x. moves I J E P (k x)" and "\<And>x. I x \<Longrightarrow> J x"
  shows "moves I J E P (bnd m k)"
  unfolding moves_def
proof (intro allI impI)
  fix s :: "'o st" assume "I (self s)"
  from actsD [OF assms(1) this] show "wpre (bnd m k) (\<lambda>r s'. J (self s') \<and> (\<forall>p. r = Panic p \<longrightarrow> p \<in> E)
      \<and> added P (trace s) (trace s')) s"
  proof (rule wpre_bndI)
    fix x :: 'x and s' :: "'o st"
    assume h: "I (self s') \<and> (\<forall>p. Ok x = Panic p \<longrightarrow> p \<in> E) \<and> added P (trace s) (trace s')"
    with assms(2) [of x] have "wpre (k x) (\<lambda>r t. J (self t) \<and> (\<forall>p. r = Panic p \<longrightarrow> p \<in> E) \<and> added P (trace s') (trace t)) s'"
      by (simp add: moves_def)
    then show "wpre (k x) (\<lambda>r t. J (self t) \<and> (\<forall>p. r = Panic p \<longrightarrow> p \<in> E) \<and> added P (trace s) (trace t)) s'"
      by (rule wpre_mono) (use h in \<open>auto intro: added_trans\<close>)
  qed (use assms(3) in auto)
qed

lemma moves_then:
  assumes "moves I J E P m" and "acts J E P k"
  shows "moves I J E P (andThen m k)"
  unfolding moves_def
proof (intro allI impI)
  fix s :: "'a st" assume "I (self s)"
  with assms(1) have "wpre m (\<lambda>r t. J (self t) \<and> (\<forall>p. r = Panic p \<longrightarrow> p \<in> E) \<and> added P (trace s) (trace t)) s"
    by (simp add: moves_def)
  then show "wpre (andThen m k) (\<lambda>r s'. J (self s') \<and> (\<forall>p. r = Panic p \<longrightarrow> p \<in> E)
      \<and> added P (trace s) (trace s')) s"
    by (rule wpre_andThenI) (auto intro: acts_then [OF assms(2)])
qed

lemma moves_this: "(\<And>x. I x \<Longrightarrow> moves (\<lambda>y. I y \<and> y = x) J E P (k x)) \<Longrightarrow> moves I J E P (bnd this k)"
  by (auto simp: moves_def wp)

section \<open>Calls that were granted\<close>

text \<open>Between the histories \<open>t\<close> and \<open>u\<close> the call was made and not answered by an error.\<close>

definition granted :: "env \<Rightarrow> call list \<Rightarrow> call list \<Rightarrow> call \<Rightarrow> bool" where
  "granted env t u c \<longleftrightarrow> (\<exists>a b. u = a @ c # b @ t \<and> (case respond env (c # b @ t) of RErr _ \<Rightarrow> False | _ \<Rightarrow> True))"

lemma granted_now: "answer env dec c t = Inr x \<Longrightarrow> granted env t (c # t) c"
  unfolding granted_def by (rule exI [of _ "[]"], rule exI [of _ "[]"]) (auto simp: answer_def split: resp.splits)

lemma granted_later: "granted env t u c \<Longrightarrow> added P u v \<Longrightarrow> granted env t v c"
  unfolding granted_def added_def by (metis append.assoc)

lemma granted_earlier: "added P s t \<Longrightarrow> granted env t u c \<Longrightarrow> granted env s u c"
  unfolding granted_def added_def by (metis append.assoc)

end
