(* ===== verification/SeedImageCtl.thy ===== *)
theory SeedImageCtl
  imports CtlLib RegistrationCtl
begin

text \<open>
  The reconciler of seed images (\<^verbatim>\<open>controllers/seedimage_controller.go\<close>): for a registration it keeps
  a config map with the client's configuration, a builder pod that makes the image and serves it for
  a while, and a service in front of the pod; the phase of the pod becomes the \<^verbatim>\<open>SeedImageReady\<close>
  condition and, while the image is served, a download URL.
\<close>

section \<open>Constants\<close>

definition configMapKeyRegistration :: string where
  "configMapKeyRegistration = ''registration''"

definition configMapKeyCloudConfig :: string where
  "configMapKeyCloudConfig = ''cloud-config''"

definition configMapKeyResetConfig :: string where
  "configMapKeyResetConfig = ''reset-config''"

definition configMapKeyDevice :: string where
  "configMapKeyDevice = ''device''"

definition configMapKeyRegistrationURL :: string where
  "configMapKeyRegistrationURL = ''registration-url''"

definition configMapKeyBaseImage :: string where
  "configMapKeyBaseImage = ''base-image''"

definition configMapKeyOutputName :: string where
  "configMapKeyOutputName = ''output-name''"

lemmas configMapKeys = configMapKeyRegistration_def configMapKeyCloudConfig_def
  configMapKeyResetConfig_def configMapKeyDevice_def configMapKeyRegistrationURL_def
  configMapKeyBaseImage_def configMapKeyOutputName_def

definition baseImageAnnotation :: string where
  "baseImageAnnotation = ''elemental.cattle.io/base-image''"

definition ResourcesNotCreatedYet :: string where
  "ResourcesNotCreatedYet = ''ResourcesNotCreatedYet''"

definition SetOwnerFailureReason :: string where
  "SetOwnerFailureReason = ''RegistrationNotFound''"

definition PodCreationFailureReason :: string where
  "PodCreationFailureReason = ''PodCreationFailure''"

definition ServiceCreationFailureReason :: string where
  "ServiceCreationFailureReason = ''ServiceCreationFailure''"

definition ResourcesSuccessfullyCreatedReason :: string where
  "ResourcesSuccessfullyCreatedReason = ''ResourcesSuccessfullyCreated''"

definition SeedImageConditionReady :: string where
  "SeedImageConditionReady = ''SeedImageReady''"

definition SeedImageBuildNotStartedReason :: string where
  "SeedImageBuildNotStartedReason = ''SeedImageBuildNotStarted''"

definition SeedImageBuildOngoingReason :: string where
  "SeedImageBuildOngoingReason = ''SeedImageBuildOngoing''"

definition SeedImageBuildFailureReason :: string where
  "SeedImageBuildFailureReason = ''SeedImageBuildFailure''"

definition SeedImageExposeFailureReason :: string where
  "SeedImageExposeFailureReason = ''SeedImageExposeFailure''"

definition SeedImageBuildSuccessReason :: string where
  "SeedImageBuildSuccessReason = ''SeedImageBuildSuccess''"

definition SeedImageBuildDeadline :: string where
  "SeedImageBuildDeadline = ''SeedImageBuildDeadline''"

definition SeedImageBuildUnknown :: string where
  "SeedImageBuildUnknown = ''SeedImageBuildUnknown''"

lemmas seed_reasons = SeedImageBuildNotStartedReason_def SeedImageBuildOngoingReason_def
  SeedImageBuildFailureReason_def SeedImageExposeFailureReason_def SeedImageBuildSuccessReason_def
  SeedImageBuildDeadline_def SeedImageBuildUnknown_def

section \<open>The objects of a build\<close>

definition configMapEnv :: "string \<Rightarrow> string \<Rightarrow> string \<Rightarrow> EnvVar" where
  "configMapEnv name cm key = \<lparr>ev_Name = name, ev_Value = [], ev_ValueFrom = Some (ConfigMapKeyRef cm key)\<rparr>"

definition defaultEnvVars :: "string \<Rightarrow> EnvVar list" where
  "defaultEnvVars seedImgName =
    [configMapEnv ''ELEMENTAL_DEVICE'' seedImgName configMapKeyDevice,
     configMapEnv ''ELEMENTAL_REGISTRATION_URL'' seedImgName configMapKeyRegistrationURL,
     configMapEnv ''ELEMENTAL_BASE_IMAGE'' seedImgName configMapKeyBaseImage,
     configMapEnv ''ELEMENTAL_OUTPUT_NAME'' seedImgName configMapKeyOutputName]"

definition buildMounts :: "VolumeMount list" where
  "buildMounts = [\<lparr>vm_Name = ''iso-storage'', vm_MountPath = ''/iso''\<rparr>,
     \<lparr>vm_Name = ''config-map'', vm_MountPath = ''/overlay''\<rparr>]"

definition checksumCommand :: string where
  "checksumCommand = ''cd /iso && sha256sum $(ELEMENTAL_OUTPUT_NAME) > $(ELEMENTAL_OUTPUT_NAME).sha256 && cd ../''"

definition userDefinedInitContainers :: "SeedImage \<Rightarrow> BuildContainer \<Rightarrow> Container list" where
  "userDefinedInitContainers seedImg c =
    [zeroContainer\<lparr>
       ct_Name := (if bc_Name c \<noteq> [] then bc_Name c else ''build''),
       ct_Image := bc_Image c,
       ct_ImagePullPolicy := bc_ImagePullPolicy c,
       ct_Command := bc_Command c,
       ct_Args := bc_Args c,
       ct_VolumeMounts := buildMounts,
       ct_Env := defaultEnvVars (Name seedImg),
       ct_EphemeralStorage := Some (sis_Size (si_Spec seedImg))\<rparr>]"

definition baseIsoPath :: string where
  "baseIsoPath = ''/iso/base.iso''"

text \<open>The container that fetches the base image when it is not a URL.\<close>

definition baseIsoContainer :: "SeedImage \<Rightarrow> string \<Rightarrow> Container" where
  "baseIsoContainer seedImg buildImg =
    (let sp = si_Spec seedImg in
     zeroContainer\<lparr>
       ct_Name := ''baseiso'',
       ct_Image := (if sis_TargetPlatform sp \<noteq> [] then buildImg else sis_BaseImage sp),
       ct_ImagePullPolicy := ''IfNotPresent'',
       ct_Command := (if sis_TargetPlatform sp \<noteq> [] then [''/bin/bash'', ''-c''] else [''busybox'', ''sh'', ''-c'']),
       ct_Args := (if sis_TargetPlatform sp \<noteq> []
         then [''mkdir /work && elemental pull-image --platform='' @ sis_TargetPlatform sp @ '' ''
               @ sis_BaseImage sp @ '' /work && cp /work/elemental-iso/*.iso '' @ baseIsoPath]
         else [''busybox cp /elemental-iso/*.iso '' @ baseIsoPath]),
       ct_VolumeMounts := [\<lparr>vm_Name = ''iso-storage'', vm_MountPath = ''/iso''\<rparr>]\<rparr>)"

definition buildContainer :: "SeedImage \<Rightarrow> string \<Rightarrow> string \<Rightarrow> string list \<Rightarrow> Container" where
  "buildContainer seedImg buildImg pullPolicy buildCommands =
    zeroContainer\<lparr>
      ct_Name := ''build'',
      ct_Image := buildImg,
      ct_ImagePullPolicy := pullPolicy,
      ct_Command := [''/bin/bash'', ''-c''],
      ct_Args := [str_join buildCommands '' && ''],
      ct_VolumeMounts := buildMounts,
      ct_Env := defaultEnvVars (Name seedImg)\<rparr>"

definition defaultIsoInitContainers :: "lib \<Rightarrow> SeedImage \<Rightarrow> string \<Rightarrow> string \<Rightarrow> Container list" where
  "defaultIsoInitContainers l seedImg buildImg pullPolicy =
    (let base = sis_BaseImage (si_Spec seedImg);
         buildCommands =
           [''xorriso -indev '' @ baseIsoPath @ '' -outdev /iso/$(ELEMENTAL_OUTPUT_NAME) -map /overlay/reg/livecd-cloud-config.yaml /livecd-cloud-config.yaml -map /overlay/iso-config/cloud-config.yaml /iso-config/cloud-config.yaml -boot_image any replay'',
            ''rm -rf '' @ baseIsoPath];
         fetched = (if IsHTTP l base then [''curl -Lo '' @ baseIsoPath @ '' '' @ base] else []);
         first = (if IsHTTP l base then [] else [baseIsoContainer seedImg buildImg]);
         containers = first @ [buildContainer seedImg buildImg pullPolicy
           (fetched @ buildCommands @ [checksumCommand])]
     in (hd containers)\<lparr>ct_EphemeralStorage := Some (sis_Size (si_Spec seedImg))\<rparr> # tl containers)"

text \<open>A line of the raw build's command ends in a blank, a backslash and a line feed.\<close>

definition rawLines :: "string \<Rightarrow> string list" where
  "rawLines platformArg =
    [''/usr/bin/elemental'', ''--debug'', ''build-disk'', platformArg, ''--expandable'',
     ''--deploy-command systemctl,start,elemental-register-reset.service'', ''--squash-no-compression'',
     ''--cloud-init /overlay/reg/reset-config.yaml,/overlay/iso-config/cloud-config.yaml'',
     ''-n elemental'', ''-o /iso'', ''--system $(ELEMENTAL_BASE_IMAGE)'']"

definition defaultRawInitContainers :: "SeedImage \<Rightarrow> string \<Rightarrow> string \<Rightarrow> Container list" where
  "defaultRawInitContainers seedImg buildImg pullPolicy =
    (let platform = sis_TargetPlatform (si_Spec seedImg);
         platformArg = (if platform \<noteq> [] then ''--platform '' @ platform else []);
         sep = '' '' @ [CHR 0x5C, CHR 0x0A] @ ''        ''
     in [buildContainer seedImg buildImg pullPolicy
          [str_join (rawLines platformArg) sep,
           ''mv /iso/elemental.raw /iso/$(ELEMENTAL_OUTPUT_NAME)'',
           checksumCommand]])"

definition defaultInitContainers :: "lib \<Rightarrow> SeedImage \<Rightarrow> string \<Rightarrow> string \<Rightarrow> Container list" where
  "defaultInitContainers l seedImg buildImg pullPolicy =
    (if sis_Type (si_Spec seedImg) = ''raw'' then defaultRawInitContainers seedImg buildImg pullPolicy
     else defaultIsoInitContainers l seedImg buildImg pullPolicy)"

text \<open>The lifetime in seconds, a product of two 32-bit integers.\<close>

definition serveArgs :: "32 word \<Rightarrow> string list" where
  "serveArgs deadline = [''-d'', ''/srv'', ''-t'', show_int (sint (deadline * 60))]"

definition serveContainer :: "SeedImage \<Rightarrow> string \<Rightarrow> string \<Rightarrow> Container" where
  "serveContainer seedImg buildImg pullPolicy =
    zeroContainer\<lparr>
      ct_Name := ''serve'',
      ct_Image := buildImg,
      ct_ImagePullPolicy := pullPolicy,
      ct_Ports := [(''http'', 80)],
      ct_Args := serveArgs (sis_LifetimeMinutes (si_Spec seedImg)),
      ct_VolumeMounts := [\<lparr>vm_Name = ''iso-storage'', vm_MountPath = ''/srv''\<rparr>],
      ct_Env := [configMapEnv ''ELEMENTAL_OUTPUT_NAME'' (Name seedImg) configMapKeyOutputName]\<rparr>"

definition buildVolumes :: "SeedImage \<Rightarrow> Volume list" where
  "buildVolumes seedImg =
    [\<lparr>vol_Name = ''iso-storage'', vol_Source = EmptyDir (Some (sis_Size (si_Spec seedImg)))\<rparr>,
     \<lparr>vol_Name = ''config-map'', vol_Source = ConfigMapVolume (Name seedImg)
       [(configMapKeyRegistration, ''reg/livecd-cloud-config.yaml''),
        (configMapKeyCloudConfig, ''iso-config/cloud-config.yaml''),
        (configMapKeyResetConfig, ''reg/reset-config.yaml'')]\<rparr>]"

text \<open>The fields of the reconciler beside its client.\<close>

record SeedImageReconciler =
  sr_SeedImageImage :: string
  sr_SeedImageImagePullPolicy :: string
  sr_PullSecrets :: "string list"

definition fillBuildImagePod :: "lib \<Rightarrow> SeedImageReconciler \<Rightarrow> SeedImage \<Rightarrow> Pod" where
  "fillBuildImagePod l r seedImg =
    (let sp = si_Spec seedImg; buildImg = sr_SeedImageImage r; pullPolicy = sr_SeedImageImagePullPolicy r in
     ObjectMeta.extend
       (zeroMeta\<lparr>Name := Name seedImg, Namespace := Namespace seedImg,
          Labels := Some [(''app.kubernetes.io/name'', Name seedImg)],
          Annotations := Some [(baseImageAnnotation, sis_BaseImage sp)]\<rparr>)
       \<lparr>pod_RestartPolicy = ''Never'', pod_AutomountToken = None,
        pod_InitContainers = (case sis_BuildContainer sp of
            None \<Rightarrow> defaultInitContainers l seedImg buildImg pullPolicy
          | Some c \<Rightarrow> userDefinedInitContainers seedImg c),
        pod_Containers = [serveContainer seedImg buildImg pullPolicy],
        pod_Volumes = buildVolumes seedImg,
        pod_ImagePullSecrets = pullSecretsOf (sr_PullSecrets r) (sis_ImagePullSecrets sp),
        pod_Phase = []\<rparr>)"

definition fillBuildImageService :: "string \<Rightarrow> string \<Rightarrow> Service" where
  "fillBuildImageService name namespace =
    ObjectMeta.extend (zeroMeta\<lparr>Name := name, Namespace := namespace\<rparr>)
      \<lparr>svc_ClusterIP = [], svc_Selector = Some [(''app.kubernetes.io/name'', name)],
       svc_Ports = [(''TCP'', 80)]\<rparr>"

definition resetRegistrationConfig :: "string \<Rightarrow> YipConfig" where
  "resetRegistrationConfig regConf = \<lparr>yip_Name = ''Write registration config'',
     yip_Stages = [(''initramfs'',
       [\<lparr>yip_If = ''[ -f '' @ [CHR 0x22] @ ''/run/cos/recovery_mode'' @ [CHR 0x22] @ '' ] || [ -f ''
             @ [CHR 0x22] @ ''/run/elemental/recovery_mode'' @ [CHR 0x22] @ '' ]'',
         yip_StageName = ''Save registration config'',
         yip_Commands = [],
         yip_Directories = [(''/oem'', 448)],
         yip_Files = [\<lparr>yf_Path = ''/oem/registration/config.yaml'', yf_Content = base64 regConf,
           yf_Encoding = ''b64'', yf_Permissions = 438\<rparr>]\<rparr>])]\<rparr>"

definition serializeResetRegistrationYaml :: "lib \<Rightarrow> Config \<Rightarrow> goerr + string" where
  "serializeResetRegistrationYaml l config = (case yaml_config l config of
      Inl e \<Rightarrow> Inl e
    | Inr regConf \<Rightarrow> yaml_yip l (resetRegistrationConfig (textOf regConf)))"

section \<open>The handlers\<close>

type_synonym 'a seed_handler = "(SeedImage st, 'a) go"

definition updSeedStatus :: "(SeedImageStatus \<Rightarrow> SeedImageStatus) \<Rightarrow> SeedImage \<Rightarrow> SeedImage" where
  "updSeedStatus f s = s\<lparr>si_Status := f (si_Status s)\<rparr>"

definition updSeedConds :: "(Condition list \<Rightarrow> Condition list) \<Rightarrow> SeedImage \<Rightarrow> SeedImage" where
  "updSeedConds f = updSeedStatus (\<lambda>st. st\<lparr>sit_Conditions := f (sit_Conditions st)\<rparr>)"

definition seedCond :: "env \<Rightarrow> string \<Rightarrow> string \<Rightarrow> string \<Rightarrow> unit seed_handler" where
  "seedCond env reason status msg =
     setCond env updSeedConds (mkCondition SeedImageConditionReady reason status msg)"

definition seedFail :: "env \<Rightarrow> string \<Rightarrow> goerr \<Rightarrow> 'a seed_handler" where
  "seedFail env reason e = andThen (seedCond env reason ''False'' (err_text e)) (fail e)"

definition getRancherServerAddress :: "env \<Rightarrow> string seed_handler" where
  "getRancherServerAddress env =
     bnd (orWrap (getObj env KSetting asSetting [] ''server-url'') ''failed to get server url setting'')
       (\<lambda>s. if set_Value s = [] then fail (EMsg ''server-url is not set'')
            else ret (trim_prefix (set_Value s) ''https://''))"

definition downloadURL :: "string \<Rightarrow> string \<Rightarrow> string \<Rightarrow> string" where
  "downloadURL rancherURL token outputName =
     ''https://'' @ rancherURL @ ''/elemental/seedimage/'' @ token @ ''/'' @ outputName"

text \<open>The branch of a running pod: the image can be downloaded once all this has been found.\<close>

definition exposeImage :: "env \<Rightarrow> unit seed_handler" where
  "exposeImage env = bnd this (\<lambda>s.
     bnd (onErr (getRancherServerAddress env) (\<lambda>e.
        seedFail env SeedImageExposeFailureReason (wrap ''failed to get Rancher Server Address'' e))) (\<lambda>rancherURL.
     bnd (onErr (getObj env KService asService (Namespace s) (Name s)) (\<lambda>e.
        seedFail env SeedImageExposeFailureReason (wrap ''failed to get associated service'' e))) (\<lambda>_.
     bnd (onErr (withRand (Generate (rnd env))) (\<lambda>e.
        seedFail env SeedImageExposeFailureReason
          (EMsg (''failed to generate registration token: '' @ err_text e)))) (\<lambda>token.
     bnd (orWrap (getObj env KConfigMap asConfigMap (Namespace s) (Name s))
           (''getting ConfigMap '' @ [CHR 0x27] @ Name s @ [CHR 0x27])) (\<lambda>podConfigMap.
     case mget (cm_Data podConfigMap) configMapKeyOutputName of
       None \<Rightarrow> fail (EMsg (''Could not find '' @ [CHR 0x27] @ configMapKeyOutputName @ [CHR 0x27]
                 @ '' value in ConfigMap '' @ [CHR 0x27] @ Name s @ [CHR 0x27]))
     | Some outputName \<Rightarrow>
         andThen (update (updSeedStatus (\<lambda>st. let url = downloadURL rancherURL token outputName in
             st\<lparr>sit_DownloadToken := token, sit_DownloadURL := url, sit_ChecksumURL := url @ ''.sha256''\<rparr>)))
           (seedCond env SeedImageBuildSuccessReason ''True'' ''seed image iso available''))))))"

definition clearURLs :: "unit seed_handler" where
  "clearURLs = update (updSeedStatus (\<lambda>st. st\<lparr>sit_DownloadURL := [], sit_ChecksumURL := []\<rparr>))"

definition updateStatusFromPod :: "env \<Rightarrow> Pod \<Rightarrow> unit seed_handler" where
  "updateStatusFromPod env foundPod =
    (if DeletionTimestamp foundPod \<noteq> None
     then seedCond env SeedImageBuildNotStartedReason ''False'' ''wait old builder Pod termination''
     else bnd this (\<lambda>s.
       if IsStatusConditionTrue (sit_Conditions (si_Status s)) SeedImageConditionReady
          \<and> pod_Phase foundPod \<noteq> ''Succeeded'' then ret ()
       else if pod_Phase foundPod = ''Pending''
       then seedCond env SeedImageBuildOngoingReason ''False'' ''seed image build ongoing''
       else if pod_Phase foundPod = ''Running'' then exposeImage env
       else if pod_Phase foundPod = ''Failed''
       then seedCond env SeedImageBuildFailureReason ''False'' ''pod failed''
       else if pod_Phase foundPod = ''Succeeded''
       then andThen (onErr (writeObj env (CDelete (OPod foundPod))) (\<lambda>e.
              seedFail env SeedImageBuildDeadline (wrap ''failed to delete builder pod'' e)))
           (andThen clearURLs
              (seedCond env SeedImageBuildDeadline ''True'' ''seed image deadline elapsed''))
       else seedCond env SeedImageBuildUnknown ''Unknown'' (''pod phase '' @ pod_Phase foundPod)))"

text \<open>One of the two children that \<^verbatim>\<open>deleteChildResources\<close> removes.\<close>

definition deleteChild :: "env \<Rightarrow> kind \<Rightarrow> (kobj \<Rightarrow> ('b ObjectMeta_scheme) option)
    \<Rightarrow> (('b ObjectMeta_scheme) \<Rightarrow> kobj) \<Rightarrow> string \<Rightarrow> unit seed_handler" where
  "deleteChild env k as mk what = bnd this (\<lambda>s.
     bnd (attempt (getObj env k as (Namespace s) (Name s))) (\<lambda>r. case r of
       Inl e \<Rightarrow> if isNotFound e then ret () else fail e
     | Inr x \<Rightarrow>
         if \<not> IsObjectOwned x (UID s)
         then fail (EMsg (what @ '' '' @ Namespace s @ ''/'' @ Name s @ '' doesn'' @ [CHR 0x27]
                @ ''t belong to seedimage '' @ Namespace s @ ''/'' @ Name s))
         else writeObj env (CDelete (mk x))))"

definition deleteChildResources :: "env \<Rightarrow> unit seed_handler" where
  "deleteChildResources env =
     andThen (deleteChild env KPod asPod OPod ''pod'')
    (andThen clearURLs
       (deleteChild env KService asService OService ''service''))"

definition reconcileSeedImageOwner :: "env \<Rightarrow> MachineRegistration seed_handler" where
  "reconcileSeedImageOwner env = bnd this (\<lambda>s.
     case sis_MachineRegistrationRef (si_Spec s) of
       None \<Rightarrow> crash nilDereference
     | Some ref \<Rightarrow>
         bnd (getObj env KReg asReg (ref_Namespace ref) (ref_Name ref)) (\<lambda>m.
         if IsObjectOwned s (UID m) then ret m
         else case SetOwnerReference ''MachineRegistration'' m s of
             Inl e \<Rightarrow> fail e
           | Inr s' \<Rightarrow> andThen (update (\<lambda>_. s')) (ret m)))"

text \<open>The config map of a build, and its (re)creation.\<close>

definition buildConfigMap :: "SeedImage \<Rightarrow> MachineRegistration \<Rightarrow> string \<Rightarrow> string \<Rightarrow> string \<Rightarrow> string \<Rightarrow> ConfigMap" where
  "buildConfigMap s m regData cloudConfig resetConfig outputName =
     ObjectMeta.extend (zeroMeta\<lparr>Name := Name s, Namespace := Namespace s\<rparr>)
       \<lparr>cm_Data = Some
          [(configMapKeyRegistrationURL, mrt_RegistrationURL (mr_Status m)),
           (configMapKeyDevice, in_Device (el_Install (cf_Elemental (mrs_Config (mr_Spec m))))),
           (configMapKeyBaseImage, sis_BaseImage (si_Spec s)),
           (configMapKeyOutputName, outputName)],
        cm_BinaryData = Some
          [(configMapKeyRegistration, regData), (configMapKeyCloudConfig, cloudConfig),
           (configMapKeyResetConfig, resetConfig)]\<rparr>"

definition createConfigMap :: "env \<Rightarrow> ConfigMap \<Rightarrow> unit seed_handler" where
  "createConfigMap env cm = bnd this (\<lambda>s.
     bnd (orWrap (lift_sum (SetControllerReference ''SeedImage'' s cm)) ''failed setting configmap ownership'') (\<lambda>conf.
     orWrap (writeObj env (CCreate (OConfigMap conf))) ''failed to create registration config map''))"

definition upToDate :: "string \<Rightarrow> string \<Rightarrow> string \<Rightarrow> ConfigMap \<Rightarrow> bool" where
  "upToDate regData cloudConfig resetConfig cm \<longleftrightarrow>
     regData = mstr (cm_BinaryData cm) configMapKeyRegistration
     \<and> resetConfig = mstr (cm_BinaryData cm) configMapKeyResetConfig
     \<and> cloudConfig = mstr (cm_BinaryData cm) configMapKeyCloudConfig"

definition reconcileConfigMapObject :: "env \<Rightarrow> MachineRegistration \<Rightarrow> unit seed_handler" where
  "reconcileConfigMapObject env m = bnd this (\<lambda>s.
     bnd (GetRancherCACert env) (\<lambda>cacert.
     bnd (orWrap (lift_sum (GetClientRegistrationConfig m cacert)) ''failed processing registration config'') (\<lambda>regClientConf.
     bnd (orWrap (lift_sum (yaml_config (lib env) regClientConf)) ''failed marshalling registration config'') (\<lambda>regBytes.
     bnd (orWrap (lift_sum (serializeResetRegistrationYaml (lib env) regClientConf))
           ''failed marshalling reset machine registration'') (\<lambda>resetConfig.
     bnd (orWrap (lift_sum (MarshalCloudConfig (lib env) (sis_CloudConfig (si_Spec s))))
           ''failed marshalling cloud-config'') (\<lambda>cloudConfig.
     bnd (now env) (\<lambda>t.
     bnd (attempt (getObj env KConfigMap asConfigMap (Namespace s) (Name s))) (\<lambda>r. case r of
       Inl e \<Rightarrow> if isNotFound e
         then createConfigMap env (buildConfigMap s m (textOf regBytes) cloudConfig resetConfig
                (Name m @ ''-'' @ fmt_time (lib env) t @ ''.'' @ sis_Type (si_Spec s)))
         else fail (wrap ''failed fetching config map'' e)
     | Inr cm \<Rightarrow>
         if upToDate (textOf regBytes) cloudConfig resetConfig cm then ret ()
         else andThen (orWrap (writeObj env (CDelete (OConfigMap cm))) ''failed to delete old config map'')
             (createConfigMap env (buildConfigMap s m (textOf regBytes) cloudConfig resetConfig
                (mstr (cm_Data cm) configMapKeyOutputName)))))))))))"

text \<open>The creation of the builder pod, unless the image was built already.\<close>

definition createPod :: "env \<Rightarrow> SeedImageReconciler \<Rightarrow> bool \<Rightarrow> unit seed_handler" where
  "createPod env r seedImgConditionMet = bnd this (\<lambda>s.
     if seedImgConditionMet then ret ()
     else bnd (onErr (lift_sum (SetControllerReference ''SeedImage'' s (fillBuildImagePod (lib env) r s)))
                (seedFail env SeedImageBuildNotStartedReason)) (\<lambda>pod.
       andThen (onErr (writeObj env (CCreate (OPod pod))) (\<lambda>e.
           if isAlreadyExists e then ret () else seedFail env SeedImageBuildNotStartedReason e))
         (seedCond env SeedImageBuildOngoingReason ''False'' ''seed image build started'')))"

definition reconcileBuildImagePod :: "env \<Rightarrow> SeedImageReconciler \<Rightarrow> MachineRegistration \<Rightarrow> unit seed_handler" where
  "reconcileBuildImagePod env r m = bnd this (\<lambda>s.
     let seedImgCondition = FindStatusCondition (sit_Conditions (si_Status s)) SeedImageConditionReady;
         seedImgConditionMet = (case seedImgCondition of Some c \<Rightarrow> c_Status c = ''True'' | None \<Rightarrow> False);
         deadlinePassed = (case seedImgCondition of Some c \<Rightarrow> c_Reason c = SeedImageBuildDeadline | None \<Rightarrow> False)
     in if seedImgConditionMet \<and> deadlinePassed then ret ()
     else andThen (reconcileConfigMapObject env m)
       (bnd (attempt (getObj env KPod asPod (Namespace s) (Name s))) (\<lambda>r'. case r' of
          Inl e \<Rightarrow> if isNotFound e then createPod env r seedImgConditionMet else fail e
        | Inr foundPod \<Rightarrow>
            if \<not> IsObjectOwned foundPod (UID s)
            then fail (EMsg ''pod already exists and was not created by this controller'')
            else if mstr (Annotations foundPod) baseImageAnnotation = sis_BaseImage (si_Spec s)
            then updateStatusFromPod env foundPod
            else andThen (orWrap (writeObj env (CDelete (OPod foundPod))) ''failed to delete old pod'')
                   (createPod env r seedImgConditionMet))))"

definition createBuildImageService :: "env \<Rightarrow> unit seed_handler" where
  "createBuildImageService env = bnd this (\<lambda>s.
     bnd (attempt (getObj env KService asService (Namespace s) (Name s))) (\<lambda>r.
     let seedImageDeadlinePassed = (case FindStatusCondition (sit_Conditions (si_Status s)) SeedImageConditionReady of
             Some c \<Rightarrow> c_Status c = ''True'' \<and> c_Reason c = SeedImageBuildDeadline | None \<Rightarrow> False)
     in case r of
       Inl e \<Rightarrow>
         if \<not> isNotFound e then fail e
         else if seedImageDeadlinePassed then ret ()
         else bnd (lift_sum (SetControllerReference ''SeedImage'' s
                (fillBuildImageService (Name s) (Namespace s)))) (\<lambda>service.
           onErr (writeObj env (CCreate (OService service))) (\<lambda>e.
             if isAlreadyExists e then ret () else fail e))
     | Inr foundSvc \<Rightarrow>
         if IsObjectOwned foundSvc (UID s)
         then (if seedImageDeadlinePassed
               then orWrap (writeObj env (CDelete (OService foundSvc)))
                      (''failed to delete service '' @ Name foundSvc)
               else ret ())
         else fail (EMsg ''service already exists and was not created by this controller'')))"

subsection \<open>Reconciliation\<close>

definition seedNotReady :: "env \<Rightarrow> string \<Rightarrow> goerr \<Rightarrow> goerr \<Rightarrow> 'a seed_handler" where
  "seedNotReady env reason e e' =
     andThen (setCond env updSeedConds (mkCondition ReadyCondition reason ''False'' (err_text e))) (fail e')"

definition initReady :: "env \<Rightarrow> unit seed_handler" where
  "initReady env = bnd this (\<lambda>s.
     whenM (FindStatusCondition (sit_Conditions (si_Status s)) ReadyCondition = None)
       (setCond env updSeedConds (mkCondition ReadyCondition ResourcesNotCreatedYet ''Unknown'' [])))"

definition reconcileSeed :: "env \<Rightarrow> SeedImageReconciler \<Rightarrow> result seed_handler" where
  "reconcileSeed env r = bnd this (\<lambda>s.
     if sis_RetriggerBuild (si_Spec s)
     then andThen (update (\<lambda>s. (updSeedConds (\<lambda>_. []) s)\<lparr>si_Spec := (si_Spec s)\<lparr>sis_RetriggerBuild := False\<rparr>\<rparr>))
         (andThen (deleteChildResources env) (ret noResult))
     else andThen (initReady env)
       (bnd (onErr (reconcileSeedImageOwner env) (\<lambda>e. let errMsg = wrap ''failed to set seedimage owner'' e in
              seedNotReady env SetOwnerFailureReason errMsg errMsg)) (\<lambda>m.
        andThen (onErr (reconcileBuildImagePod env r m) (\<lambda>e.
              seedNotReady env PodCreationFailureReason e (wrap ''failed to reconcile pod'' e)))
       (andThen (onErr (createBuildImageService env) (\<lambda>e.
              seedNotReady env ServiceCreationFailureReason e (wrap ''failed to create service'' e)))
       (andThen (setCond env updSeedConds (mkCondition ReadyCondition ResourcesSuccessfullyCreatedReason
              ''True'' ''resources created successfully''))
          (ret noResult))))))"

definition seedResource :: "SeedImage resource" where
  "seedResource = \<lparr>rc_kind = KSeed, rc_name = ''seedimage'', rc_inj = OSeed, rc_as = asSeed,
     rc_restore = (\<lambda>x y. y\<lparr>si_Status := si_Status x\<rparr>), rc_sanitize = id, rc_lock = False,
     rc_okPatch = isNotFound, rc_okStatus = isNotFound\<rparr>"

definition ReconcileSeed :: "env \<Rightarrow> SeedImageReconciler \<Rightarrow> string \<Rightarrow> string \<Rightarrow> ('o st, result) go" where
  "ReconcileSeed env r ns nm = runReconcile env seedResource (reconcileSeed env r) ns nm"

end
