(* ===== verification/SeedProps.thy ===== *)
theory SeedProps
  imports SeedImageCtl RegFlow
begin

text \<open>
  What the reconciler of seed images keeps and does: the status of an image agrees with its
  condition, only children of the image are deleted, and the download URL it publishes is served.
\<close>

section \<open>What the status says\<close>

text \<open>
  An image whose \<^verbatim>\<open>SeedImageReady\<close> condition is true is either on offer, with the URL of its token,
  or its time is over and no URL is published.
\<close>

definition onOffer :: "SeedImageStatus \<Rightarrow> bool" where
  "onOffer st \<longleftrightarrow> length (sit_DownloadToken st) = tokenLength
     \<and> set (sit_DownloadToken st) \<subseteq> set characters
     \<and> (\<exists>host out. sit_DownloadURL st = downloadURL host (sit_DownloadToken st) out)
     \<and> sit_ChecksumURL st = sit_DownloadURL st @ ''.sha256''"

definition seedSound :: "SeedImage \<Rightarrow> bool" where
  "seedSound s \<longleftrightarrow>
     (let st = si_Status s; cs = sit_Conditions st in
      condStatus cs SeedImageConditionReady = Some ''True'' \<longrightarrow>
        (condReason cs SeedImageConditionReady = Some SeedImageBuildSuccessReason \<and> onOffer st)
        \<or> (condReason cs SeedImageConditionReady = Some SeedImageBuildDeadline
            \<and> sit_DownloadURL st = [] \<and> sit_ChecksumURL st = []))"

text \<open>
  The image reconciled, and the calls its reconciler may make for it. A config map is deleted without
  a look at its owners, but only one that the API server returned under the name of the image.
\<close>

definition seedOf :: "string \<Rightarrow> string \<Rightarrow> string \<Rightarrow> ObjectReference option \<Rightarrow> SeedImage \<Rightarrow> bool" where
  "seedOf ns nm u mref s \<longleftrightarrow> Namespace s = ns \<and> Name s = nm \<and> UID s = u
     \<and> sis_MachineRegistrationRef (si_Spec s) = mref \<and> seedSound s"

fun seedCall :: "env \<Rightarrow> string \<Rightarrow> string \<Rightarrow> string \<Rightarrow> call \<Rightarrow> bool" where
  "seedCall env ns nm u (CGet _ _ _) = True"
| "seedCall env ns nm u (CDelete (OPod p)) = IsObjectOwned p u"
| "seedCall env ns nm u (CDelete (OService v)) = IsObjectOwned v u"
| "seedCall env ns nm u (CDelete (OConfigMap m)) =
    (\<exists>t. answer env (decodeOne asConfigMap) (CGet KConfigMap ns nm) t = Inr m)"
| "seedCall env ns nm u (CCreate (OPod p)) = childOf ns nm u p"
| "seedCall env ns nm u (CCreate (OService v)) = childOf ns nm u v"
| "seedCall env ns nm u (CCreate (OConfigMap m)) = childOf ns nm u m"
| "seedCall env ns nm u _ = False"

text \<open>The one panic: an image without a reference to its registration.\<close>

definition nilIf :: "'a option \<Rightarrow> string set" where
  "nilIf x = (if x = None then {nilDereference} else {})"

text \<open>An image that is not on offer stays sound when its URLs change.\<close>

definition seedUnready :: "string \<Rightarrow> string \<Rightarrow> string \<Rightarrow> ObjectReference option \<Rightarrow> SeedImage \<Rightarrow> bool" where
  "seedUnready ns nm u mref s \<longleftrightarrow> seedOf ns nm u mref s
     \<and> condStatus (sit_Conditions (si_Status s)) SeedImageConditionReady \<noteq> Some ''True''"

lemma upd_sel [simp]:
  "si_Status (updSeedStatus f s) = f (si_Status s)" "si_Spec (updSeedStatus f s) = si_Spec s"
  "Namespace (updSeedStatus f s) = Namespace s" "Name (updSeedStatus f s) = Name s"
  "UID (updSeedStatus f s) = UID s" "OwnerReferences (updSeedStatus f s) = OwnerReferences s"
  by (simp_all add: updSeedStatus_def)

lemma updConds_sel [simp]:
  "sit_Conditions (si_Status (updSeedConds f s)) = f (sit_Conditions (si_Status s))"
  "sit_DownloadURL (si_Status (updSeedConds f s)) = sit_DownloadURL (si_Status s)"
  "sit_ChecksumURL (si_Status (updSeedConds f s)) = sit_ChecksumURL (si_Status s)"
  "sit_DownloadToken (si_Status (updSeedConds f s)) = sit_DownloadToken (si_Status s)"
  "si_Spec (updSeedConds f s) = si_Spec s" "Namespace (updSeedConds f s) = Namespace s"
  "Name (updSeedConds f s) = Name s" "UID (updSeedConds f s) = UID s"
  "OwnerReferences (updSeedConds f s) = OwnerReferences s"
  by (simp_all add: updSeedConds_def)

lemma onOffer_conds [simp]: "onOffer (si_Status (updSeedConds f s)) = onOffer (si_Status s)"
  by (simp add: onOffer_def)

lemma ready_types: "ReadyCondition \<noteq> SeedImageConditionReady"
  by (simp add: ReadyCondition_def SeedImageConditionReady_def)

lemma seedOf_ready: "seedOf ns nm u mref s \<Longrightarrow>
    seedOf ns nm u mref (updSeedConds (SetStatusCondition t (mkCondition ReadyCondition r st msg)) s)"
  using ready_types by (auto simp: seedOf_def seedSound_def Let_def)

lemma seedOf_not_true: "seedOf ns nm u mref s \<Longrightarrow> st \<noteq> ''True'' \<Longrightarrow>
    seedOf ns nm u mref (updSeedConds (SetStatusCondition t (mkCondition SeedImageConditionReady r st msg)) s)"
  by (auto simp: seedOf_def seedSound_def Let_def)

lemma seedOf_unready: "seedUnready ns nm u mref s \<Longrightarrow> seedOf ns nm u mref s"
  by (simp add: seedUnready_def)

lemma acts_seedCond: "st \<noteq> ''True'' \<Longrightarrow> acts (seedOf ns nm u mref) E P (seedCond env r st msg)"
  unfolding seedCond_def by (intro acting seedOf_not_true)

lemma acts_seedFail [acting]: "acts (seedOf ns nm u mref) E P (seedFail env r e)"
  unfolding seedFail_def by (intro acting acts_seedCond) simp

lemma acts_seedNotReady [acting]: "acts (seedOf ns nm u mref) E P (seedNotReady env r e e')"
  unfolding seedNotReady_def by (intro acting seedOf_ready)

lemma acts_clear_then:
  "st \<noteq> ''True'' \<or> r = SeedImageBuildDeadline \<Longrightarrow>
   acts (seedOf ns nm u mref) E P (andThen clearURLs (seedCond env r st msg))"
  by (intro actsI) (auto simp: clearURLs_def seedCond_def wp seedOf_def seedSound_def Let_def)

lemma acts_clear_unready: "acts (seedUnready ns nm u mref) E P clearURLs"
  unfolding clearURLs_def
  by (intro acting) (auto simp: seedUnready_def seedOf_def seedSound_def Let_def)

lemma acts_address: "P (CGet KSetting [] ''server-url'') \<Longrightarrow> acts I E P (getRancherServerAddress env)"
  unfolding getRancherServerAddress_def by (intro acting)

lemma wp_Generate:
  assumes "rand_ok src"
  shows "case Generate src n of (r, n') \<Rightarrow> (case r of
      Ok t \<Rightarrow> length t = tokenLength \<and> set t \<subseteq> set characters | Err e \<Rightarrow> True | Panic p \<Rightarrow> False)"
proof -
  have "wpre (tokenLoop src tokenLength) (\<lambda>r n'. case r of
      Ok t \<Rightarrow> length t = tokenLength \<and> set t \<subseteq> set characters | Err e \<Rightarrow> True | Panic p \<Rightarrow> False) n"
    by (rule wpre_mono [OF tokenLoop_wp [OF assms]]) (auto split: outcome.splits)
  then show ?thesis by (simp add: Generate_def wpre_def)
qed

text \<open>The last step of a successful exposure.\<close>

lemma acts_publish:
  assumes "length token = tokenLength" and "set token \<subseteq> set characters"
  shows "acts (seedOf ns nm u mref) E P (andThen (update (updSeedStatus (\<lambda>st. let url = downloadURL host token out in
             st\<lparr>sit_DownloadToken := token, sit_DownloadURL := url, sit_ChecksumURL := url @ ''.sha256''\<rparr>)))
           (seedCond env SeedImageBuildSuccessReason ''True'' msg))"
  by (intro actsI) (use assms in \<open>auto simp: seedCond_def wp seedOf_def seedSound_def Let_def onOffer_def\<close>)

lemma acts_Generate:
  assumes "rand_ok (rnd env)"
  shows "acts I E P (withRand (Generate (rnd env)))"
proof (intro acting)
  fix n p
  show "fst (Generate (rnd env) n) \<noteq> Panic p"
    using wp_Generate [OF assms, of n] by (auto split: prod.splits outcome.splits)
qed

lemma Generate_yields:
  assumes "rand_ok (rnd env)"
    and "onErr (withRand (Generate (rnd env))) (\<lambda>e. seedFail env r (f e)) s = (Ok t, s')"
  shows "length t = tokenLength \<and> set t \<subseteq> set characters"
  using assms(2) wp_Generate [OF assms(1), of "draws s"]
  by (auto simp: run seedFail_def seedCond_def setCond_def split: prod.splits outcome.splits)

lemma acts_expose:
  assumes "rand_ok (rnd env)"
  shows "acts (seedOf ns nm u mref) (nilIf mref) (seedCall env ns nm u) (exposeImage env)"
proof -
  note g = acts_bnd_yields [where R = "\<lambda>t. length t = tokenLength \<and> set t \<subseteq> set characters"]
  show ?thesis
    unfolding exposeImage_def
    by (intro acts_this acts_bnd acts_onErr acts_address acts_seedFail acts_getObj acts_orWrap
        g [OF acts_onErr [OF acts_Generate [OF assms] acts_seedFail] Generate_yields [OF assms]]
        acts_option acts_fail acts_publish) (simp_all)
qed

lemma acts_fromPod:
  assumes "rand_ok (rnd env)" and "IsObjectOwned pod u"
  shows "acts (seedOf ns nm u mref) (nilIf mref) (seedCall env ns nm u) (updateStatusFromPod env pod)"
  unfolding updateStatusFromPod_def
  by (intro acts_if acts_this acts_ret acts_seedCond acts_expose [OF assms(1)] acts_andThen [OF acts_onErr]
      acts_writeObj acts_seedFail acts_clear_then) (simp_all add: assms(2))

lemma acts_deletePod: "acts (seedUnready ns nm u mref) E (seedCall env ns nm u) (deleteChild env KPod asPod OPod w)"
  unfolding deleteChild_def
  by (intro acts_this acting) (simp_all add: seedUnready_def seedOf_def)

lemma acts_deleteService: "acts (seedUnready ns nm u mref) E (seedCall env ns nm u) (deleteChild env KService asService OService w)"
  unfolding deleteChild_def
  by (intro acts_this acting) (simp_all add: seedUnready_def seedOf_def)

lemma acts_deleteChildren: "acts (seedUnready ns nm u mref) E (seedCall env ns nm u) (deleteChildResources env)"
  unfolding deleteChildResources_def
  by (intro acts_andThen acts_deletePod acts_deleteService acts_clear_unready)

lemma SetOwnerReference_keeps: "SetOwnerReference kd owner x = Inr y \<Longrightarrow> seedOf ns nm u mref x \<Longrightarrow> seedOf ns nm u mref y"
  by (auto simp: SetOwnerReference_def seedOf_def seedSound_def Let_def split: sum.splits)

lemma acts_owner: "acts (seedOf ns nm u mref) (nilIf mref) (seedCall env ns nm u) (reconcileSeedImageOwner env)"
  unfolding reconcileSeedImageOwner_def
  by (intro acts_this acting) (auto intro: SetOwnerReference_keeps, simp add: nilIf_def seedOf_def)

text \<open>An object made a child of the image by its controller reference.\<close>

lemma childOf_controlled:
  "seedOf ns nm u mref s \<Longrightarrow> Name x = nm \<Longrightarrow> Namespace x = ns \<Longrightarrow>
   SetControllerReference kd s x = Inr y \<Longrightarrow> childOf ns nm u y"
  using SetControllerReference_owned [of kd s x y] by (simp add: childOf_def seedOf_def)

lemma lift_yields: "(case lift_sum r s of (Ok x, s') \<Rightarrow> r = Inr x | _ \<Rightarrow> True)"
  by (simp add: run split: sum.split)

lemma acts_createConfigMap:
  assumes "Name cm = nm" and "Namespace cm = ns"
  shows "acts (seedOf ns nm u mref) E (seedCall env ns nm u) (createConfigMap env cm)"
  unfolding createConfigMap_def
proof (intro acts_this acts_bnd_yields [where R = "childOf ns nm u"] acting)
  fix x s' s'' and y :: ConfigMap
  assume "seedOf ns nm u mref x"
    and "orWrap (lift_sum (SetControllerReference ''SeedImage'' x cm)) ''failed setting configmap ownership'' s' = (Ok y, s'')"
  then show "childOf ns nm u y"
    using childOf_controlled [OF _ assms] by (auto simp: run split: sum.splits)
qed simp

lemma buildConfigMap_sel [simp]:
  "Name (buildConfigMap s m a b c d) = Name s" "Namespace (buildConfigMap s m a b c d) = Namespace s"
  "OwnerReferences (buildConfigMap s m a b c d) = []"
  by (simp_all add: buildConfigMap_def ObjectMeta.defs zeroMeta_def)

lemma fillBuildImagePod_sel [simp]:
  "Name (fillBuildImagePod l r s) = Name s" "Namespace (fillBuildImagePod l r s) = Namespace s"
  "OwnerReferences (fillBuildImagePod l r s) = []"
  by (simp_all add: fillBuildImagePod_def Let_def ObjectMeta.defs zeroMeta_def)

lemma fillBuildImageService_sel [simp]:
  "Name (fillBuildImageService n ns) = n" "Namespace (fillBuildImageService n ns) = ns"
  "OwnerReferences (fillBuildImageService n ns) = []"
  by (simp_all add: fillBuildImageService_def ObjectMeta.defs zeroMeta_def)

lemma acts_found_map:
  assumes "seedOf ns nm u mref s" and "\<And>e. acts (seedOf ns nm u mref) E (seedCall env ns nm u) (h e)"
    and "\<And>cm. acts (seedOf ns nm u mref) E (seedCall env ns nm u) (k cm)"
  shows "acts (seedOf ns nm u mref) E (seedCall env ns nm u)
    (bnd (attempt (getObj env KConfigMap asConfigMap (Namespace s) (Name s))) (\<lambda>r. case r of
       Inl e \<Rightarrow> h e
     | Inr cm \<Rightarrow> if b cm then ret () else andThen (orWrap (writeObj env (CDelete (OConfigMap cm))) msg) (k cm)))"
proof (rule acts_bnd_yields [where R = "\<lambda>r. case r of Inl e \<Rightarrow> True
    | Inr cm \<Rightarrow> \<exists>t. answer env (decodeOne asConfigMap) (CGet KConfigMap ns nm) t = Inr cm"])
  have n: "Namespace s = ns" "Name s = nm" using assms(1) by (simp_all add: seedOf_def)
  show "acts (seedOf ns nm u mref) E (seedCall env ns nm u) (attempt (getObj env KConfigMap asConfigMap (Namespace s) (Name s)))"
    by (intro acting) simp
  show "case r of Inl e \<Rightarrow> True | Inr cm \<Rightarrow> \<exists>t. answer env (decodeOne asConfigMap) (CGet KConfigMap ns nm) t = Inr cm"
    if "attempt (getObj env KConfigMap asConfigMap (Namespace s) (Name s)) s1 = (Ok r, s2)" for r s1 s2
    using that by (auto simp: run n split: sum.splits)
next
  fix r :: "goerr + ConfigMap" assume R: "case r of Inl e \<Rightarrow> True | Inr cm \<Rightarrow> \<exists>t. answer env (decodeOne asConfigMap) (CGet KConfigMap ns nm) t = Inr cm"
  show "acts (seedOf ns nm u mref) E (seedCall env ns nm u) (case r of Inl e \<Rightarrow> h e
      | Inr cm \<Rightarrow> if b cm then ret () else andThen (orWrap (writeObj env (CDelete (OConfigMap cm))) msg) (k cm))"
    by (intro acts_sum assms(2,3) acts_if acts_ret acts_andThen acts_orWrap acts_writeObj) (use R in auto)
qed

lemma acts_configMap: "acts (seedOf ns nm u mref) E (seedCall env ns nm u) (reconcileConfigMapObject env m)"
  unfolding reconcileConfigMapObject_def
  by (intro acts_this acts_found_map acting acts_createConfigMap) (simp_all add: seedOf_def)

lemma acts_createPod: "acts (seedOf ns nm u mref) E (seedCall env ns nm u) (createPod env r met)"
  unfolding createPod_def
proof (intro acts_this acts_bnd_yields [where R = "childOf ns nm u"] acting acts_seedCond)
  fix x s' s'' and y :: Pod
  assume x: "seedOf ns nm u mref x"
    and "onErr (lift_sum (SetControllerReference ''SeedImage'' x (fillBuildImagePod (lib env) r x)))
      (seedFail env SeedImageBuildNotStartedReason) s' = (Ok y, s'')"
  then have "SetControllerReference ''SeedImage'' x (fillBuildImagePod (lib env) r x) = Inr y"
    by (auto simp: run seedFail_def seedCond_def setCond_def split: sum.splits)
  then show "childOf ns nm u y"
    by (rule childOf_controlled [OF x, rotated 2]) (use x in \<open>simp_all add: seedOf_def\<close>)
qed simp_all

lemma acts_buildPod:
  assumes "rand_ok (rnd env)"
  shows "acts (seedOf ns nm u mref) (nilIf mref) (seedCall env ns nm u) (reconcileBuildImagePod env r m)"
  unfolding reconcileBuildImagePod_def
  by (intro acts_let acting acts_this acts_configMap acts_createPod acts_fromPod [OF assms])
    (simp_all add: seedOf_def)

lemma acts_service: "acts (seedOf ns nm u mref) E (seedCall env ns nm u) (createBuildImageService env)"
  unfolding createBuildImageService_def
proof (intro acts_this acts_let acts_bnd_yields [where R = "childOf ns nm u"] acting)
  fix x s' s'' and y :: Service
  assume x: "seedOf ns nm u mref x"
    and "lift_sum (SetControllerReference ''SeedImage'' x (fillBuildImageService (Name x) (Namespace x))) s' = (Ok y, s'')"
  then have "SetControllerReference ''SeedImage'' x (fillBuildImageService (Name x) (Namespace x)) = Inr y"
    by (auto simp: run split: sum.splits)
  then show "childOf ns nm u y"
    by (rule childOf_controlled [OF x, rotated 2]) (use x in \<open>simp_all add: seedOf_def\<close>)
qed (simp_all add: seedOf_def)

lemma acts_reconcileSeed:
  assumes "rand_ok (rnd env)"
  shows "acts (seedOf ns nm u mref) (nilIf mref) (seedCall env ns nm u) (reconcileSeed env r)"
proof -
  have del: "acts (seedOf ns nm u mref) (nilIf mref) (seedCall env ns nm u)
      (andThen (update (\<lambda>s. (updSeedConds (\<lambda>_. []) s)\<lparr>si_Spec := (si_Spec s)\<lparr>sis_RetriggerBuild := False\<rparr>\<rparr>))
         (andThen (deleteChildResources env) (ret noResult)))"
    by (rule acts_enter [where J = "seedUnready ns nm u mref"])
      (auto intro: acts_andThen acts_deleteChildren acts_ret
        simp: seedUnready_def seedOf_def seedSound_def Let_def condStatus_def FindStatusCondition_def)
  have init: "acts (seedOf ns nm u mref) (nilIf mref) (seedCall env ns nm u) (initReady env)"
    unfolding initReady_def by (intro acts_this acting seedOf_ready)
  show ?thesis
    unfolding reconcileSeed_def Let_def
    by (intro acts_this acts_if del acts_andThen init acts_bnd acts_onErr acts_owner acts_buildPod [OF assms]
        acts_service acts_seedNotReady acts_setCond seedOf_ready acts_ret)
qed

section \<open>Properties of a reconciliation\<close>

lemma reconcileSeed_run:
  assumes "rand_ok (rnd env)" and "seedSound (self s)" and "reconcileSeed env r s = (res, t)"
  shows "seedSound (self t) \<and> UID (self t) = UID (self s)
    \<and> (\<forall>p. res = Panic p \<longrightarrow> p = nilDereference \<and> sis_MachineRegistrationRef (si_Spec (self s)) = None)
    \<and> added (seedCall env (Namespace (self s)) (Name (self s)) (UID (self s))) (trace s) (trace t)"
proof -
  let ?m = "sis_MachineRegistrationRef (si_Spec (self s))"
  have "seedOf (Namespace (self s)) (Name (self s)) (UID (self s)) ?m (self s)"
    using assms(2) by (simp add: seedOf_def)
  from acts_run [OF acts_reconcileSeed [OF assms(1)] this assms(3)] show ?thesis
    by (auto simp: seedOf_def nilIf_def split: if_splits)
qed

lemma ReconcileSeed_run:
  assumes "rand_ok (rnd env)"
    and "answer env (decodeOne asSeed) (CGet KSeed ns nm) (trace s) = Inr x" and "seedSound x"
  obtains (panic) cs where "fst (ReconcileSeed env r ns nm s) = Panic nilDereference"
      "sis_MachineRegistrationRef (si_Spec x) = None"
      "trace (snd (ReconcileSeed env r ns nm s)) = cs @ CGet KSeed ns nm # trace s"
      "list_all (seedCall env (Namespace x) (Name x) (UID x)) cs"
  | (patched) y z cs where "\<And>p. fst (ReconcileSeed env r ns nm s) \<noteq> Panic p" "seedSound y"
      "trace (snd (ReconcileSeed env r ns nm s)) =
         CStatusPatch False (OSeed x) (OSeed (z\<lparr>si_Status := si_Status y\<rparr>))
         # CPatch False (OSeed x) (OSeed y) # cs @ CGet KSeed ns nm # trace s"
      "list_all (seedCall env (Namespace x) (Name x) (UID x)) cs"
proof -
  have sel: "rc_kind seedResource = KSeed" "rc_as seedResource = asSeed" "rc_lock seedResource = False"
    "rc_inj seedResource = OSeed" "rc_restore seedResource y z = z\<lparr>si_Status := si_Status y\<rparr>"
    "rc_sanitize seedResource y = y" for y z
    by (simp_all add: seedResource_def)
  obtain res t where run: "reconcileSeed env r (enter s seedResource ns nm x) = (res, t)" by force
  from reconcileSeed_run [OF assms(1) _ run] assms(3)
  have t: "seedSound (self t)" "\<forall>p. res = Panic p \<longrightarrow> p = nilDereference \<and> sis_MachineRegistrationRef (si_Spec x) = None"
    "added (seedCall env (Namespace x) (Name x) (UID x)) (CGet KSeed ns nm # trace s) (trace t)"
    by (simp_all add: enter_def sel)
  from t(3) obtain cs where cs: "trace t = cs @ CGet KSeed ns nm # trace s"
    "list_all (seedCall env (Namespace x) (Name x) (UID x)) cs" by (auto simp: added_def)
  have get: "answer env (decodeOne (rc_as seedResource)) (CGet (rc_kind seedResource) ns nm) (trace s) = Inr x"
    using assms(2) by (simp add: sel)
  from this run show ?thesis
  proof (cases rule: runReconcile_run)
    case (panic p)
    from runReconcile_panic [OF get] run panic have "trace (snd (ReconcileSeed env r ns nm s)) = cs @ CGet KSeed ns nm # trace s"
      unfolding ReconcileSeed_def cs(1) [symmetric] by simp
    with panic t(2) cs(2) that(1) show ?thesis by (simp add: ReconcileSeed_def)
  next
    case (patched y q)
    show ?thesis
      by (rule that(2) [of "self t" y cs]) (use patched t(1) cs in \<open>simp_all add: ReconcileSeed_def sel\<close>)
  qed
qed

text \<open>
  C25: a seed image that says true things keeps saying them: read with a sound status (an image that
  is ready is either on offer under the URL of its token, with the checksum's URL beside it, or
  past its deadline without URLs), it is patched back with a sound status whatever the API server,
  the pods and the random source do, errors included; the only panic is that of an image without a
  registration reference.
\<close>

theorem ReconcileSeed_sound:
  assumes "rand_ok (rnd env)"
    and "answer env (decodeOne asSeed) (CGet KSeed ns nm) (trace s) = Inr x" and "seedSound x"
  shows "case ReconcileSeed env r ns nm s of
      (Panic p, s') \<Rightarrow> p = nilDereference \<and> sis_MachineRegistrationRef (si_Spec x) = None
    | (_, s') \<Rightarrow> \<exists>y z cs. seedSound y \<and> trace s' =
        CStatusPatch False (OSeed x) (OSeed (z\<lparr>si_Status := si_Status y\<rparr>))
        # CPatch False (OSeed x) (OSeed y) # cs @ CGet KSeed ns nm # trace s"
  using assms
proof (cases rule: ReconcileSeed_run [where r = r])
  case panic
  then show ?thesis by (auto split: prod.split)
next
  case (patched y z cs)
  then show ?thesis by (cases "ReconcileSeed env r ns nm s") (auto split: outcome.split)
qed

text \<open>
  C26: a reconciliation of a seed image that is read with a sound status (the one that C25 keeps), with
  random numbers in their range, makes no other calls than these, panics included: reads; the patches of
  the image itself; the creation of a config map, a pod or a service of its own name and namespace
  that it owns; the deletion of a pod or a service that its owner references show to be its own,
  whatever is found under its name; and the deletion of a config map. The last is not checked for its
  owner: it is whichever config map the API server returned under the image's name.
\<close>

theorem ReconcileSeed_children:
  assumes "rand_ok (rnd env)"
    and "answer env (decodeOne asSeed) (CGet KSeed ns nm) (trace s) = Inr x" and "seedSound x"
    and "c \<in> set (trace (snd (ReconcileSeed env r ns nm s)))"
  shows "c \<in> set (trace s) \<or> seedCall env (Namespace x) (Name x) (UID x) c
    \<or> (\<exists>y. c = CPatch False (OSeed x) (OSeed y) \<or> c = CStatusPatch False (OSeed x) (OSeed y))"
  using assms(1-3)
  by (cases rule: ReconcileSeed_run [where r = r]) (use assms(4) in \<open>auto simp: list_all_iff\<close>)

section \<open>Bounds and stale data\<close>

lemma show_int_inj: "show_int i = show_int j \<Longrightarrow> i = j"
proof -
  have d: "hd (show_nat n) \<noteq> CHR ''-''" for n
    using show_nat_digits [of n] show_nat_nonempty [of n] by (cases "show_nat n") (auto simp: is_digit_def)
  have e: "CHR ''-'' # xs \<noteq> show_nat n" for xs n
    using d [of n] by (metis list.sel(1))
  assume "show_int i = show_int j"
  then show "i = j"
    by (auto simp: show_int_def e e [symmetric] dest!: show_nat_inj split: if_splits)
qed

text \<open>
  C33: the number of seconds that the serving container gets is sixty times the lifetime in minutes
  exactly for lifetimes up to 35791394 minutes; beyond, the product of the two 32-bit integers wraps
  around and the deadline is another.
\<close>

theorem lifetime_seconds:
  "serveArgs d = [''-d'', ''/srv'', ''-t'', show_int (60 * sint d)] \<longleftrightarrow> \<bar>sint d\<bar> \<le> 35791394"
proof -
  have "sint (d * 60) = signed_take_bit 31 (sint d * 60)"
    by (simp add: sint_word_ariths)
  moreover have "signed_take_bit 31 i = i \<longleftrightarrow> - (2 ^ 31) \<le> i \<and> i < 2 ^ 31" for i :: int
    by (simp add: signed_take_bit_int_eq_self_iff)
  ultimately have "sint (d * 60) = 60 * sint d \<longleftrightarrow> - (2 ^ 31) \<le> 60 * sint d \<and> 60 * sint d < 2 ^ 31"
    by (simp add: mult.commute)
  moreover have "serveArgs d = [''-d'', ''/srv'', ''-t'', show_int (60 * sint d)] \<longleftrightarrow> sint (d * 60) = 60 * sint d"
    by (auto simp: serveArgs_def dest: show_int_inj)
  ultimately show ?thesis by (simp; linarith)
qed

text \<open>The calls of a config map that is up to date, and of the certificate before it.\<close>

lemma run_CACert: "\<exists>ca. GetRancherCACert env s = (Ok ca, s\<lparr>trace := CGet KSetting [] ''cacerts'' # trace s\<rparr>)"
  by (auto simp: GetRancherCACert_def GetSettingsValue_def run split: sum.split)

text \<open>
  A change of the base image does not reach the build: the config map is compared by its three
  binary values only, so one that is up to date in them is kept with the base image, the device and
  the output name it was made with; the pod of the image before is deleted, and the new pod, which
  is annotated with the new base image, takes its base image from the config map that was kept.
\<close>

theorem base_image_change:
  assumes "GetRancherCACert env s = (Ok ca, s1)"
    and "GetClientRegistrationConfig m ca = Inr conf"
    and "yaml_config (lib env) conf = Inr reg"
    and "serializeResetRegistrationYaml (lib env) conf = Inr reset"
    and "MarshalCloudConfig (lib env) (sis_CloudConfig (si_Spec (self s))) = Inr cloud"
    and "answer env (decodeOne asConfigMap) (CGet KConfigMap (Namespace (self s)) (Name (self s))) (trace s1) = Inr cm"
    and "upToDate (textOf reg) cloud reset cm"
    and "answer env (decodeOne asPod) (CGet KPod (Namespace (self s)) (Name (self s)))
        (CGet KConfigMap (Namespace (self s)) (Name (self s)) # trace s1) = Inr old"
    and "IsObjectOwned old (UID (self s))"
    and "mstr (Annotations old) baseImageAnnotation \<noteq> sis_BaseImage (si_Spec (self s))"
    and "answer env decodeAny (CDelete (OPod old)) (CGet KPod (Namespace (self s)) (Name (self s))
        # CGet KConfigMap (Namespace (self s)) (Name (self s)) # trace s1) = Inr d"
    and "condStatus (sit_Conditions (si_Status (self s))) SeedImageConditionReady \<noteq> Some ''True''"
    and "sis_BuildContainer (si_Spec (self s)) = None" and "sis_Type (si_Spec (self s)) = ''raw''"
  shows "\<exists>p. trace (snd (reconcileBuildImagePod env r m s)) =
      CCreate (OPod p) # CDelete (OPod old) # CGet KPod (Namespace (self s)) (Name (self s))
      # CGet KConfigMap (Namespace (self s)) (Name (self s)) # CGet KSetting [] ''cacerts'' # trace s
    \<and> mstr (Annotations p) baseImageAnnotation = sis_BaseImage (si_Spec (self s))
    \<and> (\<forall>c \<in> set (pod_InitContainers p).
         configMapEnv ''ELEMENTAL_BASE_IMAGE'' (Name (self s)) configMapKeyBaseImage \<in> set (ct_Env c))"
proof -
  from run_CACert [of env s] assms(1) have s1: "s1 = s\<lparr>trace := CGet KSetting [] ''cacerts'' # trace s\<rparr>" by auto
  let ?p = "(fillBuildImagePod (lib env) r (self s))\<lparr>OwnerReferences :=
    [\<lparr>or_APIVersion = GroupVersion, or_Kind = ''SeedImage'', or_Name = Name (self s), or_UID = UID (self s),
      or_Controller = Some True, or_BlockOwnerDeletion = Some True\<rparr>]\<rparr>"
  have met: "\<not> (case FindStatusCondition (sit_Conditions (si_Status (self s))) SeedImageConditionReady of
      Some c \<Rightarrow> c_Status c = ''True'' | None \<Rightarrow> False)"
    using assms(12) by (auto simp: condStatus_def split: option.splits)
  have "reconcileConfigMapObject env m s = (Ok (), s\<lparr>trace :=
      CGet KConfigMap (Namespace (self s)) (Name (self s)) # CGet KSetting [] ''cacerts'' # trace s, ticks := Suc (ticks s)\<rparr>)"
    using assms(1-7) by (simp add: reconcileConfigMapObject_def run s1)
  moreover have "SetControllerReference ''SeedImage'' (self s) (fillBuildImagePod (lib env) r (self s)) = Inr ?p"
    by (rule SetControllerReference_fresh) simp_all
  ultimately have "trace (snd (reconcileBuildImagePod env r m s)) =
      CCreate (OPod ?p) # CDelete (OPod old) # CGet KPod (Namespace (self s)) (Name (self s))
      # CGet KConfigMap (Namespace (self s)) (Name (self s)) # CGet KSetting [] ''cacerts'' # trace s"
    using assms(8-11) met
    by (auto simp: reconcileBuildImagePod_def createPod_def run s1 seedFail_def seedCond_def setCond_def Let_def
        split: sum.split)
  moreover have "mstr (Annotations ?p) baseImageAnnotation = sis_BaseImage (si_Spec (self s))"
    by (simp add: fillBuildImagePod_def Let_def ObjectMeta.defs zeroMeta_def mstr_def)
  moreover have "\<forall>c \<in> set (pod_InitContainers ?p).
      configMapEnv ''ELEMENTAL_BASE_IMAGE'' (Name (self s)) configMapKeyBaseImage \<in> set (ct_Env c)"
    using assms(13,14) by (simp add: fillBuildImagePod_def Let_def ObjectMeta.defs
        defaultInitContainers_def defaultRawInitContainers_def buildContainer_def defaultEnvVars_def)
  ultimately show ?thesis by blast
qed

section \<open>Downloads\<close>

lemma path_base_plain:
  assumes "t \<noteq> []" and "CHR ''/'' \<notin> set t"
  shows "path_base t = t"
proof -
  obtain a as where r: "rev t = a # as" using assms(1) by (cases "rev t") auto
  then have "a \<noteq> CHR ''/''" using assms(2) by (metis list.set_intros(1) set_rev)
  moreover have "takeWhile (\<lambda>c. c \<noteq> CHR ''/'') (rev t) = rev t"
    using assms(2) by (intro takeWhile_eq_all_conv [THEN iffD2]) auto
  ultimately show ?thesis using assms(1) r by (simp add: path_base_def Let_def)
qed

lemma dropNewlines_plain: "CHR 0x0A \<notin> set t \<Longrightarrow> CHR 0x0D \<notin> set t \<Longrightarrow> dropNewlines t = t"
  by (auto simp: dropNewlines_def replace_char_all filter_id_conv)

lemma find_filter: "find p xs = (case filter p xs of [] \<Rightarrow> None | y # _ \<Rightarrow> Some y)"
  by (induction xs) auto

definition pathChar :: "char \<Rightarrow> bool" where
  "pathChar c \<longleftrightarrow> html_escape_char c = [c] \<and> c \<noteq> CHR ''/'' \<and> c \<noteq> CHR 0x0A \<and> c \<noteq> CHR 0x0D"

lemma html_escape_plain: "\<forall>c \<in> set s. html_escape_char c = [c] \<Longrightarrow> html_escape s = s"
  by (induction s) (simp_all add: html_escape_def del: html_escape_char.simps)

lemma characters_path: "\<forall>c \<in> set characters. pathChar c"
  unfolding list_all_iff [symmetric] by code_simp

lemma download_path:
  assumes "\<forall>c \<in> set token. pathChar c" and "\<forall>c \<in> set out. pathChar c"
  shows "str_split (sanitizeUserInput (''/elemental/seedimage/'' @ token @ ''/'' @ out)) ''/'' =
    [[], ''elemental'', ''seedimage'', token, out]"
proof -
  let ?p = "''/elemental/seedimage/'' @ token @ ''/'' @ out"
  let ?ok = "\<lambda>c. html_escape_char c = [c] \<and> c \<noteq> CHR 0x0A \<and> c \<noteq> CHR 0x0D"
  have "list_all ?ok ''/elemental/seedimage/''" and "list_all ?ok ''/''" by code_simp+
  moreover have "list_all ?ok token" and "list_all ?ok out"
    using assms by (simp_all add: list_all_iff pathChar_def del: html_escape_char.simps)
  ultimately have "list_all ?ok ?p" by (simp only: list_all_append)
  then have esc: "\<forall>c \<in> set ?p. ?ok c" by (simp only: list_all_iff)
  have "dropNewlines ?p = ?p" by (rule dropNewlines_plain) (use esc in blast)+
  then have p: "sanitizeUserInput ?p = ?p"
    using esc html_escape_plain [of ?p] unfolding sanitizeUserInput_def dropNewlines_def by metis
  have no: "CHR ''/'' \<notin> set token" "CHR ''/'' \<notin> set out"
    using assms unfolding pathChar_def by blast+
  have e: "CHR ''/'' \<notin> set []" "CHR ''/'' \<notin> set ''elemental''" "CHR ''/'' \<notin> set ''seedimage''" by simp_all
  have "?p = [] @ CHR ''/'' # ''elemental'' @ CHR ''/'' # ''seedimage'' @ CHR ''/'' # token @ CHR ''/'' # out"
    by simp
  then show ?thesis
    unfolding p by (simp only: split_cons [OF e(1)] split_cons [OF e(2)] split_cons [OF e(3)]
        split_cons [OF no(1)] split_last [OF no(2)])
qed

text \<open>
  C27: the URL of an image on offer is the one the server serves: for a sound image with all its
  conditions true, a request for the path of its download URL finds the image by its token, when no
  other image listed has it, and is passed on to the address of the image's own service under the
  name of the file; nothing else is called.
\<close>

theorem seed_url_served:
  assumes "seedSound x" and "condStatus (sit_Conditions (si_Status x)) SeedImageConditionReady = Some ''True''"
    and "\<forall>c \<in> set (sit_Conditions (si_Status x)). c_Status c = ''True''"
    and "sit_DownloadURL (si_Status x) = downloadURL host (sit_DownloadToken (si_Status x)) out"
    and "\<forall>c \<in> set out. pathChar c"
    and "''https://'' @ host @ rq_path rq = sit_DownloadURL (si_Status x)"
    and "answer env (decodeAll asSeed) (CList KSeed None []) (trace s) = Inr items"
    and "filter (\<lambda>y. path_base (sit_DownloadToken (si_Status y)) = sit_DownloadToken (si_Status x)) items = [x]"
    and "answer env (decodeOne asService) (CGet KService (Namespace x) (Name x)) (CList KSeed None [] # trace s) = Inr svc"
    and "url_ok (lib env) (''http://'' @ svc_ClusterIP svc @ ''/'' @ out)"
  shows "trace (snd (ServeHTTP env fuel rq s)) =
     HttpProxy (''http://'' @ svc_ClusterIP svc @ ''/'' @ out)
     # CGet KService (Namespace x) (Name x) # CList KSeed None [] # trace s"
proof -
  let ?t = "sit_DownloadToken (si_Status x)"
  from assms(4) have "sit_DownloadURL (si_Status x) \<noteq> []" by (simp add: downloadURL_def)
  with assms(1,2) have "onOffer (si_Status x)" by (simp add: seedSound_def Let_def)
  then have t: "\<forall>c \<in> set ?t. pathChar c" using characters_path by (auto simp: onOffer_def)
  have "rq_path rq = ''/elemental/seedimage/'' @ ?t @ ''/'' @ out"
    using assms(4,6) by (simp add: downloadURL_def)
  with download_path [OF t assms(5)]
  have split: "str_split (sanitizeUserInput (rq_path rq)) ''/'' = [[], ''elemental'', ''seedimage'', ?t, out]"
    by simp
  have drop: "dropNewlines ?t = ?t"
    by (rule dropNewlines_plain) (use t in \<open>unfold pathChar_def, blast\<close>)+
  have found: "find (\<lambda>y. path_base (sit_DownloadToken (si_Status y)) = ?t) items = Some x"
    using assms(8) by (simp add: find_filter)
  have conds: "\<not> list_ex (\<lambda>c. c_Status c \<noteq> ''True'') (sit_Conditions (si_Status x))"
    using assms(3) by (simp add: list_ex_iff)
  show ?thesis
    using assms(7,9,10) drop found conds
    by (simp add: ServeHTTP_def split Let_def apiSeedImage_def getSeedImage_def run split: sum.split)
qed

section \<open>Instances\<close>

definition demo_seed :: SeedImage where
  "demo_seed = ObjectMeta.extend (zeroMeta\<lparr>Name := ''seed'', Namespace := ''ns'', UID := ''u''\<rparr>)
     \<lparr>si_Spec = \<lparr>sis_BaseImage = ''image:2'', sis_MachineRegistrationRef = Some (mkRef [] ''ns'' ''reg''),
        sis_BuildContainer = None, sis_LifetimeMinutes = 60, sis_RetriggerBuild = False, sis_Size = ''6Gi'',
        sis_Type = ''raw'', sis_TargetPlatform = [], sis_CloudConfig = None, sis_ImagePullSecrets = []\<rparr>,
      si_Status = \<lparr>sit_Conditions = [], sit_DownloadToken = [], sit_DownloadURL = [], sit_ChecksumURL = [],
        sit_State = []\<rparr>\<rparr>"

definition demo_seed_env :: env where
  "demo_seed_env = demo_env (\<lambda>c. if c = CGet KSeed ''ns'' ''seed'' then Some (RObjs [OSeed demo_seed]) else None) []"

lemma demo_seed_get: "answer demo_seed_env (decodeOne asSeed) (CGet KSeed ''ns'' ''seed'') (trace (start ())) = Inr demo_seed"
  by (simp add: demo_seed_env_def answer_def demo_env_def demo_respond_def start_def decodeOne_def)

lemma demo_seed_sound: "seedSound demo_seed"
  by (simp add: seedSound_def demo_seed_def ObjectMeta.defs condStatus_def FindStatusCondition_def)

lemma demo_seed_rand: "rand_ok (rnd demo_seed_env)"
  by (simp add: demo_seed_env_def demo_env_def demo_rand_ok)

theorem ReconcileSeed_sound_witness:
  "case ReconcileSeed demo_seed_env \<lparr>sr_SeedImageImage = ''img'', sr_SeedImageImagePullPolicy = [], sr_PullSecrets = []\<rparr>
      ''ns'' ''seed'' (start ()) of
      (Panic p, s') \<Rightarrow> False
    | (_, s') \<Rightarrow> \<exists>y z cs. seedSound y \<and> trace s' =
        CStatusPatch False (OSeed demo_seed) (OSeed (z\<lparr>si_Status := si_Status y\<rparr>))
        # CPatch False (OSeed demo_seed) (OSeed y) # cs @ [CGet KSeed ''ns'' ''seed'']"
proof -
  have "sis_MachineRegistrationRef (si_Spec demo_seed) \<noteq> None" by code_simp
  with ReconcileSeed_sound [OF demo_seed_rand demo_seed_get demo_seed_sound,
      of "\<lparr>sr_SeedImageImage = ''img'', sr_SeedImageImagePullPolicy = [], sr_PullSecrets = []\<rparr>"]
  show ?thesis by (auto simp: start_def split: prod.splits outcome.splits)
qed

text \<open>A raw image whose base image was changed from \<^verbatim>\<open>image:1\<close> to \<^verbatim>\<open>image:2\<close>.\<close>

definition demo_owner :: "OwnerReference" where
  "demo_owner = \<lparr>or_APIVersion = GroupVersion, or_Kind = ''SeedImage'', or_Name = ''seed'', or_UID = ''u'',
     or_Controller = Some True, or_BlockOwnerDeletion = Some True\<rparr>"

definition demo_old_map :: ConfigMap where
  "demo_old_map = ObjectMeta.extend (zeroMeta\<lparr>Name := ''seed'', Namespace := ''ns''\<rparr>)
     \<lparr>cm_Data = Some [(configMapKeyBaseImage, ''image:1''), (configMapKeyOutputName, ''out.raw'')],
      cm_BinaryData = Some [(configMapKeyRegistration, textOf [1]), (configMapKeyResetConfig, ''yip'')]\<rparr>"

definition demo_old_pod :: Pod where
  "demo_old_pod = ObjectMeta.extend (zeroMeta\<lparr>Name := ''seed'', Namespace := ''ns'', OwnerReferences := [demo_owner],
       Annotations := Some [(baseImageAnnotation, ''image:1'')]\<rparr>)
     \<lparr>pod_RestartPolicy = ''Never'', pod_AutomountToken = None, pod_InitContainers = [], pod_Containers = [],
      pod_Volumes = [], pod_ImagePullSecrets = [], pod_Phase = ''Running''\<rparr>"

text \<open>
  The image found with a config map of its name that is out of date and that nobody owns: the map is
  deleted and created anew, and the pod, which is its own, is deleted, which the API server refuses.
\<close>

definition demo_stray_map :: ConfigMap where
  "demo_stray_map = demo_old_map\<lparr>cm_BinaryData := None\<rparr>"

definition demo_rebuild_env :: env where
  "demo_rebuild_env = demo_env (\<lambda>c. case c of
      CGet k ns nm \<Rightarrow>
        if k = KSeed then Some (RObjs [OSeed demo_seed])
        else if k = KReg then Some (RObjs [OReg ready_registration])
        else if k = KConfigMap then Some (RObjs [OConfigMap demo_stray_map])
        else if k = KPod then Some (RObjs [OPod demo_old_pod])
        else None
    | CDelete x \<Rightarrow> if kind_of x = KPod then Some (RErr (EMsg ''busy'')) else None
    | _ \<Rightarrow> None) []"

definition writtenKind :: "call \<Rightarrow> (bool \<times> kind) list" where
  "writtenKind c = (case c of CCreate x \<Rightarrow> [(True, kind_of x)] | CDelete x \<Rightarrow> [(False, kind_of x)] | _ \<Rightarrow> [])"

lemma writtenKind_call:
  assumes "(b, k) \<in> set (concat (map writtenKind t))"
  obtains x where "kind_of x = k" "(if b then CCreate x else CDelete x) \<in> set t"
proof -
  from assms obtain c where c: "c \<in> set t" "(b, k) \<in> set (writtenKind c)" by auto
  with that show thesis by (cases c) (auto simp: writtenKind_def)
qed

lemma kind_of_child: "kind_of x = KConfigMap \<Longrightarrow> \<exists>m. x = OConfigMap m" "kind_of x = KPod \<Longrightarrow> \<exists>p. x = OPod p"
  by (cases x; simp)+

theorem ReconcileSeed_children_witness:
  "let r = \<lparr>sr_SeedImageImage = ''img'', sr_SeedImageImagePullPolicy = [], sr_PullSecrets = []\<rparr>;
       calls = set (trace (snd (ReconcileSeed demo_rebuild_env r ''ns'' ''seed'' (start ()))))
   in CDelete (OConfigMap demo_stray_map) \<in> calls \<and> \<not> IsObjectOwned demo_stray_map ''u'' \<and>
      (\<exists>p. CDelete (OPod p) \<in> calls \<and> IsObjectOwned p ''u'') \<and>
      (\<exists>m. CCreate (OConfigMap m) \<in> calls \<and> childOf ''ns'' ''seed'' ''u'' m)"
proof -
  let ?r = "\<lparr>sr_SeedImageImage = ''img'', sr_SeedImageImagePullPolicy = [], sr_PullSecrets = []\<rparr>"
  let ?t = "trace (snd (ReconcileSeed demo_rebuild_env ?r ''ns'' ''seed'' (start ())))"
  have get: "answer demo_rebuild_env (decodeOne asSeed) (CGet KSeed ''ns'' ''seed'') (trace (start ())) = Inr demo_seed"
    and map: "answer demo_rebuild_env (decodeOne asConfigMap) (CGet KConfigMap ''ns'' ''seed'') past = Inr demo_stray_map"
    and rand: "rand_ok (rnd demo_rebuild_env)" for past
    by (simp_all add: demo_rebuild_env_def answer_def demo_env_def demo_respond_def start_def decodeOne_def demo_rand_ok)
  have sel: "Namespace demo_seed = ''ns''" "Name demo_seed = ''seed''" "UID demo_seed = ''u''"
    by (simp_all add: demo_seed_def ObjectMeta.defs)
  have may: "seedCall demo_rebuild_env ''ns'' ''seed'' ''u'' c \<or>
      (\<exists>y. c = CPatch False (OSeed demo_seed) (OSeed y) \<or> c = CStatusPatch False (OSeed demo_seed) (OSeed y))"
    if "c \<in> set ?t" for c
    using ReconcileSeed_children [OF rand get demo_seed_sound that] by (simp add: start_def sel)
  have "concat (map writtenKind ?t) = [(False, KPod), (True, KConfigMap), (False, KConfigMap)]" by code_simp
  then have w: "(False, KPod) \<in> set (concat (map writtenKind ?t))" "(True, KConfigMap) \<in> set (concat (map writtenKind ?t))"
    "(False, KConfigMap) \<in> set (concat (map writtenKind ?t))" by simp_all
  obtain p where p: "CDelete (OPod p) \<in> set ?t"
    by (rule writtenKind_call [OF w(1)], drule kind_of_child(2)) auto
  obtain m where m: "CCreate (OConfigMap m) \<in> set ?t"
    by (rule writtenKind_call [OF w(2)], drule kind_of_child(1)) auto
  obtain m' where m': "CDelete (OConfigMap m') \<in> set ?t"
    by (rule writtenKind_call [OF w(3)], drule kind_of_child(1)) auto
  have "\<not> IsObjectOwned demo_stray_map ''u''" by code_simp
  moreover from may [OF m'] have "m' = demo_stray_map" by (auto simp: map)
  moreover from may [OF p] have "IsObjectOwned p ''u''" by simp
  moreover from may [OF m] have "childOf ''ns'' ''seed'' ''u'' m" by simp
  ultimately show ?thesis using p m m' unfolding Let_def by blast
qed

definition demo_change_env :: env where
  "demo_change_env = demo_env (\<lambda>c. case c of
      CGet KConfigMap ns nm \<Rightarrow> Some (RObjs [OConfigMap demo_old_map])
    | CGet KPod ns nm \<Rightarrow> Some (RObjs [OPod demo_old_pod])
    | _ \<Rightarrow> None) []"

theorem base_image_change_witness:
  "\<exists>p. trace (snd (reconcileBuildImagePod demo_change_env
        \<lparr>sr_SeedImageImage = ''img'', sr_SeedImageImagePullPolicy = [], sr_PullSecrets = []\<rparr>
        ready_registration (start demo_seed))) =
      [CCreate (OPod p), CDelete (OPod demo_old_pod), CGet KPod ''ns'' ''seed'', CGet KConfigMap ''ns'' ''seed'',
       CGet KSetting [] ''cacerts'']
    \<and> mstr (Annotations p) baseImageAnnotation = ''image:2''
    \<and> mstr (cm_Data demo_old_map) configMapKeyBaseImage = ''image:1''"
proof -
  let ?s = "start demo_seed"
  let ?s1 = "?s\<lparr>trace := [CGet KSetting [] ''cacerts'']\<rparr>"
  let ?k = "CGet KConfigMap (Namespace (self ?s)) (Name (self ?s))"
  let ?p = "CGet KPod (Namespace (self ?s)) (Name (self ?s))"
  have sel: "self ?s = demo_seed" "trace ?s = []" "Namespace demo_seed = ''ns''" "Name demo_seed = ''seed''"
    by (simp_all add: start_def demo_seed_def ObjectMeta.defs)
  have 1: "GetRancherCACert demo_change_env ?s = (Ok [], ?s1)"
    by (simp add: GetRancherCACert_def GetSettingsValue_def run demo_change_env_def demo_env_def answer_def
        demo_respond_def start_def notFound_def)
  obtain conf where 2: "GetClientRegistrationConfig ready_registration [] = Inr conf"
  proof -
    have "case GetClientRegistrationConfig ready_registration [] of Inr _ \<Rightarrow> True | Inl _ \<Rightarrow> False" by code_simp
    with that show ?thesis by (auto split: sum.splits)
  qed
  have l: "lib demo_change_env = demo_lib" by (simp add: demo_change_env_def demo_env_def)
  have 3: "yaml_config (lib demo_change_env) conf = Inr [1]" by (simp add: l demo_lib_def)
  have 4: "serializeResetRegistrationYaml (lib demo_change_env) conf = Inr ''yip''"
    by (simp add: serializeResetRegistrationYaml_def l demo_lib_def)
  have 5: "MarshalCloudConfig (lib demo_change_env) (sis_CloudConfig (si_Spec (self ?s))) = Inr []"
    by (simp add: MarshalCloudConfig_def start_def demo_seed_def ObjectMeta.defs)
  have 6: "answer demo_change_env (decodeOne asConfigMap) ?k (trace ?s1) = Inr demo_old_map"
    and 8: "answer demo_change_env (decodeOne asPod) ?p (?k # trace ?s1) = Inr demo_old_pod"
    and 11: "answer demo_change_env decodeAny (CDelete (OPod demo_old_pod)) (?p # ?k # trace ?s1) = Inr ()"
    by (simp_all add: answer_def demo_change_env_def demo_env_def demo_respond_def decodeOne_def decodeAny_def)
  have 7: "upToDate (textOf [1]) [] ''yip'' demo_old_map" by code_simp
  have 9: "IsObjectOwned demo_old_pod (UID (self ?s))"
    "mstr (Annotations demo_old_pod) baseImageAnnotation \<noteq> sis_BaseImage (si_Spec (self ?s))"
    "condStatus (sit_Conditions (si_Status (self ?s))) SeedImageConditionReady \<noteq> Some ''True''"
    "sis_BuildContainer (si_Spec (self ?s)) = None" "sis_Type (si_Spec (self ?s)) = ''raw''"
    by code_simp+
  have b: "sis_BaseImage (si_Spec demo_seed) = ''image:2''"
    "mstr (cm_Data demo_old_map) configMapKeyBaseImage = ''image:1''" by code_simp+
  from base_image_change [OF 1 2 3 4 5 6 7 8 9(1,2) 11 9(3-5),
      of "\<lparr>sr_SeedImageImage = ''img'', sr_SeedImageImagePullPolicy = [], sr_PullSecrets = []\<rparr>"]
  show ?thesis unfolding sel b by (auto simp: b)
qed

text \<open>An image on offer, and the request for its download.\<close>

definition demo_offer :: SeedImage where
  "demo_offer = demo_seed\<lparr>si_Status := \<lparr>
     sit_Conditions = [mkCondition ReadyCondition ResourcesSuccessfullyCreatedReason ''True'' [],
       mkCondition SeedImageConditionReady SeedImageBuildSuccessReason ''True'' []],
     sit_DownloadToken = replicate 54 (CHR ''b''),
     sit_DownloadURL = downloadURL ''host'' (replicate 54 (CHR ''b'')) ''reg.iso'',
     sit_ChecksumURL = downloadURL ''host'' (replicate 54 (CHR ''b'')) ''reg.iso'' @ ''.sha256'',
     sit_State = []\<rparr>\<rparr>"

definition demo_download :: request where
  "demo_download = \<lparr>rq_path = ''/elemental/seedimage/'' @ replicate 54 (CHR ''b'') @ ''/reg.iso'',
     rq_authorization = [], rq_upgrade = False\<rparr>"

definition demo_offer_env :: env where
  "demo_offer_env = demo_env (\<lambda>c. case c of
      CList KSeed None sel \<Rightarrow> Some (RObjs [OSeed demo_offer])
    | CGet KService ns nm \<Rightarrow> Some (RObjs [OService ((fillBuildImageService nm ns)\<lparr>svc_ClusterIP := ''10.0.0.1''\<rparr>)])
    | _ \<Rightarrow> None) []"

theorem seed_url_served_witness:
  "trace (snd (ServeHTTP demo_offer_env 0 demo_download (start ()))) =
     [HttpProxy ''http://10.0.0.1/reg.iso'', CGet KService ''ns'' ''seed'', CList KSeed None []]"
proof -
  let ?t = "replicate 54 (CHR ''b'')"
  have sel: "sit_DownloadToken (si_Status demo_offer) = ?t" "Namespace demo_offer = ''ns''" "Name demo_offer = ''seed''"
    "sit_DownloadURL (si_Status demo_offer) = downloadURL ''host'' ?t ''reg.iso''"
    "sit_ChecksumURL (si_Status demo_offer) = downloadURL ''host'' ?t ''reg.iso'' @ ''.sha256''"
    by (simp_all add: demo_offer_def demo_seed_def ObjectMeta.defs)
  have 2: "condStatus (sit_Conditions (si_Status demo_offer)) SeedImageConditionReady = Some ''True''"
    "condReason (sit_Conditions (si_Status demo_offer)) SeedImageConditionReady = Some SeedImageBuildSuccessReason"
    "\<forall>c \<in> set (sit_Conditions (si_Status demo_offer)). c_Status c = ''True''"
    by code_simp+
  have "length ?t = tokenLength \<and> set ?t \<subseteq> set characters" by code_simp
  then have 1: "seedSound demo_offer"
    using 2 by (simp add: seedSound_def Let_def onOffer_def sel) blast
  have 5: "\<forall>c \<in> set ''reg.iso''. pathChar c" unfolding list_all_iff [symmetric] by code_simp
  have 6: "''https://'' @ ''host'' @ rq_path demo_download = sit_DownloadURL (si_Status demo_offer)"
    unfolding sel by (simp add: demo_download_def downloadURL_def)
  have 7: "answer demo_offer_env (decodeAll asSeed) (CList KSeed None []) (trace (start ())) = Inr [demo_offer]"
    by (simp add: answer_def demo_offer_env_def demo_env_def demo_respond_def decodeAll_def start_def)
  have 8: "filter (\<lambda>y. path_base (sit_DownloadToken (si_Status y)) = sit_DownloadToken (si_Status demo_offer)) [demo_offer] = [demo_offer]"
    unfolding sel by (simp add: sel path_base_plain)
  let ?svc = "(fillBuildImageService ''seed'' ''ns'')\<lparr>svc_ClusterIP := ''10.0.0.1''\<rparr>"
  have 9: "answer demo_offer_env (decodeOne asService) (CGet KService (Namespace demo_offer) (Name demo_offer))
      (CList KSeed None [] # trace (start ())) = Inr ?svc"
    unfolding sel by (simp add: answer_def demo_offer_env_def demo_env_def demo_respond_def decodeOne_def)
  have 10: "url_ok (lib demo_offer_env) (''http://'' @ svc_ClusterIP ?svc @ ''/'' @ ''reg.iso'')"
    by (simp add: demo_offer_env_def demo_env_def demo_lib_def)
  from seed_url_served [OF 1 2(1) 2(3) _ 5 6 7 8 9 10, of 0] show ?thesis
    by (simp add: sel start_def)
qed

end
