(* ===== verification/OSImageCtl.thy ===== *)
theory OSImageCtl
  imports CtlLib
begin

text \<open>
  The reconciler of OS images (\<^verbatim>\<open>controllers/managedosimage_controller.go\<close>): it turns a
  \<^verbatim>\<open>ManagedOSImage\<close> into a Fleet bundle with an upgrade plan and what the plan needs, and copies the
  conditions of the bundle back. It writes into the image it reconciles: the pointer to the upgrade
  container of the specification is the one it fills in.
\<close>

section \<open>Versions of images\<close>

definition IsContainerImage :: "ManagedOSVersion \<Rightarrow> bool" where
  "IsContainerImage m \<longleftrightarrow> to_lower (ovs_Type (ov_Spec m)) = ''container''"

definition IsISOImage :: "ManagedOSVersion \<Rightarrow> bool" where
  "IsISOImage m \<longleftrightarrow> to_lower (ovs_Type (ov_Spec m)) = ''iso''"

text \<open>\<^verbatim>\<open>ContainerImage\<close>: of the metadata decoded the callers use the image's URI.\<close>

definition ContainerImage :: "lib \<Rightarrow> ManagedOSVersion \<Rightarrow> goerr + string" where
  "ContainerImage l m =
    (if \<not> IsContainerImage m
     then Inl (EMsg (''ManagedOsVersion '' @ Name m @ '' is not of a container type: '' @ ovs_Type (ov_Spec m)))
     else render_image l (ovs_Metadata (ov_Spec m)))"

text \<open>An image reference taken apart: the image with its registry, and the version.\<close>

definition splitImage :: "string \<Rightarrow> string \<times> string" where
  "splitImage baseImage =
    (let parts = str_split baseImage ''/'';
         registry = (if 1 < length parts then hd parts else []);
         parts' = (if 1 < length parts then tl parts else parts);
         imageParts = splitN2 (str_join parts' ''/'') '':'';
         version = (if length imageParts = 2 then imageParts ! 1 else ''latest'');
         imageName = hd imageParts
     in (if registry \<noteq> [] then registry @ ''/'' @ imageName else imageName, version))"

definition getImageVersion :: "lib \<Rightarrow> ManagedOSImage \<Rightarrow> ManagedOSVersion option \<Rightarrow> goerr + string \<times> string" where
  "getImageVersion l img ver =
    (case (ois_OSImage (oi_Spec img), ver) of
       ([], Some v) \<Rightarrow> (case ContainerImage l v of
           Inl e \<Rightarrow> Inl e | Inr uri \<Rightarrow> Inr (splitImage uri))
     | (base, _) \<Rightarrow> Inr (splitImage base))"

definition prefixPrivateRegistry :: "string \<Rightarrow> string \<Rightarrow> string" where
  "prefixPrivateRegistry imageName pfx = (if pfx = [] then imageName else pfx @ ''/'' @ imageName)"

section \<open>The environment of the upgrade\<close>

text \<open>Go iterates over the map in an order of its own, here that of its entries.\<close>

definition metadataEnv :: "string gomap \<Rightarrow> EnvVar list" where
  "metadataEnv m = map (\<lambda>(k, v). \<lparr>ev_Name = to_upper (''METADATA_'' @ k), ev_Value = trim_char (CHR 0x22) v,
     ev_ValueFrom = None\<rparr>) (mentries m)"

text \<open>
  The comparison that the code hands to \<^verbatim>\<open>sort.Slice\<close> is not strict. \<open>insertLast\<close> is the step of
  Go's insertion sort with it, on the sorted part in reverse: the new element moves left past every
  element that is not smaller. Go sorts so up to twelve elements; for longer lists with distinct
  names every sorting algorithm gives the same list.
\<close>

fun insertLast :: "EnvVar \<Rightarrow> EnvVar list \<Rightarrow> EnvVar list" where
  "insertLast x [] = [x]"
| "insertLast x (y # ys) = (if str_le (ev_Name x) (ev_Name y) then y # insertLast x ys else x # y # ys)"

definition sortEnv :: "EnvVar list \<Rightarrow> EnvVar list" where
  "sortEnv es = rev (fold insertLast es [])"

text \<open>Metadata first; of the user's variables those with another name.\<close>

definition mergeEnv :: "EnvVar list \<Rightarrow> EnvVar list \<Rightarrow> EnvVar list" where
  "mergeEnv menv own = sortEnv (menv @ filter (\<lambda>e. ev_Name e \<notin> set (map ev_Name menv)) own)"

text \<open>What the code writes through the pointer to the container specification.\<close>

definition fillUpgrade :: "string \<Rightarrow> string \<Rightarrow> string gomap \<Rightarrow> ContainerSpec \<Rightarrow> ContainerSpec" where
  "fillUpgrade registry imageName m c = c\<lparr>
     cs_Image := (if cs_Image c = [] then prefixPrivateRegistry imageName registry else cs_Image c),
     cs_Command := (if cs_Command c = [] then [''/usr/sbin/suc-upgrade''] else cs_Command c),
     cs_Env := mergeEnv (metadataEnv m) (cs_Env c)\<rparr>"

section \<open>Names\<close>

definition dnsChar :: "char \<Rightarrow> bool" where
  "dnsChar c \<longleftrightarrow> is_alnum c \<or> c = CHR ''-'' \<or> c = CHR '' ''"

text \<open>\<^verbatim>\<open>ReplaceAllString\<close> with the expression \<^verbatim>\<open>[^a-zA-Z0-9- ]+\<close>: one dash for a run of other characters.\<close>

fun dnsReplace :: "bool \<Rightarrow> string \<Rightarrow> string" where
  "dnsReplace inRun [] = []"
| "dnsReplace inRun (c # s) =
    (if dnsChar c then c # dnsReplace False s
     else if inRun then dnsReplace True s
     else CHR ''-'' # dnsReplace True s)"

definition toDNSLabel :: "string \<Rightarrow> string" where
  "toDNSLabel input = trim_suffix (trim_prefix (dnsReplace False input) ''-'') ''-''"

section \<open>The bundle\<close>

definition FleetBundleCreation :: string where
  "FleetBundleCreation = ''FleetBundleCreation''"

definition FleetBundleCreateSuccessReason :: string where
  "FleetBundleCreateSuccessReason = ''FleetBundleCreateSuccess''"

definition FleetBundleCreateFailureReason :: string where
  "FleetBundleCreateFailureReason = ''FleetBundleCreateFailure''"

definition rancherSystemNamespace :: string where
  "rancherSystemNamespace = ''cattle-system''"

definition fleetLocalNamespace :: string where
  "fleetLocalNamespace = ''fleet-local''"

record ManagedOSImageReconciler =
  oir_DefaultRegistry :: string
  oir_PullSecrets :: "string list"

definition upgradeRules :: "PolicyRule list" where
  "upgradeRules =
    [\<lparr>pr_APIGroups = [[]], pr_Verbs = [''update'', ''get'', ''list'', ''watch'', ''patch''], pr_Resources = [''nodes'']\<rparr>,
     \<lparr>pr_APIGroups = [[]], pr_Verbs = [''get'', ''list''], pr_Resources = [''pods'']\<rparr>,
     \<lparr>pr_APIGroups = [''apps''], pr_Verbs = [''get''], pr_Resources = [''daemonsets'']\<rparr>,
     \<lparr>pr_APIGroups = [[]], pr_Verbs = [''create''], pr_Resources = [''pods/eviction'']\<rparr>]"

definition upgradePlan :: "string list \<Rightarrow> ManagedOSImageSpec \<Rightarrow> string \<Rightarrow> string \<Rightarrow> ContainerSpec \<Rightarrow> UpgradePlan" where
  "upgradePlan secrets sp uniqueName version upgrade =
     ObjectMeta.extend
       (zeroMeta\<lparr>Kind := ''Plan'', APIVersion := ''upgrade.cattle.io/v1'', Name := uniqueName,
          Namespace := rancherSystemNamespace\<rparr>)
       \<lparr>up_Concurrency = (case ois_Concurrency sp of None \<Rightarrow> 1 | Some n \<Rightarrow> n),
        up_Version = version,
        up_Tolerations = [''Exists''],
        up_ServiceAccountName = uniqueName,
        up_NodeSelector = Some (case ois_NodeSelector sp of
            None \<Rightarrow> \<lparr>ls_MatchLabels = None, ls_MatchExpressions = []\<rparr> | Some sel \<Rightarrow> sel),
        up_Cordon = (case ois_Cordon sp of None \<Rightarrow> True | Some b \<Rightarrow> b),
        up_Drain = ois_Drain sp,
        up_Prepare = ois_Prepare sp,
        up_Secrets = [(uniqueName, ''/run/data'')],
        up_Upgrade = Some upgrade,
        up_ImagePullSecrets = pullSecretsOf secrets (ois_ImagePullSecrets sp)\<rparr>"

definition bundleObjects :: "string list \<Rightarrow> ManagedOSImageSpec \<Rightarrow> string \<Rightarrow> string \<Rightarrow> string \<Rightarrow> ContainerSpec \<Rightarrow> kobj list" where
  "bundleObjects secrets sp uniqueName cloudConfig version upgrade =
    [OClusterRole (ObjectMeta.extend (zeroMeta\<lparr>Name := uniqueName\<rparr>) \<lparr>role_Rules = upgradeRules\<rparr>),
     OClusterRB (ObjectMeta.extend (zeroMeta\<lparr>Name := uniqueName\<rparr>)
       \<lparr>rb_Subjects = [\<lparr>sj_Kind = ''ServiceAccount'', sj_Name = uniqueName, sj_Namespace = rancherSystemNamespace\<rparr>],
        rb_RoleRef = \<lparr>rr_Kind = ''ClusterRole'', rr_Name = uniqueName, rr_APIGroup = ''rbac.authorization.k8s.io''\<rparr>\<rparr>),
     OSA (zeroMeta\<lparr>Name := uniqueName, Namespace := rancherSystemNamespace\<rparr>),
     OSecret (ObjectMeta.extend (zeroMeta\<lparr>Name := uniqueName, Namespace := rancherSystemNamespace\<rparr>)
       \<lparr>sec_Type = [], sec_Data = Some [(''cloud-config'', cloudConfig)], sec_StringData = None\<rparr>),
     OUpgradePlan (upgradePlan secrets sp uniqueName version upgrade)]"

text \<open>The kind set on the copy of an object, and its name and namespace.\<close>

fun setGVK :: "string \<Rightarrow> string \<Rightarrow> kobj \<Rightarrow> kobj" where
  "setGVK gv k (OClusterRole x) = OClusterRole (x\<lparr>APIVersion := gv, Kind := k\<rparr>)"
| "setGVK gv k (OClusterRB x) = OClusterRB (x\<lparr>APIVersion := gv, Kind := k\<rparr>)"
| "setGVK gv k (OSA x) = OSA (x\<lparr>APIVersion := gv, Kind := k\<rparr>)"
| "setGVK gv k (OSecret x) = OSecret (x\<lparr>APIVersion := gv, Kind := k\<rparr>)"
| "setGVK gv k (OUpgradePlan x) = OUpgradePlan (x\<lparr>APIVersion := gv, Kind := k\<rparr>)"
| "setGVK gv k x = x"

fun objKey :: "kobj \<Rightarrow> string \<times> string" where
  "objKey (OClusterRole x) = (Namespace x, Name x)"
| "objKey (OClusterRB x) = (Namespace x, Name x)"
| "objKey (OSA x) = (Namespace x, Name x)"
| "objKey (OSecret x) = (Namespace x, Name x)"
| "objKey (OUpgradePlan x) = (Namespace x, Name x)"
| "objKey x = ([], [])"

text \<open>
  The loop over the objects with its result so far. An object whose type has no kind in the scheme
  ends it with a nil result and no error.
\<close>

fun objToFleetBundleResources :: "lib \<Rightarrow> BundleResource list \<Rightarrow> kobj list \<Rightarrow> goerr + BundleResource list" where
  "objToFleetBundleResources l result [] = Inr result"
| "objToFleetBundleResources l result (obj # objs) = (case object_kinds l obj of
      Inl e \<Rightarrow> Inl e
    | Inr [] \<Rightarrow> Inr []
    | Inr ((gv, k) # _) \<Rightarrow>
        if k = [] then Inl (EMsg ''can't set object GVK'')
        else (case json_object_of l (setGVK gv k obj) of
            Inl e \<Rightarrow> Inl e
          | Inr data \<Rightarrow> objToFleetBundleResources l
              (result @ [\<lparr>br_Name = SafeConcatName l [k, fst (objKey obj), snd (objKey obj), take 12 (sha256_hex l data)] @ ''.yaml'',
                 br_Content = data\<rparr>]) objs))"

section \<open>The handlers\<close>

type_synonym 'a osimg_handler = "(ManagedOSImage st, 'a) go"

definition updImgConds :: "(Condition list \<Rightarrow> Condition list) \<Rightarrow> ManagedOSImage \<Rightarrow> ManagedOSImage" where
  "updImgConds f x = x\<lparr>oi_Status := \<lparr>oit_Conditions = f (oit_Conditions (oi_Status x))\<rparr>\<rparr>"

definition getCloudConfig :: "lib \<Rightarrow> ManagedOSImage \<Rightarrow> goerr + string" where
  "getCloudConfig l img =
    (if mentries (ois_CloudConfig (oi_Spec img)) = [] then Inr []
     else case MarshalCloudConfig l (ois_CloudConfig (oi_Spec img)) of
       Inl e \<Rightarrow> Inl (wrap ''mashalling cloud config'' e) | Inr y \<Rightarrow> Inr y)"

text \<open>The version that the image names, and the label that makes the image found by it.\<close>

definition fetchVersion :: "env \<Rightarrow> ManagedOSVersion option osimg_handler" where
  "fetchVersion env = bnd this (\<lambda>img. let nm = ois_ManagedOSVersionName (oi_Spec img) in
     if nm = [] then ret None
     else bnd (orWrap (getObj env KOSVersion asOSVersion (Namespace img) nm) ''failed to get managedOSVersion'') (\<lambda>v.
       andThen (update (\<lambda>x. x\<lparr>Labels := mput ElementalManagedOSImageVersionNameLabel nm (mmake (Labels x))\<rparr>))
         (ret (Some v))))"

text \<open>
  The container specification: the pointer is that of the image, else of the version, else a fresh
  one; what is filled in goes where it points to, so into the specification of the image.
\<close>

definition upgradeContainer :: "ManagedOSImage \<Rightarrow> ManagedOSVersion option \<Rightarrow> ContainerSpec" where
  "upgradeContainer img ver = (case ois_UpgradeContainer (oi_Spec img) of
      Some c \<Rightarrow> c
    | None \<Rightarrow> (case ver of
        Some v \<Rightarrow> (case ovs_UpgradeContainer (ov_Spec v) of Some c \<Rightarrow> c | None \<Rightarrow> zeroContainerSpec)
      | None \<Rightarrow> zeroContainerSpec))"

definition storeUpgrade :: "ContainerSpec \<Rightarrow> ManagedOSImage \<Rightarrow> ManagedOSImage" where
  "storeUpgrade c img = (case ois_UpgradeContainer (oi_Spec img) of
      None \<Rightarrow> img
    | Some _ \<Rightarrow> img\<lparr>oi_Spec := (oi_Spec img)\<lparr>ois_UpgradeContainer := Some c\<rparr>\<rparr>)"

definition newFleetBundleResources :: "env \<Rightarrow> ManagedOSImageReconciler \<Rightarrow> BundleResource list osimg_handler" where
  "newFleetBundleResources env r = bnd this (\<lambda>img.
     bnd (lift_sum (getCloudConfig (lib env) img)) (\<lambda>cloudConfig.
     bnd (fetchVersion env) (\<lambda>ver.
     bnd (lift_sum (getImageVersion (lib env) img ver)) (\<lambda>(imageName, version).
     let m = (case ver of None \<Rightarrow> Some [] | Some v \<Rightarrow> ovs_Metadata (ov_Spec v));
         upgrade = fillUpgrade (oir_DefaultRegistry r) imageName m (upgradeContainer img ver);
         uniqueName = toDNSLabel (SafeConcatName (lib env) [''os-upgrader'', Name img])
     in andThen (update (storeUpgrade upgrade))
          (lift_sum (objToFleetBundleResources (lib env) []
             (bundleObjects (oir_PullSecrets r) (oi_Spec img) uniqueName cloudConfig version upgrade)))))))"

definition formatBundleName :: "lib \<Rightarrow> ManagedOSImage \<Rightarrow> string" where
  "formatBundleName l img = SafeConcatName l [''mos'', Name img]"

definition mapImageToBundle :: "lib \<Rightarrow> ManagedOSImage \<Rightarrow> BundleResource list \<Rightarrow> Bundle \<Rightarrow> Bundle" where
  "mapImageToBundle l img bundleResources b = b\<lparr>
     Name := formatBundleName l img,
     Namespace := Namespace img,
     OwnerReferences := [\<lparr>or_APIVersion = GroupVersion, or_Kind = ''ManagedOSImage'', or_Name = Name img,
       or_UID = UID img, or_Controller = Some True, or_BlockOwnerDeletion = None\<rparr>],
     bd_Resources := bundleResources,
     bd_RolloutStrategy := ois_ClusterRolloutStrategy (oi_Spec img),
     bd_Targets := (if Namespace img = fleetLocalNamespace
       then [\<lparr>bt_ClusterName = ''local'', bt_Rest = []\<rparr>] else ois_Targets (oi_Spec img))\<rparr>"

definition zeroBundle :: Bundle where
  "zeroBundle = ObjectMeta.extend zeroMeta
     \<lparr>bd_Resources = [], bd_RolloutStrategy = None, bd_Targets = [], bd_Rest = [], bd_Conditions = []\<rparr>"

definition createFleetBundle :: "env \<Rightarrow> BundleResource list \<Rightarrow> unit osimg_handler" where
  "createFleetBundle env bundleResources = bnd this (\<lambda>img.
     andThen (onErr (writeObj env (CCreate (OBundle (mapImageToBundle (lib env) img bundleResources zeroBundle))))
        (\<lambda>e. if isAlreadyExists e then ret () else fail (wrap ''failed to create fleet bundle'' e)))
       (setCond env updImgConds (mkCondition FleetBundleCreation FleetBundleCreateSuccessReason ''True'' [])))"

definition updateFleetBundle :: "env \<Rightarrow> BundleResource list \<Rightarrow> unit osimg_handler" where
  "updateFleetBundle env bundleResources = bnd this (\<lambda>img.
     let nm = formatBundleName (lib env) img in
     bnd (orWrap (getObj env KBundle asBundle (Namespace img) nm)
            (''getting bundle '' @ [CHR 0x27] @ Namespace img @ ''/'' @ nm @ [CHR 0x27])) (\<lambda>b.
       orWrap (writeObj env (CUpdate (OBundle (mapImageToBundle (lib env) img bundleResources b))))
         ''updating bundle''))"

text \<open>A condition of the bundle as one of the image.\<close>

definition convertCondition :: "GenericCondition \<Rightarrow> Condition" where
  "convertCondition c = mkCondition
     (if gc_Type c = [] then ''UnknownType'' else gc_Type c)
     (if gc_Reason c = [] then ''UnknownReason'' else gc_Reason c)
     (if gc_Status c = [] then ''Unknown'' else gc_Status c)
     (gc_Message c)"

definition updateManagedOSImageStatus :: "env \<Rightarrow> unit osimg_handler" where
  "updateManagedOSImageStatus env = bnd this (\<lambda>img.
     bnd (getObj env KBundle asBundle (Namespace img) (SafeConcatName (lib env) [''mos'', Name img])) (\<lambda>b.
       forEach (\<lambda>c. setCond env updImgConds (convertCondition c)) (bd_Conditions b)))"

text \<open>Create the bundle once, update it from then on.\<close>

definition applyBundle :: "env \<Rightarrow> BundleResource list \<Rightarrow> unit osimg_handler" where
  "applyBundle env bundleResources = bnd this (\<lambda>img.
     if IsStatusConditionTrue (oit_Conditions (oi_Status img)) FleetBundleCreation
     then orWrap (updateFleetBundle env bundleResources) ''updating Bundle from ManagedOSImage''
     else onErr (createFleetBundle env bundleResources) (\<lambda>e.
       andThen (setCond env updImgConds (mkCondition FleetBundleCreation FleetBundleCreateFailureReason ''False'' (err_text e)))
         (fail (wrap ''creating Bundle from ManagedOSImage'' e))))"

definition reconcileOSImage :: "env \<Rightarrow> ManagedOSImageReconciler \<Rightarrow> result osimg_handler" where
  "reconcileOSImage env r = bnd this (\<lambda>img.
     if Namespace img = fleetLocalNamespace \<and> ois_Targets (oi_Spec img) \<noteq> []
     then fail (EMsg ''spec.targets should be empty if in the fleet-local namespace'')
     else bnd (orWrap (newFleetBundleResources env r) ''failed to create fleet bundle resources'') (\<lambda>bundleResources.
       andThen (applyBundle env bundleResources)
      (andThen (orWrap (updateManagedOSImageStatus env) ''failed to update managed OS image status'')
         (ret noResult))))"

definition osImageResource :: "ManagedOSImage resource" where
  "osImageResource = \<lparr>rc_kind = KOSImage, rc_name = ''managed OS image'', rc_inj = OOSImage, rc_as = asOSImage,
     rc_restore = (\<lambda>x y. y\<lparr>oi_Status := oi_Status x\<rparr>), rc_sanitize = updImgConds RemoveInvalidConditions,
     rc_lock = True, rc_okPatch = isNotFound, rc_okStatus = isNotFound\<rparr>"

definition ReconcileOSImage :: "env \<Rightarrow> ManagedOSImageReconciler \<Rightarrow> string \<Rightarrow> string \<Rightarrow> ('o st, result) go" where
  "ReconcileOSImage env r ns nm = runReconcile env osImageResource (reconcileOSImage env r) ns nm"

end
