(* ===== verification/OSImageProps.thy ===== *)
theory OSImageProps
  imports OSImageCtl "HOL-Library.Multiset"
begin

text \<open>
  What the reconciler of OS images makes of an image: the reference taken apart and put together,
  the environment of the upgrade, the name of the plan, the bundle, and what a reconciliation writes
  into the image itself.
\<close>

section \<open>Image references\<close>

lemma str_join_cons2: "str_join (x # y # ys) sep = x @ sep @ str_join (y # ys) sep"
  by simp

lemma splitN2_join: "splitN2 s '':'' = [a, b] \<Longrightarrow> s = a @ '':'' @ b"
  by (auto simp: splitN2_def dest: str_cut_eq split: option.splits)

lemma splitN2_one: "splitN2 s '':'' = [a] \<Longrightarrow> a = s \<and> CHR '':'' \<notin> set s"
proof -
  assume "splitN2 s '':'' = [a]"
  then have "str_index s '':'' = None" and a: "a = s"
    by (auto simp: splitN2_def str_cut_def split: option.splits)
  then have "\<not> has_prefix (drop j s) '':''" for j by (auto dest: str_index_None)
  moreover have "has_prefix (drop (length xs) (xs @ CHR '':'' # ys)) '':''" for xs ys
    by simp
  ultimately show ?thesis using a by (metis split_list)
qed

lemma splitN2_cases: "(\<exists>a b. splitN2 s '':'' = [a, b]) \<or> splitN2 s '':'' = [s]"
  by (auto simp: splitN2_def split: option.split prod.split)

text \<open>
  An image reference that does not begin with a slash is recovered from its parts: joined with a
  colon they give the reference back when there is a tag behind the registry, and a reference
  without one keeps its text and gets the version \<^verbatim>\<open>latest\<close>; a colon in the registry's port is not
  taken for that of a tag.
\<close>

theorem splitImage_roundtrip:
  assumes "\<not> has_prefix base ''/''"
  shows "case splitImage base of (img, version) \<Rightarrow>
    base = img @ '':'' @ version \<or> (base = img \<and> version = ''latest'')"
proof -
  obtain p ps where parts: "str_split base ''/'' = p # ps"
    using str_split_nonempty by (metis neq_Nil_conv)
  with join_split [of "''/''" base] have base: "base = str_join (p # ps) ''/''" by simp
  have reg: "ps \<noteq> [] \<Longrightarrow> p \<noteq> []"
    using assms base by (cases ps) auto
  let ?rest = "str_join (if 1 < length (p # ps) then ps else p # ps) ''/''"
  from splitN2_cases [of ?rest] show ?thesis
  proof (elim disjE exE)
    fix a b assume s: "splitN2 ?rest '':'' = [a, b]"
    have "splitImage base = (if ps \<noteq> [] then (p @ ''/'' @ a, b) else (a, b))"
      using s reg by (simp add: splitImage_def parts Let_def split: if_splits)
    moreover have "base = (if ps \<noteq> [] then p @ ''/'' @ ?rest else ?rest)"
      using base by (cases ps) auto
    ultimately show ?thesis using splitN2_join [OF s] by (simp split: if_splits)
  next
    assume s: "splitN2 ?rest '':'' = [?rest]"
    have "splitImage base = (if ps \<noteq> [] then (p @ ''/'' @ ?rest, ''latest'') else (?rest, ''latest''))"
      using s reg by (simp add: splitImage_def parts Let_def split: if_splits)
    moreover have "base = (if ps \<noteq> [] then p @ ''/'' @ ?rest else ?rest)"
      using base by (cases ps) auto
    ultimately show ?thesis by (simp split: if_splits)
  qed
qed

theorem splitImage_roundtrip_witness:
  "splitImage ''reg:5000/suse/os:v1'' = (''reg:5000/suse/os'', ''v1'') \<and>
   ''reg:5000/suse/os:v1'' = ''reg:5000/suse/os'' @ '':'' @ ''v1''"
proof -
  have 1: "\<not> has_prefix ''reg:5000/suse/os:v1'' ''/''" by code_simp
  have 2: "splitImage ''reg:5000/suse/os:v1'' = (''reg:5000/suse/os'', ''v1'')" by code_simp
  from splitImage_roundtrip [OF 1] 2 show ?thesis by simp
qed

section \<open>The environment of the upgrade\<close>

lemma str_le_refl [simp]: "str_le s s"
  by (induction s) auto

lemma str_le_total: "str_le s t \<or> str_le t s"
  by (induction s t rule: str_le.induct) auto

lemma str_le_trans: "str_le s t \<Longrightarrow> str_le t u \<Longrightarrow> str_le s u"
  by (induction s t arbitrary: u rule: str_le.induct) (case_tac u, auto)+

lemma insertLast_mset: "mset (insertLast x ys) = add_mset x (mset ys)"
  by (induction ys) auto

lemma insertLast_set [simp]: "set (insertLast x ys) = insert x (set ys)"
  by (induction ys) auto

lemma insertLast_sorted:
  "sorted_wrt (\<lambda>a b. str_le (ev_Name b) (ev_Name a)) ys \<Longrightarrow>
   sorted_wrt (\<lambda>a b. str_le (ev_Name b) (ev_Name a)) (insertLast x ys)"
proof (induction ys)
  case (Cons y ys)
  then show ?case
    using str_le_total [of "ev_Name x" "ev_Name y"] by (auto intro: str_le_trans)
qed simp

lemma fold_insertLast:
  "sorted_wrt (\<lambda>a b. str_le (ev_Name b) (ev_Name a)) ys \<Longrightarrow>
   sorted_wrt (\<lambda>a b. str_le (ev_Name b) (ev_Name a)) (fold insertLast xs ys)
   \<and> mset (fold insertLast xs ys) = mset xs + mset ys"
  by (induction xs arbitrary: ys) (simp_all add: insertLast_sorted insertLast_mset)

lemma sortEnv_sorted: "sorted_wrt (\<lambda>a b. str_le (ev_Name a) (ev_Name b)) (sortEnv es) \<and> mset (sortEnv es) = mset es"
  using fold_insertLast [of "[]" es] by (simp add: sortEnv_def sorted_wrt_rev)

text \<open>
  The environment of the upgrade is sorted by name, consists of the metadata and of those of the
  user's variables whose name is not taken by metadata, each as often as it was given, and metadata
  wins: what it holds under the names of metadata is the metadata.
\<close>

theorem mergeEnv_metadata_wins:
  "sorted_wrt (\<lambda>a b. str_le (ev_Name a) (ev_Name b)) (mergeEnv menv own)
   \<and> mset (mergeEnv menv own) = mset menv + {#e \<in># mset own. ev_Name e \<notin> ev_Name ` set menv#}
   \<and> {#e \<in># mset (mergeEnv menv own). ev_Name e \<in> ev_Name ` set menv#} = mset menv"
proof -
  have m: "mset (mergeEnv menv own) = mset menv + {#e \<in># mset own. ev_Name e \<notin> ev_Name ` set menv#}"
    using sortEnv_sorted [of "menv @ filter (\<lambda>e. ev_Name e \<notin> set (map ev_Name menv)) own"]
    by (simp add: mergeEnv_def)
  moreover have "{#e \<in># mset menv. ev_Name e \<in> ev_Name ` set menv#} = mset menv"
    by (simp add: filter_mset_eq_conv)
  moreover have "{#e \<in># {#e \<in># mset own. ev_Name e \<notin> ev_Name ` set menv#}. ev_Name e \<in> ev_Name ` set menv#} = {#}"
    by (simp add: filter_filter_mset)
  ultimately show ?thesis
    using sortEnv_sorted [of "menv @ filter (\<lambda>e. ev_Name e \<notin> set (map ev_Name menv)) own"]
    by (simp add: mergeEnv_def)
qed

section \<open>The name of the plan\<close>

definition labelChar :: "char \<Rightarrow> bool" where
  "labelChar c \<longleftrightarrow> is_lower c \<or> is_digit c \<or> c = CHR ''-''"

definition edgeChar :: "char \<Rightarrow> bool" where
  "edgeChar c \<longleftrightarrow> is_lower c \<or> is_digit c"

text \<open>A label of RFC 1123, and the names Kubernetes admits for custom resources.\<close>

definition dnsLabel :: "string \<Rightarrow> bool" where
  "dnsLabel s \<longleftrightarrow> s \<noteq> [] \<and> length s < 64 \<and> list_all labelChar s \<and> edgeChar (hd s) \<and> edgeChar (last s)"

definition objectName :: "string \<Rightarrow> bool" where
  "objectName s \<longleftrightarrow> s \<noteq> [] \<and> list_all (\<lambda>c. labelChar c \<or> c = CHR ''.'') s \<and> edgeChar (last s)"

lemma dnsReplace_length: "length (dnsReplace b s) \<le> length s"
proof (induction s arbitrary: b)
  case (Cons c s)
  then show ?case by (auto simp: le_SucI)
qed simp

lemma edge_dns: "edgeChar c \<Longrightarrow> dnsChar c \<and> labelChar c \<and> c \<noteq> CHR ''-''"
  by (auto simp: edgeChar_def dnsChar_def labelChar_def is_alnum_def is_lower_def is_digit_def)

lemma dnsReplace_chars:
  "list_all (\<lambda>c. labelChar c \<or> c = CHR ''.'') s \<Longrightarrow> list_all labelChar (dnsReplace b s)"
proof (induction s arbitrary: b)
  case (Cons c s)
  have "\<not> is_upper (CHR ''.'')" by code_simp
  with Cons show ?case by (auto simp: dnsChar_def labelChar_def is_alnum_def)
qed simp

lemma dnsReplace_last: "s \<noteq> [] \<Longrightarrow> edgeChar (last s) \<Longrightarrow> dnsReplace b s \<noteq> [] \<and> last (dnsReplace b s) = last s"
proof (induction s arbitrary: b)
  case (Cons c s)
  show ?case
  proof (cases "s = []")
    case True
    then show ?thesis using Cons.prems edge_dns by auto
  next
    case False
    then show ?thesis using Cons.IH [of True] Cons.IH [of False] Cons.prems by auto
  qed
qed simp

lemma dnsReplace_hd: "s \<noteq> [] \<Longrightarrow> edgeChar (hd s) \<Longrightarrow> hd (dnsReplace False s) = hd s"
  using edge_dns by (cases s) auto

text \<open>A text that begins and ends well only loses its runs of other characters.\<close>

lemma toDNSLabel_name:
  assumes "s \<noteq> []" "list_all (\<lambda>c. labelChar c \<or> c = CHR ''.'') s" "edgeChar (hd s)" "edgeChar (last s)"
    and "length s < 64"
  shows "dnsLabel (toDNSLabel s)"
proof -
  let ?r = "dnsReplace False s"
  have r: "?r \<noteq> []" "last ?r = last s" "hd ?r = hd s" "list_all labelChar ?r" "length ?r < 64"
    using dnsReplace_last [OF assms(1,4)] dnsReplace_hd [OF assms(1,3)] dnsReplace_chars [OF assms(2)]
      dnsReplace_length [of False s] assms(5) by simp_all
  have "\<not> has_prefix ?r ''-''"
    using r(1,3) edge_dns [OF assms(3)] by (cases ?r) auto
  moreover have "\<not> has_suffix ?r ''-''"
    using r(1,2) edge_dns [OF assms(4)] by (cases ?r rule: rev_cases) (auto simp: has_suffix_def)
  ultimately have "toDNSLabel s = ?r" by (simp add: toDNSLabel_def trim_prefix_def trim_suffix_def)
  then show ?thesis using r assms(3,4) by (simp add: dnsLabel_def)
qed

lemma SafeConcatName_chars:
  assumes "list_all P (str_join names ''-'')" and "P (CHR ''-'')" and "list_all P (sha256_hex l (str_join names ''-''))"
  shows "list_all P (SafeConcatName l names)"
  using assms unfolding SafeConcatName_def Let_def
  by (simp add: list_all_iff) (auto dest: in_set_takeD)

lemma SafeConcatName_hd: "str_join names ''-'' \<noteq> [] \<Longrightarrow> hd (SafeConcatName l names) = hd (str_join names ''-'')"
  by (simp add: SafeConcatName_def Let_def hd_append)

lemma SafeConcatName_last:
  assumes "P (last (str_join names ''-''))" and "str_join names ''-'' \<noteq> []"
    and "list_all P (sha256_hex l (str_join names ''-''))" and "6 \<le> length (sha256_hex l (str_join names ''-''))"
  shows "P (last (SafeConcatName l names))"
proof -
  let ?d = "sha256_hex l (str_join names ''-'')"
  have "take k ?d \<noteq> []" and "P (last (take k ?d))" if "0 < k" "k \<le> 6" for k
  proof -
    show "take k ?d \<noteq> []" using that assms(4) by auto
    then have "last (take k ?d) \<in> set ?d" by (meson in_set_takeD last_in_set)
    then show "P (last (take k ?d))" using assms(3) by (simp add: list_all_iff)
  qed
  from this [of 5] this [of 6] show ?thesis
    using assms(1) by (simp add: SafeConcatName_def Let_def)
qed

text \<open>
  C32: for every name Kubernetes admits, the name that the objects of the upgrade get is a label of
  RFC 1123, at most 63 characters long, provided the digest is written in lower-case hexadecimal
  digits; the conversion itself would let capitals and blanks through.
\<close>

theorem plan_name_label:
  assumes "objectName nm" and "\<And>s. list_all edgeChar (sha256_hex l s) \<and> 6 \<le> length (sha256_hex l s)"
  shows "dnsLabel (toDNSLabel (SafeConcatName l [''os-upgrader'', nm]))"
proof -
  let ?j = "str_join [''os-upgrader'', nm] ''-''"
  let ?P = "\<lambda>c. labelChar c \<or> c = CHR ''.''"
  have j: "?j = ''os-upgrader-'' @ nm" by simp
  have "list_all ?P ''os-upgrader-''" by code_simp
  then have 1: "list_all ?P ?j" using assms(1) unfolding j by (simp only: list_all_append objectName_def)
  have 2: "edgeChar (last ?j)" "hd ?j = CHR ''o''" using assms(1) by (simp_all add: objectName_def)
  have 3: "list_all ?P (sha256_hex l ?j)"
    using assms(2) [of ?j] edge_dns by (auto simp: list_all_iff)
  show ?thesis
  proof (rule toDNSLabel_name)
    show "list_all ?P (SafeConcatName l [''os-upgrader'', nm])"
      by (rule SafeConcatName_chars [OF 1 _ 3]) (simp add: labelChar_def)
    have "hd (SafeConcatName l [''os-upgrader'', nm]) = CHR ''o''"
      using SafeConcatName_hd [of "[''os-upgrader'', nm]" l] by simp
    moreover have "edgeChar (CHR ''o'')" by code_simp
    ultimately show "edgeChar (hd (SafeConcatName l [''os-upgrader'', nm]))" by simp
    show "edgeChar (last (SafeConcatName l [''os-upgrader'', nm]))"
      by (rule SafeConcatName_last [where P = edgeChar, OF 2(1)]) (use assms(2) in simp_all)
    show "SafeConcatName l [''os-upgrader'', nm] \<noteq> []"
      by (auto simp: SafeConcatName_def Let_def)
  qed (rule SafeConcatName_length)
qed

theorem plan_name_label_witness:
  "dnsLabel (toDNSLabel (SafeConcatName (demo_lib\<lparr>sha256_hex := \<lambda>_. ''0123456789ab''\<rparr>) [''os-upgrader'', ''my.image'']))
   \<and> toDNSLabel ''My Image'' = ''My Image''"
proof
  show "dnsLabel (toDNSLabel (SafeConcatName (demo_lib\<lparr>sha256_hex := \<lambda>_. ''0123456789ab''\<rparr>) [''os-upgrader'', ''my.image'']))"
  proof (rule plan_name_label)
    show "objectName ''my.image''" by code_simp
    have "list_all edgeChar ''0123456789ab'' \<and> 6 \<le> length ''0123456789ab''" by code_simp
    then show "list_all edgeChar (sha256_hex (demo_lib\<lparr>sha256_hex := \<lambda>_. ''0123456789ab''\<rparr>) s)
        \<and> 6 \<le> length (sha256_hex (demo_lib\<lparr>sha256_hex := \<lambda>_. ''0123456789ab''\<rparr>) s)" for s
      by simp
  qed
  show "toDNSLabel ''My Image'' = ''My Image''" by code_simp
qed

section \<open>The bundle\<close>

text \<open>The fields of an image that the making of the bundle's resources leaves alone.\<close>

definition imageCore :: "ManagedOSImage \<Rightarrow> (string \<times> string \<times> string) \<times> ManagedOSImageStatus \<times> BundleTarget list \<times> string option" where
  "imageCore x = ((Namespace x, Name x, UID x), oi_Status x, ois_Targets (oi_Spec x), ois_ClusterRolloutStrategy (oi_Spec x))"

lemma imageCore_store [simp]: "imageCore (storeUpgrade c x) = imageCore x"
  by (simp add: storeUpgrade_def imageCore_def split: option.split)

lemma imageCore_label [simp]: "imageCore (x\<lparr>Labels := l\<rparr>) = imageCore x"
  by (simp add: imageCore_def)

abbreviation noWrite :: "call \<Rightarrow> bool" where
  "noWrite c \<equiv> \<not> isWrite c"

lemma acts_fetchVersion: "acts (\<lambda>x. imageCore x = k) {} noWrite (fetchVersion env)"
  unfolding fetchVersion_def Let_def by (intro acts_this acting) simp_all

lemma acts_resources: "acts (\<lambda>x. imageCore x = k) {} noWrite (newFleetBundleResources env r)"
  unfolding newFleetBundleResources_def Let_def
  by (intro acts_this acts_bnd acts_fetchVersion acts_lift_sum, clarify)
    (intro acts_andThen acts_update acts_lift_sum, simp)

lemma acts_imageStatus: "acts (\<lambda>_. True) {} noWrite (updateManagedOSImageStatus env)"
  unfolding updateManagedOSImageStatus_def by (intro acting) simp_all

lemma added_filter: "added noWrite t u \<Longrightarrow> filter isWrite u = filter isWrite t"
  by (auto simp: added_def list_all_iff filter_empty_conv)

lemma mapImageToBundle_sel [simp]:
  "Name (mapImageToBundle l img rs b) = formatBundleName l img"
  "Namespace (mapImageToBundle l img rs b) = Namespace img"
  "bd_Resources (mapImageToBundle l img rs b) = rs"
  "bd_RolloutStrategy (mapImageToBundle l img rs b) = ois_ClusterRolloutStrategy (oi_Spec img)"
  "IsObjectOwned (mapImageToBundle l img rs b) (UID img)"
  by (simp_all add: mapImageToBundle_def IsObjectOwned_def)

text \<open>What a bundle takes over from its image.\<close>

definition bundleOf :: "lib \<Rightarrow> ManagedOSImage \<Rightarrow> BundleResource list \<Rightarrow> Bundle \<Rightarrow> bool" where
  "bundleOf l img rs b \<longleftrightarrow> Name b = SafeConcatName l [''mos'', Name img] \<and> Namespace b = Namespace img
     \<and> IsObjectOwned b (UID img) \<and> bd_Resources b = rs
     \<and> bd_RolloutStrategy b = ois_ClusterRolloutStrategy (oi_Spec img)
     \<and> (if Namespace img = fleetLocalNamespace then map bt_ClusterName (bd_Targets b) = [''local'']
        else bd_Targets b = ois_Targets (oi_Spec img))"

lemma bundleOf_map: "bundleOf l img rs (mapImageToBundle l img rs b)"
  by (simp add: bundleOf_def formatBundleName_def) (simp add: mapImageToBundle_def)

lemma bundleOf_core: "bundleOf l x rs b \<Longrightarrow> imageCore x = imageCore y \<Longrightarrow> bundleOf l y rs b"
  by (auto simp: bundleOf_def imageCore_def split: if_splits)

lemma applyBundle_run:
  assumes "applyBundle env rs s = (Ok q, t)"
  shows "\<exists>b. bundleOf (lib env) (self s) rs b
    \<and> filter isWrite (trace t) = (if IsStatusConditionTrue (oit_Conditions (oi_Status (self s))) FleetBundleCreation
        then CUpdate (OBundle b) else CCreate (OBundle b)) # filter isWrite (trace s)"
proof (cases "IsStatusConditionTrue (oit_Conditions (oi_Status (self s))) FleetBundleCreation")
  case True
  with assms show ?thesis
    by (auto simp: applyBundle_def updateFleetBundle_def run Let_def bundleOf_map split: sum.splits)
next
  case False
  with assms show ?thesis
    by (auto simp: applyBundle_def createFleetBundle_def run setCond_def bundleOf_map split: sum.splits if_splits)
qed

text \<open>
  C31: a successful reconciliation of an OS image writes exactly once before it patches the image: it
  creates the image's bundle while the image does not say that it was created, and updates it from
  then on. The bundle has the image's namespace, is owned by it, holds the resources made of it, and
  is rolled out to its targets, or to the local cluster alone in the local namespace.
\<close>

theorem bundle_follows_image:
  assumes "reconcileOSImage env r s = (Ok res, t)"
  shows "\<exists>rs s' b. newFleetBundleResources env r s = (Ok rs, s') \<and> bundleOf (lib env) (self s) rs b
    \<and> filter isWrite (trace t) = (if IsStatusConditionTrue (oit_Conditions (oi_Status (self s))) FleetBundleCreation
        then CUpdate (OBundle b) else CCreate (OBundle b)) # filter isWrite (trace s)"
proof -
  from assms obtain rs s1 u s2 where 1: "newFleetBundleResources env r s = (Ok rs, s1)"
    and 2: "applyBundle env rs s1 = (Ok u, s2)" and 3: "\<exists>v. updateManagedOSImageStatus env s2 = (Ok v, t)"
    by (auto simp: reconcileOSImage_def run split: if_splits prod.splits outcome.splits)
  from acts_run [OF acts_resources _ 1] have core: "imageCore (self s1) = imageCore (self s)"
    and w1: "added noWrite (trace s) (trace s1)" by simp_all
  from 3 acts_run [OF acts_imageStatus] have w3: "added noWrite (trace s2) (trace t)" by auto
  have st: "oi_Status (self s1) = oi_Status (self s)" using core by (simp add: imageCore_def)
  from applyBundle_run [OF 2] 1 added_filter [OF w1] added_filter [OF w3] st bundleOf_core [OF _ core]
  show ?thesis by metis
qed

section \<open>What a reconciliation writes into the image\<close>

lemma fetchVersion_spec: "fetchVersion env s = (Ok v, s') \<Longrightarrow> oi_Spec (self s') = oi_Spec (self s)"
  by (auto simp: fetchVersion_def Let_def run split: if_splits sum.splits)

lemma resources_run:
  assumes "newFleetBundleResources env r s = (Ok rs, t)"
    and "ois_UpgradeContainer (oi_Spec (self s)) = Some c" and "ois_OSImage (oi_Spec (self s)) \<noteq> []"
  shows "\<exists>cloudConfig m. let upgrade = fillUpgrade (oir_DefaultRegistry r) (fst (splitImage (ois_OSImage (oi_Spec (self s))))) m c in
    ois_UpgradeContainer (oi_Spec (self t)) = Some upgrade \<and>
    objToFleetBundleResources (lib env) [] (bundleObjects (oir_PullSecrets r) (oi_Spec (self s))
      (toDNSLabel (SafeConcatName (lib env) [''os-upgrader'', Name (self s)])) cloudConfig
      (snd (splitImage (ois_OSImage (oi_Spec (self s))))) upgrade) = Inr rs"
proof -
  let ?img = "self s"
  have iv: "getImageVersion l ?img ver = Inr (splitImage (ois_OSImage (oi_Spec ?img)))" for l ver
    using assms(3) by (simp add: getImageVersion_def split: list.split)
  have up: "upgradeContainer ?img ver = c" for ver using assms(2) by (simp add: upgradeContainer_def)
  obtain cloudConfig where cc: "getCloudConfig (lib env) ?img = Inr cloudConfig"
    using assms(1) by (auto simp: newFleetBundleResources_def run split: sum.splits)
  obtain ver s1 where f: "fetchVersion env s = (Ok ver, s1)"
    using assms(1) cc by (auto simp: newFleetBundleResources_def run split: prod.splits outcome.splits)
  let ?m = "case ver of None \<Rightarrow> Some [] | Some v \<Rightarrow> ovs_Metadata (ov_Spec v)"
  let ?u = "fillUpgrade (oir_DefaultRegistry r) (fst (splitImage (ois_OSImage (oi_Spec ?img)))) ?m c"
  have sp: "oi_Spec (self s1) = oi_Spec ?img" using fetchVersion_spec [OF f] .
  from assms(1) have "objToFleetBundleResources (lib env) [] (bundleObjects (oir_PullSecrets r) (oi_Spec ?img)
      (toDNSLabel (SafeConcatName (lib env) [''os-upgrader'', Name ?img])) cloudConfig
      (snd (splitImage (ois_OSImage (oi_Spec ?img)))) ?u) = Inr rs"
    and "t = s1\<lparr>self := storeUpgrade ?u (self s1)\<rparr>"
    by (auto simp: newFleetBundleResources_def run cc f iv up Let_def case_prod_beta split: sum.splits)
  moreover from this(2) have "ois_UpgradeContainer (oi_Spec (self t)) = Some ?u"
    using assms(2) sp by (simp add: storeUpgrade_def)
  ultimately show ?thesis by (auto simp: Let_def)
qed

lemma fillUpgrade_image: "cs_Image (fillUpgrade reg img m c) =
    (if cs_Image c = [] then prefixPrivateRegistry img reg else cs_Image c)"
  by (simp add: fillUpgrade_def)

text \<open>
  The image of the first reconciliation sticks: an OS image with an upgrade container that names
  no image is reconciled, its \<^verbatim>\<open>osImage\<close> is changed, and it is reconciled again; the plan then asks
  for the version of the new reference but still runs the container image of the old one, because
  the first run wrote that into the specification of the image.
\<close>

theorem upgrade_image_sticks:
  assumes "newFleetBundleResources env r s = (Ok rs, t)"
    and "ois_UpgradeContainer (oi_Spec (self s)) = Some c" and "cs_Image c = []"
    and "ois_OSImage (oi_Spec (self s)) = old" and "old \<noteq> []"
    and "prefixPrivateRegistry (fst (splitImage old)) (oir_DefaultRegistry r) \<noteq> []"
    and "self s' = (self t)\<lparr>oi_Spec := (oi_Spec (self t))\<lparr>ois_OSImage := new\<rparr>\<rparr>" and "new \<noteq> []"
    and "newFleetBundleResources env' r' s' = (Ok rs', t')"
  shows "\<exists>upgrade cloudConfig.
    cs_Image upgrade = prefixPrivateRegistry (fst (splitImage old)) (oir_DefaultRegistry r)
    \<and> objToFleetBundleResources (lib env') [] (bundleObjects (oir_PullSecrets r') (oi_Spec (self s'))
        (toDNSLabel (SafeConcatName (lib env') [''os-upgrader'', Name (self s')])) cloudConfig
        (snd (splitImage new)) upgrade) = Inr rs'"
proof -
  from resources_run [OF assms(1,2)] assms(4,5) obtain m where
    "ois_UpgradeContainer (oi_Spec (self t)) = Some (fillUpgrade (oir_DefaultRegistry r) (fst (splitImage old)) m c)"
    by (auto simp: Let_def)
  then have c': "ois_UpgradeContainer (oi_Spec (self s')) = Some (fillUpgrade (oir_DefaultRegistry r) (fst (splitImage old)) m c)"
    and n: "ois_OSImage (oi_Spec (self s')) = new"
    using assms(7) by simp_all
  from resources_run [OF assms(9) c'] n assms(8) obtain cloudConfig m' where
    "objToFleetBundleResources (lib env') [] (bundleObjects (oir_PullSecrets r') (oi_Spec (self s'))
      (toDNSLabel (SafeConcatName (lib env') [''os-upgrader'', Name (self s')])) cloudConfig
      (snd (splitImage new)) (fillUpgrade (oir_DefaultRegistry r') (fst (splitImage new)) m'
        (fillUpgrade (oir_DefaultRegistry r) (fst (splitImage old)) m c))) = Inr rs'"
    by (auto simp: Let_def)
  moreover have "cs_Image (fillUpgrade (oir_DefaultRegistry r') (fst (splitImage new)) m'
      (fillUpgrade (oir_DefaultRegistry r) (fst (splitImage old)) m c))
      = prefixPrivateRegistry (fst (splitImage old)) (oir_DefaultRegistry r)"
    using assms(3,6) by (simp add: fillUpgrade_image)
  ultimately show ?thesis by blast
qed

section \<open>Instances\<close>

definition demo_image :: ManagedOSImage where
  "demo_image = ObjectMeta.extend (zeroMeta\<lparr>Name := ''img'', Namespace := ''ns'', UID := ''u''\<rparr>)
     \<lparr>oi_Spec = \<lparr>ois_OSImage = ''reg/os:1'', ois_CloudConfig = None, ois_NodeSelector = None, ois_Concurrency = None,
        ois_Prepare = None, ois_Cordon = None, ois_Drain = None,
        ois_UpgradeContainer = Some (zeroContainerSpec\<lparr>cs_Args := [''-x'']\<rparr>),
        ois_ManagedOSVersionName = [], ois_ClusterRolloutStrategy = None, ois_Targets = [],
        ois_ImagePullSecrets = []\<rparr>,
      oi_Status = \<lparr>oit_Conditions = []\<rparr>\<rparr>"

definition demo_image_env :: env where
  "demo_image_env = demo_env (\<lambda>c. case c of
      CGet KBundle ns nm \<Rightarrow> Some (RObjs [OBundle zeroBundle]) | _ \<Rightarrow> None) []"

definition demo_image_rec :: ManagedOSImageReconciler where
  "demo_image_rec = \<lparr>oir_DefaultRegistry = [], oir_PullSecrets = []\<rparr>"

text \<open>The image after its reconciliation, and after its \<^verbatim>\<open>osImage\<close> was changed.\<close>

definition demo_image' :: ManagedOSImage where
  "demo_image' = (let x = self (snd (newFleetBundleResources demo_image_env demo_image_rec (start demo_image)))
     in x\<lparr>oi_Spec := (oi_Spec x)\<lparr>ois_OSImage := ''reg/other:2''\<rparr>\<rparr>)"

lemma demo_resources_ok:
  assumes "ois_ManagedOSVersionName (oi_Spec (self s)) = []" "ois_CloudConfig (oi_Spec (self s)) = None"
    "ois_OSImage (oi_Spec (self s)) \<noteq> []"
  shows "\<exists>rs t. newFleetBundleResources demo_image_env r s = (Ok rs, t)
    \<and> ois_ManagedOSVersionName (oi_Spec (self t)) = [] \<and> ois_CloudConfig (oi_Spec (self t)) = None"
proof -
  have l: "lib demo_image_env = demo_lib" by (simp add: demo_image_env_def demo_env_def)
  have iv: "getImageVersion l (self s) None = Inr (splitImage (ois_OSImage (oi_Spec (self s))))" for l
    using assms(3) by (simp add: getImageVersion_def split: list.split)
  have cc: "getCloudConfig l (self s) = Inr []" for l using assms(2) by (simp add: getCloudConfig_def)
  have ob: "objToFleetBundleResources demo_lib [] (bundleObjects a b c d e f) \<noteq> Inl x" for a b c d e f x
    by (simp add: bundleObjects_def demo_lib_def)
  have st: "ois_ManagedOSVersionName (oi_Spec (storeUpgrade u x)) = ois_ManagedOSVersionName (oi_Spec x)"
    "ois_CloudConfig (oi_Spec (storeUpgrade u x)) = ois_CloudConfig (oi_Spec x)" for u x
    by (simp_all add: storeUpgrade_def split: option.split)
  show ?thesis using assms(1,2) ob
    by (auto simp: newFleetBundleResources_def fetchVersion_def run l iv cc st Let_def case_prod_beta split: sum.split)
qed

theorem upgrade_image_sticks_witness:
  "\<exists>upgrade cloudConfig rs. cs_Image upgrade = ''reg/os'' \<and>
     newFleetBundleResources demo_image_env demo_image_rec (start demo_image')
       = (Ok rs, snd (newFleetBundleResources demo_image_env demo_image_rec (start demo_image'))) \<and>
     objToFleetBundleResources demo_lib [] (bundleObjects [] (oi_Spec demo_image')
        (toDNSLabel (SafeConcatName demo_lib [''os-upgrader'', ''img''])) cloudConfig ''2'' upgrade) = Inr rs"
proof -
  from demo_resources_ok [of "start demo_image" demo_image_rec] obtain rs t where
    run1: "newFleetBundleResources demo_image_env demo_image_rec (start demo_image) = (Ok rs, t)"
    and sp: "ois_ManagedOSVersionName (oi_Spec (self t)) = [] \<and> ois_CloudConfig (oi_Spec (self t)) = None"
    by (auto simp: start_def demo_image_def ObjectMeta.defs)
  have e: "self (start demo_image') = (self t)\<lparr>oi_Spec := (oi_Spec (self t))\<lparr>ois_OSImage := ''reg/other:2''\<rparr>\<rparr>"
    unfolding demo_image'_def run1 Let_def by (simp add: start_def)
  have "\<exists>rs' t'. newFleetBundleResources demo_image_env demo_image_rec (start demo_image') = (Ok rs', t')"
    using demo_resources_ok [of "start demo_image'" demo_image_rec] sp unfolding e by simp blast
  then obtain rs' t' where
    run2: "newFleetBundleResources demo_image_env demo_image_rec (start demo_image') = (Ok rs', t')" by blast
  note runs = run1 run2
  have 2: "ois_UpgradeContainer (oi_Spec (self (start demo_image))) = Some (zeroContainerSpec\<lparr>cs_Args := [''-x'']\<rparr>)"
    "cs_Image (zeroContainerSpec\<lparr>cs_Args := [''-x'']\<rparr>) = []"
    "ois_OSImage (oi_Spec (self (start demo_image))) = ''reg/os:1''"
    by (simp_all add: start_def demo_image_def ObjectMeta.defs zeroContainerSpec_def)
  have 3: "prefixPrivateRegistry (fst (splitImage ''reg/os:1'')) (oir_DefaultRegistry demo_image_rec) = ''reg/os''"
    "snd (splitImage ''reg/other:2'') = ''2''" "oir_PullSecrets demo_image_rec = []"
    by code_simp+
  have "imageCore (self t) = imageCore demo_image"
    using acts_run [OF acts_resources _ run1] by (simp add: start_def)
  then have "Name (self t) = ''img''"
    by (simp add: imageCore_def demo_image_def ObjectMeta.defs)
  then have "Name (self (start demo_image')) = ''img''" unfolding e by simp
  then have nm: "Name demo_image' = ''img''" by (simp add: start_def)
  have l: "lib demo_image_env = demo_lib" "self (start demo_image') = demo_image'"
    by (simp_all add: demo_image_env_def demo_env_def start_def)
  from upgrade_image_sticks [OF runs(1) 2 _ _ e _ runs(2)] 3 nm runs(2) show ?thesis
    unfolding l by auto
qed

theorem bundle_follows_image_witness:
  "\<exists>b rs. bundleOf demo_lib demo_image rs b \<and>
     filter isWrite (trace (snd (reconcileOSImage demo_image_env demo_image_rec (start demo_image)))) = [CCreate (OBundle b)]"
proof -
  have "case reconcileOSImage demo_image_env demo_image_rec (start demo_image) of (Ok _, _) \<Rightarrow> True | _ \<Rightarrow> False"
    by code_simp
  then obtain res t where run: "reconcileOSImage demo_image_env demo_image_rec (start demo_image) = (Ok res, t)"
    by (auto split: prod.splits outcome.splits)
  have l: "lib demo_image_env = demo_lib" "self (start demo_image) = demo_image" "trace (start demo_image) = []"
    by (simp_all add: demo_image_env_def demo_env_def start_def)
  have n: "\<not> IsStatusConditionTrue (oit_Conditions (oi_Status demo_image)) FleetBundleCreation" by code_simp
  from bundle_follows_image [OF run] show ?thesis unfolding l using n by (auto simp: run)
qed

end
