(* ===== verification/VersionCtl.thy ===== *)
theory VersionCtl
  imports OSImageCtl
begin

text \<open>
  The reconciler of OS versions (\<^verbatim>\<open>controllers/managedosversion_controller.go\<close>): its finalizer holds a
  version that is being deleted as long as OS images refer to it by their label.
\<close>

type_synonym 'a version_handler = "(ManagedOSVersion st, 'a) go"

text \<open>The requests that an event of an OS image makes: namespace and name of the version it names.\<close>

definition ManagedOSImageToManagedOSVersion :: "kobj \<Rightarrow> (string \<times> string) list" where
  "ManagedOSImageToManagedOSVersion obj = (case asOSImage obj of
      None \<Rightarrow> []
    | Some img \<Rightarrow>
        if ois_ManagedOSVersionName (oi_Spec img) \<noteq> []
        then [(Namespace img, ois_ManagedOSVersionName (oi_Spec img))] else [])"

definition imagesOf :: "ManagedOSVersion \<Rightarrow> requirement list" where
  "imagesOf v = [(ElementalManagedOSImageVersionNameLabel, ''='', [Name v])]"

definition getManagedOSImages :: "env \<Rightarrow> ManagedOSVersion \<Rightarrow> ManagedOSImage list version_handler" where
  "getManagedOSImages env v =
     orWrap (listObj env KOSImage asOSImage (Some (Namespace v)) (imagesOf v)) ''listing ManagedOSImages''"

definition reconcileVersionDelete :: "env \<Rightarrow> result version_handler" where
  "reconcileVersionDelete env = bnd this (\<lambda>v.
     bnd (orWrap (getManagedOSImages env v) ''getting linked ManagedOSImages'') (\<lambda>images.
     if images \<noteq> [] then ret noResult
     else andThen (update (RemoveFinalizer ManagedOSVersionFinalizer)) (ret noResult)))"

text \<open>\<^verbatim>\<open>reconcileNormal\<close> does nothing.\<close>

definition reconcileVersion :: "env \<Rightarrow> result version_handler" where
  "reconcileVersion env = bnd this (\<lambda>v.
     if DeletionTimestamp v = None
     then andThen (whenM (\<not> ContainsFinalizer v ManagedOSVersionFinalizer)
            (update (AddFinalizer ManagedOSVersionFinalizer))) (ret noResult)
     else if ContainsFinalizer v ManagedOSVersionFinalizer
     then orWrap (reconcileVersionDelete env) ''reconciling ManagedOSVersion deletion''
     else ret noResult)"

definition patchVersion :: "env \<Rightarrow> (kobj \<Rightarrow> call) \<Rightarrow> unit version_handler" where
  "patchVersion env c = bnd this (\<lambda>x.
     bnd (putObj env (c (OOSVersion x)) asOSVersion x) (\<lambda>y. update (\<lambda>_. y)))"

definition joinErr :: "goerr option \<Rightarrow> goerr \<Rightarrow> goerr option" where
  "joinErr rerr e = Some (case rerr of None \<Rightarrow> e | Some d \<Rightarrow> EJoin d e)"

text \<open>
  The deferred function: it joins the errors of both patches to the one \<^verbatim>\<open>Reconcile\<close> returns. The
  status it puts back between them has no fields.
\<close>

definition deferredPatch :: "env \<Rightarrow> ManagedOSVersion \<Rightarrow> goerr option \<Rightarrow> goerr option version_handler" where
  "deferredPatch env base rerr =
     bnd (attempt (patchVersion env (CPatch True (OOSVersion base)))) (\<lambda>r1.
     bnd (attempt (patchVersion env (CStatusPatch True (OOSVersion base)))) (\<lambda>r2.
     let rerr1 = (case r1 of Inl e \<Rightarrow> joinErr rerr (wrap ''patching ManagedOSVersion'' e) | Inr _ \<Rightarrow> rerr)
     in ret (case r2 of
         Inl e \<Rightarrow> if isNotFound e then rerr1 else joinErr rerr1 (wrap ''patching ManagedOSVersion status'' e)
       | Inr _ \<Rightarrow> rerr1)))"

definition ReconcileVersion :: "env \<Rightarrow> string \<Rightarrow> string \<Rightarrow> ('o st, result) go" where
  "ReconcileVersion env ns nm =
     bnd (attempt (getObj env KOSVersion asOSVersion ns nm)) (\<lambda>r. case r of
       Inl e \<Rightarrow> if isNotFound e then ret noResult else fail (wrap ''fetching ManagedOSVersion'' e)
     | Inr v \<Rightarrow>
         bnd (withSelf v
               (bnd (attempt (reconcileVersion env)) (\<lambda>q.
                bnd (deferredPatch env v (case q of Inl e \<Rightarrow> Some e | Inr _ \<Rightarrow> None)) (\<lambda>rerr.
                ret (rerr, q)))))
           (\<lambda>((rerr, q), _). case (rerr, q) of
              (Some e, _) \<Rightarrow> fail e
            | (None, Inl e) \<Rightarrow> fail e
            | (None, Inr res) \<Rightarrow> ret res))"

section \<open>When a version may go\<close>

text \<open>The outcome of the handler for each state of the version and answer of the list.\<close>

lemma reconcileVersion_wp:
  "wpre (reconcileVersion env) (\<lambda>r s'. let v = self s in
     (\<forall>p. r \<noteq> Panic p) \<and>
     (if DeletionTimestamp v = None then self s' = AddFinalizer ManagedOSVersionFinalizer v \<and> trace s' = trace s
      else if \<not> ContainsFinalizer v ManagedOSVersionFinalizer then self s' = v \<and> trace s' = trace s
      else trace s' = CList KOSImage (Some (Namespace v)) (imagesOf v) # trace s \<and>
        self s' = (if answer env (decodeAll asOSImage) (CList KOSImage (Some (Namespace v)) (imagesOf v)) (trace s) = Inr []
          then RemoveFinalizer ManagedOSVersionFinalizer v else v))) s"
  by (auto simp: reconcileVersion_def reconcileVersionDelete_def getManagedOSImages_def wp Let_def
      AddFinalizer_def ContainsFinalizer_def split: sum.split)

text \<open>
  C30: exactly what a reconciliation of an OS version asks the API server for: a version that is not
  being deleted is patched to carry the finalizer; one that is being deleted and carries it loses it
  when, and only when, the list of the OS images labelled with it, read in this reconciliation just
  before the patch, came back empty; in every other case it is patched as it was read. There is no
  panic, and the finalizers of others are never touched.
\<close>

theorem ReconcileVersion_finalizer:
  assumes "answer env (decodeOne asOSVersion) (CGet KOSVersion ns nm) (trace s) = Inr v"
  shows "\<exists>pre y z. trace (snd (ReconcileVersion env ns nm s)) =
      CStatusPatch True (OOSVersion v) (OOSVersion z) # CPatch True (OOSVersion v) (OOSVersion y)
      # pre @ CGet KOSVersion ns nm # trace s
    \<and> pre = (if DeletionTimestamp v \<noteq> None \<and> ContainsFinalizer v ManagedOSVersionFinalizer
        then [CList KOSImage (Some (Namespace v)) (imagesOf v)] else [])
    \<and> y = (if DeletionTimestamp v = None then AddFinalizer ManagedOSVersionFinalizer v
        else if pre \<noteq> [] \<and> answer env (decodeAll asOSImage) (hd pre) (CGet KOSVersion ns nm # trace s) = Inr []
        then RemoveFinalizer ManagedOSVersionFinalizer v else v)
    \<and> (\<forall>p. fst (ReconcileVersion env ns nm s) \<noteq> Panic p)"
proof -
  let ?s = "\<lparr>self = v, trace = CGet KOSVersion ns nm # trace s, ticks = ticks s, draws = draws s\<rparr>"
  obtain r t where run: "reconcileVersion env ?s = (r, t)" by force
  from wpreD [OF reconcileVersion_wp run] have np: "\<forall>p. r \<noteq> Panic p"
    and t: "if DeletionTimestamp v = None then self t = AddFinalizer ManagedOSVersionFinalizer v \<and> trace t = trace ?s
      else if \<not> ContainsFinalizer v ManagedOSVersionFinalizer then self t = v \<and> trace t = trace ?s
      else trace t = CList KOSImage (Some (Namespace v)) (imagesOf v) # trace ?s \<and>
        self t = (if answer env (decodeAll asOSImage) (CList KOSImage (Some (Namespace v)) (imagesOf v)) (trace ?s) = Inr []
          then RemoveFinalizer ManagedOSVersionFinalizer v else v)"
    by (simp_all add: Let_def)
  have pb: "wpre (deferredPatch env v e) (\<lambda>q u. (\<exists>x. q = Ok x) \<and> (\<exists>z. trace u =
      CStatusPatch True (OOSVersion v) (OOSVersion z) # CPatch True (OOSVersion v) (OOSVersion (self t)) # trace t)) t" for e
    by (auto simp: deferredPatch_def patchVersion_def wp Let_def split: sum.split)
  have "\<exists>z. trace (snd (ReconcileVersion env ns nm s)) =
      CStatusPatch True (OOSVersion v) (OOSVersion z) # CPatch True (OOSVersion v) (OOSVersion (self t)) # trace t"
    and "\<forall>p. fst (ReconcileVersion env ns nm s) \<noteq> Panic p"
  proof -
    obtain e where e: "r = Err e \<or> (\<exists>x. r = Ok x)" using np by (cases r) auto
    obtain q u where d: "deferredPatch env v (case r of Err e \<Rightarrow> Some e | _ \<Rightarrow> None) t = (q, u)" by force
    from wpreD [OF pb d] obtain x z where "q = Ok x" and "trace u =
      CStatusPatch True (OOSVersion v) (OOSVersion z) # CPatch True (OOSVersion v) (OOSVersion (self t)) # trace t" by blast
    with e run d assms np show "\<exists>z. trace (snd (ReconcileVersion env ns nm s)) =
        CStatusPatch True (OOSVersion v) (OOSVersion z) # CPatch True (OOSVersion v) (OOSVersion (self t)) # trace t"
      and "\<forall>p. fst (ReconcileVersion env ns nm s) \<noteq> Panic p"
      by (auto simp: ReconcileVersion_def run_getObj run_bnd run_attempt run_ret run_fail withSelf_def split: option.splits sum.splits outcome.splits)
  qed
  moreover from t have "\<exists>pre. trace t = pre @ CGet KOSVersion ns nm # trace s
    \<and> pre = (if DeletionTimestamp v \<noteq> None \<and> ContainsFinalizer v ManagedOSVersionFinalizer
        then [CList KOSImage (Some (Namespace v)) (imagesOf v)] else [])
    \<and> self t = (if DeletionTimestamp v = None then AddFinalizer ManagedOSVersionFinalizer v
        else if pre \<noteq> [] \<and> answer env (decodeAll asOSImage) (hd pre) (CGet KOSVersion ns nm # trace s) = Inr []
        then RemoveFinalizer ManagedOSVersionFinalizer v else v)"
    by (auto split: if_splits)
  ultimately show ?thesis by force
qed

definition demo_version :: ManagedOSVersion where
  "demo_version = ObjectMeta.extend (zeroMeta\<lparr>Name := ''v1'', Namespace := ''ns'', DeletionTimestamp := Some 1,
       Finalizers := [ManagedOSVersionFinalizer, ''other'']\<rparr>)
     \<lparr>ov_Spec = \<lparr>ovs_Version = ''v1'', ovs_Type = ''container'', ovs_MinVersion = [], ovs_Metadata = None,
        ovs_UpgradeContainer = None\<rparr>\<rparr>"

text \<open>Deleted without an image that refers to it, and with one.\<close>

definition demo_version_env :: "ManagedOSImage list \<Rightarrow> env" where
  "demo_version_env images = demo_env (\<lambda>c. case c of
      CGet KOSVersion ns nm \<Rightarrow> Some (RObjs [OOSVersion demo_version])
    | CList KOSImage ns sel \<Rightarrow> Some (RObjs (map OOSImage images))
    | _ \<Rightarrow> None) []"

theorem ReconcileVersion_finalizer_witness:
  "\<exists>z pre. trace (snd (ReconcileVersion (demo_version_env []) ''ns'' ''v1'' (start ()))) =
     CStatusPatch True (OOSVersion demo_version) (OOSVersion z)
     # CPatch True (OOSVersion demo_version) (OOSVersion (demo_version\<lparr>Finalizers := [''other'']\<rparr>)) # pre"
proof -
  have 1: "answer (demo_version_env []) (decodeOne asOSVersion) (CGet KOSVersion ''ns'' ''v1'') (trace (start ())) = Inr demo_version"
    "answer (demo_version_env []) (decodeAll asOSImage) (CList KOSImage (Some ''ns'') (imagesOf demo_version))
       [CGet KOSVersion ''ns'' ''v1''] = Inr []"
    by (simp_all add: answer_def demo_version_env_def demo_env_def demo_respond_def decodeOne_def decodeAll_def)
  have 2: "DeletionTimestamp demo_version \<noteq> None" "ContainsFinalizer demo_version ManagedOSVersionFinalizer"
    "Namespace demo_version = ''ns''" "RemoveFinalizer ManagedOSVersionFinalizer demo_version = demo_version\<lparr>Finalizers := [''other'']\<rparr>"
    by (simp_all add: demo_version_def ObjectMeta.defs ContainsFinalizer_def RemoveFinalizer_def ManagedOSVersionFinalizer_def)
  have s: "trace (start ()) = []" by (simp add: start_def)
  from ReconcileVersion_finalizer [OF 1(1)] 1(2) 2 show ?thesis by (fastforce simp: s)
qed

end
