(* ===== verification/ChannelCtl.thy ===== *)
theory ChannelCtl
  imports OSImageCtl
begin

text \<open>
  The reconciler of OS version channels (\<^verbatim>\<open>controllers/managedosversionchannel_controller.go\<close>) with the
  syncers of \<^verbatim>\<open>pkg/syncer\<close>: a pod fetches the list of versions a channel offers; its log becomes
  \<^verbatim>\<open>ManagedOSVersion\<close> objects, and versions no longer in the list are flagged.
\<close>

section \<open>Syncers\<close>

definition defaultMountDir :: string where
  "defaultMountDir = ''/data''"

definition defaultOutFile :: string where
  "defaultOutFile = defaultMountDir @ ''/output''"

definition defaultCommons :: commons where
  "defaultCommons = \<lparr>cm_MountPath = defaultMountDir, cm_OutputFile = defaultOutFile\<rparr>"

datatype Syncer = SJSON JSONSyncer | SCustom CustomSyncer

text \<open>The options of the channel are decoded over the defaults; the image is no option.\<close>

definition NewOSVersionsSyncer :: "lib \<Rightarrow> ManagedOSVersionChannelSpec \<Rightarrow> string \<Rightarrow> goerr + Syncer" where
  "NewOSVersionsSyncer l spec operatorImage =
    (let ty = to_lower (chs_Type spec) in
     if ty = ''json''
     then map_sum id (\<lambda>js. SJSON (js\<lparr>js_image := operatorImage\<rparr>))
       (render_json_syncer l (chs_Options spec)
          \<lparr>js_URI = [], js_Timeout = [], js_image = operatorImage, js_commons = defaultCommons\<rparr>)
     else if ty = ''custom''
     then map_sum id SCustom
       (render_custom_syncer l (chs_Options spec)
          \<lparr>cu_ContainerSpec = zeroContainerSpec, cu_commons = defaultCommons\<rparr>)
     else Inl (EMsg (''unknown version channel type '' @ [CHR 0x27] @ chs_Type spec @ [CHR 0x27])))"

fun commonsOf :: "Syncer \<Rightarrow> commons" where
  "commonsOf (SJSON j) = js_commons j"
| "commonsOf (SCustom c) = cu_commons c"

definition GetMountPath :: "Syncer \<Rightarrow> string" where
  "GetMountPath s = cm_MountPath (commonsOf s)"

definition GetOutputFile :: "Syncer \<Rightarrow> string" where
  "GetOutputFile s = cm_OutputFile (commonsOf s)"

fun ToContainers :: "Syncer \<Rightarrow> Container list" where
  "ToContainers (SJSON j) =
    [zeroContainer\<lparr>
       ct_VolumeMounts := [\<lparr>vm_Name = ''output'', vm_MountPath = cm_MountPath (js_commons j)\<rparr>],
       ct_Name := ''runner'',
       ct_Image := js_image j,
       ct_Args := [''download'', ''--url'', js_URI j, ''--file'', cm_OutputFile (js_commons j)],
       ct_Env := (if js_Timeout j \<noteq> [] then [\<lparr>ev_Name = TimeoutEnvVar, ev_Value = js_Timeout j, ev_ValueFrom = None\<rparr>]
                  else [])\<rparr>]"
| "ToContainers (SCustom c) =
    [zeroContainer\<lparr>
       ct_VolumeMounts := [\<lparr>vm_Name = ''output'', vm_MountPath = cm_MountPath (cu_commons c)\<rparr>],
       ct_Name := ''runner'',
       ct_Image := cs_Image (cu_ContainerSpec c),
       ct_ImagePullPolicy := ''Always'',
       ct_Command := cs_Command (cu_ContainerSpec c),
       ct_Args := cs_Args (cu_ContainerSpec c),
       ct_EnvFrom := cs_EnvFrom (cu_ContainerSpec c),
       ct_Env := cs_Env (cu_ContainerSpec c)\<rparr>]"

text \<open>The logs of a container: a stream that cannot be opened or read is an error.\<close>

definition ReadPodLogs :: "env \<Rightarrow> Pod \<Rightarrow> string \<Rightarrow> ('o st, string) go" where
  "ReadPodLogs env pod container = bnd (invoke env (PodLogs (Namespace pod) (Name pod) container)) (\<lambda>r.
     case r of RText s \<Rightarrow> ret s | _ \<Rightarrow> fail errDecode)"

section \<open>Constants\<close>

definition pollingTime :: int where
  "pollingTime = 20 * second"

definition displayContainer :: string where
  "displayContainer = ''display''"

definition maxConscutiveFailures :: int where
  "maxConscutiveFailures = 4"

definition InvalidConfigurationReason :: string where
  "InvalidConfigurationReason = ''InvalidConfiguration''"

definition SyncingReason :: string where
  "SyncingReason = ''Synchronizing''"

definition SyncedReason :: string where
  "SyncedReason = ''Synchronized''"

definition FailedToSyncReason :: string where
  "FailedToSyncReason = ''FailedToSync''"

definition FailedToCreatePodReason :: string where
  "FailedToCreatePodReason = ''FailedToCreatePod''"

definition ChannelDisabledReason :: string where
  "ChannelDisabledReason = ''ChannelDisabled''"

section \<open>The versions of a channel\<close>

type_synonym 'a channel_handler = "(ManagedOSVersionChannel st, 'a) go"

definition updChStatus :: "(ManagedOSVersionChannelStatus \<Rightarrow> ManagedOSVersionChannelStatus)
    \<Rightarrow> ManagedOSVersionChannel \<Rightarrow> ManagedOSVersionChannel" where
  "updChStatus f c = c\<lparr>ch_Status := f (ch_Status c)\<rparr>"

definition updChConds :: "(Condition list \<Rightarrow> Condition list) \<Rightarrow> ManagedOSVersionChannel \<Rightarrow> ManagedOSVersionChannel" where
  "updChConds f = updChStatus (\<lambda>st. st\<lparr>cht_Conditions := f (cht_Conditions st)\<rparr>)"

definition chCond :: "env \<Rightarrow> string \<Rightarrow> string \<Rightarrow> string \<Rightarrow> unit channel_handler" where
  "chCond env reason status msg = setCond env updChConds (mkCondition ReadyCondition reason status msg)"

definition countFailure :: "unit channel_handler" where
  "countFailure = update (updChStatus (\<lambda>st. st\<lparr>cht_FailedSynchronizationAttempts := cht_FailedSynchronizationAttempts st + 1\<rparr>))"

definition syncedAt :: "int \<Rightarrow> unit channel_handler" where
  "syncedAt t = update (updChStatus (\<lambda>st. st\<lparr>cht_LastSyncedTime := Some t\<rparr>))"

definition versionsOf :: "ManagedOSVersionChannel \<Rightarrow> requirement list" where
  "versionsOf ch = [(ElementalManagedOSVersionChannelLabel, ''='', [Name ch])]"

text \<open>The map from names to versions, in the order in which Go happens to iterate over it.\<close>

definition getAllOwnedManagedOSVersions :: "env \<Rightarrow> ManagedOSVersionChannel \<Rightarrow> ('o st, (string \<times> ManagedOSVersion) list) go" where
  "getAllOwnedManagedOSVersions env ch =
     bnd (attempt (listObj env KOSVersion asOSVersion (Some (Namespace ch)) (versionsOf ch))) (\<lambda>r.
     ret (case r of Inl _ \<Rightarrow> []
       | Inr vs \<Rightarrow> fold (\<lambda>v m. AList.update (Name v) v m) vs []))"

definition deprecated :: "ManagedOSVersion \<Rightarrow> ManagedOSVersion" where
  "deprecated v = v\<lparr>Annotations := mput ElementalManagedOSVersionNoLongerSyncedAnnotation
     ElementalManagedOSVersionNoLongerSyncedValue (mmake (Annotations v))\<rparr>"

definition deprecateVersion :: "env \<Rightarrow> ManagedOSVersionChannel \<Rightarrow> ManagedOSVersion \<Rightarrow> ('o st, unit) go" where
  "deprecateVersion env channel version =
     bnd (orWrap (putObj env (CPatch False (OOSVersion version) (OOSVersion (deprecated version))) asOSVersion (deprecated version))
           (''deprecating ManagedOSVersion '' @ [CHR 0x27] @ Name version @ [CHR 0x27])) (\<lambda>version'.
       whenM (chs_DeleteNoLongerInSyncVersions (ch_Spec channel))
         (orWrap (writeObj env (CDelete (OOSVersion version')))
           (''auto-deleting ManagedOSVersion '' @ [CHR 0x27] @ Name version' @ [CHR 0x27])))"

definition deprecateAll :: "env \<Rightarrow> ManagedOSVersionChannel \<Rightarrow> (string \<times> ManagedOSVersion) list \<Rightarrow> ('o st, unit) go" where
  "deprecateAll env ch vs = forEach (\<lambda>(_, v).
     orWrap (deprecateVersion env ch v) (''Deprecating ManagedOSVersion '' @ Name v)) vs"

text \<open>A version of the list as an object of the channel.\<close>

definition channelVersion :: "ManagedOSVersionChannel \<Rightarrow> string \<Rightarrow> ManagedOSVersion \<Rightarrow> ManagedOSVersion" where
  "channelVersion ch syncTimestamp v = v\<lparr>
     Namespace := Namespace ch,
     OwnerReferences := [\<lparr>or_APIVersion = GroupVersion, or_Kind = ''ManagedOSVersionChannel'', or_Name = Name ch,
       or_UID = UID ch, or_Controller = Some True, or_BlockOwnerDeletion = None\<rparr>],
     Labels := Some [(ElementalManagedOSVersionChannelLabel, Name ch)],
     Annotations := Some [(ElementalManagedOSVersionChannelLastSyncAnnotation, syncTimestamp)],
     ov_Spec := (case chs_UpgradeContainer (ch_Spec ch) of
         None \<Rightarrow> ov_Spec v | Some c \<Rightarrow> (ov_Spec v)\<lparr>ovs_UpgradeContainer := Some c\<rparr>)\<rparr>"

definition assignNilMap :: string where
  "assignNilMap = ''assignment to entry in nil map''"

text \<open>The registry of the channel before the image of a version.\<close>

definition prefixRegistry :: "string \<Rightarrow> ManagedOSVersion \<Rightarrow> ManagedOSVersion outcome" where
  "prefixRegistry registry v =
    (if registry = [] then Ok v
     else if \<not> IsContainerImage v \<and> \<not> IsISOImage v
     then Err (EMsg (''unexpected ManagedOSVersion type '' @ ovs_Type (ov_Spec v)))
     else let urlField = (if IsContainerImage v then ''upgradeImage'' else ''uri'');
              val = trim_char (CHR 0x22) (mstr (ovs_Metadata (ov_Spec v)) urlField);
              sep = (if \<not> has_suffix registry ''/'' \<and> \<not> has_prefix val ''/'' then ''/'' else [])
          in if ovs_Metadata (ov_Spec v) = None then Panic assignNilMap
             else Ok (v\<lparr>ov_Spec := (ov_Spec v)\<lparr>ovs_Metadata := mput urlField
                    ([CHR 0x22] @ registry @ sep @ val @ [CHR 0x22]) (ovs_Metadata (ov_Spec v))\<rparr>\<rparr>))"

text \<open>What is written into a version the channel has already.\<close>

definition refreshed :: "ManagedOSVersion \<Rightarrow> ManagedOSVersion \<Rightarrow> ManagedOSVersion" where
  "refreshed vcpy cv = cv\<lparr>ov_Spec := ov_Spec vcpy, Labels := Labels vcpy, Annotations := Annotations vcpy\<rparr>"

text \<open>The loop over the list, with the errors and the map of the versions so far.\<close>

primrec syncLoop :: "env \<Rightarrow> ManagedOSVersionChannel \<Rightarrow> string \<Rightarrow> ManagedOSVersion list \<Rightarrow> goerr list
    \<Rightarrow> (string \<times> ManagedOSVersion) list \<Rightarrow> ('o st, goerr list \<times> (string \<times> ManagedOSVersion) list) go" where
  "syncLoop env ch ts [] errs cur = ret (errs, cur)"
| "syncLoop env ch ts (v # vs) errs cur =
     bnd (lift_outcome (prefixRegistry (chs_Registry (ch_Spec ch)) (channelVersion ch ts v))) (\<lambda>vcpy.
     case map_of cur (Name v) of
       Some cv \<Rightarrow>
         bnd (attempt (putObj env (CPatch False (OOSVersion cv) (OOSVersion (refreshed vcpy cv))) asOSVersion (refreshed vcpy cv))) (\<lambda>r.
         case r of
           Inl e \<Rightarrow> syncLoop env ch ts vs (errs @ [e]) (AList.update (Name v) (refreshed vcpy cv) cur)
         | Inr y \<Rightarrow> syncLoop env ch ts vs errs (AList.update (Name v) y cur))
     | None \<Rightarrow>
         bnd (attempt (writeObj env (CCreate (OOSVersion vcpy)))) (\<lambda>r.
         syncLoop env ch ts vs (case r of Inl e \<Rightarrow> errs @ [e] | Inr _ \<Rightarrow> errs) cur))"

definition createManagedOSVersions :: "env \<Rightarrow> ManagedOSVersionChannel \<Rightarrow> string \<Rightarrow> string \<Rightarrow> ('o st, unit) go" where
  "createManagedOSVersions env ch data syncTimestamp =
     bnd (lift_sum (json_versions (lib env) data)) (\<lambda>vers.
     bnd (getAllOwnedManagedOSVersions env ch) (\<lambda>curVersions.
     bnd (syncLoop env ch syncTimestamp vers [] curVersions) (\<lambda>(errs, cur).
     if errs \<noteq> [] then fail (EAgg errs)
     else deprecateAll env ch (filter (\<lambda>(_, v). mget (Annotations v)
            ElementalManagedOSVersionChannelLastSyncAnnotation \<noteq> Some syncTimestamp) cur))))"

section \<open>The pod\<close>

record ChannelReconciler =
  cr_OperatorImage :: string
  cr_PullSecrets :: "string list"

definition syncerPod :: "ChannelReconciler \<Rightarrow> ManagedOSVersionChannel \<Rightarrow> Syncer \<Rightarrow> Pod" where
  "syncerPod r ch sync = ObjectMeta.extend
     (zeroMeta\<lparr>APIVersion := ''v1'', Kind := ''Pod'', Name := Name ch, Namespace := Namespace ch,
        OwnerReferences := [\<lparr>or_APIVersion = GroupVersion, or_Kind = ''ManagedOSVersionChannel'', or_Name = Name ch,
          or_UID = UID ch, or_Controller = Some True, or_BlockOwnerDeletion = None\<rparr>]\<rparr>)
     \<lparr>pod_RestartPolicy = ''Never'', pod_AutomountToken = Some False,
      pod_InitContainers = ToContainers sync,
      pod_Containers = [zeroContainer\<lparr>
        ct_VolumeMounts := [\<lparr>vm_Name = ''output'', vm_MountPath = GetMountPath sync\<rparr>],
        ct_Name := displayContainer,
        ct_Image := cr_OperatorImage r,
        ct_Args := [''display'', ''--file'', GetOutputFile sync]\<rparr>],
      pod_Volumes = [\<lparr>vol_Name = ''output'', vol_Source = EmptyDir None\<rparr>],
      pod_ImagePullSecrets = pullSecretsOf (cr_PullSecrets r) (chs_ImagePullSecrets (ch_Spec ch)),
      pod_Phase = []\<rparr>"

definition createSyncerPod :: "env \<Rightarrow> ChannelReconciler \<Rightarrow> Syncer \<Rightarrow> unit channel_handler" where
  "createSyncerPod env r sync = bnd this (\<lambda>ch.
     bnd (now env) (\<lambda>t.
     andThen (syncedAt t)
    (bnd (attempt (writeObj env (CCreate (OPod (syncerPod r ch sync))))) (\<lambda>q. case q of
       Inl e \<Rightarrow>
         bnd (attempt (writeObj env (CDelete (OPod (syncerPod r ch sync))))) (\<lambda>_.
         andThen (chCond env FailedToCreatePodReason ''False'' ''failed creating synchronization pod'')
        (andThen countFailure (fail e)))
     | Inr _ \<Rightarrow> chCond env SyncingReason ''False'' ''started synchronization pod''))))"

definition deleteSyncerPod :: "env \<Rightarrow> ManagedOSVersionChannel \<Rightarrow> ('o st, unit) go" where
  "deleteSyncerPod env channel =
     bnd (attempt (getObj env KPod asPod (Namespace channel) (Name channel))) (\<lambda>r. case r of
       Inl e \<Rightarrow> if isNotFound e then ret () else fail (wrap ''getting pod'' e)
     | Inr pod \<Rightarrow> orWrap (writeObj env (CDelete (OPod pod))) ''deleting pod'')"

definition handleFailedSync :: "env \<Rightarrow> Pod \<Rightarrow> goerr \<Rightarrow> 'a channel_handler" where
  "handleFailedSync env pod e =
     bnd (now env) (\<lambda>t.
     andThen (syncedAt t)
    (andThen (chCond env FailedToSyncReason ''False'' ''failed channel synchronization'')
    (andThen countFailure
    (bnd (attempt (writeObj env (CDelete (OPod pod)))) (\<lambda>_. fail e)))))"

text \<open>The end of a synchronisation: its log becomes versions.\<close>

definition loadVersions :: "env \<Rightarrow> Pod \<Rightarrow> int \<Rightarrow> result channel_handler" where
  "loadVersions env pod interval = bnd this (\<lambda>ch.
     bnd (attempt (ReadPodLogs env pod displayContainer)) (\<lambda>q. case q of
       Inl e \<Rightarrow> handleFailedSync env pod e
     | Inr data \<Rightarrow>
         bnd (now env) (\<lambda>t.
         bnd (attempt (createManagedOSVersions env ch data (fmt_time (lib env) t))) (\<lambda>q. case q of
           Inl e \<Rightarrow> handleFailedSync env pod e
         | Inr _ \<Rightarrow>
             bnd (attempt (writeObj env (CDelete (OPod pod)))) (\<lambda>_.
             andThen (chCond env SyncedReason ''True'' ''successfully loaded channel data'')
            (andThen (update (updChStatus (\<lambda>st. st\<lparr>cht_FailedSynchronizationAttempts := 0\<rparr>)))
            (andThen (syncedAt t)
               (ret (requeueAfter interval)))))))))"

definition handleSyncPod :: "env \<Rightarrow> Pod \<Rightarrow> int \<Rightarrow> result channel_handler" where
  "handleSyncPod env pod interval =
    (if pod_Phase pod = ''Pending'' \<or> pod_Phase pod = ''Running''
     then andThen (chCond env SyncingReason ''False'' ''ongoing channel synchronization'')
            (ret (requeueAfter pollingTime))
     else if pod_Phase pod = ''Succeeded'' then loadVersions env pod interval
     else handleFailedSync env pod (EMsg ''synchronization pod failed''))"

section \<open>Reconciliation\<close>

definition invalidChannel :: "env \<Rightarrow> string \<Rightarrow> result channel_handler" where
  "invalidChannel env msg = andThen (chCond env InvalidConfigurationReason ''False'' msg) (ret noResult)"

definition disableChannel :: "env \<Rightarrow> result channel_handler" where
  "disableChannel env = bnd this (\<lambda>ch.
     bnd (getAllOwnedManagedOSVersions env ch) (\<lambda>curVersions.
     andThen (deprecateAll env ch curVersions)
    (andThen (orWrap (deleteSyncerPod env ch) ''deleting syncer pod'')
    (andThen (chCond env ChannelDisabledReason ''True'' ''Channel is disabled'')
       (ret noResult)))))"

text \<open>\<^verbatim>\<open>time.Until(lastSync.Add(interval))\<close>, through the pointer to the time of the last synchronisation.\<close>

definition requeueAtNext :: "env \<Rightarrow> int option \<Rightarrow> int \<Rightarrow> result channel_handler" where
  "requeueAtNext env lastSync interval = (case lastSync of
      None \<Rightarrow> crash nilDereference
    | Some l \<Rightarrow> bnd (now env) (\<lambda>t. ret (requeueAfter (l + interval - t))))"

definition intervalOver :: "env \<Rightarrow> int option \<Rightarrow> int \<Rightarrow> bool channel_handler" where
  "intervalOver env lastSync interval = (case lastSync of
      None \<Rightarrow> ret False
    | Some l \<Rightarrow> bnd (now env) (\<lambda>t. ret (l + interval < t)))"

definition indexOutOfRange :: string where
  "indexOutOfRange = ''index out of range''"

text \<open>The first reconciliation for a generation, or the next interval.\<close>

definition firstSync :: "env \<Rightarrow> ChannelReconciler \<Rightarrow> Syncer \<Rightarrow> result channel_handler" where
  "firstSync env r sync =
     andThen (update (\<lambda>ch. updChStatus (\<lambda>st. st\<lparr>cht_FailedSynchronizationAttempts := 0,
        cht_SyncedGeneration := Generation ch\<rparr>) ch))
    (andThen (createSyncerPod env r sync) (ret noResult))"

text \<open>The pod was found: one made by another operator image is replaced.\<close>

definition foundPod :: "env \<Rightarrow> ChannelReconciler \<Rightarrow> int \<Rightarrow> Syncer \<Rightarrow> Pod \<Rightarrow> result channel_handler" where
  "foundPod env r interval sync pod = (case pod_Containers pod of
      [] \<Rightarrow> crash indexOutOfRange
    | c # _ \<Rightarrow>
        if ct_Image c \<noteq> cr_OperatorImage r
        then bnd (attempt (writeObj env (CDelete (OPod pod)))) (\<lambda>_.
          andThen (createSyncerPod env r sync) (ret noResult))
        else handleSyncPod env pod interval)"

text \<open>The pod could not be read.\<close>

definition missingPod :: "env \<Rightarrow> ChannelReconciler \<Rightarrow> Syncer \<Rightarrow> Condition \<Rightarrow> goerr \<Rightarrow> result channel_handler" where
  "missingPod env r sync readyCondition e =
    (if isNotFound e \<and> c_Reason readyCondition \<noteq> SyncingReason
     then andThen (createSyncerPod env r sync) (ret noResult)
     else andThen (chCond env FailedToSyncReason ''False'' ''failed channel synchronization'')
            (andThen countFailure (fail e)))"

definition followSync :: "env \<Rightarrow> ChannelReconciler \<Rightarrow> int \<Rightarrow> Syncer \<Rightarrow> ManagedOSVersionChannel \<Rightarrow> Condition
    \<Rightarrow> result channel_handler" where
  "followSync env r interval sync ch readyCondition =
    (if c_Status readyCondition = ''True'' then requeueAtNext env (cht_LastSyncedTime (ch_Status ch)) interval
     else if maxConscutiveFailures < cht_FailedSynchronizationAttempts (ch_Status ch)
     then requeueAtNext env (cht_LastSyncedTime (ch_Status ch)) interval
     else bnd (attempt (getObj env KPod asPod (Namespace ch) (Name ch))) (\<lambda>q. case q of
         Inl e \<Rightarrow> missingPod env r sync readyCondition e
       | Inr pod \<Rightarrow> foundPod env r interval sync pod))"

definition syncChannel :: "env \<Rightarrow> ChannelReconciler \<Rightarrow> int \<Rightarrow> Syncer \<Rightarrow> result channel_handler" where
  "syncChannel env r interval sync = bnd this (\<lambda>ch.
     bnd (intervalOver env (cht_LastSyncedTime (ch_Status ch)) interval) (\<lambda>reachedNextInterval.
     case FindStatusCondition (cht_Conditions (ch_Status ch)) ReadyCondition of
       None \<Rightarrow> firstSync env r sync
     | Some readyCondition \<Rightarrow>
         if cht_SyncedGeneration (ch_Status ch) \<noteq> Generation ch \<or> reachedNextInterval
         then firstSync env r sync
         else followSync env r interval sync ch readyCondition))"

definition reconcileChannel :: "env \<Rightarrow> ChannelReconciler \<Rightarrow> result channel_handler" where
  "reconcileChannel env r = bnd this (\<lambda>ch. let sp = ch_Spec ch in
     if chs_Type sp = [] then invalidChannel env ''spec.Type can't be empty''
     else case parse_duration (lib env) (chs_SyncInterval sp) of
       Inl _ \<Rightarrow> invalidChannel env ''spec.SyncInterval is not parseable by time.ParseDuration''
     | Inr interval \<Rightarrow> (case NewOSVersionsSyncer (lib env) sp (cr_OperatorImage r) of
         Inl _ \<Rightarrow> invalidChannel env ''spec.Type is not supported''
       | Inr sync \<Rightarrow>
           if \<not> chs_Enabled sp then disableChannel env
           else syncChannel env r interval sync))"

definition channelResource :: "ManagedOSVersionChannel resource" where
  "channelResource = \<lparr>rc_kind = KChannel, rc_name = ''managed OS version channel'', rc_inj = OChannel,
     rc_as = asChannel, rc_restore = (\<lambda>x y. y\<lparr>ch_Status := ch_Status x\<rparr>),
     rc_sanitize = updChConds RemoveInvalidConditions, rc_lock = True,
     rc_okPatch = isNotFound, rc_okStatus = isNotFound\<rparr>"

text \<open>The result that the code returns beside an error is ignored by controller-runtime.\<close>

definition ReconcileChannel :: "env \<Rightarrow> ChannelReconciler \<Rightarrow> string \<Rightarrow> string \<Rightarrow> ('o st, result) go" where
  "ReconcileChannel env r ns nm = runReconcile env channelResource (reconcileChannel env r) ns nm"

section \<open>Event filter\<close>

text \<open>
  Of the updates only new generations of channels and new phases of pods are processed; other events
  of pods are ignored. The update of a channel into another type would be a failing type assertion.
\<close>

definition channelUpdateFunc :: "kobj \<Rightarrow> kobj \<Rightarrow> bool outcome" where
  "channelUpdateFunc old new = (case (asChannel old, asPod old) of
      (Some o', _) \<Rightarrow> (case asChannel new of
          Some n \<Rightarrow> Ok (Generation n \<noteq> Generation o') | None \<Rightarrow> Panic ''interface conversion'')
    | (None, Some o') \<Rightarrow> (case asPod new of
          Some n \<Rightarrow> Ok (pod_Phase n \<noteq> pod_Phase o') | None \<Rightarrow> Panic ''interface conversion'')
    | (None, None) \<Rightarrow> Ok True)"

definition channelOtherFunc :: "kobj \<Rightarrow> bool" where
  "channelOtherFunc x \<longleftrightarrow> asPod x = None"

end
