(* ===== verification/ChannelProps.thy ===== *)
theory ChannelProps
  imports ChannelCtl
begin

text \<open>
  What the reconciler of channels keeps and does: the invariant of the status that its nil
  dereference rests on, the bound on consecutive failures, the objects it writes, and what a
  successful synchronisation has written.
\<close>

section \<open>The invariant\<close>

text \<open>
  A generation that was synchronised has the time of its synchronisation, and there are at most five
  consecutive failures. \<open>chanOf\<close> adds what stays the same: the identity, the generation and the
  specification of the channel.
\<close>

definition chSound :: "int \<Rightarrow> ManagedOSVersionChannelStatus \<Rightarrow> bool" where
  "chSound k st \<longleftrightarrow> (cht_SyncedGeneration st \<noteq> 0 \<longrightarrow> cht_LastSyncedTime st \<noteq> None)
     \<and> 0 \<le> cht_FailedSynchronizationAttempts st \<and> cht_FailedSynchronizationAttempts st \<le> k"

definition chanCore :: "ManagedOSVersionChannel \<Rightarrow> (string \<times> string \<times> string) \<times> int \<times> ManagedOSVersionChannelSpec" where
  "chanCore x = ((Namespace x, Name x, UID x), Generation x, ch_Spec x)"

definition chanOf :: "(string \<times> string \<times> string) \<times> int \<times> ManagedOSVersionChannelSpec \<Rightarrow> int \<Rightarrow> ManagedOSVersionChannel \<Rightarrow> bool" where
  "chanOf c k x \<longleftrightarrow> chanCore x = c \<and> chSound k (ch_Status x)"

text \<open>
  The calls of a channel: it creates pods and versions that it owns, the versions with its label, and
  deletes versions only when it was asked to. Pods are deleted by their name alone.
\<close>

definition chanCall :: "(string \<times> string \<times> string) \<times> int \<times> ManagedOSVersionChannelSpec \<Rightarrow> call \<Rightarrow> bool" where
  "chanCall c cl = (case c of ((ns, nm, u), g) \<Rightarrow> (case cl of
       CGet _ _ _ \<Rightarrow> True
     | CList _ _ _ \<Rightarrow> True
     | PodLogs _ _ _ \<Rightarrow> True
     | CCreate x \<Rightarrow> (case x of
           OPod p \<Rightarrow> childOf ns nm u p
         | OOSVersion v \<Rightarrow> Namespace v = ns \<and> IsObjectOwned v u
             \<and> mget (Labels v) ElementalManagedOSVersionChannelLabel = Some nm
         | _ \<Rightarrow> False)
     | CDelete x \<Rightarrow> (case x of
           OPod p \<Rightarrow> True
         | OOSVersion v \<Rightarrow> chs_DeleteNoLongerInSyncVersions (snd g)
         | _ \<Rightarrow> False)
     | CPatch b x y \<Rightarrow> (case (x, y) of
           (OOSVersion v, OOSVersion w) \<Rightarrow> \<not> b \<and> Namespace w = Namespace v \<and> Name w = Name v
         | _ \<Rightarrow> False)
     | _ \<Rightarrow> False))"

lemma chanCall_simps [simp]:
  "chanCall c (CGet k a d)" "chanCall c (CList k n sel)" "chanCall c (PodLogs a d e)"
  "chanCall ((ns, nm, u), g) (CCreate (OPod p)) = childOf ns nm u p"
  "chanCall ((ns, nm, u), g) (CCreate (OOSVersion v)) = (Namespace v = ns \<and> IsObjectOwned v u
     \<and> mget (Labels v) ElementalManagedOSVersionChannelLabel = Some nm)"
  "chanCall c (CDelete (OPod p))"
  "chanCall ((ns, nm, u), g) (CDelete (OOSVersion v)) = chs_DeleteNoLongerInSyncVersions (snd g)"
  "chanCall c (CPatch b (OOSVersion v) (OOSVersion w)) = (\<not> b \<and> Namespace w = Namespace v \<and> Name w = Name v)"
  by (cases c; simp add: chanCall_def)+

lemma chan_upd_sel [simp]:
  "chanCore (updChStatus f x) = chanCore x" "ch_Status (updChStatus f x) = f (ch_Status x)"
  "chanCore (updChConds g x) = chanCore x"
  "ch_Status (updChConds g x) = (ch_Status x)\<lparr>cht_Conditions := g (cht_Conditions (ch_Status x))\<rparr>"
  by (simp_all add: updChStatus_def updChConds_def chanCore_def)

lemma chSound_conds [simp]: "chSound k (st\<lparr>cht_Conditions := cs\<rparr>) = chSound k st"
  by (simp add: chSound_def)

lemma chanOf_mono: "chanOf c 4 x \<Longrightarrow> chanOf c 5 x"
  by (simp add: chanOf_def chSound_def)

lemma acts_chCond [acting]: "acts (chanOf c k) E P (chCond env r st msg)"
  unfolding chCond_def by (intro acting) (simp add: chanOf_def)

lemma syncerPod_child: "chanCore ch = ((ns, nm, u), g) \<Longrightarrow> childOf ns nm u (syncerPod r ch sync)"
  by (simp add: chanCore_def childOf_def syncerPod_def IsObjectOwned_def ObjectMeta.defs zeroMeta_def)

text \<open>\<open>freed\<close>: a channel about to create its pod, whose time of synchronisation is not yet set.\<close>

definition freed :: "(string \<times> string \<times> string) \<times> int \<times> ManagedOSVersionChannelSpec \<Rightarrow> ManagedOSVersionChannel \<Rightarrow> bool" where
  "freed c x \<longleftrightarrow> chanCore x = c \<and> 0 \<le> cht_FailedSynchronizationAttempts (ch_Status x)
     \<and> cht_FailedSynchronizationAttempts (ch_Status x) \<le> 4"

lemma freed_sound: "chanOf c 4 x \<Longrightarrow> freed c x"
  by (simp add: chanOf_def freed_def chSound_def)

lemma moves_synced: "moves (freed c) (chanOf c 4) E P (syncedAt t)"
  by (simp add: moves_def syncedAt_def wp freed_def chanOf_def chSound_def)

lemma moves_count: "moves (chanOf c 4) (chanOf c 5) E P countFailure"
  by (auto simp: moves_def countFailure_def wp chanOf_def chSound_def)

lemma moves_seq:
  assumes "moves I K E P m" and "moves K J E P k" and "\<And>x. K x \<Longrightarrow> J x"
  shows "moves I J E P (andThen m k)"
  unfolding moves_def
proof (intro allI impI)
  fix s :: "'a st" assume "I (self s)"
  with assms(1) have "wpre m (\<lambda>r t. K (self t) \<and> (\<forall>p. r = Panic p \<longrightarrow> p \<in> E) \<and> added P (trace s) (trace t)) s"
    by (simp add: moves_def)
  then show "wpre (andThen m k) (\<lambda>r s'. J (self s') \<and> (\<forall>p. r = Panic p \<longrightarrow> p \<in> E)
      \<and> added P (trace s) (trace s')) s"
  proof (rule wpre_andThenI)
    fix x and s' :: "'a st"
    assume h: "K (self s') \<and> (\<forall>p. Ok x = Panic p \<longrightarrow> p \<in> E) \<and> added P (trace s) (trace s')"
    with assms(2) have "wpre k (\<lambda>r t. J (self t) \<and> (\<forall>p. r = Panic p \<longrightarrow> p \<in> E) \<and> added P (trace s') (trace t)) s'"
      by (simp add: moves_def)
    then show "wpre k (\<lambda>r t. J (self t) \<and> (\<forall>p. r = Panic p \<longrightarrow> p \<in> E) \<and> added P (trace s) (trace t)) s'"
      by (rule wpre_mono) (use h in \<open>auto intro: added_trans\<close>)
  qed (use assms(3) in auto)
qed

lemma moves_sum: "(\<And>e. r = Inl e \<Longrightarrow> moves I J E P (h e)) \<Longrightarrow> (\<And>x. r = Inr x \<Longrightarrow> moves I J E P (k x)) \<Longrightarrow>
    moves I J E P (case r of Inl e \<Rightarrow> h e | Inr x \<Rightarrow> k x)"
  by (simp split: sum.split)

lemma moves_if: "(b \<Longrightarrow> moves I J E P m) \<Longrightarrow> (\<not> b \<Longrightarrow> moves I J E P n) \<Longrightarrow> moves I J E P (if b then m else n)"
  by simp

lemma moves_fail: "moves (chanOf c 4) (chanOf c 5) E P (andThen countFailure (fail e))"
  by (rule moves_then [OF moves_count]) (intro acting)

lemma moves_now:
  assumes "\<And>t. moves I J E P (k t)"
  shows "moves I J E P (bnd (now env) k)"
  unfolding moves_def
proof (intro allI impI)
  fix s :: "'a st" assume "I (self s)"
  with assms [of "clock env (ticks s)"]
  show "wpre (bnd (now env) k) (\<lambda>r s'. J (self s') \<and> (\<forall>p. r = Panic p \<longrightarrow> p \<in> E) \<and> added P (trace s) (trace s')) s"
    by (simp add: wp_bnd wp_now moves_def) (drule spec [of _ "s\<lparr>ticks := Suc (ticks s)\<rparr>"], simp)
qed

lemma moves_enter:
  assumes "\<And>x. I x \<Longrightarrow> K (f x)" and "moves K J E P m"
  shows "moves I J E P (andThen (update f) m)"
  unfolding moves_def
proof (intro allI impI)
  fix s :: "'a st" assume "I (self s)"
  with assms show "wpre (andThen (update f) m) (\<lambda>r s'. J (self s') \<and> (\<forall>p. r = Panic p \<longrightarrow> p \<in> E)
      \<and> added P (trace s) (trace s')) s"
    by (simp add: wp_andThen wp_update moves_def) (drule spec [of _ "s\<lparr>self := f (self s)\<rparr>"], simp)
qed

lemma moves_at: "(\<And>x. I x \<Longrightarrow> moves I J E P (k x)) \<Longrightarrow> moves I J E P (bnd this k)"
  by (rule moves_this, rule moves_pre [where K = I]) auto

text \<open>The steps of a channel that may fail once.\<close>

lemma chan_bnd: "acts (chanOf c 4) E P m \<Longrightarrow> (\<And>x. moves (chanOf c 4) (chanOf c 5) E P (k x)) \<Longrightarrow>
    moves (chanOf c 4) (chanOf c 5) E P (bnd m k)"
  by (rule moves_bnd) (simp_all add: chanOf_mono)

lemma chan_andThen: "acts (chanOf c 4) E P m \<Longrightarrow> moves (chanOf c 4) (chanOf c 5) E P k \<Longrightarrow>
    moves (chanOf c 4) (chanOf c 5) E P (andThen m k)"
  unfolding andThen_def by (rule chan_bnd)

lemma chan_acts: "acts (chanOf c 4) E P m \<Longrightarrow> moves (chanOf c 4) (chanOf c 5) E P m"
  by (rule moves_acts) (simp_all add: chanOf_mono)

lemma moves_create: "moves (freed c) (chanOf c 5) E (chanCall c) (createSyncerPod env r sync)"
  unfolding createSyncerPod_def
proof (rule moves_this, rule moves_now, rule moves_seq [where K = "chanOf c 4"])
  fix x t
  show "moves (\<lambda>y. freed c y \<and> y = x) (chanOf c 4) E (chanCall c) (syncedAt t)" if "freed c x"
    by (rule moves_pre [OF moves_synced]) simp
  assume x: "freed c x"
  obtain ns nm u g where c: "c = ((ns, nm, u), g)" by (metis prod.exhaust)
  have 1: "chanCall c (CCreate (OPod (syncerPod r x sync)))" "chanCall c (CDelete (OPod (syncerPod r x sync)))"
    using x syncerPod_child [of x ns nm u g] by (simp_all add: c freed_def)
  show "moves (chanOf c 4) (chanOf c 5) E (chanCall c)
     (bnd (attempt (writeObj env (CCreate (OPod (syncerPod r x sync))))) (\<lambda>q. case q of
       Inl e \<Rightarrow>
         bnd (attempt (writeObj env (CDelete (OPod (syncerPod r x sync))))) (\<lambda>_.
         andThen (chCond env FailedToCreatePodReason ''False'' ''failed creating synchronization pod'')
        (andThen countFailure (fail e)))
     | Inr _ \<Rightarrow> chCond env SyncingReason ''False'' ''started synchronization pod''))"
    by (intro chan_bnd chan_andThen moves_sum acts_attempt acts_writeObj 1 acts_chCond moves_fail
        chan_acts [OF acts_chCond])
qed (rule chanOf_mono)

lemma moves_failed: "moves (chanOf c 4) (chanOf c 5) E (chanCall c) (handleFailedSync env pod e)"
proof -
  have "moves (chanOf c 4) (chanOf c 4) E (chanCall c) (syncedAt t)" for t
    by (rule moves_pre [OF moves_synced freed_sound])
  then have s: "acts (chanOf c 4) E (chanCall c) (syncedAt t)" for t by (rule acts_moves)
  have d: "chanCall c (CDelete (OPod pod))" by (cases c) auto
  show ?thesis
    unfolding handleFailedSync_def
    by (intro moves_now chan_andThen s acts_chCond moves_then [OF moves_count] acts_bnd acts_attempt
        acts_writeObj d acts_fail)
qed

subsection \<open>Versions\<close>

lemma acts_lift_outcome: "(\<And>p. r = Panic p \<Longrightarrow> p \<in> E) \<Longrightarrow> acts I E P (lift_outcome r)"
  by (cases r) (simp_all add: acts_def wp)

lemma chan_reads: "chanCall c (CGet k ns nm)" "chanCall c (CList k n sel)" "chanCall c (PodLogs a b d)"
  by simp_all

lemma acts_owned: "acts I E (chanCall c) (getAllOwnedManagedOSVersions env ch)"
  unfolding getAllOwnedManagedOSVersions_def by (intro acting chan_reads)

lemma acts_deprecate:
  assumes "chanCore ch = c"
  shows "acts I E (chanCall c) (deprecateVersion env ch v)"
proof -
  have "chanCall c (CPatch False (OOSVersion v) (OOSVersion (deprecated v)))"
    by (cases c) (simp add: deprecated_def)
  moreover have "chs_DeleteNoLongerInSyncVersions (ch_Spec ch) \<Longrightarrow> chanCall c (CDelete (OOSVersion w))" for w
    using assms by (cases c) (auto simp: chanCore_def)
  ultimately show ?thesis
    unfolding deprecateVersion_def by (intro acting)
qed

lemma acts_deprecateAll: "chanCore ch = c \<Longrightarrow> acts I E (chanCall c) (deprecateAll env ch vs)"
  unfolding deprecateAll_def by (intro acting) (auto intro: acts_orWrap acts_deprecate)

lemma prefixRegistry_keeps:
  "prefixRegistry reg v = Ok w \<Longrightarrow> Namespace w = Namespace v \<and> Name w = Name v \<and> OwnerReferences w = OwnerReferences v
     \<and> Labels w = Labels v \<and> Annotations w = Annotations v"
  by (auto simp: prefixRegistry_def Let_def split: if_splits)

lemma channelVersion_sel [simp]:
  "Name (channelVersion ch ts v) = Name v" "Namespace (channelVersion ch ts v) = Namespace ch"
  "IsObjectOwned (channelVersion ch ts v) (UID ch)"
  "mget (Labels (channelVersion ch ts v)) ElementalManagedOSVersionChannelLabel = Some (Name ch)"
  "mget (Annotations (channelVersion ch ts v)) ElementalManagedOSVersionChannelLastSyncAnnotation = Some ts"
  by (simp_all add: channelVersion_def IsObjectOwned_def)

lemma acts_syncLoop:
  assumes "chanCore ch = c" and "assignNilMap \<in> E"
  shows "acts I E (chanCall c) (syncLoop env ch ts vs errs cur)"
proof (induction vs arbitrary: errs cur)
  case Nil
  show ?case by (simp add: acts_ret)
next
  case (Cons v vs)
  have p: "prefixRegistry reg w = Panic p \<Longrightarrow> p \<in> E" for reg w p
    using assms(2) by (auto simp: prefixRegistry_def Let_def split: if_splits)
  show ?case
    unfolding syncLoop.simps
  proof (intro acts_bnd_yields [where R = "\<lambda>w. prefixRegistry (chs_Registry (ch_Spec ch)) (channelVersion ch ts v) = Ok w"]
      acts_lift_outcome p)
    fix s s' x
    assume "lift_outcome (prefixRegistry (chs_Registry (ch_Spec ch)) (channelVersion ch ts v)) s = (Ok x, s')"
    then show "prefixRegistry (chs_Registry (ch_Spec ch)) (channelVersion ch ts v) = Ok x" by (simp add: run)
  next
    fix w
    assume "prefixRegistry (chs_Registry (ch_Spec ch)) (channelVersion ch ts v) = Ok w"
    from prefixRegistry_keeps [OF this]
    have "chanCall c (CCreate (OOSVersion w))"
      using assms(1) channelVersion_sel(2-4) [of ch ts v] by (cases c) (auto simp: chanCore_def IsObjectOwned_def)
    moreover have "chanCall c (CPatch False (OOSVersion x) (OOSVersion (refreshed w x)))" for x
      by (cases c) (simp add: refreshed_def)
    ultimately show "acts I E (chanCall c) (case map_of cur (Name v) of
       Some cv \<Rightarrow>
         bnd (attempt (putObj env (CPatch False (OOSVersion cv) (OOSVersion (refreshed w cv))) asOSVersion (refreshed w cv))) (\<lambda>r.
         case r of
           Inl e \<Rightarrow> syncLoop env ch ts vs (errs @ [e]) (AList.update (Name v) (refreshed w cv) cur)
         | Inr y \<Rightarrow> syncLoop env ch ts vs errs (AList.update (Name v) y cur))
     | None \<Rightarrow>
         bnd (attempt (writeObj env (CCreate (OOSVersion w)))) (\<lambda>r.
         syncLoop env ch ts vs (case r of Inl e \<Rightarrow> errs @ [e] | Inr _ \<Rightarrow> errs) cur))"
      by (intro acting Cons.IH)
  qed
qed

lemma acts_createVersions:
  assumes "chanCore ch = c" and "assignNilMap \<in> E"
  shows "acts I E (chanCall c) (createManagedOSVersions env ch data ts)"
  unfolding createManagedOSVersions_def
  by (intro acting acts_owned acts_bnd [OF acts_syncLoop [OF assms]])
    (auto intro: acts_if acts_fail acts_deprecateAll [OF assms(1)])

subsection \<open>Synchronisation\<close>

definition chPanics :: "string set" where
  "chPanics = {indexOutOfRange, assignNilMap}"

lemma acts_ReadPodLogs [acting]: "acts I E (chanCall c) (ReadPodLogs env pod ct)"
  unfolding ReadPodLogs_def by (intro acting chan_reads) (auto intro: acting split: resp.split)

lemma acts_syncedAt: "acts (chanOf c 4) E P (syncedAt t)"
  by (rule acts_moves, rule moves_pre [OF moves_synced freed_sound])

lemma acts_attempts_zero: "acts (chanOf c 4) E P
    (update (updChStatus (\<lambda>st. st\<lparr>cht_FailedSynchronizationAttempts := 0\<rparr>)))"
  by (rule acts_update) (simp add: chanOf_def chSound_def)

lemma moves_load:
  assumes "assignNilMap \<in> E"
  shows "moves (chanOf c 4) (chanOf c 5) E (chanCall c) (loadVersions env pod interval)"
  unfolding loadVersions_def
proof (rule moves_at)
  fix x assume "chanOf c 4 x"
  then have core: "chanCore x = c" by (simp add: chanOf_def)
  have d: "chanCall c (CDelete (OPod pod))" by (cases c) auto
  have create: "acts (chanOf c 4) E (chanCall c) (createManagedOSVersions env x data ts)" for data ts
    by (rule acts_createVersions [OF core assms])
  show "moves (chanOf c 4) (chanOf c 5) E (chanCall c)
     (bnd (attempt (ReadPodLogs env pod displayContainer)) (\<lambda>q. case q of
       Inl e \<Rightarrow> handleFailedSync env pod e
     | Inr data \<Rightarrow>
         bnd (now env) (\<lambda>t.
         bnd (attempt (createManagedOSVersions env x data (fmt_time (lib env) t))) (\<lambda>q. case q of
           Inl e \<Rightarrow> handleFailedSync env pod e
         | Inr _ \<Rightarrow>
             bnd (attempt (writeObj env (CDelete (OPod pod)))) (\<lambda>_.
             andThen (chCond env SyncedReason ''True'' ''successfully loaded channel data'')
            (andThen (update (updChStatus (\<lambda>st. st\<lparr>cht_FailedSynchronizationAttempts := 0\<rparr>)))
            (andThen (syncedAt t)
               (ret (requeueAfter interval)))))))))"
    by (intro chan_bnd chan_andThen moves_sum moves_failed moves_now acts_attempt acts_ReadPodLogs
        create acts_writeObj d acts_chCond acts_attempts_zero acts_syncedAt chan_acts [OF acts_ret])
qed

lemma moves_pod:
  "assignNilMap \<in> E \<Longrightarrow> moves (chanOf c 4) (chanOf c 5) E (chanCall c) (handleSyncPod env pod interval)"
  unfolding handleSyncPod_def
  by (intro moves_if moves_load moves_failed chan_acts acts_andThen acts_chCond acts_ret)

lemma moves_create_then: "moves (freed c) (chanOf c 5) E (chanCall c) (andThen (createSyncerPod env r sync) (ret x))"
  by (intro moves_then [OF moves_create] acts_ret)

lemma moves_first: "moves (chanOf c 5) (chanOf c 5) E (chanCall c) (firstSync env r sync)"
  unfolding firstSync_def
  by (rule moves_enter [OF _ moves_create_then]) (simp add: chanOf_def freed_def)

text \<open>A channel whose generation is not the initial zero was synchronised before it is looked up.\<close>

lemma acts_requeueAt:
  assumes "lastSync = None \<Longrightarrow> nilDereference \<in> E"
  shows "acts I E P (requeueAtNext env lastSync interval)"
  unfolding requeueAtNext_def by (intro acting assms)

lemma acts_intervalOver: "acts I E P (intervalOver env lastSync interval)"
  unfolding intervalOver_def by (intro acting)

lemma moves_missing: "moves (chanOf c 4) (chanOf c 5) E (chanCall c) (missingPod env r sync cond e)"
  unfolding missingPod_def
  by (intro moves_if moves_pre [OF moves_create_then freed_sound] chan_andThen acts_chCond moves_fail)

lemma moves_found: "moves (chanOf c 4) (chanOf c 5) chPanics (chanCall c) (foundPod env r interval sync pod)"
proof -
  have d: "chanCall c (CDelete (OPod pod))" by (cases c) auto
  have "moves (chanOf c 4) (chanOf c 5) chPanics (chanCall c)
      (bnd (attempt (writeObj env (CDelete (OPod pod)))) (\<lambda>_. andThen (createSyncerPod env r sync) (ret noResult)))"
    by (intro chan_bnd acts_attempt acts_writeObj d moves_pre [OF moves_create_then freed_sound])
  moreover have "moves (chanOf c 4) (chanOf c 5) chPanics (chanCall c) (handleSyncPod env pod interval)"
    by (rule moves_pod) (simp add: chPanics_def)
  moreover have "moves (chanOf c 4) (chanOf c 5) chPanics (chanCall c) (crash indexOutOfRange :: result channel_handler)"
    by (intro chan_acts acts_crash) (simp add: chPanics_def)
  ultimately show ?thesis by (simp add: foundPod_def split: list.split)
qed

lemma moves_follow:
  assumes "chanOf c 5 x" and "cht_SyncedGeneration (ch_Status x) \<noteq> 0"
  shows "moves (\<lambda>y. chanOf c 5 y \<and> y = x) (chanOf c 5) chPanics (chanCall c) (followSync env r interval sync x cond)"
proof -
  have wait: "moves (\<lambda>y. chanOf c 5 y \<and> y = x) (chanOf c 5) chPanics (chanCall c)
      (requeueAtNext env (cht_LastSyncedTime (ch_Status x)) interval)"
    by (rule moves_acts, rule acts_requeueAt) (use assms in \<open>auto simp: chanOf_def chSound_def\<close>)
  have "moves (chanOf c 4) (chanOf c 5) chPanics (chanCall c)
     (bnd (attempt (getObj env KPod asPod (Namespace x) (Name x))) (\<lambda>q. case q of
         Inl e \<Rightarrow> missingPod env r sync cond e
       | Inr pod \<Rightarrow> foundPod env r interval sync pod))"
    by (intro chan_bnd acts_attempt acts_getObj chan_reads moves_sum moves_missing moves_found)
  then have "moves (\<lambda>y. chanOf c 5 y \<and> y = x) (chanOf c 5) chPanics (chanCall c)
     (bnd (attempt (getObj env KPod asPod (Namespace x) (Name x))) (\<lambda>q. case q of
         Inl e \<Rightarrow> missingPod env r sync cond e
       | Inr pod \<Rightarrow> foundPod env r interval sync pod))"
    if "\<not> maxConscutiveFailures < cht_FailedSynchronizationAttempts (ch_Status x)"
    by (rule moves_pre) (use that in \<open>auto simp: chanOf_def chSound_def maxConscutiveFailures_def\<close>)
  with wait show ?thesis by (simp add: followSync_def)
qed

lemma moves_sync:
  assumes "fst (snd c) \<noteq> 0"
  shows "moves (chanOf c 5) (chanOf c 5) chPanics (chanCall c) (syncChannel env r interval sync)"
  unfolding syncChannel_def
proof (rule moves_this, rule moves_bnd)
  fix x reached assume x: "chanOf c 5 x"
  show "acts (\<lambda>y. chanOf c 5 y \<and> y = x) chPanics (chanCall c)
      (intervalOver env (cht_LastSyncedTime (ch_Status x)) interval)"
    by (rule acts_intervalOver)
  have "moves (\<lambda>y. chanOf c 5 y \<and> y = x) (chanOf c 5) chPanics (chanCall c) (firstSync env r sync)"
    by (rule moves_pre [OF moves_first]) simp
  moreover have "Generation x \<noteq> 0" using x assms by (auto simp: chanOf_def chanCore_def)
  ultimately show "moves (\<lambda>y. chanOf c 5 y \<and> y = x) (chanOf c 5) chPanics (chanCall c)
      (case FindStatusCondition (cht_Conditions (ch_Status x)) ReadyCondition of
       None \<Rightarrow> firstSync env r sync
     | Some readyCondition \<Rightarrow>
         if cht_SyncedGeneration (ch_Status x) \<noteq> Generation x \<or> reached
         then firstSync env r sync
         else followSync env r interval sync x readyCondition)"
    using moves_follow [OF x] by (simp split: option.split)
qed simp

lemma acts_deleteSyncer: "acts I E (chanCall c) (deleteSyncerPod env ch)"
proof -
  have d: "chanCall c (CDelete (OPod pod))" for pod by (cases c) auto
  show ?thesis unfolding deleteSyncerPod_def by (intro acting chan_reads d)
qed

lemma acts_disable: "acts (chanOf c k) E (chanCall c) (disableChannel env)"
  unfolding disableChannel_def
proof (rule acts_this)
  fix ch assume "chanOf c k ch"
  then have "chanCore ch = c" by (simp add: chanOf_def)
  from acts_deprecateAll [OF this]
  show "acts (chanOf c k) E (chanCall c)
    (bnd (getAllOwnedManagedOSVersions env ch) (\<lambda>curVersions.
     andThen (deprecateAll env ch curVersions)
    (andThen (orWrap (deleteSyncerPod env ch) ''deleting syncer pod'')
    (andThen (chCond env ChannelDisabledReason ''True'' ''Channel is disabled'')
       (ret noResult)))))"
    by (intro acting acts_owned acts_deleteSyncer)
qed

lemma acts_channel:
  assumes "fst (snd c) \<noteq> 0"
  shows "acts (chanOf c 5) chPanics (chanCall c) (reconcileChannel env r)"
  unfolding reconcileChannel_def invalidChannel_def Let_def
  by (intro acts_this acting acts_disable acts_moves [OF moves_sync] assms)

text \<open>
  C28: what a reconciliation of a channel keeps. From a channel of a generation other than zero whose
  status is sound it leaves a sound status: a generation counted as synchronised has its time of
  synchronisation, and there are no more than five failures in a row, whatever the API server
  answers. It panics only on a pod without containers or on the nil metadata of a listed version,
  never on a missing time. It changes neither the identity nor the specification of the channel; and
  it creates only pods and versions that the channel owns, patches versions and deletes them only
  when the specification says so; it deletes pods of the name of the channel.
\<close>

theorem ReconcileChannel_sound:
  assumes "answer env (decodeOne asChannel) (CGet KChannel ns nm) (trace s) = Inr x"
    and "Generation x \<noteq> 0" and "chSound 5 (ch_Status x)"
  shows "case ReconcileChannel env r ns nm s of
      (Panic p, s') \<Rightarrow> p \<in> {indexOutOfRange, assignNilMap}
    | (_, s') \<Rightarrow> \<exists>y z cs. chanOf (chanCore x) 5 y \<and> list_all (chanCall (chanCore x)) cs \<and> trace s' =
        CStatusPatch True (OChannel x) (OChannel (z\<lparr>ch_Status := ch_Status y\<rparr>))
        # CPatch True (OChannel x) (OChannel y) # cs @ CGet KChannel ns nm # trace s"
proof -
  let ?s = "enter s channelResource ns nm x" and ?c = "chanCore x"
  obtain res t where run: "reconcileChannel env r ?s = (res, t)" by force
  have g: "fst (snd ?c) \<noteq> 0" using assms(2) by (simp add: chanCore_def)
  have "chanOf ?c 5 (self ?s)" using assms(3) by (simp add: enter_def channelResource_def chanOf_def)
  from acts_run [OF acts_channel [OF g] this run] have t: "chanOf ?c 5 (self t)"
    "\<forall>p. res = Panic p \<longrightarrow> p \<in> chPanics" "added (chanCall ?c) (trace ?s) (trace t)" by simp_all
  from t(3) obtain cs where cs: "trace t = cs @ CGet KChannel ns nm # trace s" "list_all (chanCall ?c) cs"
    by (auto simp: added_def enter_def channelResource_def)
  have get: "answer env (decodeOne (rc_as channelResource)) (CGet (rc_kind channelResource) ns nm) (trace s) = Inr x"
    using assms(1) by (simp add: channelResource_def)
  from get run show ?thesis
  proof (cases rule: runReconcile_run)
    case (panic p)
    then show ?thesis using t(2) by (auto simp: ReconcileChannel_def chPanics_def split: prod.split)
  next
    case (patched y q)
    then have "\<exists>y z. chanOf ?c 5 y \<and> trace (snd (ReconcileChannel env r ns nm s)) =
        CStatusPatch True (OChannel x) (OChannel (z\<lparr>ch_Status := ch_Status y\<rparr>))
        # CPatch True (OChannel x) (OChannel y) # cs @ CGet KChannel ns nm # trace s"
      using t(1) cs(1) by (auto simp: ReconcileChannel_def channelResource_def)
    moreover have "\<forall>p. fst (ReconcileChannel env r ns nm s) \<noteq> Panic p"
      using patched by (simp add: ReconcileChannel_def)
    ultimately show ?thesis using cs(2) by (auto split: prod.split outcome.split)
  qed
qed

end
