(* ===== verification/ChannelSync.thy ===== *)
theory ChannelSync
  imports ChannelProps
begin

text \<open>
  What a synchronisation of a channel writes when it succeeds, when it panics, and what is left when
  the list of versions cannot be read.
\<close>

section \<open>The loop\<close>

text \<open>The versions of the channel as the list after a history gives them; none when it fails.\<close>

definition ownedAt :: "env \<Rightarrow> ManagedOSVersionChannel \<Rightarrow> call list \<Rightarrow> (string \<times> ManagedOSVersion) list" where
  "ownedAt env ch t = (case answer env (decodeAll asOSVersion)
      (CList KOSVersion (Some (Namespace ch)) (versionsOf ch)) t of
      Inl _ \<Rightarrow> [] | Inr vs \<Rightarrow> fold (\<lambda>v m. AList.update (Name v) v m) vs [])"

lemma run_owned: "getAllOwnedManagedOSVersions env ch s = (Ok (ownedAt env ch (trace s)),
    s\<lparr>trace := CList KOSVersion (Some (Namespace ch)) (versionsOf ch) # trace s\<rparr>)"
  by (cases "answer env (decodeAll asOSVersion) (CList KOSVersion (Some (Namespace ch)) (versionsOf ch)) (trace s)")
    (simp_all add: getAllOwnedManagedOSVersions_def ownedAt_def run)


definition knownType :: "ManagedOSVersion \<Rightarrow> bool" where
  "knownType v \<longleftrightarrow> IsContainerImage v \<or> IsISOImage v"

lemma prefix_cases:
  "prefixRegistry [] v = Ok v"
  "reg \<noteq> [] \<Longrightarrow> \<not> knownType v \<Longrightarrow>
     prefixRegistry reg v = Err (EMsg (''unexpected ManagedOSVersion type '' @ ovs_Type (ov_Spec v)))"
  "reg \<noteq> [] \<Longrightarrow> knownType v \<Longrightarrow> ovs_Metadata (ov_Spec v) = None \<Longrightarrow> prefixRegistry reg v = Panic assignNilMap"
  "reg \<noteq> [] \<Longrightarrow> knownType v \<Longrightarrow> ovs_Metadata (ov_Spec v) = Some m \<Longrightarrow> \<exists>w. prefixRegistry reg v = Ok w"
  by (auto simp: prefixRegistry_def knownType_def Let_def)

lemma channelVersion_type [simp]:
  "knownType (channelVersion ch ts v) = knownType v"
  "ovs_Metadata (ov_Spec (channelVersion ch ts v)) = ovs_Metadata (ov_Spec v)"
  by (simp_all add: channelVersion_def knownType_def IsContainerImage_def IsISOImage_def split: option.split)

text \<open>
  Whether the first version of a list that is not of a known type with metadata is of a known type.
\<close>

definition nilMetadata :: "ManagedOSVersion list \<Rightarrow> bool" where
  "nilMetadata vs = (case dropWhile (\<lambda>v. knownType v \<and> ovs_Metadata (ov_Spec v) \<noteq> None) vs of
      [] \<Rightarrow> False | v # _ \<Rightarrow> knownType v)"

lemma nilMetadata_simps [simp]:
  "\<not> nilMetadata []"
  "nilMetadata (v # vs) = (knownType v \<and> (ovs_Metadata (ov_Spec v) = None \<or> nilMetadata vs))"
  by (auto simp: nilMetadata_def)

lemma syncLoop_panics:
  "fst (syncLoop env ch ts vs errs cur s) = Panic p \<longleftrightarrow>
    p = assignNilMap \<and> chs_Registry (ch_Spec ch) \<noteq> [] \<and> nilMetadata vs"
proof (induction vs arbitrary: errs cur s)
  case Nil
  show ?case by (simp add: run)
next
  case (Cons v vs)
  let ?r = "prefixRegistry (chs_Registry (ch_Spec ch)) (channelVersion ch ts v)"
  have iff: "fst (syncLoop env ch ts (v # vs) errs cur s) = Panic p \<longleftrightarrow>
    (case ?r of Ok w \<Rightarrow> p = assignNilMap \<and> chs_Registry (ch_Spec ch) \<noteq> [] \<and> nilMetadata vs
      | Err e \<Rightarrow> False | Panic q \<Rightarrow> p = q)"
    using Cons.IH by (auto simp: run split: outcome.split option.split sum.split)
  consider (plain) "chs_Registry (ch_Spec ch) = []"
    | (unknown) "chs_Registry (ch_Spec ch) \<noteq> []" "\<not> knownType v"
    | (bare) "chs_Registry (ch_Spec ch) \<noteq> []" "knownType v" "ovs_Metadata (ov_Spec v) = None"
    | (fine) m where "chs_Registry (ch_Spec ch) \<noteq> []" "knownType v" "ovs_Metadata (ov_Spec v) = Some m"
    by (cases "ovs_Metadata (ov_Spec v)") auto
  then show ?case
  proof cases
    case fine
    with prefix_cases(4) [of "chs_Registry (ch_Spec ch)" "channelVersion ch ts v"]
    obtain w where "?r = Ok w" by auto
    with fine show ?thesis unfolding iff by simp
  qed (unfold iff, auto simp: prefix_cases)
qed

text \<open>
  When loading the list of a channel crashes the operator: exactly when the channel has a
  registry, the list is readable, and the first of its versions that is not of a known type with
  metadata is of a known type, so that the address with the registry is assigned into a nil map. An
  unknown type before it ends the loop with an error; no answer of the API server matters.
\<close>

theorem createManagedOSVersions_panics:
  "fst (createManagedOSVersions env ch data ts s) = Panic p \<longleftrightarrow>
    p = assignNilMap \<and> chs_Registry (ch_Spec ch) \<noteq> []
    \<and> (case json_versions (lib env) data of Inl _ \<Rightarrow> False | Inr vs \<Rightarrow> nilMetadata vs)"
proof (cases "json_versions (lib env) data")
  case (Inl e)
  then show ?thesis by (simp add: createManagedOSVersions_def run)
next
  case (Inr vs)
  have calm: "fst (deprecateAll env ch l t) \<noteq> Panic q" for l t q
    using acts_run [OF acts_deprecateAll [OF refl] TrueI, where E = "{}" and s = t] by (metis empty_iff prod.collapse)
  let ?t = "s\<lparr>trace := CList KOSVersion (Some (Namespace ch)) (versionsOf ch) # trace s\<rparr>"
  have "fst (createManagedOSVersions env ch data ts s) = Panic p \<longleftrightarrow> fst (syncLoop env ch ts vs [] (ownedAt env ch (trace s)) ?t) = Panic p"
    using Inr calm by (auto simp: createManagedOSVersions_def run_bnd run_lift_sum run_owned run_fail split: outcome.split prod.splits)
  with Inr syncLoop_panics show ?thesis by simp
qed

section \<open>A list that was loaded\<close>

text \<open>The version that a call flags as no longer offered.\<close>

fun flagged :: "call \<Rightarrow> ManagedOSVersion option" where
  "flagged (CPatch b (OOSVersion v) (OOSVersion w)) =
    (if mget (Annotations w) ElementalManagedOSVersionNoLongerSyncedAnnotation = None then None else Some v)"
| "flagged c = None"

definition flags :: "call list \<Rightarrow> ManagedOSVersion set" where
  "flags cs = {v. Some v \<in> flagged ` set cs}"

lemma flags_simps [simp]:
  "flags [] = {}"
  "flags (c # cs) = (case flagged c of None \<Rightarrow> {} | Some v \<Rightarrow> {v}) \<union> flags cs"
  "flags (cs @ ds) = flags cs \<union> flags ds"
  by (auto simp: flags_def split: option.split)

text \<open>What the loop asks for to store a version of the list, and the answers it relies on.\<close>

definition storeCall :: "(string \<times> ManagedOSVersion) list \<Rightarrow> ManagedOSVersion \<Rightarrow> call" where
  "storeCall cur w = (case map_of cur (Name w) of
      None \<Rightarrow> CCreate (OOSVersion w) | Some cv \<Rightarrow> CPatch False (OOSVersion cv) (OOSVersion (refreshed w cv)))"

definition stored :: "env \<Rightarrow> call list \<Rightarrow> call list \<Rightarrow> ManagedOSVersionChannel \<Rightarrow> string
    \<Rightarrow> (string \<times> ManagedOSVersion) list \<Rightarrow> ManagedOSVersion \<Rightarrow> bool" where
  "stored env t u ch ts cur v \<longleftrightarrow> (case prefixRegistry (chs_Registry (ch_Spec ch)) (channelVersion ch ts v) of
      Ok w \<Rightarrow> granted env t u (storeCall cur w) | _ \<Rightarrow> False)"

text \<open>
  A merge patch sets the annotations that it changes: what the API server documents of a patch that it
  accepts. It says nothing of the others.
\<close>

definition mergesAnnotations :: "env \<Rightarrow> bool" where
  "mergesAnnotations env \<longleftrightarrow> (\<forall>b x o' t y k a. answer env (decodePut asOSVersion o')
      (CPatch b (OOSVersion x) (OOSVersion o')) t = Inr y \<longrightarrow>
      mget (Annotations o') k = Some a \<longrightarrow> mget (Annotations x) k \<noteq> Some a \<longrightarrow> mget (Annotations y) k = Some a)"

abbreviation syncTime :: "ManagedOSVersion \<Rightarrow> string option" where
  "syncTime v \<equiv> mget (Annotations v) ElementalManagedOSVersionChannelLastSyncAnnotation"

lemma refreshed_flag:
  "prefixRegistry reg (channelVersion ch ts v) = Ok w \<Longrightarrow>
    mget (Annotations (refreshed w cv)) ElementalManagedOSVersionNoLongerSyncedAnnotation = None
    \<and> mget (Annotations (refreshed w cv)) ElementalManagedOSVersionChannelLastSyncAnnotation = Some ts"
  by (drule prefixRegistry_keeps) (simp add: refreshed_def channelVersion_def
      ElementalManagedOSVersionNoLongerSyncedAnnotation_def ElementalManagedOSVersionChannelLastSyncAnnotation_def)

text \<open>What the loop over \<open>vs\<close> leaves when no call failed: between which histories, from which map to which.\<close>

definition loaded :: "env \<Rightarrow> call list \<Rightarrow> call list \<Rightarrow> ManagedOSVersionChannel \<Rightarrow> string \<Rightarrow> ManagedOSVersion list
    \<Rightarrow> (string \<times> ManagedOSVersion) list \<Rightarrow> (string \<times> ManagedOSVersion) list \<Rightarrow> bool" where
  "loaded env t u ch ts vs cur cur' \<longleftrightarrow> (\<exists>cs. u = cs @ t \<and> flags cs = {})
    \<and> list_all (stored env t u ch ts cur) vs \<and> distinct (map fst cur')
    \<and> (\<forall>n. n \<notin> Name ` set vs \<longrightarrow> map_of cur' n = map_of cur n)
    \<and> (\<forall>n y. n \<in> Name ` set vs \<longrightarrow> map_of cur' n = Some y \<longrightarrow>
        mget (Annotations y) ElementalManagedOSVersionChannelLastSyncAnnotation = Some ts)"

lemma loaded_step:
  assumes w: "prefixRegistry (chs_Registry (ch_Spec ch)) (channelVersion ch ts v) = Ok w"
    and c: "c = storeCall cur w" "flagged c = None" "answer env dec c t = Inr x"
    and rest: "loaded env (c # t) u ch ts vs cur1 cur'"
    and dist: "distinct (map Name (v # vs))"
    and same: "\<And>n. n \<noteq> Name v \<Longrightarrow> map_of cur1 n = map_of cur n"
    and here: "map_of cur (Name v) = None \<and> cur1 = cur \<or> (\<exists>y. map_of cur1 (Name v) = Some y \<and>
      mget (Annotations y) ElementalManagedOSVersionChannelLastSyncAnnotation = Some ts)"
  shows "loaded env t u ch ts (v # vs) cur cur'"
proof -
  have no: "Name v \<notin> Name ` set vs" using dist by auto
  from rest obtain cs where cs: "u = cs @ c # t" "flags cs = {}" by (auto simp: loaded_def)
  have later: "added (\<lambda>_. True) (c # t) u" "added (\<lambda>_. True) t (c # t)"
    using cs(1) by (auto simp: added_def list_all_iff)
  have "stored env t u ch ts cur v"
    using granted_later [OF granted_now [OF c(3)] later(1)] by (simp add: stored_def w c(1))
  moreover have "stored env t u ch ts cur z" if "z \<in> set vs" for z
  proof -
    have "stored env (c # t) u ch ts cur1 z" using rest that by (simp add: loaded_def list_all_iff)
    moreover have "Name z \<noteq> Name v" using no that by (metis imageI)
    ultimately show ?thesis
      using granted_earlier [OF later(2)] prefixRegistry_keeps [of _ "channelVersion ch ts z"] same
      by (fastforce simp: stored_def storeCall_def split: outcome.splits)
  qed
  moreover have "u = (cs @ [c]) @ t" "flags (cs @ [c]) = {}" using cs c(2) by simp_all
  ultimately show ?thesis
    using rest same here no unfolding loaded_def list_all_iff by (auto 0 3)
qed

lemma syncLoop_stores:
  assumes "syncLoop env ch ts vs errs cur s = (Ok ([], cur'), s')" and "distinct (map Name vs)"
    and "mergesAnnotations env" and "distinct (map fst cur)"
    and "\<forall>v \<in> set vs. \<forall>y. map_of cur (Name v) = Some y \<longrightarrow> syncTime y \<noteq> Some ts"
  shows "errs = [] \<and> loaded env (trace s) (trace s') ch ts vs cur cur'"
  using assms
proof (induction vs arbitrary: errs cur s)
  case Nil
  then show ?case by (auto simp: run loaded_def)
next
  case (Cons v vs)
  let ?p = "prefixRegistry (chs_Registry (ch_Spec ch)) (channelVersion ch ts v)"
  obtain w where w: "?p = Ok w" using Cons.prems(1) by (cases ?p) (auto simp: run)
  have nw: "Name w = Name v" using prefixRegistry_keeps [OF w] by simp
  have dist: "distinct (map Name vs)" using Cons.prems(2) by simp
  have new: "\<forall>v \<in> set vs. \<forall>y. map_of cur (Name v) = Some y \<longrightarrow> syncTime y \<noteq> Some ts" using Cons.prems(5) by simp
  have new': "\<forall>z \<in> set vs. \<forall>y. map_of (AList.update (Name v) x cur) (Name z) = Some y \<longrightarrow> syncTime y \<noteq> Some ts" for x
    using Cons.prems(2) new by (auto simp: update_conv' dest: image_eqI)
  show ?case
  proof (cases "map_of cur (Name v)")
    case None
    let ?c = "CCreate (OOSVersion w)"
    have c: "?c = storeCall cur w" "flagged ?c = None" using None nw by (simp_all add: storeCall_def)
    show ?thesis
    proof (cases "answer env decodeAny ?c (trace s)")
      case (Inl e)
      with Cons.prems(1) None w have "syncLoop env ch ts vs (errs @ [e]) cur (s\<lparr>trace := ?c # trace s\<rparr>) = (Ok ([], cur'), s')"
        by (simp add: run)
      from Cons.IH [OF this dist Cons.prems(3,4) new] show ?thesis by simp
    next
      case (Inr x)
      with Cons.prems(1) None w have "syncLoop env ch ts vs errs cur (s\<lparr>trace := ?c # trace s\<rparr>) = (Ok ([], cur'), s')"
        by (simp add: run)
      from Cons.IH [OF this dist Cons.prems(3,4) new] loaded_step [OF w c Inr _ Cons.prems(2), of _ cur cur'] None
      show ?thesis by simp
    qed
  next
    case (Some cv)
    let ?w = "refreshed w cv"
    let ?c = "CPatch False (OOSVersion cv) (OOSVersion ?w)"
    have c: "?c = storeCall cur w" "flagged ?c = None" using Some nw refreshed_flag [OF w] by (simp_all add: storeCall_def)
    show ?thesis
    proof (cases "answer env (decodePut asOSVersion ?w) ?c (trace s)")
      case (Inl e)
      with Cons.prems(1) Some w have "syncLoop env ch ts vs (errs @ [e]) (AList.update (Name v) ?w cur)
          (s\<lparr>trace := ?c # trace s\<rparr>) = (Ok ([], cur'), s')"
        by (simp add: run)
      from Cons.IH [OF this dist Cons.prems(3) distinct_update [OF Cons.prems(4)] new'] show ?thesis by simp
    next
      case (Inr y)
      with Cons.prems(1) Some w have "syncLoop env ch ts vs errs (AList.update (Name v) y cur)
          (s\<lparr>trace := ?c # trace s\<rparr>) = (Ok ([], cur'), s')"
        by (simp add: run)
      note ih = Cons.IH [OF this dist Cons.prems(3) distinct_update [OF Cons.prems(4)] new']
      have "syncTime cv \<noteq> Some ts" using Cons.prems(5) Some by simp
      then have "syncTime y = Some ts"
        using Cons.prems(3) Inr refreshed_flag [OF w] unfolding mergesAnnotations_def by blast
      with ih loaded_step [OF w c Inr _ Cons.prems(2), of _ "AList.update (Name v) y cur" cur'] show ?thesis
        by (simp add: update_conv')
    qed
  qed
qed

lemma deprecateAll_flags:
  assumes "deprecateAll env ch l s = (Ok (), s')"
  shows "\<exists>cs. trace s' = cs @ trace s \<and> flags cs = snd ` set l \<and>
    (\<forall>v \<in> snd ` set l. granted env (trace s) (trace s') (CPatch False (OOSVersion v) (OOSVersion (deprecated v))))"
  using assms
proof (induction l arbitrary: s)
  case Nil
  then show ?case by (simp add: deprecateAll_def run)
next
  case (Cons a l)
  obtain n v where a: "a = (n, v)" by (cases a)
  let ?c = "CPatch False (OOSVersion v) (OOSVersion (deprecated v))"
  from Cons.prems obtain t where t: "deprecateVersion env ch v s = (Ok (), t)" and l: "deprecateAll env ch l t = (Ok (), s')"
    by (auto simp: deprecateAll_def a run split: prod.splits outcome.splits)
  have f: "flagged ?c = Some v" by (simp add: deprecated_def)
  from t obtain y ds where y: "answer env (decodePut asOSVersion (deprecated v)) ?c (trace s) = Inr y"
    and ds: "trace t = ds @ ?c # trace s" "flags ds = {}"
    by (auto simp: deprecateVersion_def run split: sum.splits if_splits)
  from Cons.IH [OF l] obtain cs where cs: "trace s' = cs @ trace t" "flags cs = snd ` set l"
    "\<forall>v \<in> snd ` set l. granted env (trace t) (trace s') (CPatch False (OOSVersion v) (OOSVersion (deprecated v)))"
    by blast
  have st: "added (\<lambda>_. True) (trace s) (trace t)" "added (\<lambda>_. True) (?c # trace s) (trace s')"
    using ds(1) cs(1) by (auto simp: added_def list_all_iff)
  have "trace s' = (cs @ ds @ [?c]) @ trace s" "flags (cs @ ds @ [?c]) = snd ` set (a # l)"
    using ds cs f by (simp_all add: a)
  moreover have "granted env (trace s) (trace s') ?c"
    by (rule granted_later [OF granted_now [OF y] st(2)])
  moreover have "\<forall>v \<in> snd ` set l. granted env (trace s) (trace s') (CPatch False (OOSVersion v) (OOSVersion (deprecated v)))"
    using cs(3) granted_earlier [OF st(1)] by blast
  ultimately show ?case by (auto simp: a)
qed

lemma update_new: "k \<notin> fst ` set al \<Longrightarrow> AList.update k v al = al @ [(k, v)]"
  by (induction al) auto

text \<open>The map of the versions of the channel that a listing gives; names are unique in a namespace.\<close>

lemma ownedAt_listed:
  assumes "answer env (decodeAll asOSVersion) (CList KOSVersion (Some (Namespace ch)) (versionsOf ch)) t = Inr ms"
    and "distinct (map Name ms)"
  shows "ownedAt env ch t = map (\<lambda>v. (Name v, v)) ms"
proof -
  have "fold (\<lambda>v m. AList.update (Name v) v m) vs m = m @ map (\<lambda>v. (Name v, v)) vs"
    if "distinct (map Name vs)" and "fst ` set m \<inter> Name ` set vs = {}" for vs and m :: "(string \<times> ManagedOSVersion) list"
    using that
  proof (induction vs arbitrary: m)
    case (Cons v vs)
    have "AList.update (Name v) v m = m @ [(Name v, v)]"
      using Cons.prems(2) by (intro update_new) auto
    then show ?case using Cons.prems by (subst fold_Cons, simp, subst Cons.IH) auto
  qed simp
  from this [OF assms(2), of "[]"] assms(1) show ?thesis by (simp add: ownedAt_def)
qed

lemma stale_loaded:
  assumes "loaded env t u ch ts vs (map (\<lambda>v. (Name v, v)) ms) cur'" and "distinct (map Name ms)"
    and "\<forall>v \<in> set ms. syncTime v \<noteq> Some ts"
  shows "snd ` set (filter (\<lambda>(_, v). syncTime v \<noteq> Some ts) cur') = {v \<in> set ms. Name v \<notin> Name ` set vs}"
proof -
  let ?cur = "map (\<lambda>v. (Name v, v)) ms"
  have "distinct (map fst ?cur)" using assms(2) by (simp add: comp_def)
  then have here: "(n, v) \<in> set cur' \<longleftrightarrow> map_of cur' n = Some v" "(n, v) \<in> set ?cur \<longleftrightarrow> map_of ?cur n = Some v" for n v
    using assms(1) map_of_eq_Some_iff [of cur' n v] map_of_eq_Some_iff [of ?cur n v] by (simp_all add: loaded_def)
  have cur: "(n, v) \<in> set ?cur \<longleftrightarrow> v \<in> set ms \<and> n = Name v" for n v by auto
  have kept: "(n, v) \<in> set cur' \<and> syncTime v \<noteq> Some ts \<longleftrightarrow> v \<in> set ms \<and> n = Name v \<and> n \<notin> Name ` set vs" for n v
  proof (cases "n \<in> Name ` set vs")
    case True
    then show ?thesis using assms(1) unfolding here loaded_def by blast
  next
    case False
    then have "(n, v) \<in> set cur' \<longleftrightarrow> (n, v) \<in> set ?cur" using assms(1) unfolding here loaded_def by simp
    with False assms(3) show ?thesis unfolding cur by blast
  qed
  have vals: "v \<in> snd ` set (filter (\<lambda>(_, v). P v) xs) \<longleftrightarrow> (\<exists>n. (n, v) \<in> set xs \<and> P v)"
    for v P and xs :: "(string \<times> ManagedOSVersion) list"
    by force
  show ?thesis
  proof (rule set_eqI)
    fix v
    show "v \<in> snd ` set (filter (\<lambda>(_, v). syncTime v \<noteq> Some ts) cur') \<longleftrightarrow> v \<in> {v \<in> set ms. Name v \<notin> Name ` set vs}"
      unfolding vals kept by simp
  qed
qed

text \<open>
  C29: what loading a list of versions with different names has done when it reports success, with the
  versions of the channel listed before, whose names differ and none of which carries the time of this
  very synchronisation, and an API server whose merge patches set the annotations they change. Every
  version of the list was stored, created when the channel had none of its name and else written over
  the one it had, with the labels, owner and registry of the channel, and the API server took it; and
  the versions flagged as no longer offered are exactly those listed for the channel that the list of
  versions does not name; each flag was taken as well.
\<close>

theorem createManagedOSVersions_success:
  assumes "createManagedOSVersions env ch data ts s = (Ok (), s')"
    and "json_versions (lib env) data = Inr vs" and "distinct (map Name vs)"
    and "answer env (decodeAll asOSVersion) (CList KOSVersion (Some (Namespace ch)) (versionsOf ch)) (trace s) = Inr ms"
    and "distinct (map Name ms)" and "\<forall>v \<in> set ms. syncTime v \<noteq> Some ts" and "mergesAnnotations env"
  shows "list_all (stored env (trace s) (trace s') ch ts (map (\<lambda>v. (Name v, v)) ms)) vs \<and>
    (\<exists>cs. trace s' = cs @ trace s \<and> flags cs = {v \<in> set ms. Name v \<notin> Name ` set vs}) \<and>
    (\<forall>v \<in> set ms. Name v \<notin> Name ` set vs \<longrightarrow>
       granted env (trace s) (trace s') (CPatch False (OOSVersion v) (OOSVersion (deprecated v))))"
proof -
  let ?cur = "map (\<lambda>v. (Name v, v)) ms" and ?l = "CList KOSVersion (Some (Namespace ch)) (versionsOf ch)"
  let ?s = "s\<lparr>trace := ?l # trace s\<rparr>" and ?gone = "{v \<in> set ms. Name v \<notin> Name ` set vs}"
  let ?old = "\<lambda>(_, v). syncTime v \<noteq> Some ts"
  have c: "ownedAt env ch (trace s) = ?cur" by (rule ownedAt_listed [OF assms(4,5)])
  have dist: "distinct (map fst ?cur)" using assms(5) by (simp add: comp_def)
  have new: "\<forall>v \<in> set vs. \<forall>y. map_of ?cur (Name v) = Some y \<longrightarrow> syncTime y \<noteq> Some ts"
    using assms(6) by (auto dest!: map_of_SomeD)
  from assms(1,2) obtain cur' t where loop: "syncLoop env ch ts vs [] ?cur ?s = (Ok ([], cur'), t)"
    and rest: "deprecateAll env ch (filter ?old cur') t = (Ok (), s')"
    by (auto simp: createManagedOSVersions_def run_bnd run_lift_sum run_owned run_fail c
        split: prod.splits outcome.splits if_splits)
  from syncLoop_stores [OF loop assms(3,7) dist new]
  have ld: "loaded env (trace ?s) (trace t) ch ts vs ?cur cur'" by simp
  then obtain ds where ds: "trace t = ds @ ?l # trace s" "flags ds = {}" by (auto simp: loaded_def)
  from deprecateAll_flags [OF rest] obtain cs where cs: "trace s' = cs @ trace t" "flags cs = ?gone"
    and g: "\<forall>v \<in> ?gone. granted env (trace t) (trace s') (CPatch False (OOSVersion v) (OOSVersion (deprecated v)))"
    unfolding stale_loaded [OF ld assms(5,6), symmetric] by blast
  have a: "added (\<lambda>_. True) (trace s) (trace t)" "added (\<lambda>_. True) (trace t) (trace s')"
    "added (\<lambda>_. True) (trace s) (trace ?s)"
    using ds(1) cs(1) by (auto simp: added_def list_all_iff)
  have "stored env (trace s) (trace s') ch ts ?cur v" if "v \<in> set vs" for v
  proof -
    have "stored env (trace ?s) (trace t) ch ts ?cur v" using ld that by (simp add: loaded_def list_all_iff)
    then show ?thesis
      using granted_later [OF granted_earlier [OF a(3)] a(2)] by (auto simp: stored_def split: outcome.splits)
  qed
  moreover have "trace s' = (cs @ ds @ [?l]) @ trace s" "flags (cs @ ds @ [?l]) = ?gone"
    using ds cs by simp_all
  ultimately show ?thesis using granted_earlier [OF a(1)] g unfolding list_all_iff by blast
qed

text \<open>When the listing fails, the channel is taken to have no versions: a success flags nothing at all.\<close>

lemma createManagedOSVersions_unlisted:
  assumes "createManagedOSVersions env ch data ts s = (Ok (), s')"
    and "json_versions (lib env) data = Inr vs" and "distinct (map Name vs)" and "mergesAnnotations env"
    and "answer env (decodeAll asOSVersion) (CList KOSVersion (Some (Namespace ch)) (versionsOf ch)) (trace s) = Inl e"
  shows "\<exists>cs. trace s' = cs @ trace s \<and> flags cs = {}"
proof -
  let ?l = "CList KOSVersion (Some (Namespace ch)) (versionsOf ch)"
  let ?s = "s\<lparr>trace := ?l # trace s\<rparr>"
  have c: "ownedAt env ch (trace s) = []" using assms(5) by (simp add: ownedAt_def)
  from assms(1,2) obtain cur' t where loop: "syncLoop env ch ts vs [] [] ?s = (Ok ([], cur'), t)"
    and rest: "deprecateAll env ch (filter (\<lambda>(_, v). syncTime v \<noteq> Some ts) cur') t = (Ok (), s')"
    by (auto simp: createManagedOSVersions_def run_bnd run_lift_sum run_owned run_fail c
        split: prod.splits outcome.splits if_splits)
  from syncLoop_stores [OF loop assms(3,4)]
  have ld: "loaded env (trace ?s) (trace t) ch ts vs (map (\<lambda>v. (Name v, v)) []) cur'" by simp
  then obtain ds where ds: "trace t = ds @ ?l # trace s" "flags ds = {}" by (auto simp: loaded_def)
  from stale_loaded [OF ld] deprecateAll_flags [OF rest] obtain cs where "trace s' = cs @ trace t" "flags cs = {}" by auto
  with ds have "trace s' = (cs @ ds @ [?l]) @ trace s" "flags (cs @ ds @ [?l]) = {}" by simp_all
  then show ?thesis by blast
qed

text \<open>
  A disabled channel whose versions cannot be listed: the error is taken for an empty list, so that
  nothing is flagged, and the channel reports that it is disabled all the same.
\<close>

theorem disableChannel_list_error:
  assumes "answer env (decodeAll asOSVersion) (CList KOSVersion (Some (Namespace (self s))) (versionsOf (self s))) (trace s) = Inl e"
    and "answer env (decodeOne asPod) (CGet KPod (Namespace (self s)) (Name (self s)))
      (CList KOSVersion (Some (Namespace (self s))) (versionsOf (self s)) # trace s) = Inl (EApi NotFound msg)"
  shows "disableChannel env s = (Ok noResult, s\<lparr>
    trace := [CGet KPod (Namespace (self s)) (Name (self s)),
      CList KOSVersion (Some (Namespace (self s))) (versionsOf (self s))] @ trace s,
    ticks := Suc (ticks s),
    self := updChConds (SetStatusCondition (clock env (ticks s))
      (mkCondition ReadyCondition ChannelDisabledReason ''True'' ''Channel is disabled'')) (self s)\<rparr>)"
  using assms by (simp add: disableChannel_def run run_owned ownedAt_def deprecateAll_def deleteSyncerPod_def
      isNotFound_def chCond_def setCond_def)

section \<open>Instances\<close>

definition demo_channel :: ManagedOSVersionChannel where
  "demo_channel = ObjectMeta.extend (zeroMeta\<lparr>Name := ''ch'', Namespace := ''ns'', UID := ''u'', Generation := 1\<rparr>)
     \<lparr>ch_Spec = \<lparr>chs_Type = ''json'', chs_SyncInterval = ''1h'', chs_DeleteNoLongerInSyncVersions = False,
        chs_Enabled = True, chs_Registry = ''r.io'', chs_Options = None, chs_UpgradeContainer = None,
        chs_ImagePullSecrets = []\<rparr>,
      ch_Status = \<lparr>cht_Conditions = [], cht_LastSyncedTime = None, cht_FailedSynchronizationAttempts = 0,
        cht_SyncedGeneration = 0\<rparr>\<rparr>"

definition demo_channel_version :: "string \<Rightarrow> string gomap \<Rightarrow> ManagedOSVersion" where
  "demo_channel_version n annotations = ObjectMeta.extend (zeroMeta\<lparr>Name := n, Namespace := ''ns'', Annotations := annotations\<rparr>)
     \<lparr>ov_Spec = \<lparr>ovs_Version = n, ovs_Type = ''container'', ovs_MinVersion = [],
        ovs_Metadata = Some [(''upgradeImage'', ''img'')], ovs_UpgradeContainer = None\<rparr>\<rparr>"

text \<open>The channel had \<^verbatim>\<open>v1\<close> and \<^verbatim>\<open>v2\<close>; the list offers \<^verbatim>\<open>v2\<close> and \<^verbatim>\<open>v3\<close>.\<close>

definition demo_channel_env :: env where
  "demo_channel_env = (let e = demo_env (\<lambda>c. case c of
      CGet KChannel ns nm \<Rightarrow> Some (RObjs [OChannel demo_channel])
    | CList KOSVersion ns sel \<Rightarrow> Some (RObjs [OOSVersion (demo_channel_version ''v1'' None), OOSVersion (demo_channel_version ''v2'' None)])
    | _ \<Rightarrow> None) []
   in e\<lparr>lib := (lib e)\<lparr>json_versions := (\<lambda>_. Inr [demo_channel_version ''v2'' None, demo_channel_version ''v3'' None])\<rparr>\<rparr>)"

lemma demo_channel_merges: "mergesAnnotations demo_channel_env"
  by (simp add: mergesAnnotations_def demo_channel_env_def answer_def demo_env_def demo_respond_def decodePut_def)

theorem createManagedOSVersions_success_witness:
  "let u = trace (snd (createManagedOSVersions demo_channel_env demo_channel [] ''now'' (start ()))) in
   flags u = {demo_channel_version ''v1'' None}
   \<and> granted demo_channel_env [] u (CPatch False (OOSVersion (demo_channel_version ''v1'' None))
       (OOSVersion (deprecated (demo_channel_version ''v1'' None))))"
proof -
  let ?vs = "[demo_channel_version ''v2'' None, demo_channel_version ''v3'' None]"
  let ?m = "createManagedOSVersions demo_channel_env demo_channel [] ''now'' (start ())"
  have "case fst ?m of Ok _ \<Rightarrow> True | _ \<Rightarrow> False" by code_simp
  then have m: "?m = (Ok (), snd ?m)" by (cases ?m) (auto split: outcome.splits)
  have l: "json_versions (lib demo_channel_env) [] = Inr ?vs" by (simp add: demo_channel_env_def Let_def)
  have nv: "Name (demo_channel_version n None) = n" "mget (Annotations (demo_channel_version n None)) k = None" for n k
    by (simp_all add: demo_channel_version_def ObjectMeta.defs mget_def)
  then have d: "distinct (map Name ?vs)" by simp
  have t: "trace (start ()) = []" by (simp add: start_def)
  let ?ms = "[demo_channel_version ''v1'' None, demo_channel_version ''v2'' None]"
  have o: "answer demo_channel_env (decodeAll asOSVersion) (CList KOSVersion (Some (Namespace demo_channel))
      (versionsOf demo_channel)) (trace (start ())) = Inr ?ms"
    by (simp add: demo_channel_env_def answer_def demo_env_def demo_respond_def decodeAll_def)
  have dm: "distinct (map Name ?ms)" "\<forall>v \<in> set ?ms. syncTime v \<noteq> Some ''now''" by (simp_all add: nv)
  have st: "{v \<in> set ?ms. Name v \<notin> Name ` set ?vs} = {demo_channel_version ''v1'' None}"
    by (auto simp: nv)
  from createManagedOSVersions_success [OF m l d o dm demo_channel_merges] show ?thesis
    unfolding t st Let_def by (auto simp: nv)
qed

theorem ReconcileChannel_sound_witness:
  "case ReconcileChannel demo_channel_env \<lparr>cr_OperatorImage = ''op'', cr_PullSecrets = []\<rparr> ''ns'' ''ch'' (start ()) of
      (Panic p, s') \<Rightarrow> False
    | (_, s') \<Rightarrow> \<exists>y. chanOf ((''ns'', ''ch'', ''u''), 1, ch_Spec demo_channel) 5 y
        \<and> CPatch True (OChannel demo_channel) (OChannel y) \<in> set (trace s')"
proof -
  let ?r = "\<lparr>cr_OperatorImage = ''op'', cr_PullSecrets = []\<rparr>"
  have 1: "answer demo_channel_env (decodeOne asChannel) (CGet KChannel ''ns'' ''ch'') (trace (start ())) = Inr demo_channel"
    by (simp add: demo_channel_env_def answer_def demo_env_def demo_respond_def start_def decodeOne_def)
  have 2: "Generation demo_channel \<noteq> 0" "chSound 5 (ch_Status demo_channel)"
    by (simp_all add: demo_channel_def ObjectMeta.defs chSound_def)
  have 3: "chanCore demo_channel = ((''ns'', ''ch'', ''u''), 1, ch_Spec demo_channel)"
    by (simp add: chanCore_def demo_channel_def ObjectMeta.defs)
  have 4: "case fst (ReconcileChannel demo_channel_env ?r ''ns'' ''ch'' (start ())) of Panic p \<Rightarrow> False | _ \<Rightarrow> True"
    by code_simp
  from ReconcileChannel_sound [OF 1 2, of ?r] 4 show ?thesis
    unfolding 3 by (auto split: prod.splits outcome.splits)
qed

end
