(* ===== verification/Dmidecode.thy ===== *)
theory Dmidecode
  imports Templater
begin

text \<open>
  \<^verbatim>\<open>pkg/dmidecode/decode.go\<close>: the output of the tool dmidecode becomes nested data, by the
  indentation of its lines; with the lines of \<^verbatim>\<open>bufio.Scanner\<close> and the nested maps of wrangler's
  package \<^verbatim>\<open>data\<close> that it uses.
\<close>

section \<open>Lines\<close>

text \<open>
  \<^verbatim>\<open>bufio.Scanner\<close>: the lines of a text, each without its newline and one carriage return before
  it; a line that does not fit its buffer of 64 KB ends the scan, as an error that nobody reads.
\<close>

abbreviation newline :: char where
  "newline \<equiv> CHR 0x0A"

definition dropCR :: "string \<Rightarrow> string" where
  "dropCR l = (if l \<noteq> [] \<and> last l = CHR 0x0D then butlast l else l)"

definition scanLines :: "string \<Rightarrow> string list" where
  "scanLines s = (let ls = str_split s [newline] in
     map dropCR (takeWhile (\<lambda>l. int (length l) < 65536) (if last ls = [] then butlast ls else ls)))"

section \<open>Nested maps\<close>

text \<open>\<^verbatim>\<open>values.PutValue\<close>: a map that is missing on the way to the last key is made, anything else in
  the way leaves the data as they are.\<close>

fun PutValue :: "tval \<Rightarrow> string list \<Rightarrow> tdata \<Rightarrow> tdata" where
  "PutValue val [] data = data"
| "PutValue val [key] data = AList.update key val data"
| "PutValue val (key # keys) data = (case map_of data key of
      None \<Rightarrow> AList.update key (VMap (PutValue val keys [])) data
    | Some (VMap m) \<Rightarrow> AList.update key (VMap (PutValue val keys m)) data
    | _ \<Rightarrow> data)"

text \<open>\<^verbatim>\<open>kv.Split\<close>\<close>

definition kvSplit :: "string \<Rightarrow> string \<Rightarrow> string \<times> string" where
  "kvSplit s sep = (case splitN2 s sep of
       [name, value] \<Rightarrow> (trim_space name, trim_space value)
     | parts \<Rightarrow> (trim_space (hd parts), []))"

section \<open>The parser\<close>

definition smbiosTypes :: "string list" where
  "smbiosTypes = [''0'', ''1'', ''2'', ''3'', ''4'', ''11'']"

definition stopLines :: "string \<Rightarrow> bool" where
  "stopLines line \<longleftrightarrow> line = ''OEM-specific Type'' \<or> line = ''End Of Table''"

record dmiState =
  dmi_result :: tdata
  dmi_start :: bool
  dmi_lastKey :: "string list"

text \<open>A tab in front of a line stands for the key at its place in the line before.\<close>

fun unindent :: "string list \<Rightarrow> string list \<Rightarrow> string \<Rightarrow> string list \<times> string" where
  "unindent lastKey key (c # line) =
     (if c = CHR 0x09
      then unindent lastKey (if length key < length lastKey then key @ [lastKey ! length key] else key) line
      else (key, c # line))"
| "unindent lastKey key [] = (key, [])"

definition putLine :: "string \<Rightarrow> string \<Rightarrow> string list \<Rightarrow> string \<Rightarrow> tdata \<Rightarrow> tdata" where
  "putLine line value key name result =
    (if trim_space value \<noteq> [] \<or> contains line '':'' then PutValue (VStr value) key result
     else if 1 < length key then
       (let parentKey = butlast key in case GetValueN result parentKey of
          VList parentSlice \<Rightarrow> PutValue (VList (parentSlice @ [VStr name])) parentKey result
        | _ \<Rightarrow> PutValue (VList [VStr name]) parentKey result)
     else PutValue (VMap []) key result)"

definition dmiLine :: "string \<Rightarrow> dmiState \<Rightarrow> dmiState" where
  "dmiLine line st =
    (if has_prefix line ''Handle '' then st\<lparr>dmi_start := True\<rparr>
     else if trim_space line = [] \<or> \<not> dmi_start st \<or> stopLines line then st\<lparr>dmi_start := False\<rparr>
     else (case unindent (dmi_lastKey st) [] line of (key, line) \<Rightarrow>
       (case kvSplit line '': '' of (name, value) \<Rightarrow> (let key = key @ [name] in
          st\<lparr>dmi_result := putLine line value key name (dmi_result st), dmi_lastKey := key\<rparr>))))"

definition dmiOutputToMap :: "string \<Rightarrow> tdata" where
  "dmiOutputToMap buf = dmi_result (fold dmiLine (scanLines buf) \<lparr>dmi_result = [], dmi_start = False, dmi_lastKey = []\<rparr>)"

text \<open>The tool is run once per type; \<open>run\<close> is its output, or why it failed.\<close>

fun runAll :: "(string \<Rightarrow> goerr + string) \<Rightarrow> string list \<Rightarrow> goerr + string" where
  "runAll run [] = Inr []"
| "runAll run (t # ts) = (case run t of
      Inl e \<Rightarrow> Inl (wrap ''looking up SMBIOS tables (using dmidecode)'' e)
    | Inr out \<Rightarrow> map_sum id (\<lambda>rest. out @ rest) (runAll run ts))"

definition DmiDecode :: "(string \<Rightarrow> goerr + string) \<Rightarrow> goerr + tdata" where
  "DmiDecode run = map_sum id dmiOutputToMap (runAll run smbiosTypes)"

section \<open>What the parser makes of well-formed output\<close>

definition unlines :: "string list \<Rightarrow> string" where
  "unlines ls = concat (map (\<lambda>l. l @ [newline]) ls)"

lemma str_split_line: "newline \<notin> set l \<Longrightarrow> str_split (l @ newline # rest) [newline] = l # str_split rest [newline]"
  by (subst str_split.simps) (simp add: str_cut_def str_index_append_single)

lemma split_unlines: "\<forall>l \<in> set ls. newline \<notin> set l \<Longrightarrow> str_split (unlines ls) [newline] = ls @ [[]]"
proof (induction ls)
  case Nil
  then show ?case by (subst str_split.simps) (simp add: unlines_def str_cut_def)
next
  case (Cons l ls)
  then show ?case by (simp add: unlines_def str_split_line)
qed

definition cleanLine :: "string \<Rightarrow> bool" where
  "cleanLine l \<longleftrightarrow> newline \<notin> set l \<and> CHR 0x0D \<notin> set l \<and> int (length l) < 65536"

lemma scan_unlines:
  assumes "\<forall>l \<in> set ls. cleanLine l"
  shows "scanLines (unlines ls) = ls"
proof -
  have d: "dropCR l = l" if "l \<in> set ls" for l
    using assms that last_in_set [of l] by (fastforce simp: dropCR_def cleanLine_def)
  have t: "takeWhile (\<lambda>l. length l < 65536) ls = ls"
    using assms by (simp add: cleanLine_def)
  have "str_split (unlines ls) [newline] = ls @ [[]]"
    by (rule split_unlines) (use assms in \<open>simp add: cleanLine_def\<close>)
  moreover have "map dropCR ls = ls" using d by (rule map_idI)
  ultimately show ?thesis by (simp add: scanLines_def Let_def t)
qed

text \<open>
  The sections that dmidecode prints: a handle, a title, and entries, which are a key with a value or
  a key with a list below it.
\<close>

datatype dmiEntry = DmiField string string | DmiList string "string list"

record dmiSection =
  sec_handle :: string
  sec_title :: string
  sec_entries :: "dmiEntry list"

abbreviation tab :: char where
  "tab \<equiv> CHR 0x09"

fun entryLines :: "dmiEntry \<Rightarrow> string list" where
  "entryLines (DmiField k v) = [tab # k @ '': '' @ v]"
| "entryLines (DmiList k items) = (tab # k @ '':'') # map (\<lambda>i. tab # tab # i) items"

definition sectionLines :: "dmiSection \<Rightarrow> string list" where
  "sectionLines x = (''Handle '' @ sec_handle x) # sec_title x # concat (map entryLines (sec_entries x)) @ [[]]"

text \<open>What they mean: later sections with a title start it anew; a key with a list keeps its colon.\<close>

fun putEntry :: "string \<Rightarrow> dmiEntry \<Rightarrow> tdata \<Rightarrow> tdata" where
  "putEntry title (DmiField k v) d = PutValue (VStr v) [title, k] d"
| "putEntry title (DmiList k items) d =
     PutValue (if items = [] then VStr [] else VList (map VStr items)) [title, k @ '':''] d"

definition putSection :: "dmiSection \<Rightarrow> tdata \<Rightarrow> tdata" where
  "putSection x d = fold (putEntry (sec_title x)) (sec_entries x) (PutValue (VMap []) [sec_title x] d)"

text \<open>Texts without a colon or tab, and without space around them.\<close>

definition plainText :: "string \<Rightarrow> bool" where
  "plainText s \<longleftrightarrow> s \<noteq> [] \<and> trim_space s = s \<and> CHR '':'' \<notin> set s \<and> tab \<notin> set s"

fun plainEntry :: "dmiEntry \<Rightarrow> bool" where
  "plainEntry (DmiField k v) \<longleftrightarrow> plainText k \<and> trim_space v = v"
| "plainEntry (DmiList k items) \<longleftrightarrow> plainText k \<and> list_all plainText items"

definition plainSection :: "dmiSection \<Rightarrow> bool" where
  "plainSection x \<longleftrightarrow> plainText (sec_title x) \<and> \<not> has_prefix (sec_title x) ''Handle '' \<and> \<not> stopLines (sec_title x) \<and>
     list_all plainEntry (sec_entries x)"

lemma str_index_at: "c \<notin> set s \<Longrightarrow> str_index (s @ c # p @ t) (c # p) = Some (length s)"
  by (induction s) auto

lemma str_index_at_end: "c \<notin> set s \<Longrightarrow> str_index (s @ [c]) (c # d # p) = None"
  by (induction s) auto

lemma str_cut_at: "c \<notin> set s \<Longrightarrow> str_cut (s @ c # p @ t) (c # p) = Some (s, t)"
  by (simp add: str_cut_def str_index_at)

lemma trim_space_fix:
  assumes "trim_space s = s" and "s \<noteq> []"
  shows "\<not> is_space (hd s) \<and> \<not> is_space (last s)"
proof -
  have fix_drop: "length xs \<le> length (dropWhile is_space xs) \<Longrightarrow> dropWhile is_space xs = xs" for xs
  proof -
    assume "length xs \<le> length (dropWhile is_space xs)"
    moreover have "length (takeWhile is_space xs) + length (dropWhile is_space xs) = length xs"
      by (metis length_append takeWhile_dropWhile_id)
    ultimately have "length (takeWhile is_space xs) = 0" by linarith
    then have "takeWhile is_space xs = []" by simp
    then show ?thesis by (metis append_Nil takeWhile_dropWhile_id)
  qed
  let ?d = "dropWhile is_space s"
  have "length s \<le> length ?d" using assms(1) length_dropWhile_le [of is_space "rev ?d"]
    by (metis length_rev trim_space_def)
  then have d: "?d = s" by (rule fix_drop)
  then have "dropWhile is_space (rev s) = rev s" using assms(1) by (metis rev_rev_ident trim_space_def)
  with d assms(2) show ?thesis by (metis dropWhile_eq_self_iff hd_rev rev_is_Nil_conv)
qed

lemma trim_space_id:
  assumes "\<not> is_space (hd s)" and "\<not> is_space (last s)"
  shows "trim_space s = s"
proof (cases "s = []")
  case False
  then have "dropWhile is_space s = s" "dropWhile is_space (rev s) = rev s"
    using assms by (simp_all add: dropWhile_eq_self_iff hd_rev)
  then show ?thesis by (simp add: trim_space_def)
qed (simp add: trim_space_def)

lemma trim_space_nonempty:
  assumes "c \<in> set s" and "\<not> is_space c"
  shows "trim_space s \<noteq> []"
proof -
  let ?d = "dropWhile is_space s"
  have d: "?d \<noteq> []" using assms by auto
  then have "\<not> is_space (hd ?d)" by (rule hd_dropWhile)
  moreover have "hd ?d \<in> set (rev ?d)" using d by simp
  ultimately have "dropWhile is_space (rev ?d) \<noteq> []" by auto
  then show ?thesis by (simp add: trim_space_def)
qed

lemma plain_hd: "plainText s \<Longrightarrow> \<not> is_space (hd s) \<and> \<not> is_space (last s) \<and> hd s \<in> set s"
  using trim_space_fix [of s] by (simp add: plainText_def)

lemma plain_kvSplit: "plainText s \<Longrightarrow> kvSplit s '': '' = (s, [])"
  by (simp add: kvSplit_def splitN2_def str_cut_def str_index_notin plainText_def)

lemma plain_contains: "plainText s \<Longrightarrow> \<not> contains s '':''"
  by (simp add: contains_def str_index_notin plainText_def)

lemma header_kvSplit: "plainText k \<Longrightarrow> kvSplit (k @ '':'') '': '' = (k @ '':'', [])"
  using plain_hd [of k] trim_space_id [of "k @ '':''"] str_index_at_end [of "CHR '':''" k]
  by (cases k) (simp_all add: kvSplit_def splitN2_def str_cut_def plainText_def is_space_def)

lemma field_kvSplit: "plainText k \<Longrightarrow> trim_space v = v \<Longrightarrow> kvSplit (k @ '': '' @ v) '': '' = (k, v)"
  using str_cut_at [of "CHR '':''" k "'' ''" v]
  by (simp add: kvSplit_def splitN2_def plainText_def)

lemma field_contains: "contains (k @ '':'' @ v) '':''"
  by (induction k) (auto simp: contains_def)

lemma dmi_line:
  assumes "dmi_start st" and "\<not> has_prefix line ''Handle ''" and "\<not> stopLines line" and "trim_space line \<noteq> []"
    and "unindent (dmi_lastKey st) [] line = (key, l)" and "kvSplit l '': '' = (name, value)"
  shows "dmiLine line st = st\<lparr>dmi_result := putLine l value (key @ [name]) name (dmi_result st), dmi_lastKey := key @ [name]\<rparr>"
  using assms by (simp add: dmiLine_def Let_def)

lemma unindent_one: "lk \<noteq> [] \<Longrightarrow> l \<noteq> [] \<Longrightarrow> hd l \<noteq> tab \<Longrightarrow> unindent lk [] (tab # l) = ([hd lk], l)"
  by (cases l) (simp_all add: hd_conv_nth)

lemma unindent_two: "l \<noteq> [] \<Longrightarrow> hd l \<noteq> tab \<Longrightarrow> unindent (a # b # ks) [] (tab # tab # l) = ([a, b], l)"
  by (cases l) simp_all

lemma tab_line: "\<not> has_prefix (tab # l) ''Handle ''" "\<not> stopLines (tab # l)"
  by (simp_all add: stopLines_def)

lemma plain_not_tab: "plainText s \<Longrightarrow> s \<noteq> [] \<and> hd s \<noteq> tab"
  by (cases s) (auto simp: plainText_def)

lemma plain_indented: "plainText s \<Longrightarrow> trim_space (tab # s @ t) \<noteq> []" "plainText s \<Longrightarrow> trim_space (tab # tab # s) \<noteq> []"
  using plain_hd [of s] trim_space_nonempty [of "hd s"] by auto

text \<open>A line of each kind, in a section whose title heads the last key.\<close>

lemma line_field:
  assumes "plainText k" and "trim_space v = v" and "dmi_start st" and "dmi_lastKey st = title # ks"
  shows "dmiLine (tab # k @ '': '' @ v) st =
    st\<lparr>dmi_result := PutValue (VStr v) [title, k] (dmi_result st), dmi_lastKey := [title, k]\<rparr>"
proof -
  have "unindent (dmi_lastKey st) [] (tab # k @ '': '' @ v) = ([title], k @ '': '' @ v)"
    using assms(4) plain_not_tab [OF assms(1)] unindent_one [of "title # ks" "k @ '': '' @ v"] by (cases k) simp_all
  from dmi_line [OF assms(3) tab_line plain_indented(1) [OF assms(1)] this field_kvSplit [OF assms(1,2)]]
  show ?thesis using field_contains [of k "'' '' @ v"] by (simp add: putLine_def)
qed

lemma line_header:
  assumes "plainText k" and "dmi_start st" and "dmi_lastKey st = title # ks"
  shows "dmiLine (tab # k @ '':'') st =
    st\<lparr>dmi_result := PutValue (VStr []) [title, k @ '':''] (dmi_result st), dmi_lastKey := [title, k @ '':'']\<rparr>"
proof -
  have "unindent (dmi_lastKey st) [] (tab # k @ '':'') = ([title], k @ '':'')"
    using assms(3) plain_not_tab [OF assms(1)] unindent_one [of "title # ks" "k @ '':''"] by (cases k) simp_all
  from dmi_line [OF assms(2) tab_line plain_indented(1) [OF assms(1)] this header_kvSplit [OF assms(1)]]
  show ?thesis using field_contains [of k "[]"] by (simp add: putLine_def)
qed

text \<open>What is put is found, and put again replaces it.\<close>

lemma update_update: "AList.update k v (AList.update k w d) = AList.update k v d"
  by (induction d) auto

definition hasMap :: "string \<Rightarrow> tdata \<Rightarrow> bool" where
  "hasMap t d \<longleftrightarrow> (\<exists>m. map_of d t = Some (VMap m))"

lemma get_put: "hasMap t d \<Longrightarrow> GetValueN (PutValue v [t, k] d) [t, k] = v"
  by (auto simp: hasMap_def update_conv' asMap_def)

lemma put_put: "hasMap t d \<Longrightarrow> PutValue v [t, k] (PutValue w [t, k] d) = PutValue v [t, k] d"
  by (auto simp: hasMap_def update_conv' update_update)

lemma hasMap_put: "hasMap t d \<Longrightarrow> hasMap t (PutValue v [t, k] d)"
  by (auto simp: hasMap_def update_conv')

lemma hasMap_title: "hasMap t (PutValue (VMap []) [t] d)"
  by (simp add: hasMap_def update_conv')

lemma hasMap_entry: "hasMap t d \<Longrightarrow> hasMap t (putEntry t e d)"
  by (cases e) (simp_all add: hasMap_put del: PutValue.simps)

lemma line_item:
  assumes "plainText i" and "dmi_start st" and "dmi_lastKey st = title # kc # ks"
  shows "dmiLine (tab # tab # i) st = st\<lparr>dmi_result := PutValue (VList
      ((case GetValueN (dmi_result st) [title, kc] of VList xs \<Rightarrow> xs | _ \<Rightarrow> []) @ [VStr i])) [title, kc] (dmi_result st),
    dmi_lastKey := [title, kc, i]\<rparr>"
proof -
  have "unindent (dmi_lastKey st) [] (tab # tab # i) = ([title, kc], i)"
    using assms(3) plain_not_tab [OF assms(1)] unindent_two [of i title kc ks] by simp
  from dmi_line [OF assms(2) tab_line plain_indented(2) [OF assms(1)] this plain_kvSplit [OF assms(1)]]
  show ?thesis using plain_contains [OF assms(1)]
    by (simp add: putLine_def Let_def trim_space_def del: GetValueN.simps PutValue.simps split: tval.split)
qed

lemma lines_items:
  assumes "list_all plainText items" and "dmi_start st" and "dmi_lastKey st = title # kc # ks"
    and "GetValueN (dmi_result st) [title, kc] = VList xs" and "hasMap title (dmi_result st)"
  shows "\<exists>ks'. fold dmiLine (map (\<lambda>i. tab # tab # i) items) st = st\<lparr>
      dmi_result := if items = [] then dmi_result st else PutValue (VList (xs @ map VStr items)) [title, kc] (dmi_result st),
      dmi_lastKey := title # kc # ks'\<rparr>"
  using assms
proof (induction items arbitrary: st ks xs)
  case Nil
  then show ?case by (auto intro!: exI [of _ ks])
next
  case (Cons i items)
  let ?st = "st\<lparr>dmi_result := PutValue (VList (xs @ [VStr i])) [title, kc] (dmi_result st), dmi_lastKey := [title, kc, i]\<rparr>"
  have step: "dmiLine (tab # tab # i) st = ?st"
    using Cons.prems line_item [of i st title kc ks] by (simp del: GetValueN.simps PutValue.simps)
  have "\<exists>ks'. fold dmiLine (map (\<lambda>i. tab # tab # i) items) ?st = ?st\<lparr>
      dmi_result := if items = [] then dmi_result ?st
        else PutValue (VList ((xs @ [VStr i]) @ map VStr items)) [title, kc] (dmi_result ?st),
      dmi_lastKey := title # kc # ks'\<rparr>"
    using Cons.prems get_put [of title "dmi_result st" "VList (xs @ [VStr i])" kc] hasMap_put [of title "dmi_result st"]
    by (intro Cons.IH) (simp_all del: GetValueN.simps PutValue.simps)
  then show ?case using step put_put [OF Cons.prems(5), of _ kc]
    by (auto simp del: GetValueN.simps PutValue.simps)
qed

lemma lines_entry:
  assumes "plainEntry e" and "dmi_start st" and "dmi_lastKey st = title # ks" and "hasMap title (dmi_result st)"
  shows "\<exists>ks'. fold dmiLine (entryLines e) st = st\<lparr>dmi_result := putEntry title e (dmi_result st), dmi_lastKey := title # ks'\<rparr>"
proof (cases e)
  case (DmiField k v)
  then show ?thesis using assms line_field [of k v st title ks]
    by (auto simp del: PutValue.simps)
next
  case (DmiList k items)
  let ?kc = "k @ '':''"
  let ?st = "st\<lparr>dmi_result := PutValue (VStr []) [title, ?kc] (dmi_result st), dmi_lastKey := [title, ?kc]\<rparr>"
  have head: "dmiLine (tab # ?kc) st = ?st"
    using DmiList assms line_header [of k st title ks] by simp
  show ?thesis
  proof (cases items)
    case Nil
    then show ?thesis using DmiList head by (auto simp del: PutValue.simps)
  next
    case (Cons i js)
    let ?st2 = "st\<lparr>dmi_result := PutValue (VList [VStr i]) [title, ?kc] (dmi_result st), dmi_lastKey := [title, ?kc, i]\<rparr>"
    have p: "plainText i" "list_all plainText js" using DmiList Cons assms(1) by simp_all
    have first: "dmiLine (tab # tab # i) ?st = ?st2"
      using line_item [OF p(1), of ?st title ?kc "[]"] assms(2) get_put [OF assms(4), of "VStr []" ?kc]
        put_put [OF assms(4), of _ ?kc]
      by (simp del: GetValueN.simps PutValue.simps)
    have "\<exists>ks'. fold dmiLine (map (\<lambda>i. tab # tab # i) js) ?st2 = ?st2\<lparr>
        dmi_result := if js = [] then dmi_result ?st2
          else PutValue (VList ([VStr i] @ map VStr js)) [title, ?kc] (dmi_result ?st2),
        dmi_lastKey := title # ?kc # ks'\<rparr>"
      using p(2) assms(2) get_put [OF assms(4), of "VList [VStr i]" ?kc] hasMap_put [OF assms(4)]
      by (intro lines_items) (simp_all del: GetValueN.simps PutValue.simps)
    then show ?thesis using DmiList Cons head first put_put [OF assms(4), of _ ?kc]
      by (auto simp del: GetValueN.simps PutValue.simps)
  qed
qed

lemma line_title:
  assumes "plainText t" and "\<not> has_prefix t ''Handle ''" and "\<not> stopLines t" and "dmi_start st"
  shows "dmiLine t st = st\<lparr>dmi_result := PutValue (VMap []) [t] (dmi_result st), dmi_lastKey := [t]\<rparr>"
proof -
  have "unindent (dmi_lastKey st) [] t = ([], t)"
    using plain_not_tab [OF assms(1)] by (cases t) simp_all
  moreover have "trim_space t \<noteq> []" using assms(1) by (simp add: plainText_def)
  ultimately show ?thesis
    using dmi_line [OF assms(4,2,3) _ _ plain_kvSplit [OF assms(1)], of "[]"] plain_contains [OF assms(1)]
    by (simp add: putLine_def trim_space_def)
qed

lemma lines_entries:
  assumes "list_all plainEntry es" and "dmi_start st" and "dmi_lastKey st = title # ks" and "hasMap title (dmi_result st)"
  shows "\<exists>ks'. fold dmiLine (concat (map entryLines es)) st =
    st\<lparr>dmi_result := fold (putEntry title) es (dmi_result st), dmi_lastKey := title # ks'\<rparr>"
  using assms
proof (induction es arbitrary: st ks)
  case Nil
  then show ?case by (auto intro!: exI [of _ ks])
next
  case (Cons e es)
  then obtain ks1 where e: "fold dmiLine (entryLines e) st =
      st\<lparr>dmi_result := putEntry title e (dmi_result st), dmi_lastKey := title # ks1\<rparr>"
    using lines_entry [of e st title ks] by auto
  from Cons.prems hasMap_entry [OF Cons.prems(4), of e] Cons.IH [of "st\<lparr>dmi_result := putEntry title e (dmi_result st), dmi_lastKey := title # ks1\<rparr>" ks1] e
  show ?case by auto
qed

lemma lines_section:
  assumes "plainSection x"
  shows "\<exists>ks. fold dmiLine (sectionLines x) st =
    \<lparr>dmi_result = putSection x (dmi_result st), dmi_start = False, dmi_lastKey = ks\<rparr>"
proof -
  let ?t = "sec_title x"
  let ?st = "st\<lparr>dmi_start := True, dmi_result := PutValue (VMap []) [?t] (dmi_result st), dmi_lastKey := [?t]\<rparr>"
  have handle: "dmiLine (''Handle '' @ sec_handle x) st = st\<lparr>dmi_start := True\<rparr>"
    by (simp add: dmiLine_def)
  have title: "dmiLine ?t (st\<lparr>dmi_start := True\<rparr>) = ?st"
    using assms line_title [of ?t "st\<lparr>dmi_start := True\<rparr>"] by (simp add: plainSection_def)
  obtain ks where es: "fold dmiLine (concat (map entryLines (sec_entries x))) ?st =
      ?st\<lparr>dmi_result := fold (putEntry ?t) (sec_entries x) (dmi_result ?st), dmi_lastKey := ?t # ks\<rparr>"
    using assms lines_entries [of "sec_entries x" ?st ?t "[]"] hasMap_title [of ?t]
    by (auto simp: plainSection_def simp del: PutValue.simps)
  have blank: "dmiLine [] s = s\<lparr>dmi_start := False\<rparr>" for s
    by (simp add: dmiLine_def trim_space_def)
  show ?thesis
    using handle title es blank by (cases st) (simp add: sectionLines_def putSection_def)
qed

section \<open>Properties\<close>

text \<open>
  C24: on the output that dmidecode prints for a list of sections the parser yields what the sections
  mean: a map per title, a value per field, a list per header, in the order of the output.
\<close>

theorem dmi_roundtrip:
  assumes "list_all plainSection secs" and "\<forall>l \<in> set (concat (map sectionLines secs)). cleanLine l"
  shows "dmiOutputToMap (unlines (concat (map sectionLines secs))) = fold putSection secs []"
proof -
  have "\<exists>ks b. fold dmiLine (concat (map sectionLines secs)) st =
      \<lparr>dmi_result = fold putSection secs (dmi_result st), dmi_start = b, dmi_lastKey = ks\<rparr>" for st
    using assms(1)
  proof (induction secs arbitrary: st)
    case Nil
    then show ?case by (cases st) simp
  next
    case (Cons x xs)
    from Cons.prems obtain ks where x: "fold dmiLine (sectionLines x) st =
        \<lparr>dmi_result = putSection x (dmi_result st), dmi_start = False, dmi_lastKey = ks\<rparr>" (is "_ = ?st")
      using lines_section [of x st] by auto
    have "list_all plainSection xs" using Cons.prems by simp
    from Cons.IH [OF this, of ?st] have "\<exists>ks b. fold dmiLine (concat (map sectionLines xs)) ?st =
      \<lparr>dmi_result = fold putSection xs (dmi_result ?st), dmi_start = b, dmi_lastKey = ks\<rparr>" .
    with x show ?case by simp
  qed
  from this [of "\<lparr>dmi_result = [], dmi_start = False, dmi_lastKey = []\<rparr>"] show ?thesis
    by (auto simp: dmiOutputToMap_def scan_unlines [OF assms(2)])
qed

definition demo_sections :: "dmiSection list" where
  "demo_sections = [\<lparr>sec_handle = ''0x0000'', sec_title = ''BIOS Information'',
     sec_entries = [DmiField ''Vendor'' ''SeaBIOS'', DmiList ''Characteristics'' [''PCI'', ''APM'']]\<rparr>,
   \<lparr>sec_handle = ''0x0001'', sec_title = ''System Information'', sec_entries = [DmiField ''UUID'' ''a: b'']\<rparr>]"

theorem dmi_roundtrip_witness:
  "dmiOutputToMap (unlines (concat (map sectionLines demo_sections))) =
     [(''BIOS Information'', VMap [(''Vendor'', VStr ''SeaBIOS''),
        (''Characteristics:'', VList [VStr ''PCI'', VStr ''APM''])]),
      (''System Information'', VMap [(''UUID'', VStr ''a: b'')])]"
proof -
  have 1: "list_all plainSection demo_sections" by code_simp
  have 2: "\<forall>l \<in> set (concat (map sectionLines demo_sections)). cleanLine l"
    by (simp add: demo_sections_def sectionLines_def cleanLine_def)
  have 3: "fold putSection demo_sections [] =
     [(''BIOS Information'', VMap [(''Vendor'', VStr ''SeaBIOS''),
        (''Characteristics:'', VList [VStr ''PCI'', VStr ''APM''])]),
      (''System Information'', VMap [(''UUID'', VStr ''a: b'')])]" by code_simp
  from dmi_roundtrip [OF 1 2] 3 show ?thesis by (rule trans)
qed

end
