(* ===== verification/RegClient.thy ===== *)
theory RegClient
  imports Auth Dmidecode
begin

text \<open>
  The registering machine (\<^verbatim>\<open>pkg/register/register.go\<close>, \<^verbatim>\<open>state.go\<close>, \<^verbatim>\<open>pkg/tpm/register.go\<close>): it opens
  the connection, authenticates, agrees with the server on a version of the protocol, sends what it
  knows of itself, and gets its configuration; its state survives in a file.
\<close>

section \<open>The state file\<close>

text \<open>\<^verbatim>\<open>State\<close>: a zero time stands for a machine that has not registered.\<close>

record regstate =
  InitialRegistration :: int
  EmulatedTPM :: bool
  EmulatedTPMSeed :: int

definition emptyState :: regstate where
  "emptyState = \<lparr>InitialRegistration = 0, EmulatedTPM = False, EmulatedTPMSeed = 0\<rparr>"

definition IsUpdatable :: "regstate \<Rightarrow> bool" where
  "IsUpdatable s \<longleftrightarrow> InitialRegistration s \<noteq> 0"

text \<open>
  The hardware and the libraries of the machine: the host of theory \<open>Auth\<close>, the probes and the
  addresses of theory \<open>HostInfo\<close>, the tool dmidecode, the text of \<^verbatim>\<open>/etc/os-release\<close>, the address of
  the connection's end, the version of the program, the pool of certificates, the TPM (whose options
  are the seed of an emulated one) and the encoders. \<open>dev_yaml_message\<close> decodes the payload of an error
  message into the pointer it is given, which the payload \<^verbatim>\<open>null\<close> makes nil.
\<close>

record device =
  dev_host :: host
  dev_probes :: probes
  dev_nets :: "string \<Rightarrow> (8 word list) list"
  dev_dmidecode :: "string \<Rightarrow> goerr + string"
  dev_osrelease :: "goerr + string"
  dev_localaddr :: string
  dev_version :: string
  dev_certpool :: "goerr option"
  dev_tpm_token :: "int option \<Rightarrow> goerr + string \<times> string"
  dev_tpm_pubhash :: "int option \<Rightarrow> goerr + string"
  dev_tpm_response :: "int option \<Rightarrow> string \<Rightarrow> bytes \<Rightarrow> goerr + bytes"
  dev_json_data :: "tdata \<Rightarrow> goerr + bytes"
  dev_json_strings :: "(string \<times> string) list \<Rightarrow> goerr + bytes"
  dev_json_host :: "HostInfo \<Rightarrow> goerr + bytes"
  dev_yaml_message :: "bytes \<Rightarrow> goerr + string option"
  dev_yaml_state :: "regstate \<Rightarrow> goerr + string"
  dev_parse_state :: "string \<Rightarrow> goerr + regstate"

text \<open>\<^verbatim>\<open>filepath.Dir\<close> and the cleaning of paths that it ends with.\<close>

definition pushPart :: "bool \<Rightarrow> string \<Rightarrow> string list \<Rightarrow> string list" where
  "pushPart rooted p stack =
    (if p = [] \<or> p = ''.'' then stack
     else if p = ''..'' then
       (if stack \<noteq> [] \<and> hd stack \<noteq> ''..'' then tl stack
        else if rooted then stack else p # stack)
     else p # stack)"

definition path_clean :: "string \<Rightarrow> string" where
  "path_clean p = (let rooted = has_prefix p ''/'';
       body = str_join (rev (fold (pushPart rooted) (str_split p ''/'') [])) ''/'' in
     if rooted then ''/'' @ body else if body = [] then ''.'' else body)"

definition path_dir :: "string \<Rightarrow> string" where
  "path_dir p = path_clean (rev (dropWhile (\<lambda>c. c \<noteq> CHR ''/'') (rev p)))"

text \<open>Calls of the host, and the answers that are read.\<close>

definition sysCall :: "env \<Rightarrow> string \<Rightarrow> string list \<Rightarrow> ('o st, unit) go" where
  "sysCall env name args = andThen (invoke env (Sys name args)) (ret ())"

definition sysText :: "env \<Rightarrow> string \<Rightarrow> string list \<Rightarrow> ('o st, string) go" where
  "sysText env name args = bnd (invoke env (Sys name args)) (\<lambda>r. case r of RText t \<Rightarrow> ret t | _ \<Rightarrow> fail errDecode)"

definition isNotExist :: "goerr \<Rightarrow> bool" where
  "isNotExist e \<longleftrightarrow> e = ESent ''file does not exist''"

definition SaveState :: "env \<Rightarrow> device \<Rightarrow> string \<Rightarrow> regstate \<Rightarrow> ('o st, unit) go" where
  "SaveState env d stateFilePath st =
     andThen (orWrap (sysCall env ''create'' [stateFilePath]) ''creating registration state file'')
    (andThen (orWrap (bnd (lift_sum (dev_yaml_state d st)) (\<lambda>text. sysCall env ''write'' [stateFilePath, text]))
        (''writing RegistrationState to file '' @ [CHR 0x27] @ stateFilePath @ [CHR 0x27]))
      (orWrap (sysCall env ''close'' [stateFilePath])
        (''closing file '' @ [CHR 0x27] @ stateFilePath @ [CHR 0x27])))"

definition errDecodingState :: goerr where
  "errDecodingState = ESent ''decoding state''"

definition LoadState :: "env \<Rightarrow> device \<Rightarrow> string \<Rightarrow> ('o st, regstate) go" where
  "LoadState env d stateFile =
    (let file = [CHR 0x27] @ stateFile @ [CHR 0x27] in
     andThen (orWrap (sysCall env ''open'' [stateFile]) (''loading registration state file '' @ file))
    (bnd (onErr (bnd (sysText env ''read'' [stateFile]) (\<lambda>text. lift_sum (dev_parse_state d text)))
        (\<lambda>e. fail (EWrap [] errDecodingState ('' from file '' @ file @ '': '' @ err_text e)))) (\<lambda>st.
     andThen (orWrap (sysCall env ''close'' [stateFile]) (''closing file '' @ file)) (ret st))))"

definition InitState :: "env \<Rightarrow> device \<Rightarrow> string \<Rightarrow> ('o st, unit) go" where
  "InitState env d path =
     bnd (attempt (sysCall env ''stat'' [path_dir path])) (\<lambda>r.
     andThen (case r of
         Inl e \<Rightarrow> if isNotExist e
           then orWrap (sysCall env ''mkdirall'' [path_dir path, ''0700'']) ''creating registration config directory''
           else ret ()
       | Inr _ \<Rightarrow> ret ())
    (bnd (attempt (sysCall env ''open'' [path])) (\<lambda>r. case r of
         Inl e \<Rightarrow> if isNotExist e then SaveState env d path emptyState
           else fail (wrap (''opening registration state file '' @ [CHR 0x27] @ path @ [CHR 0x27]) e)
       | Inr _ \<Rightarrow> ret ())))"

section \<open>Authentication\<close>

text \<open>\<^verbatim>\<open>tpm.AuthClient\<close> and \<^verbatim>\<open>plainauth.AuthClient\<close> behind the interface \<^verbatim>\<open>authClient\<close>.\<close>

datatype authClient = TpmClient bool int string | PlainClient plainClient

type_synonym 'a client = "(regstate st, 'a) go"

fun GetName :: "authClient \<Rightarrow> string" where
  "GetName (TpmClient _ _ _) = ''TPM''"
| "GetName (PlainClient _) = ''Plain''"

definition tpmOptions :: "bool \<Rightarrow> int \<Rightarrow> int option" where
  "tpmOptions emulateTPM seed = (if emulateTPM then Some seed else None)"

fun GetToken :: "device \<Rightarrow> authClient \<Rightarrow> goerr + string \<times> authClient" where
  "GetToken d (TpmClient emulateTPM seed ak) =
     map_sum id (\<lambda>(token, akBytes). (token, TpmClient emulateTPM seed akBytes)) (dev_tpm_token d (tpmOptions emulateTPM seed))"
| "GetToken d (PlainClient c) = map_sum id (\<lambda>token. (token, PlainClient c)) (plainGetToken c)"

fun GetPubHash :: "env \<Rightarrow> device \<Rightarrow> authClient \<Rightarrow> goerr + string" where
  "GetPubHash env d (TpmClient emulateTPM seed ak) = dev_tpm_pubhash d (tpmOptions emulateTPM seed)"
| "GetPubHash env d (PlainClient c) = plainGetPubHash env c"

text \<open>
  The channel of the TPM handshake. A read takes the next frame and as much of it as the buffer has
  room for, the rest of the frame is lost; the JSON decoder that reads the challenge has a buffer of
  512 bytes for its first read.
\<close>

definition channelRead :: "env \<Rightarrow> nat \<Rightarrow> ('o st, bytes) go" where
  "channelRead env room = bnd (invoke env WsRead) (\<lambda>r. case r of
      RFrame t data \<Rightarrow> ret (take room data) | _ \<Rightarrow> fail errDecode)"

definition channelWrite :: "env \<Rightarrow> bytes \<Rightarrow> ('o st, unit) go" where
  "channelWrite env p = writeObj env (WsWrite p)"

fun clientAuthenticate :: "env \<Rightarrow> device \<Rightarrow> authClient \<Rightarrow> ('o st, unit) go" where
  "clientAuthenticate env d (TpmClient emulateTPM seed ak) =
     bnd (channelRead env 512) (\<lambda>challenge.
     bnd (lift_sum (dev_tpm_response d (tpmOptions emulateTPM seed) ak challenge)) (\<lambda>response.
     channelWrite env response))"
| "clientAuthenticate env d (PlainClient _) = ret ()"

definition getAuthenticator :: "env \<Rightarrow> device \<Rightarrow> Registration \<Rightarrow> authClient client" where
  "getAuthenticator env d rg =
    (if rg_Auth rg = ''tpm'' then
       andThen (update (\<lambda>st. st\<lparr>EmulatedTPMSeed := GetTPMSeed (dev_host d) rg (EmulatedTPM st) (EmulatedTPMSeed st),
                              EmulatedTPM := rg_EmulateTPM rg\<rparr>))
         (gets (\<lambda>s. TpmClient (rg_EmulateTPM rg) (EmulatedTPMSeed (self s)) []))
     else if rg_Auth rg = ''mac'' \<or> rg_Auth rg = ''sys-uuid'' then
       orWrap (bnd (lift_sum (plainInit (dev_host d) rg \<lparr>pc_idType = [], pc_idVal = []\<rparr>)) (\<lambda>c. ret (PlainClient c)))
         ''init Plain authentication''
     else fail (EMsg (''unsupported authentication: '' @ rg_Auth rg)))"

definition initWebsocketConn :: "env \<Rightarrow> device \<Rightarrow> string \<Rightarrow> string \<Rightarrow> authClient \<Rightarrow> authClient client" where
  "initWebsocketConn env d url caCert auth =
     andThen (case (caCert, dev_certpool d) of (_ # _, Some e) \<Rightarrow> fail e | _ \<Rightarrow> ret ())
    (bnd (orWrap (lift_sum (GetToken d auth)) ''cannot generate authentication token'') (\<lambda>(authToken, auth).
     bnd (orWrap (lift_sum (GetPubHash env d auth)) ''cannot retrieve authentication hash'') (\<lambda>authHash.
     bnd (invoke env (WsDial (replace_first url ''http'' ''ws'') authToken)) (\<lambda>r. case r of
         RDial e None \<Rightarrow> fail e
       | RDial e (Some (statusCode, status, body)) \<Rightarrow>
           (if statusCode = 401 then (case body of Inr data \<Rightarrow> fail (EMsg data) | Inl _ \<Rightarrow> fail e)
            else fail (EWrap [] e ('' (Status: '' @ status @ '')'')))
       | _ \<Rightarrow> ret auth))))"

definition unexpectedReply :: "MessageType \<Rightarrow> goerr" where
  "unexpectedReply msgType = EMsg (''expecting '' @ [CHR 0x27] @ msg_string MsgReady @ [CHR 0x27] @ '' but got ''
     @ [CHR 0x27] @ msg_string msgType @ [CHR 0x27])"

definition authenticate :: "env \<Rightarrow> device \<Rightarrow> authClient \<Rightarrow> unit client" where
  "authenticate env d auth =
     andThen (clientAuthenticate env d auth)
    (bnd (orWrap (ReadMessage env) ''expecting auth reply'') (\<lambda>(msgType, _).
     if msgType \<noteq> MsgReady then fail (unexpectedReply msgType) else ret ()))"

section \<open>The exchange\<close>

definition negotiateProtoVersion :: "env \<Rightarrow> MessageType client" where
  "negotiateProtoVersion env =
     andThen (WriteMessage env MsgVersion [MsgLast])
    (bnd (orWrap (ReadMessage env) ''communication error'') (\<lambda>(msgType, data).
     if msgType \<noteq> MsgVersion then fail (EMsg (''expected msg '' @ msg_string MsgVersion @ '', got '' @ msg_string msgType))
     else (case data of [v] \<Rightarrow> ret v | _ \<Rightarrow> fail (EMsg ''failed to decode protocol version''))))"

definition orNil :: "'a option \<Rightarrow> ('s, 'a) go" where
  "orNil x = (case x of None \<Rightarrow> crash nilDereference | Some y \<Rightarrow> ret y)"

definition sendUpdateData :: "env \<Rightarrow> device \<Rightarrow> unit client" where
  "sendUpdateData env d =
     andThen (orWrap (WriteMessage env MsgUpdate []) ''sending update data'')
    (bnd (orWrap (ReadMessage env) ''receiving MsgUpdate response'') (\<lambda>(msgType, data).
     if msgType = MsgError then
       (case dev_yaml_message d data of
          Inl e \<Rightarrow> fail (wrap ''decoding error-message on MsgUpdate response'' e)
        | Inr msg \<Rightarrow> bnd (orNil msg) (\<lambda>message. fail (EMsg (''update error: '' @ message))))
     else if msgType = MsgReady then ret ()
     else fail (EMsg (''unexpected update response message: '' @ msg_string msgType))))"

definition sendSMBIOSData :: "env \<Rightarrow> device \<Rightarrow> unit client" where
  "sendSMBIOSData env d =
     bnd (orWrap (lift_sum (DmiDecode (dev_dmidecode d))) ''reading dmidecode data'') (\<lambda>data.
     SendJSONData env MsgSmbios (dev_json_data d data))"

definition sendSystemData :: "env \<Rightarrow> device \<Rightarrow> MessageType \<Rightarrow> unit client" where
  "sendSystemData env d protoVersion =
    (case Host (dev_probes d) of (data, err) \<Rightarrow>
     if protoVersion \<ge> MsgSystemDataV2 then
       bnd (orNil (ExtractLabels (dev_nets d) data)) (\<lambda>labels.
       bnd (orNil (ExtractLabelsLegacy data)) (\<lambda>legacy.
       case err of
         Some e \<Rightarrow> fail (wrap ''extracting labels from system data'' e)
       | None \<Rightarrow> orWrap (SendJSONData env MsgSystemDataV2
           (dev_json_data d (fold (\<lambda>(k, v). AList.update k v) legacy labels)))
           ''sending system data labels through websocket channel''))
     else if protoVersion \<ge> MsgSystemData then
       bnd (orNil (Prune data)) (\<lambda>data.
       orWrap (SendJSONData env MsgSystemData (dev_json_host d data)) ''sending system data through websocket channel'')
     else ret ())"

definition envToLabel :: "string \<Rightarrow> string option" where
  "envToLabel = map_of [(''NAME'', ''name''), (''VERSION'', ''version''), (''VERSION_ID'', ''version-id''), (''ID'', ''id''),
     (''PRETTY_NAME'', ''pretty-name''), (''IMAGE'', ''image''), (''CPE_NAME'', ''cpe-name'')]"

definition osLine :: "string \<Rightarrow> (string \<times> string) list \<Rightarrow> (string \<times> string) list" where
  "osLine line data = (case splitN2 line ''='' of
       [env, val] \<Rightarrow> (case envToLabel env of
           Some label \<Rightarrow> AList.update label (trim_char (CHR 0x22) val) data | None \<Rightarrow> data)
     | _ \<Rightarrow> data)"

definition getOsReleaseInfo :: "device \<Rightarrow> goerr + (string \<times> string) list" where
  "getOsReleaseInfo d = (case dev_osrelease d of
       Inl e \<Rightarrow> Inl (wrap ''cannot open /etc/os-release'' e)
     | Inr file \<Rightarrow> Inr (fold osLine (scanLines file) []))"

text \<open>The address without the port, cut at the last colon.\<close>

definition getLocalIPAddress :: "device \<Rightarrow> goerr + string" where
  "getLocalIPAddress d = (let tcpAddr = dev_localaddr d in
     if CHR '':'' \<notin> set tcpAddr then Inl (EMsg (''cannot understand local IP address format ['' @ tcpAddr @ '']''))
     else Inr (rev (tl (dropWhile (\<lambda>c. c \<noteq> CHR '':'') (rev tcpAddr)))))"

definition annotationData :: "device \<Rightarrow> Registration \<Rightarrow> (string \<times> string) list" where
  "annotationData d rg =
    (let data = [(''reg-version'', dev_version d),
                 (''auth'', if rg_EmulateTPM rg then ''emulated-tpm'' else rg_Auth rg)] @
                (if rg_NoToolkit rg then [(''os.unmanaged'', ''true'')] else []);
         data = (case getOsReleaseInfo d of Inl _ \<Rightarrow> data
           | Inr osAnnotations \<Rightarrow> fold (\<lambda>(k, v). AList.update (''os.'' @ k) v) osAnnotations data)
     in case getLocalIPAddress d of Inl _ \<Rightarrow> data
        | Inr ipAddress \<Rightarrow> AList.update ''registration-ip'' ipAddress data)"

definition sendAnnotations :: "env \<Rightarrow> device \<Rightarrow> Registration \<Rightarrow> unit client" where
  "sendAnnotations env d rg = SendJSONData env MsgAnnotations (dev_json_strings d (annotationData d rg))"

definition sendLabels :: "env \<Rightarrow> device \<Rightarrow> Registration \<Rightarrow> unit client" where
  "sendLabels env d rg =
    (if mentries (rg_Labels rg) = [] then ret ()
     else SendJSONData env MsgLabels (dev_json_strings d (mentries (rg_Labels rg))))"

definition getConfig :: "env \<Rightarrow> device \<Rightarrow> bytes client" where
  "getConfig env d =
     bnd (orWrap (ReadMessage env) ''read configuration response'') (\<lambda>(msgType, data).
     if msgType = MsgError then
       (case dev_yaml_message d data of
          Inl e \<Rightarrow> fail (wrap ''unmarshalling error message'' e)
        | Inr msg \<Rightarrow> bnd (orNil msg) (\<lambda>message. fail (EMsg message)))
     else if msgType = MsgConfig then ret data
     else fail (EMsg (''unexpected response message: '' @ msg_string msgType)))"

text \<open>\<^verbatim>\<open>Register\<close>, in its steps: the update or the first registration, what is sent, what comes back.\<close>

definition announce :: "env \<Rightarrow> device \<Rightarrow> MessageType \<Rightarrow> unit client" where
  "announce env d protoVersion = bnd this (\<lambda>st.
     if IsUpdatable st then
       (if protoVersion < MsgUpdate then fail (EMsg ''elemental-operator protocol version does not support update'')
        else orWrap (sendUpdateData env d) ''failed to send update data'')
     else bnd (now env) (\<lambda>t. update (\<lambda>st. st\<lparr>InitialRegistration := t\<rparr>)))"

definition sendData :: "env \<Rightarrow> device \<Rightarrow> Registration \<Rightarrow> MessageType \<Rightarrow> unit client" where
  "sendData env d rg protoVersion =
     andThen (whenM (\<not> rg_NoSMBIOS rg)
       (andThen (orWrap (sendSMBIOSData env d) ''failed to send SMBIOS data'')
         (orWrap (sendSystemData env d protoVersion) ''failed to send system data'')))
    (andThen (whenM (protoVersion \<ge> MsgAnnotations)
       (orWrap (sendAnnotations env d rg) ''failed to send dynamic data''))
     (orWrap (sendLabels env d rg) ''failed to send client labels''))"

definition receive :: "env \<Rightarrow> device \<Rightarrow> MessageType \<Rightarrow> bytes client" where
  "receive env d protoVersion =
     andThen (orWrap (WriteMessage env MsgGet []) ''request elemental configuration'')
    (if protoVersion \<ge> MsgConfig then orWrap (getConfig env d) ''read elemental configuration''
     else bnd (orWrap (invoke env WsRead) ''read elemental configuration'') (\<lambda>r. case r of
       RFrame t data \<Rightarrow> ret data | _ \<Rightarrow> fail errDecode))"

definition Register :: "env \<Rightarrow> device \<Rightarrow> Registration \<Rightarrow> string \<Rightarrow> bytes client" where
  "Register env d rg caCert =
     bnd (orWrap (getAuthenticator env d rg) ''initializing authenticator'') (\<lambda>auth.
     bnd (initWebsocketConn env d (rg_URL rg) caCert auth) (\<lambda>auth.
     andThen (orWrap (authenticate env d auth) (GetName auth @ '' authentication failed''))
    (bnd (orWrap (negotiateProtoVersion env) ''failed to negotiate protocol version'') (\<lambda>protoVersion.
     andThen (announce env d protoVersion)
    (andThen (sendData env d rg protoVersion)
     (receive env d protoVersion))))))"

section \<open>Exchanges\<close>

text \<open>
  An exchange is a message that was written and the message that was read as its answer: type and
  payload of both.
\<close>

type_synonym exchange = "(MessageType \<times> bytes) \<times> MessageType \<times> bytes"

fun afterExchanges :: "exchange list \<Rightarrow> call list \<Rightarrow> call list" where
  "afterExchanges [] t = t"
| "afterExchanges (((m, d), r) # xs) t = afterExchanges xs (WsRead # WsWrite (insertMessageType m d) # t)"

fun answered :: "env \<Rightarrow> exchange list \<Rightarrow> call list \<Rightarrow> bool" where
  "answered env [] t = True"
| "answered env (((m, d), r) # xs) t \<longleftrightarrow>
     answer env decodeFrame WsRead (WsWrite (insertMessageType m d) # t) = Inr r \<and>
     answered env xs (WsRead # WsWrite (insertMessageType m d) # t)"

definition talks :: "env \<Rightarrow> exchange list \<Rightarrow> 'o st \<Rightarrow> 'o st \<Rightarrow> bool" where
  "talks env xs s s' \<longleftrightarrow> trace s' = afterExchanges xs (trace s) \<and> answered env xs (trace s) \<and> self s' = self s"

lemma afterExchanges_append: "afterExchanges (xs @ ys) t = afterExchanges ys (afterExchanges xs t)"
  by (induction xs t rule: afterExchanges.induct) auto

lemma answered_append: "answered env (xs @ ys) t \<longleftrightarrow> answered env xs t \<and> answered env ys (afterExchanges xs t)"
  by (induction env xs t rule: answered.induct) auto

lemma talks_nil: "talks env [] s s"
  by (simp add: talks_def)

lemma talks_append: "talks env xs s s1 \<Longrightarrow> talks env ys s1 s2 \<Longrightarrow> talks env (xs @ ys) s s2"
  by (auto simp: talks_def afterExchanges_append answered_append)

text \<open>A successful step that only exchanges messages, of the given types, each acknowledged.\<close>

definition acked :: "exchange list \<Rightarrow> bool" where
  "acked xs \<longleftrightarrow> (\<forall>(x, r, d) \<in> set xs. r = MsgReady)"

definition sends :: "env \<Rightarrow> MessageType list \<Rightarrow> (regstate st, unit) go \<Rightarrow> bool" where
  "sends env ms m \<longleftrightarrow> (\<forall>s s'. m s = (Ok (), s') \<longrightarrow>
     (\<exists>xs. talks env xs s s' \<and> map (fst \<circ> fst) xs = ms \<and> acked xs))"

named_theorems send \<open>what a step of the client sends\<close>

lemma sendsD: "sends env ms m \<Longrightarrow> m s = (Ok (), s') \<Longrightarrow>
    \<exists>xs. talks env xs s s' \<and> map (fst \<circ> fst) xs = ms \<and> acked xs"
  by (simp add: sends_def)

lemma sends_ret [send]: "sends env [] (ret ())"
  using talks_nil by (force simp: sends_def run acked_def)

lemma sends_andThen [send]: "sends env ms m \<Longrightarrow> sends env ns n \<Longrightarrow> sends env (ms @ ns) (andThen m n)"
  unfolding sends_def
proof (intro allI impI)
  fix s s'
  assume m: "\<forall>s s'. m s = (Ok (), s') \<longrightarrow> (\<exists>xs. talks env xs s s' \<and> map (fst \<circ> fst) xs = ms \<and> acked xs)"
    and n: "\<forall>s s'. n s = (Ok (), s') \<longrightarrow> (\<exists>xs. talks env xs s s' \<and> map (fst \<circ> fst) xs = ns \<and> acked xs)"
    and r: "andThen m n s = (Ok (), s')"
  then obtain s1 where "m s = (Ok (), s1)" "n s1 = (Ok (), s')"
    by (auto simp: run split: prod.splits outcome.splits)
  with m n obtain xs ys where "talks env xs s s1" "map (fst \<circ> fst) xs = ms" "acked xs"
    "talks env ys s1 s'" "map (fst \<circ> fst) ys = ns" "acked ys" by blast
  then show "\<exists>zs. talks env zs s s' \<and> map (fst \<circ> fst) zs = ms @ ns \<and> acked zs"
    by (intro exI [of _ "xs @ ys"]) (auto simp: acked_def intro: talks_append)
qed

lemma sends_orWrap [send]: "sends env ms m \<Longrightarrow> sends env ms (orWrap m msg)"
  by (auto simp: sends_def run split: prod.splits outcome.splits)

lemma sends_whenM [send]: "sends env ms m \<Longrightarrow> sends env (if b then ms else []) (whenM b m)"
  using sends_ret by (simp add: whenM_def)

lemma sends_bnd_pure: "(\<And>x. sends env ms (k x)) \<Longrightarrow> sends env ms (bnd (lift_sum r) k)"
  by (auto simp: sends_def run split: sum.splits)

lemma sends_bnd_orNil: "(\<And>x. sends env ms (k x)) \<Longrightarrow> sends env ms (bnd (orNil r) k)"
  by (auto simp: sends_def run orNil_def split: option.splits)

lemma sends_JSON [send]: "sends env [m] (SendJSONData env m json)"
  unfolding sends_def
proof (intro allI impI)
  fix s s' :: "regstate st"
  assume r: "SendJSONData env m json s = (Ok (), s')"
  then obtain data d where "json = Inr data"
    and "answer env decodeFrame WsRead (WsWrite (insertMessageType m data) # trace s) = Inr (MsgReady, d)"
    and "trace s' = WsRead # WsWrite (insertMessageType m data) # trace s" "self s' = self s"
    by (auto simp: SendJSONData_def run WriteMessage_def split: sum.splits if_splits)
  then show "\<exists>xs. talks env xs s s' \<and> map (fst \<circ> fst) xs = [m] \<and> acked xs"
    by (intro exI [of _ "[((m, data), (MsgReady, d))]"]) (simp add: talks_def acked_def)
qed

lemma sends_update [send]: "sends env [MsgUpdate] (sendUpdateData env d)"
  unfolding sends_def
proof (intro allI impI)
  fix s s' :: "regstate st"
  assume r: "sendUpdateData env d s = (Ok (), s')"
  then obtain x where "answer env decodeFrame WsRead (WsWrite (insertMessageType MsgUpdate []) # trace s) = Inr (MsgReady, x)"
    and "trace s' = WsRead # WsWrite (insertMessageType MsgUpdate []) # trace s" "self s' = self s"
    by (auto simp: sendUpdateData_def orNil_def run WriteMessage_def split: sum.splits option.splits if_splits)
  then show "\<exists>xs. talks env xs s s' \<and> map (fst \<circ> fst) xs = [MsgUpdate] \<and> acked xs"
    by (intro exI [of _ "[((MsgUpdate, []), (MsgReady, x))]"]) (simp add: talks_def acked_def)
qed

text \<open>What a client sends between the negotiation of the version and the request for its configuration.\<close>

definition systemMessages :: "MessageType \<Rightarrow> MessageType list" where
  "systemMessages v = (if v \<ge> MsgSystemDataV2 then [MsgSystemDataV2] else if v \<ge> MsgSystemData then [MsgSystemData] else [])"

definition dataMessages :: "Registration \<Rightarrow> MessageType \<Rightarrow> MessageType list" where
  "dataMessages rg v = (if \<not> rg_NoSMBIOS rg then [MsgSmbios] @ systemMessages v else []) @
     (if v \<ge> MsgAnnotations then [MsgAnnotations] else []) @
     (if mentries (rg_Labels rg) = [] then [] else [MsgLabels])"

lemma sends_system [send]: "sends env (systemMessages v) (sendSystemData env d v)"
proof -
  obtain data err where h: "Host (dev_probes d) = (data, err)" by force
  have fails: "sends env ms (fail e)" for ms e
    by (simp add: sends_def run)
  show ?thesis
    unfolding sendSystemData_def systemMessages_def h
    by (auto simp: case_prod_beta intro!: sends_bnd_orNil send fails split: option.split)
qed

lemma sends_data: "sends env (dataMessages rg v) (sendData env d rg v)"
proof -
  have smbios: "sends env [MsgSmbios] (sendSMBIOSData env d)"
    unfolding sendSMBIOSData_def orWrap_def
    by (auto simp: sends_def run split: prod.splits outcome.splits sum.splits dest: sendsD [OF sends_JSON])
  have labels: "sends env (if mentries (rg_Labels rg) = [] then [] else [MsgLabels]) (sendLabels env d rg)"
    unfolding sendLabels_def by (simp add: send)
  have annotations: "sends env [MsgAnnotations] (sendAnnotations env d rg)"
    unfolding sendAnnotations_def by (rule send)
  show ?thesis
    unfolding sendData_def dataMessages_def
    by (intro send smbios labels annotations)
qed

lemma negotiate_Ok: "negotiateProtoVersion env s = (Ok v, s') \<Longrightarrow>
    talks env [((MsgVersion, [MsgLast]), MsgVersion, [v])] s s'"
  by (auto simp: negotiateProtoVersion_def run WriteMessage_def talks_def split: sum.splits if_splits list.splits)

lemma announce_Ok:
  assumes "announce env d v s = (Ok (), s')"
  shows "\<exists>xs. trace s' = afterExchanges xs (trace s) \<and> answered env xs (trace s) \<and> acked xs \<and>
    map (fst \<circ> fst) xs = (if IsUpdatable (self s) then [MsgUpdate] else []) \<and>
    (IsUpdatable (self s) \<longrightarrow> MsgUpdate \<le> v \<and> self s' = self s) \<and>
    (\<not> IsUpdatable (self s) \<longrightarrow> self s' = (self s)\<lparr>InitialRegistration := clock env (ticks s)\<rparr>)"
proof (cases "IsUpdatable (self s)")
  case True
  with assms have u: "orWrap (sendUpdateData env d) ''failed to send update data'' s = (Ok (), s')" "MsgUpdate \<le> v"
    by (auto simp: announce_def run split: if_splits)
  from sendsD [OF sends_orWrap [OF sends_update] u(1)] u(2) True show ?thesis
    by (auto simp: talks_def)
next
  case False
  with assms show ?thesis
    by (intro exI [of _ "[]"]) (auto simp: announce_def run acked_def)
qed

lemma getConfig_Ok: "getConfig env d s = (Ok data, s') \<Longrightarrow>
    answer env decodeFrame WsRead (trace s) = Inr (MsgConfig, data) \<and> s' = s\<lparr>trace := WsRead # trace s\<rparr>"
  by (auto simp: getConfig_def orNil_def run split: sum.splits option.splits if_splits)

lemma receive_Ok:
  assumes "receive env d v s = (Ok data, s')"
  shows "if MsgConfig \<le> v then talks env [((MsgGet, []), MsgConfig, data)] s s'
    else trace s' = WsRead # WsWrite (insertMessageType MsgGet []) # trace s \<and> self s' = self s \<and>
      (\<exists>t. respond env (trace s') = RFrame t data)"
  using assms
  by (auto simp: receive_def run WriteMessage_def talks_def answer_decodeAny
      split: sum.splits if_splits resp.splits prod.splits outcome.splits dest!: getConfig_Ok)

lemma getAuthenticator_Ok: "getAuthenticator env d rg s = (Ok auth, s') \<Longrightarrow>
    trace s' = trace s \<and> InitialRegistration (self s') = InitialRegistration (self s)"
  by (auto simp: getAuthenticator_def run split: if_splits sum.splits)

lemma initWebsocketConn_Ok: "initWebsocketConn env d url caCert auth s = (Ok auth', s') \<Longrightarrow>
    self s' = self s \<and> (\<exists>token auth2. GetToken d auth = Inr (token, auth2) \<and>
      trace s' = WsDial (replace_first url ''http'' ''ws'') token # trace s)"
  by (auto simp: initWebsocketConn_def run split: sum.splits list.splits option.splits resp.splits if_splits)

lemma clientAuthenticate_Ok: "clientAuthenticate env d auth s = (Ok (), s') \<Longrightarrow> self s' = self s"
  by (cases auth) (auto simp: channelRead_def channelWrite_def run answer_def split: sum.splits resp.splits if_splits)

lemma authenticate_Ok: "authenticate env d auth s = (Ok (), s') \<Longrightarrow> self s' = self s"
  by (auto simp: authenticate_def run split: prod.splits outcome.splits sum.splits if_splits
      dest!: clientAuthenticate_Ok)

text \<open>The seven steps of a registration that succeeds, and the states between them.\<close>

lemma Register_stages:
  assumes "Register env d rg caCert s = (Ok data, s')"
  obtains auth0 sa auth s0 s1 v s2 s3 s4
  where "getAuthenticator env d rg s = (Ok auth0, sa)"
    and "initWebsocketConn env d (rg_URL rg) caCert auth0 sa = (Ok auth, s0)"
    and "authenticate env d auth s0 = (Ok (), s1)" and "negotiateProtoVersion env s1 = (Ok v, s2)"
    and "announce env d v s2 = (Ok (), s3)" and "sendData env d rg v s3 = (Ok (), s4)"
    and "receive env d v s4 = (Ok data, s')"
proof -
  from assms obtain auth0 sa where a: "getAuthenticator env d rg s = (Ok auth0, sa)"
    and r1: "bnd (initWebsocketConn env d (rg_URL rg) caCert auth0) (\<lambda>auth.
       andThen (orWrap (authenticate env d auth) (GetName auth @ '' authentication failed''))
      (bnd (orWrap (negotiateProtoVersion env) ''failed to negotiate protocol version'') (\<lambda>protoVersion.
       andThen (announce env d protoVersion)
      (andThen (sendData env d rg protoVersion) (receive env d protoVersion))))) sa = (Ok data, s')"
    by (auto simp: Register_def run_bnd run_orWrap split: prod.splits outcome.splits)
  from r1 obtain auth s0 where b: "initWebsocketConn env d (rg_URL rg) caCert auth0 sa = (Ok auth, s0)"
    and r2: "andThen (orWrap (authenticate env d auth) (GetName auth @ '' authentication failed''))
      (bnd (orWrap (negotiateProtoVersion env) ''failed to negotiate protocol version'') (\<lambda>protoVersion.
       andThen (announce env d protoVersion)
      (andThen (sendData env d rg protoVersion) (receive env d protoVersion)))) s0 = (Ok data, s')"
    by (auto simp: run_bnd split: prod.splits outcome.splits)
  from r2 obtain s1 where c: "authenticate env d auth s0 = (Ok (), s1)"
    and r3: "bnd (orWrap (negotiateProtoVersion env) ''failed to negotiate protocol version'') (\<lambda>protoVersion.
       andThen (announce env d protoVersion)
      (andThen (sendData env d rg protoVersion) (receive env d protoVersion))) s1 = (Ok data, s')"
    by (auto simp: run_andThen run_orWrap split: prod.splits outcome.splits)
  from r3 obtain v s2 where e: "negotiateProtoVersion env s1 = (Ok v, s2)"
    and r4: "andThen (announce env d v) (andThen (sendData env d rg v) (receive env d v)) s2 = (Ok data, s')"
    by (auto simp: run_bnd run_orWrap split: prod.splits outcome.splits)
  from r4 obtain s3 s4 where f: "announce env d v s2 = (Ok (), s3)" and g: "sendData env d rg v s3 = (Ok (), s4)"
    and h: "receive env d v s4 = (Ok data, s')"
    by (auto simp: run_andThen split: prod.splits outcome.splits)
  show thesis by (rule that [OF a b c e f g h])
qed

text \<open>
  C22: a registration that succeeds went like this: on the connection to its URL the machine was
  authenticated, the server named a version, and the client sent exactly the messages that this
  version and its configuration ask for, in this order, each one acknowledged before the next; the
  data it returns are the payload of the configuration message that answered its last request (or,
  of an old server, the bare frame). A machine that had registered before sent an update, and is
  refused by a server that does not know updates; one that had not is registered from now on.
\<close>

theorem register_exchange:
  assumes "Register env d rg caCert s = (Ok data, s')"
  shows "\<exists>token auth s0 s1 v xs. trace s0 = WsDial (replace_first (rg_URL rg) ''http'' ''ws'') token # trace s \<and>
    authenticate env d auth s0 = (Ok (), s1) \<and>
    (let ys = ((MsgVersion, [MsgLast]), MsgVersion, [v]) # xs;
         t = afterExchanges ys (trace s1) in
     answered env ys (trace s1) \<and> acked xs \<and>
     map (fst \<circ> fst) xs = (if IsUpdatable (self s) then [MsgUpdate] else []) @ dataMessages rg v \<and>
     trace s' = WsRead # WsWrite (insertMessageType MsgGet []) # t \<and>
     (if MsgConfig \<le> v
      then answer env decodeFrame WsRead (WsWrite (insertMessageType MsgGet []) # t) = Inr (MsgConfig, data)
      else (\<exists>ty. respond env (trace s') = RFrame ty data))) \<and>
    (if IsUpdatable (self s) then MsgUpdate \<le> v \<and> InitialRegistration (self s') = InitialRegistration (self s)
     else \<exists>n. InitialRegistration (self s') = clock env n)"
proof -
  from Register_stages [OF assms] obtain auth0 sa auth s0 s1 v s2 s3 s4
    where a: "getAuthenticator env d rg s = (Ok auth0, sa)"
    and b: "initWebsocketConn env d (rg_URL rg) caCert auth0 sa = (Ok auth, s0)"
    and c: "authenticate env d auth s0 = (Ok (), s1)" and e: "negotiateProtoVersion env s1 = (Ok v, s2)"
    and f: "announce env d v s2 = (Ok (), s3)" and g: "sendData env d rg v s3 = (Ok (), s4)"
    and h: "receive env d v s4 = (Ok data, s')" .
  note A = getAuthenticator_Ok [OF a] and B = initWebsocketConn_Ok [OF b] and C = authenticate_Ok [OF c]
    and E = negotiate_Ok [OF e] and F = announce_Ok [OF f] and G = sendsD [OF sends_data g] and H = receive_Ok [OF h]
  have init: "InitialRegistration (self s2) = InitialRegistration (self s)"
    using A B C E by (simp add: talks_def)
  then have up: "IsUpdatable (self s2) = IsUpdatable (self s)" by (simp add: IsUpdatable_def)
  from F obtain us where us: "trace s3 = afterExchanges us (trace s2)" "answered env us (trace s2)" "acked us"
    "map (fst \<circ> fst) us = (if IsUpdatable (self s) then [MsgUpdate] else [])"
    "IsUpdatable (self s) \<longrightarrow> MsgUpdate \<le> v \<and> self s3 = self s2"
    "\<not> IsUpdatable (self s) \<longrightarrow> self s3 = (self s2)\<lparr>InitialRegistration := clock env (ticks s2)\<rparr>"
    unfolding up by blast
  from G obtain xs where xs: "talks env xs s3 s4" "map (fst \<circ> fst) xs = dataMessages rg v" "acked xs" by blast
  let ?ys = "((MsgVersion, [MsgLast]), MsgVersion, [v]) # us @ xs"
  have s4: "trace s4 = afterExchanges ?ys (trace s1)" "answered env ?ys (trace s1)" "self s4 = self s3"
    using E us xs(1) by (simp_all add: talks_def afterExchanges_append answered_append)
  have ack: "acked (us @ xs)" using us(3) xs(3) by (auto simp: acked_def)
  have types: "map (fst \<circ> fst) (us @ xs) = (if IsUpdatable (self s) then [MsgUpdate] else []) @ dataMessages rg v"
    using us(4) xs(2) by simp
  have st: "if IsUpdatable (self s) then MsgUpdate \<le> v \<and> InitialRegistration (self s') = InitialRegistration (self s)
     else \<exists>n. InitialRegistration (self s') = clock env n"
    using us(5,6) s4(3) H init by (auto simp: talks_def split: if_splits)
  have fin: "trace s' = WsRead # WsWrite (insertMessageType MsgGet []) # trace s4 \<and>
     (if MsgConfig \<le> v
      then answer env decodeFrame WsRead (WsWrite (insertMessageType MsgGet []) # trace s4) = Inr (MsgConfig, data)
      else (\<exists>ty. respond env (trace s') = RFrame ty data))"
    using H by (auto simp: talks_def split: if_splits)
  from A B obtain token where "trace s0 = WsDial (replace_first (rg_URL rg) ''http'' ''ws'') token # trace s"
    by auto
  then show ?thesis
    using c s4(2) ack types fin st unfolding Let_def s4(1) by blast
qed

definition demo_host0 :: host where
  "demo_host0 = \<lparr>host_product = Inr ''uuid'', host_nics = Inr [demo_nic ''eth0'' ''aa:bb''],
     host_uuid_parse = (\<lambda>_. None), host_int63 = 7\<rparr>"

definition demo_probes :: probes where
  "demo_probes = \<lparr>pb_Memory = Inl (EMsg ''no memory''), pb_Block = Inr [],
     pb_CPU = Inr \<lparr>cpu_TotalCores = 4, cpu_TotalThreads = 8, cpu_Processors = []\<rparr>, pb_Topology = Inr (),
     pb_Network = Inr [Some (demo_nic ''eth0'' ''aa:bb'')], pb_GPU = Inr [], pb_Chassis = Inr (GPtr None),
     pb_BIOS = Inr (GPtr None), pb_Baseboard = Inr (GPtr None), pb_Product = Inr (GPtr None), pb_Hostname = Inr ''h''\<rparr>"

definition demo_device :: device where
  "demo_device = \<lparr>dev_host = demo_host0, dev_probes = demo_probes, dev_nets = demo_nets, dev_dmidecode = (\<lambda>_. Inr []),
     dev_osrelease = Inr ''NAME=SL-Micro'', dev_localaddr = ''10.0.0.7:443'', dev_version = ''v1'', dev_certpool = None,
     dev_tpm_token = (\<lambda>_. Inr (''Bearer TPM'', ''ak'')), dev_tpm_pubhash = (\<lambda>_. Inr ''hash''),
     dev_tpm_response = (\<lambda>_ _ c. Inr c), dev_json_data = (\<lambda>_. Inr [2]), dev_json_strings = (\<lambda>_. Inr [3]),
     dev_json_host = (\<lambda>_. Inr [4]), dev_yaml_message = (\<lambda>b. Inr (if b = [110, 117, 108, 108] then None else Some ''message'')), dev_yaml_state = (\<lambda>_. Inr ''state''),
     dev_parse_state = (\<lambda>_. Inr emptyState)\<rparr>"

definition demo_rg :: Registration where
  "demo_rg = zeroRegistration\<lparr>rg_URL := ''https://host/tok'', rg_Auth := ''mac'', rg_NoSMBIOS := True\<rparr>"

lemma demo_registered: "\<exists>s'. Register (demo_env (\<lambda>_. None) [[1], [5, 12], [1], [7, 42]]) demo_device demo_rg []
    (start emptyState) = (Ok [42], s')"
proof -
  have "fst (Register (demo_env (\<lambda>_. None) [[1], [5, 12], [1], [7, 42]]) demo_device demo_rg []
    (start emptyState)) = Ok [42]" by code_simp
  then show ?thesis by (metis prod.collapse)
qed

theorem register_exchange_witness:
  "\<exists>v xs. map (fst \<circ> fst) xs = dataMessages demo_rg v \<and> acked (xs :: exchange list) \<and>
     (\<exists>t. answered (demo_env (\<lambda>_. None) [[1], [5, 12], [1], [7, 42]]) (((MsgVersion, [MsgLast]), MsgVersion, [v]) # xs) t)"
proof -
  obtain s' where r: "Register (demo_env (\<lambda>_. None) [[1], [5, 12], [1], [7, 42]]) demo_device demo_rg []
    (start emptyState) = (Ok [42], s')" using demo_registered by blast
  have u: "\<not> IsUpdatable (self (start emptyState))" by (simp add: IsUpdatable_def emptyState_def start_def)
  show ?thesis using register_exchange [OF r] u unfolding Let_def by (simp only: if_False append_Nil) blast
qed

text \<open>
  The data of the host that the panics of the client hang on: the probes of the processors and the
  disks gave data, no list of the probes has a nil element, and the first graphics card is as the old
  syntax of the labels wants it.
\<close>

definition probesComplete :: "HostInfo \<Rightarrow> bool" where
  "probesComplete hi \<longleftrightarrow> (case hi_CPU hi of None \<Rightarrow> False | Some c \<Rightarrow> None \<notin> set (cpu_Processors c)) \<and>
     hi_Block hi \<noteq> None \<and> None \<notin> set (elements (hi_GPU hi)) \<and> None \<notin> set (elements (hi_Network hi)) \<and>
     None \<notin> set (elements (hi_Block hi)) \<and> firstCard hi"

lemma probesComplete_extracts: "probesComplete hi \<longleftrightarrow>
    ExtractLabels nets hi \<noteq> None \<and> ExtractLabelsLegacy hi \<noteq> None \<and> Prune hi \<noteq> None"
  unfolding labels_None legacy_None noNils_def
  by (auto simp: probesComplete_def firstProcessor_def Prune_def elements_def split: option.splits)

text \<open>The connection ends with the reading of an error message whose payload is null.\<close>

definition readNullError :: "env \<Rightarrow> device \<Rightarrow> call list \<Rightarrow> bool" where
  "readNullError env d t \<longleftrightarrow> (case t of [] \<Rightarrow> False
     | c # past \<Rightarrow> c = WsRead \<and> (case answer env decodeFrame WsRead past of
         Inl e \<Rightarrow> False | Inr (msgType, data) \<Rightarrow> msgType = MsgError \<and> dev_yaml_message d data = Inr None))"

lemma safe_resp [safety]:
  "(\<And>e. safe I E (a e)) \<Longrightarrow> safe I E b \<Longrightarrow> (\<And>x. safe I E (c x)) \<Longrightarrow> (\<And>t x. safe I E (f t x)) \<Longrightarrow> (\<And>x. safe I E (g x)) \<Longrightarrow>
    (\<And>x. safe I E (j x)) \<Longrightarrow> (\<And>e x. safe I E (h e x)) \<Longrightarrow>
    safe I E (case r of RErr e \<Rightarrow> a e | ROk \<Rightarrow> b | RObjs x \<Rightarrow> c x | RFrame t x \<Rightarrow> f t x | RText x \<Rightarrow> g x | RDir x \<Rightarrow> j x | RDial e x \<Rightarrow> h e x)"
  by (cases r) simp_all

lemma safe_list [safety]: "safe I E m \<Longrightarrow> (\<And>x xs. safe I E (k x xs)) \<Longrightarrow> safe I E (case ys of [] \<Rightarrow> m | x # xs \<Rightarrow> k x xs)"
  by (cases ys) simp_all

lemma safe_messages [safety]: "safe I E (WriteMessage env m x)" "safe I E (ReadMessage env)" "safe I E (SendJSONData env m json)"
  unfolding WriteMessage_def ReadMessage_alt SendJSONData_def by (intro safety)+

lemma safe_client [safety]:
  "safe I E (channelRead env n)" "safe I E (channelWrite env p)" "safe I E (clientAuthenticate env d a)"
  "safe I E (initWebsocketConn env d url caCert a)" "safe I E (authenticate env d a)"
  "safe I E (negotiateProtoVersion env)" "safe I E (sendSMBIOSData env d)"
  "safe I E (sendAnnotations env d rg)" "safe I E (sendLabels env d rg)"
proof -
  show c: "safe I E (channelRead env n)" "safe I E (channelWrite env p)" for n p
    unfolding channelRead_def channelWrite_def by (intro safety)+
  show a: "safe I E (clientAuthenticate env d a)"
    by (cases a) (simp_all add: safety c)
  show "safe I E (initWebsocketConn env d url caCert a)" "safe I E (authenticate env d a)"
    "safe I E (negotiateProtoVersion env)" "safe I E (sendSMBIOSData env d)"
    "safe I E (sendAnnotations env d rg)" "safe I E (sendLabels env d rg)"
    unfolding initWebsocketConn_def authenticate_def negotiateProtoVersion_def sendSMBIOSData_def
      sendAnnotations_def sendLabels_def
    by (intro safety a)+
qed

lemma safe_orNil: "x \<noteq> None \<or> nilDereference \<in> E \<Longrightarrow> safe I E (orNil x)"
  by (auto simp: orNil_def safety split: option.split)

subsection \<open>Where the client crashes\<close>

text \<open>A panic is a nil dereference, in a state of which \<open>C\<close> holds.\<close>

definition crashes :: "('o st \<Rightarrow> bool) \<Rightarrow> ('o st, 'a) go \<Rightarrow> bool" where
  "crashes C m \<longleftrightarrow> (\<forall>s. wpre m (\<lambda>r s'. \<forall>p. r = Panic p \<longrightarrow> p = nilDereference \<and> C s') s)"

named_theorems crashing \<open>where the steps of the client crash\<close>

lemma crashes_safe: "safe (\<lambda>_. True) {} m \<Longrightarrow> crashes C m"
  unfolding crashes_def by (auto dest!: safeD elim!: wpre_mono)

lemma crashes_nil: "safe (\<lambda>_. True) {nilDereference} m \<Longrightarrow> (\<And>s. C s) \<Longrightarrow> crashes C m"
  unfolding crashes_def by (auto dest!: safeD elim!: wpre_mono)

lemma crashes_bnd [crashing]: "crashes C m \<Longrightarrow> (\<And>x. crashes C (k x)) \<Longrightarrow> crashes C (bnd m k)"
  unfolding crashes_def by (auto intro: wpre_bndI)

lemma crashes_andThen [crashing]: "crashes C m \<Longrightarrow> crashes C k \<Longrightarrow> crashes C (andThen m k)"
  unfolding andThen_def by (rule crashes_bnd)

lemma crashes_orWrap [crashing]: "crashes C m \<Longrightarrow> crashes C (orWrap m msg)"
  unfolding crashes_def wp_orWrap by (auto elim!: wpre_mono split: outcome.split)

lemma crashes_whenM [crashing]: "(b \<Longrightarrow> crashes C m) \<Longrightarrow> crashes C (whenM b m)"
  by (simp add: whenM_def crashes_def wp)

lemma crashes_if [crashing]: "(b \<Longrightarrow> crashes C m) \<Longrightarrow> (\<not> b \<Longrightarrow> crashes C n) \<Longrightarrow> crashes C (if b then m else n)"
  by simp

lemma crashes_replies:
  assumes "\<And>s :: regstate st. readNullError env d (trace s) \<Longrightarrow> C s"
  shows "crashes C (sendUpdateData env d)" "crashes C (getConfig env d)"
  using assms unfolding crashes_def
  by (auto simp: sendUpdateData_def getConfig_def orNil_def WriteMessage_def wp wp_ReadMessage readNullError_def
      split: sum.split option.split)

lemma crashes_system:
  assumes "\<And>s :: regstate st. \<not> probesComplete (fst (Host (dev_probes d))) \<Longrightarrow> C s"
  shows "crashes C (sendSystemData env d v)"
proof (cases "probesComplete (fst (Host (dev_probes d)))")
  case True
  then show ?thesis unfolding probesComplete_extracts [where nets = "dev_nets d"]
    by (intro crashes_safe) (auto simp: sendSystemData_def case_prod_beta intro!: safety safe_orNil)
next
  case False
  show ?thesis
    by (rule crashes_nil [OF _ assms [OF False]])
      (auto simp: sendSystemData_def case_prod_beta intro!: safety safe_orNil)
qed

lemma crashes_register:
  "crashes (\<lambda>s. readNullError env d (trace s) \<or> \<not> (rg_NoSMBIOS rg \<or> probesComplete (fst (Host (dev_probes d)))))
    (Register env d rg caCert)"
proof -
  let ?C = "\<lambda>s :: regstate st. readNullError env d (trace s) \<or>
    \<not> (rg_NoSMBIOS rg \<or> probesComplete (fst (Host (dev_probes d))))"
  have u: "crashes ?C (sendUpdateData env d)" and g: "crashes ?C (getConfig env d)"
    by (rule crashes_replies, simp)+
  have s: "crashes ?C (sendSystemData env d v)" if "\<not> rg_NoSMBIOS rg" for v
    by (rule crashes_system) (simp add: that)
  have "crashes ?C (getAuthenticator env d rg)"
    by (rule crashes_safe) (auto simp: getAuthenticator_def intro!: safety)
  moreover have "crashes ?C (initWebsocketConn env d (rg_URL rg) caCert auth)" "crashes ?C (authenticate env d auth)"
    "crashes ?C (negotiateProtoVersion env)" for auth
    by (rule crashes_safe, intro safety)+
  moreover have "crashes ?C (announce env d v)" for v
    unfolding announce_def by (intro crashing u) (auto intro!: crashes_safe safety)
  moreover have "crashes ?C (sendData env d rg v)" for v
    unfolding sendData_def by (intro crashing s) (auto intro!: crashes_safe safety)
  moreover have "crashes ?C (receive env d v)" for v
    unfolding receive_def by (intro crashing g) (auto intro!: crashes_safe safety)
  ultimately show ?thesis
    unfolding Register_def by (intro crashing)
qed

text \<open>
  C23: a registration ends with its configuration or an error, whatever the server, the tools and the
  encoders do, but for two nil dereferences: one right after the reading of an error message whose
  payload is null, the other with hardware data to send and probes that are not complete.
\<close>

theorem register_panics:
  "case Register env d rg caCert s of
     (Panic p, s') \<Rightarrow> p = nilDereference \<and>
       (readNullError env d (trace s') \<or> \<not> (rg_NoSMBIOS rg \<or> probesComplete (fst (Host (dev_probes d)))))
   | _ \<Rightarrow> True"
  using crashes_register [of env d rg caCert] unfolding crashes_def wpre_def
  by (auto split: prod.split outcome.split dest: spec [of _ s])

text \<open>
  A server that answers the request for the configuration with an error whose payload is \<^verbatim>\<open>null\<close>
  crashes the client; one that answers with a message is reported.
\<close>

definition demo_refusal :: "bytes \<Rightarrow> env" where
  "demo_refusal payload = demo_env (\<lambda>_. None) [[1], [5, 12], [1], MsgError # payload]"

theorem register_panics_witness:
  "(\<exists>s'. Register (demo_refusal [110, 117, 108, 108]) demo_device demo_rg [] (start emptyState) = (Panic nilDereference, s') \<and>
     readNullError (demo_refusal [110, 117, 108, 108]) demo_device (trace s')) \<and>
   fst (Register (demo_refusal [111]) demo_device demo_rg [] (start emptyState)) =
     Err (wrap ''read elemental configuration'' (EMsg ''message''))"
proof -
  let ?env = "demo_refusal [110, 117, 108, 108]"
  have no: "rg_NoSMBIOS demo_rg" by (simp add: demo_rg_def)
  have "case fst (Register ?env demo_device demo_rg [] (start emptyState)) of Panic p \<Rightarrow> True | _ \<Rightarrow> False" by code_simp
  with register_panics [of ?env demo_device demo_rg "[]" "start emptyState"] no
  have 1: "\<exists>s'. Register ?env demo_device demo_rg [] (start emptyState) = (Panic nilDereference, s') \<and>
     readNullError ?env demo_device (trace s')"
    by (auto split: prod.splits outcome.splits)
  have 2: "fst (Register (demo_refusal [111]) demo_device demo_rg [] (start emptyState)) =
     Err (wrap ''read elemental configuration'' (EMsg ''message''))" by code_simp
  from 1 2 show ?thesis by blast
qed

text \<open>
  When a probe of the hardware failed, the data of the host are not sent to a server of today at
  all, although a comment announces a best effort: nothing is written, and the registration ends with
  an error, or in a nil dereference when it was the probe of the processors.
\<close>

theorem best_effort_refused:
  assumes "snd (Host (dev_probes d)) \<noteq> None" and "MsgSystemDataV2 \<le> v"
  shows "\<exists>r. sendSystemData env d v s = (r, s) \<and> ((\<exists>e. r = Err e) \<or> r = Panic nilDereference) \<and>
    (hi_CPU (fst (Host (dev_probes d))) = None \<longrightarrow> r = Panic nilDereference)"
proof -
  obtain data e where h: "Host (dev_probes d) = (data, Some e)" using assms(1) by (metis not_None_eq prod.collapse)
  show ?thesis
  proof (cases "ExtractLabels (dev_nets d) data")
    case None
    with assms(2) h show ?thesis by (simp add: sendSystemData_def orNil_def run)
  next
    case (Some labels)
    then have "hi_CPU data \<noteq> None" using labels_None [of "dev_nets d" data] by (auto split: option.splits)
    with Some assms(2) h show ?thesis
      by (cases "ExtractLabelsLegacy data") (auto simp: sendSystemData_def orNil_def run)
  qed
qed

theorem best_effort_refused_witness:
  "\<exists>r. sendSystemData (demo_env (\<lambda>_. None) []) demo_device MsgLast (start emptyState) = (r, start emptyState) \<and>
     ((\<exists>e. r = Err e) \<or> r = Panic nilDereference)"
proof -
  have 1: "snd (Host (dev_probes demo_device)) \<noteq> None"
    by (simp add: demo_device_def demo_probes_def Host_def probed_def)
  have 2: "MsgSystemDataV2 \<le> MsgLast" by (simp add: msg_defs)
  from best_effort_refused [OF 1 2] show ?thesis by blast
qed

end
