(* ===== verification/NetworkCfg.thy ===== *)
theory NetworkCfg
  imports CtlLib RegClient
begin

text \<open>
  The network of a machine (\<^verbatim>\<open>pkg/network/network.go\<close>, \<^verbatim>\<open>nmc.go\<close>, \<^verbatim>\<open>nmstate.go\<close>, \<^verbatim>\<open>nmconnections.go\<close>): the
  applicator that an installation writes for the next boot, and the reset that gives the addresses
  back.
\<close>

section \<open>The machine's tools\<close>

text \<open>
  What the program hands to libraries on the machine: the encoders of YAML, JSON and kubeconfig, the
  decoders, the parser of quantities (its result in units of 1e-9, in which it is exact), viper, and
  the entry that a loop over a map of the runtime takes first.
\<close>

record kubeconfig =
  kc_Server :: string
  kc_CertificateAuthorityData :: string
  kc_Token :: string

record ConnectionInfo =
  ci_KubeConfig :: string
  ci_Namespace :: string
  ci_SecretName :: string

record AgentConfig =
  ac_WorkDir :: string
  ac_AppliedPlanDir :: string
  ac_LocalPlanDir :: string
  ac_RemoteEnabled :: bool
  ac_LocalEnabled :: bool
  ac_ConnectionInfoFile :: string
  ac_PreserveWorkDir :: bool

record toolkit =
  tk_connections :: "string \<Rightarrow> goerr + (string \<times> string) list"
  tk_yip :: "YipConfig \<Rightarrow> goerr + string"
  tk_config :: "Config \<Rightarrow> goerr + string"
  tk_state :: "regstate \<Rightarrow> goerr + string"
  tk_kubeconfig :: "kubeconfig \<Rightarrow> goerr + string"
  tk_connection_info :: "ConnectionInfo \<Rightarrow> goerr + string"
  tk_agent :: "AgentConfig \<Rightarrow> goerr + string"
  tk_quantity :: "string \<Rightarrow> goerr + int"
  tk_first :: nat
  tk_settings_type :: "string \<Rightarrow> goerr option"
  tk_settings :: "string \<Rightarrow> string \<Rightarrow> goerr + string"
  tk_decode_settings :: "string \<Rightarrow> Config \<Rightarrow> goerr + Config"
  tk_read_config :: "bytes \<Rightarrow> Config \<Rightarrow> goerr + Config"
  tk_read_network :: "bytes \<Rightarrow> NetworkConfig \<Rightarrow> goerr + NetworkConfig"
  tk_read_labels :: "string \<Rightarrow> goerr + (string \<times> string) list"

text \<open>
  \<^verbatim>\<open>ExecRunner.Run\<close>: a command with its arguments. A directory is read as its entries.
\<close>

definition runCommand :: "env \<Rightarrow> string list \<Rightarrow> ('o st, unit) go" where
  "runCommand env argv = sysCall env ''run'' argv"

definition readDir :: "env \<Rightarrow> string \<Rightarrow> ('o st, (string \<times> bool) list) go" where
  "readDir env dir = bnd (invoke env (Sys ''readdir'' [dir])) (\<lambda>r. case r of RDir fs \<Rightarrow> ret fs | _ \<Rightarrow> fail errDecode)"

text \<open>\<^verbatim>\<open>filepath.Join\<close> of a directory and a name.\<close>

definition path_join :: "string \<Rightarrow> string \<Rightarrow> string" where
  "path_join dir name = path_clean (dir @ ''/'' @ name)"

definition inQuotes :: "string \<Rightarrow> string" where
  "inQuotes s = [CHR 0x27] @ s @ [CHR 0x27]"

section \<open>Applicators\<close>

definition systemConnectionsDir :: string where
  "systemConnectionsDir = ''/etc/NetworkManager/system-connections''"

definition configApplicator :: string where
  "configApplicator = ''/oem/elemental-network.yaml''"

definition nmcDesiredStatesDir :: string where
  "nmcDesiredStatesDir = ''/tmp/declarative-networking/nmc/desired-states''"

definition nmcNetworkConfigDir :: string where
  "nmcNetworkConfigDir = ''/tmp/declarative-networking/nmc/network-config''"

definition nmstateTempPath :: string where
  "nmstateTempPath = ''/tmp/declarative-networking/elemental-nmstate.yaml''"

definition ErrEmptyConfig :: goerr where
  "ErrEmptyConfig = ESent ''Network config is empty''"

definition ErrUnknownConfigurator :: goerr where
  "ErrUnknownConfigurator = ESent ''Unknown network configurator type''"

definition nmSuffix :: string where
  "nmSuffix = ''.nmconnection''"

definition noYip :: YipConfig where
  "noYip = \<lparr>yip_Name = [], yip_Stages = []\<rparr>"

text \<open>The only user is root (0600 is 384).\<close>

definition privateFile :: "string \<Rightarrow> string \<Rightarrow> YipFile" where
  "privateFile path content = \<lparr>yf_Path = path, yf_Content = content, yf_Encoding = [], yf_Permissions = 384\<rparr>"

definition applicator :: "YipFile list \<Rightarrow> YipConfig" where
  "applicator files = \<lparr>yip_Name = ''Apply network config'',
     yip_Stages = [(''initramfs'', [\<lparr>yip_If = [], yip_StageName = [], yip_Commands = [], yip_Directories = [],
       yip_Files = files\<rparr>])]\<rparr>"

text \<open>The placeholders are replaced one name after the other, in the order of the map.\<close>

definition fillAddresses :: "string gomap \<Rightarrow> string \<Rightarrow> string" where
  "fillAddresses addrs text = fold (\<lambda>(name, ip) t. replace_all t (''{'' @ name @ ''}'') ip) (mentries addrs) text"

definition networkYaml :: "env \<Rightarrow> NetworkConfig \<Rightarrow> ('o st, string) go" where
  "networkYaml env nc =
    (if mentries (nc_Config nc) = [] then fail ErrEmptyConfig
     else orWrap (lift_sum (JSONObjectToYamlBytes (lib env) (nc_Config nc))) ''converting network config to yaml'')"

text \<open>The connections that a tool left in NetworkManager's directory.\<close>

primrec readConnections :: "env \<Rightarrow> (string \<times> bool) list \<Rightarrow> ('o st, YipFile list) go" where
  "readConnections env [] = ret []"
| "readConnections env (f # fs) =
    (if has_suffix (fst f) nmSuffix then
       bnd (orWrap (sysText env ''readfile'' [path_join systemConnectionsDir (fst f)]) (''reading file '' @ inQuotes (fst f)))
         (\<lambda>bytes. bnd (readConnections env fs) (\<lambda>rest.
           ret (privateFile (path_join systemConnectionsDir (fst f)) bytes # rest)))
     else readConnections env fs)"

definition collectConnections :: "env \<Rightarrow> ('o st, YipConfig) go" where
  "collectConnections env =
     bnd (orWrap (readDir env systemConnectionsDir) (''reading directory '' @ inQuotes systemConnectionsDir)) (\<lambda>files.
     bnd (readConnections env files) (\<lambda>yipFiles. ret (applicator yipFiles)))"

definition nmcConfigurator :: "env \<Rightarrow> NetworkConfig \<Rightarrow> ('o st, YipConfig) go" where
  "nmcConfigurator env nc =
     bnd (networkYaml env nc) (\<lambda>yamlData.
     let nmcAllConfigPath = path_join nmcDesiredStatesDir ''_all.yaml'' in
     andThen (orWrap (sysCall env ''mkdirall'' [nmcDesiredStatesDir, ''0700''])
       (''creating dir '' @ inQuotes nmcDesiredStatesDir))
    (andThen (orWrap (sysCall env ''writefile'' [nmcAllConfigPath, fillAddresses (nc_IPAddresses nc) yamlData])
       (''writing file '' @ inQuotes nmcAllConfigPath))
    (andThen (orWrap (sysCall env ''mkdirall'' [nmcNetworkConfigDir, ''0700''])
       (''creating dir '' @ inQuotes nmcNetworkConfigDir))
    (andThen (orWrap (runCommand env [''nmc'', ''generate'', ''--config-dir'', nmcDesiredStatesDir,
         ''--output-dir'', nmcNetworkConfigDir]) ''running: nmc generate'')
    (andThen (orWrap (runCommand env [''nmc'', ''apply'', ''--config-dir'', nmcNetworkConfigDir]) ''running: nmc apply'')
     (collectConnections env))))))"

definition nmstateConfigurator :: "env \<Rightarrow> NetworkConfig \<Rightarrow> ('o st, YipConfig) go" where
  "nmstateConfigurator env nc =
     bnd (networkYaml env nc) (\<lambda>yamlData.
     andThen (orWrap (sysCall env ''mkdirall'' [path_dir nmstateTempPath, ''0700''])
       (''creating dir '' @ inQuotes (path_dir nmstateTempPath)))
    (andThen (orWrap (sysCall env ''writefile'' [nmstateTempPath, fillAddresses (nc_IPAddresses nc) yamlData])
       (''writing file '' @ inQuotes nmstateTempPath))
    (andThen (orWrap (runCommand env [''nmstatectl'', ''apply'', nmstateTempPath])
       (''running: nmstatectl apply '' @ nmstateTempPath))
     (collectConnections env))))"

text \<open>The connections as the configuration holds them; the order of the files is that of the map.\<close>

definition networkManagerConfigurator :: "env \<Rightarrow> toolkit \<Rightarrow> NetworkConfig \<Rightarrow> ('o st, YipConfig) go" where
  "networkManagerConfigurator env tk nc =
     bnd (networkYaml env nc) (\<lambda>yamlData.
     bnd (orWrap (lift_sum (tk_connections tk yamlData)) ''unmarshalling connections wrapper'') (\<lambda>connections.
     ret (applicator (map (\<lambda>(name, config).
       privateFile (path_join systemConnectionsDir (name @ nmSuffix)) (fillAddresses (nc_IPAddresses nc) config))
       connections))))"

definition GetNetworkConfigApplicator :: "env \<Rightarrow> toolkit \<Rightarrow> NetworkConfig \<Rightarrow> ('o st, YipConfig) go" where
  "GetNetworkConfigApplicator env tk nc =
    (if nc_Configurator nc = [] \<or> nc_Configurator nc = ''none'' then ret noYip
     else if nc_Configurator nc = ''nmc'' then nmcConfigurator env nc
     else if nc_Configurator nc = ''nmstate'' then nmstateConfigurator env nc
     else if nc_Configurator nc = ''nmconnections'' then networkManagerConfigurator env tk nc
     else fail (wrap (''using configurator '' @ inQuotes (nc_Configurator nc)) ErrUnknownConfigurator))"

section \<open>Reset\<close>

definition needsReset :: "(string \<times> bool) list \<Rightarrow> bool" where
  "needsReset files \<longleftrightarrow> (\<exists>(name, isDir) \<in> set files. \<not> isDir \<and> has_suffix name nmSuffix)"

definition restartUnit :: "string \<Rightarrow> string list" where
  "restartUnit u = [''systemctl'', ''restart'', u]"

definition findDelete :: "string list" where
  "findDelete = [''find'', systemConnectionsDir, ''-name'', ''*.nmconnection'', ''-type'', ''f'', ''-delete'']"

definition ResetNetworkConfig :: "env \<Rightarrow> ('o st, unit) go" where
  "ResetNetworkConfig env =
     bnd (orWrap (readDir env systemConnectionsDir) (''reading files in dir '' @ inQuotes systemConnectionsDir)) (\<lambda>files.
     if \<not> needsReset files then ret ()
     else
     andThen (onErr (sysCall env ''remove'' [configApplicator])
       (\<lambda>e. if isNotExist e then ret () else fail (wrap (''deleting file '' @ inQuotes configApplicator) e)))
    (andThen (orWrap (runCommand env findDelete) (''deleting all '' @ systemConnectionsDir @ ''/*.nmconnection''))
    (andThen (orWrap (runCommand env [''nmcli'', ''connection'', ''reload'']) ''running: nmcli connection reload'')
    (andThen (orWrap (runCommand env (restartUnit ''NetworkManager.service''))
       ''running command: systemctl restart NetworkManager.service'')
    (andThen (orWrap (runCommand env [''systemctl'', ''start'', ''NetworkManager-wait-online.service''])
       ''running command: systemctl start NetworkManager-wait-online.service'')
     (orWrap (runCommand env (restartUnit ''elemental-system-agent.service''))
       ''running command: systemctl restart elemental-system-agent.service''))))))"

section \<open>Rules\<close>

definition decodeText :: "resp \<Rightarrow> goerr + string" where
  "decodeText r = (case r of RText t \<Rightarrow> Inr t | _ \<Rightarrow> Inl errDecode)"

definition decodeDir :: "resp \<Rightarrow> goerr + (string \<times> bool) list" where
  "decodeDir r = (case r of RDir fs \<Rightarrow> Inr fs | _ \<Rightarrow> Inl errDecode)"

lemma sysCall_alt: "sysCall env n a = writeObj env (Sys n a)"
  by (simp add: sysCall_def writeObj_def)

lemma sysText_alt: "sysText env n a = bnd (invoke env (Sys n a)) (\<lambda>r. lift_sum (decodeText r))"
  unfolding sysText_def decodeText_def lift_sum_def
  by (intro arg_cong [where f = "bnd _"] ext) (simp split: resp.split)

lemma readDir_alt: "readDir env dir = bnd (invoke env (Sys ''readdir'' [dir])) (\<lambda>r. lift_sum (decodeDir r))"
  unfolding readDir_def decodeDir_def lift_sum_def
  by (intro arg_cong [where f = "bnd _"] ext) (simp split: resp.split)

lemma wp_sysCall [wp]: "wpre (sysCall env n a) Q s =
    (case answer env decodeAny (Sys n a) (trace s) of
       Inl e \<Rightarrow> Q (Err e) (s\<lparr>trace := Sys n a # trace s\<rparr>) | Inr x \<Rightarrow> Q (Ok ()) (s\<lparr>trace := Sys n a # trace s\<rparr>))"
  by (simp add: sysCall_alt wp_writeObj)

lemma wp_sysText [wp]: "wpre (sysText env n a) Q s =
    (case answer env decodeText (Sys n a) (trace s) of
       Inl e \<Rightarrow> Q (Err e) (s\<lparr>trace := Sys n a # trace s\<rparr>) | Inr x \<Rightarrow> Q (Ok x) (s\<lparr>trace := Sys n a # trace s\<rparr>))"
  unfolding sysText_alt by (rule bnd_invoke_answer)

lemma wp_readDir [wp]: "wpre (readDir env dir) Q s =
    (case answer env decodeDir (Sys ''readdir'' [dir]) (trace s) of
       Inl e \<Rightarrow> Q (Err e) (s\<lparr>trace := Sys ''readdir'' [dir] # trace s\<rparr>)
     | Inr x \<Rightarrow> Q (Ok x) (s\<lparr>trace := Sys ''readdir'' [dir] # trace s\<rparr>))"
  unfolding readDir_alt by (rule bnd_invoke_answer)

lemma run_sysCall [run]: "sysCall env n a s =
    (case answer env decodeAny (Sys n a) (trace s) of Inl e \<Rightarrow> Err e | Inr x \<Rightarrow> Ok (), s\<lparr>trace := Sys n a # trace s\<rparr>)"
  by (rule run_wp) (simp add: wp_sysCall split: sum.split)

lemma run_sysText [run]: "sysText env n a s =
    (case answer env decodeText (Sys n a) (trace s) of Inl e \<Rightarrow> Err e | Inr x \<Rightarrow> Ok x, s\<lparr>trace := Sys n a # trace s\<rparr>)"
  by (rule run_wp) (simp add: wp_sysText split: sum.split)

lemma run_readDir [run]: "readDir env dir s =
    (case answer env decodeDir (Sys ''readdir'' [dir]) (trace s) of Inl e \<Rightarrow> Err e | Inr x \<Rightarrow> Ok x,
     s\<lparr>trace := Sys ''readdir'' [dir] # trace s\<rparr>)"
  by (rule run_wp) (simp add: wp_readDir split: sum.split)

lemma emits_sys [emit]:
  "P (Sys n a) \<Longrightarrow> emits P (sysCall env n a)" "P (Sys n a) \<Longrightarrow> emits P (sysText env n a)"
  "P (Sys ''readdir'' [dir]) \<Longrightarrow> emits P (readDir env dir)"
  unfolding sysCall_alt sysText_alt readDir_alt by (intro emit; assumption)+

text \<open>
  \<open>chain env K cs m\<close>: a run of \<open>m\<close> makes the calls \<open>cs\<close> in this order, up to one that is refused, which
  ends it with an error; a call that \<open>K\<close> tolerates may be refused without ending it. It succeeds when
  all calls were made.
\<close>

definition goesThrough :: "env \<Rightarrow> (call \<Rightarrow> bool) \<Rightarrow> call list \<Rightarrow> 'o st \<Rightarrow> unit outcome \<Rightarrow> 'o st \<Rightarrow> bool" where
  "goesThrough env K cs s r s' \<longleftrightarrow> (\<exists>k \<le> length cs. trace s' = rev (take k cs) @ trace s \<and>
     (\<forall>c \<in> set (take (k - 1) cs). K c \<or> granted env (trace s) (trace s') c) \<and> (\<forall>p. r \<noteq> Panic p) \<and>
     (r = Ok () \<longrightarrow> k = length cs \<and> (\<forall>c \<in> set cs. K c \<or> granted env (trace s) (trace s') c)))"

definition chain :: "env \<Rightarrow> (call \<Rightarrow> bool) \<Rightarrow> call list \<Rightarrow> ('o st, unit) go \<Rightarrow> bool" where
  "chain env K cs m \<longleftrightarrow> (\<forall>s r s'. m s = (r, s') \<longrightarrow> goesThrough env K cs s r s')"

lemma chainI: "(\<And>s r s'. m s = (r, s') \<Longrightarrow> goesThrough env K cs s r s') \<Longrightarrow> chain env K cs m"
  by (simp add: chain_def)

lemma chainD: "chain env K cs m \<Longrightarrow> m s = (r, s') \<Longrightarrow> goesThrough env K cs s r s'"
  by (simp add: chain_def)

lemma granted_append: "granted env t u c \<Longrightarrow> granted env t (cs @ u) c"
  by (erule granted_later [where P = "\<lambda>_. True"]) (simp add: added_def list_all_iff)

lemma granted_since: "granted env (cs @ t) u c \<Longrightarrow> granted env t u c"
  by (erule granted_earlier [where P = "\<lambda>_. True", rotated]) (simp add: added_def list_all_iff)

lemma granted_Nil [simp]: "\<not> granted env t t c"
  by (auto simp: granted_def)

lemma granted_Cons: "granted env t (x # u) c \<longleftrightarrow>
    (c = x \<and> (\<exists>b. u = b @ t) \<and> (\<exists>y. answer env decodeAny c u = Inr y)) \<or> granted env t u c"
proof
  assume "granted env t (x # u) c"
  then obtain a b where ab: "x # u = a @ c # b @ t" "case respond env (c # b @ t) of RErr _ \<Rightarrow> False | _ \<Rightarrow> True"
    by (auto simp: granted_def)
  show "(c = x \<and> (\<exists>b. u = b @ t) \<and> (\<exists>y. answer env decodeAny c u = Inr y)) \<or> granted env t u c"
  proof (cases a)
    case Nil
    with ab show ?thesis by (auto simp: answer_def decodeAny_def split: resp.splits)
  next
    case (Cons z zs)
    with ab have "u = zs @ c # b @ t" by simp
    with ab(2) show ?thesis unfolding granted_def by blast
  qed
next
  assume "(c = x \<and> (\<exists>b. u = b @ t) \<and> (\<exists>y. answer env decodeAny c u = Inr y)) \<or> granted env t u c"
  then show "granted env t (x # u) c"
  proof
    assume "c = x \<and> (\<exists>b. u = b @ t) \<and> (\<exists>y. answer env decodeAny c u = Inr y)"
    then obtain b y where "c = x" "u = b @ t" "answer env decodeAny c u = Inr y" by blast
    then show ?thesis unfolding granted_def
      by (intro exI [of _ "[]"] exI [of _ b]) (auto simp: answer_def split: resp.splits)
  next
    assume "granted env t u c"
    then show ?thesis using granted_append [of env t u c "[x]"] by simp
  qed
qed

lemma chain_one: "chain env K [Sys n a] (orWrap (sysCall env n a) msg)"
proof (rule chainI)
  fix s :: "'a st" and r s'
  assume "orWrap (sysCall env n a) msg s = (r, s')"
  then show "goesThrough env K [Sys n a] s r s'" unfolding goesThrough_def
    by (intro exI [of _ 1]) (auto simp: run granted_now split: sum.splits)
qed

lemma chain_andThen:
  assumes "chain env K cs m" and "chain env K ds n"
  shows "chain env K (cs @ ds) (andThen m n)"
proof (rule chainI)
  fix s :: "'a st" and r s'
  assume r: "andThen m n s = (r, s')"
  obtain q s1 where m: "m s = (q, s1)" by force
  from chainD [OF assms(1) this] obtain i where i: "i \<le> length cs" "trace s1 = rev (take i cs) @ trace s"
    "\<forall>c \<in> set (take (i - 1) cs). K c \<or> granted env (trace s) (trace s1) c" "\<forall>p. q \<noteq> Panic p"
    "q = Ok () \<longrightarrow> i = length cs \<and> (\<forall>c \<in> set cs. K c \<or> granted env (trace s) (trace s1) c)"
    unfolding goesThrough_def by blast
  show "goesThrough env K (cs @ ds) s r s'"
  proof (cases q)
    case (Ok x)
    with r m have n: "n s1 = (r, s')" by (simp add: run)
    from Ok i(5) have c: "i = length cs" "\<forall>c \<in> set cs. K c \<or> granted env (trace s) (trace s1) c" by simp_all
    from chainD [OF assms(2) n] obtain j where j: "j \<le> length ds" "trace s' = rev (take j ds) @ trace s1"
      "\<forall>c \<in> set (take (j - 1) ds). K c \<or> granted env (trace s1) (trace s') c" "\<forall>p. r \<noteq> Panic p"
      "r = Ok () \<longrightarrow> j = length ds \<and> (\<forall>c \<in> set ds. K c \<or> granted env (trace s1) (trace s') c)"
      unfolding goesThrough_def by blast
    from i(2) c(1) have t: "trace s1 = rev cs @ trace s" by simp
    have g1: "\<forall>c \<in> set cs. K c \<or> granted env (trace s) (trace s') c"
      unfolding j(2) using c(2) granted_append by blast
    have g2: "granted env (trace s1) (trace s') x \<Longrightarrow> granted env (trace s) (trace s') x" for x
      unfolding t by (rule granted_since)
    have sub: "set (take (length cs + j - 1) (cs @ ds)) \<subseteq> set cs \<union> set (take (j - 1) ds)"
      using set_take_subset [of "length cs - 1" cs] by (cases j) auto
    have "\<forall>c \<in> set (take (length cs + j - 1) (cs @ ds)). K c \<or> granted env (trace s) (trace s') c"
    proof
      fix x assume "x \<in> set (take (length cs + j - 1) (cs @ ds))"
      with sub have "x \<in> set cs \<or> x \<in> set (take (j - 1) ds)" by blast
      then show "K x \<or> granted env (trace s) (trace s') x" using g1 g2 j(3) by blast
    qed
    moreover have "r = Ok () \<longrightarrow> length cs + j = length (cs @ ds) \<and> (\<forall>c \<in> set (cs @ ds). K c \<or> granted env (trace s) (trace s') c)"
      using j(5) g1 g2 by auto
    moreover have "trace s' = rev (take (length cs + j) (cs @ ds)) @ trace s" using j(2) t by simp
    moreover have "length cs + j \<le> length (cs @ ds)" using j(1) by simp
    ultimately show ?thesis
      unfolding goesThrough_def using j(4) by blast
  next
    case (Err e)
    with r m have "r = Err e" "s' = s1" by (simp_all add: run)
    with i(1-3) show ?thesis unfolding goesThrough_def
      by (intro exI [of _ i]) (auto simp: take_append)
  next
    case (Panic p)
    with i(4) show ?thesis by simp
  qed
qed

section \<open>The contract of the configurators\<close>

text \<open>
  What the tools behind \<^verbatim>\<open>Configurator\<close> have in common: they read, write and run commands, and remove
  nothing; an empty configuration is refused before any call with the error the installation looks
  for; a result is an applicator whose files only root can read.
\<close>

definition nmCall :: "call \<Rightarrow> bool" where
  "nmCall c \<longleftrightarrow> (\<exists>n a. c = Sys n a \<and> n \<in> {''readfile'', ''readdir'', ''mkdirall'', ''writefile'', ''run''})"

lemma nmCall_Sys [simp]: "nmCall (Sys n a) \<longleftrightarrow> n \<in> {''readfile'', ''readdir'', ''mkdirall'', ''writefile'', ''run''}"
  by (simp add: nmCall_def)

definition privateApplicator :: "YipConfig \<Rightarrow> bool" where
  "privateApplicator y \<longleftrightarrow> (\<exists>files. y = applicator files \<and> (\<forall>f \<in> set files. yf_Permissions f = 384))"

locale nm_configurator =
  fixes cfgr :: "NetworkConfig \<Rightarrow> ('o st, YipConfig) go"
  assumes quiet: "emits nmCall (cfgr nc)"
    and empty: "mentries (nc_Config nc) = [] \<Longrightarrow> cfgr nc s = (Err ErrEmptyConfig, s)"
    and root_only: "cfgr nc s = (r, s') \<Longrightarrow> (\<exists>e. r = Err e) \<or> (\<exists>y. r = Ok y \<and> privateApplicator y)"
begin

lemma never_crashes: "cfgr nc s = (r, s') \<Longrightarrow> r \<noteq> Panic p"
  using root_only [of nc s r s'] by auto

lemma result_private: "cfgr nc s = (Ok y, s') \<Longrightarrow> privateApplicator y \<and> mentries (nc_Config nc) \<noteq> []"
  using root_only [of nc s "Ok y" s'] empty [of nc s] by auto

end

lemma privateFile_perm [simp]: "yf_Permissions (privateFile path content) = 384"
  by (simp add: privateFile_def)

lemma privateI: "(\<And>f. f \<in> set files \<Longrightarrow> yf_Permissions f = 384) \<Longrightarrow> privateApplicator (applicator files)"
  by (auto simp: privateApplicator_def)

lemma readConnections_private:
  "readConnections env fs s = (r, s') \<Longrightarrow> (\<exists>e. r = Err e) \<or> (\<exists>files. r = Ok files \<and> (\<forall>f \<in> set files. yf_Permissions f = 384))"
proof (induction fs arbitrary: s r s')
  case Nil
  then show ?case by (auto simp: run)
next
  case (Cons f fs)
  show ?case
  proof (cases "has_suffix (fst f) nmSuffix")
    case True
    let ?c = "Sys ''readfile'' [path_join systemConnectionsDir (fst f)]"
    obtain q t where q: "readConnections env fs (s\<lparr>trace := ?c # trace s\<rparr>) = (q, t)" by force
    from Cons.IH [OF this] Cons.prems True q show ?thesis
      by (auto simp: run split: sum.splits prod.splits outcome.splits)
  qed (use Cons in simp)
qed

lemma collect_private:
  "collectConnections env s = (r, s') \<Longrightarrow> (\<exists>e. r = Err e) \<or> (\<exists>y. r = Ok y \<and> privateApplicator y)"
  unfolding collectConnections_def
  by (auto simp: run split: sum.splits prod.splits outcome.splits dest!: readConnections_private intro!: privateI)

lemma emits_readConnections: "emits nmCall (readConnections env fs)"
  by (induction fs) (auto intro!: emit)

lemma emits_collect: "emits nmCall (collectConnections env)" "emits nmCall (networkYaml env nc)"
  unfolding collectConnections_def networkYaml_def by (intro emit emits_readConnections; simp)+

interpretation nmc: nm_configurator "nmcConfigurator env"
proof unfold_locales
  show "emits nmCall (nmcConfigurator env nc)" for nc
    unfolding nmcConfigurator_def runCommand_def Let_def by (intro emit emits_collect) simp_all
  show "mentries (nc_Config nc) = [] \<Longrightarrow> nmcConfigurator env nc s = (Err ErrEmptyConfig, s)" for nc s
    by (simp add: nmcConfigurator_def networkYaml_def run)
  show "nmcConfigurator env nc s = (r, s') \<Longrightarrow> (\<exists>e. r = Err e) \<or> (\<exists>y. r = Ok y \<and> privateApplicator y)" for nc s r s'
    unfolding nmcConfigurator_def networkYaml_def runCommand_def Let_def
    by (auto simp: run split: sum.splits if_splits dest!: collect_private)
qed

interpretation nmstate: nm_configurator "nmstateConfigurator env"
proof unfold_locales
  show "emits nmCall (nmstateConfigurator env nc)" for nc
    unfolding nmstateConfigurator_def runCommand_def by (intro emit emits_collect) simp_all
  show "mentries (nc_Config nc) = [] \<Longrightarrow> nmstateConfigurator env nc s = (Err ErrEmptyConfig, s)" for nc s
    by (simp add: nmstateConfigurator_def networkYaml_def run)
  show "nmstateConfigurator env nc s = (r, s') \<Longrightarrow> (\<exists>e. r = Err e) \<or> (\<exists>y. r = Ok y \<and> privateApplicator y)" for nc s r s'
    unfolding nmstateConfigurator_def networkYaml_def runCommand_def
    by (auto simp: run split: sum.splits if_splits dest!: collect_private)
qed

interpretation nmconnections: nm_configurator "networkManagerConfigurator env tk"
proof unfold_locales
  show "emits nmCall (networkManagerConfigurator env tk nc)" for nc
    unfolding networkManagerConfigurator_def by (intro emit emits_collect)
  show "mentries (nc_Config nc) = [] \<Longrightarrow> networkManagerConfigurator env tk nc s = (Err ErrEmptyConfig, s)" for nc s
    by (simp add: networkManagerConfigurator_def networkYaml_def run)
  show "networkManagerConfigurator env tk nc s = (r, s') \<Longrightarrow> (\<exists>e. r = Err e) \<or> (\<exists>y. r = Ok y \<and> privateApplicator y)" for nc s r s'
    by (auto simp: networkManagerConfigurator_def networkYaml_def run split: sum.splits if_splits intro!: privateI)
qed

text \<open>The dispatch: one of the configurators, nothing to do, or an error.\<close>

lemma applicator_rule:
  assumes "P (ret noYip)" and "P (nmcConfigurator env nc)" and "P (nmstateConfigurator env nc)"
    and "P (networkManagerConfigurator env tk nc)" and "\<And>e. P (fail e)"
  shows "P (GetNetworkConfigApplicator env tk nc)"
  using assms by (simp add: GetNetworkConfigApplicator_def)

lemma emits_applicator: "emits nmCall (GetNetworkConfigApplicator env tk nc)"
  by (rule applicator_rule) (rule emit nmc.quiet nmstate.quiet nmconnections.quiet)+

lemma applicator_private: "GetNetworkConfigApplicator env tk nc s = (Ok y, s') \<Longrightarrow> y = noYip \<or> privateApplicator y"
  by (rule applicator_rule [where P = "\<lambda>m. m s = (Ok y, s') \<longrightarrow> y = noYip \<or> privateApplicator y", rule_format])
    (auto simp: run dest: nmc.result_private nmstate.result_private nmconnections.result_private)

section \<open>The reset of the network\<close>

definition listConnections :: call where
  "listConnections = Sys ''readdir'' [systemConnectionsDir]"

definition removeApplicator :: call where
  "removeApplicator = Sys ''remove'' [configApplicator]"

definition resetSteps :: "call list" where
  "resetSteps = [removeApplicator, Sys ''run'' findDelete, Sys ''run'' [''nmcli'', ''connection'', ''reload''],
     Sys ''run'' (restartUnit ''NetworkManager.service''),
     Sys ''run'' [''systemctl'', ''start'', ''NetworkManager-wait-online.service''],
     Sys ''run'' (restartUnit ''elemental-system-agent.service'')]"

text \<open>The part of the reset after the listing.\<close>

definition resetRest :: "env \<Rightarrow> ('o st, unit) go" where
  "resetRest env =
     andThen (onErr (sysCall env ''remove'' [configApplicator])
       (\<lambda>e. if isNotExist e then ret () else fail (wrap (''deleting file '' @ inQuotes configApplicator) e)))
    (andThen (orWrap (runCommand env findDelete) (''deleting all '' @ systemConnectionsDir @ ''/*.nmconnection''))
    (andThen (orWrap (runCommand env [''nmcli'', ''connection'', ''reload'']) ''running: nmcli connection reload'')
    (andThen (orWrap (runCommand env (restartUnit ''NetworkManager.service''))
       ''running command: systemctl restart NetworkManager.service'')
    (andThen (orWrap (runCommand env [''systemctl'', ''start'', ''NetworkManager-wait-online.service''])
       ''running command: systemctl start NetworkManager-wait-online.service'')
     (orWrap (runCommand env (restartUnit ''elemental-system-agent.service''))
       ''running command: systemctl restart elemental-system-agent.service'')))))"

lemma ResetNetworkConfig_alt: "ResetNetworkConfig env =
    bnd (orWrap (readDir env systemConnectionsDir) (''reading files in dir '' @ inQuotes systemConnectionsDir))
      (\<lambda>files. if \<not> needsReset files then ret () else resetRest env)"
  by (simp only: ResetNetworkConfig_def resetRest_def)

lemma chain_remove: "chain env (\<lambda>c. c = removeApplicator) [removeApplicator]
    (onErr (sysCall env ''remove'' [configApplicator])
       (\<lambda>e. if isNotExist e then ret () else fail (wrap (''deleting file '' @ inQuotes configApplicator) e)))"
proof (rule chainI)
  fix s :: "'a st" and r s'
  assume "onErr (sysCall env ''remove'' [configApplicator])
       (\<lambda>e. if isNotExist e then ret () else fail (wrap (''deleting file '' @ inQuotes configApplicator) e)) s = (r, s')"
  then show "goesThrough env (\<lambda>c. c = removeApplicator) [removeApplicator] s r s'" unfolding goesThrough_def
    by (intro exI [of _ 1]) (auto simp: run removeApplicator_def split: sum.splits if_splits)
qed

lemma chain_resetRest: "chain env (\<lambda>c. c = removeApplicator) resetSteps (resetRest env)"
proof -
  have "chain env (\<lambda>c. c = removeApplicator) ([removeApplicator] @ [Sys ''run'' findDelete] @
      [Sys ''run'' [''nmcli'', ''connection'', ''reload'']] @ [Sys ''run'' (restartUnit ''NetworkManager.service'')] @
      [Sys ''run'' [''systemctl'', ''start'', ''NetworkManager-wait-online.service'']] @
      [Sys ''run'' (restartUnit ''elemental-system-agent.service'')]) (resetRest env)"
    unfolding resetRest_def runCommand_def by (intro chain_andThen chain_remove chain_one)
  then show ?thesis by (simp add: resetSteps_def)
qed

text \<open>
  The reset of the network takes its steps in the order of the code, each only after the one
  before it was accepted (the removal of the applicator may find nothing). It succeeds when all were
  accepted, or without a step when the listing of the directory shows no connection; it never panics.
\<close>

theorem reset_network_order:
  assumes "ResetNetworkConfig env s = (r, s')"
  shows "\<exists>k \<le> length resetSteps. trace s' = rev (take k resetSteps) @ listConnections # trace s \<and>
    (\<forall>c \<in> set (take (k - 1) resetSteps). c = removeApplicator \<or> granted env (trace s) (trace s') c) \<and>
    (\<forall>p. r \<noteq> Panic p) \<and>
    (r = Ok () \<longrightarrow> (\<exists>files. answer env decodeDir listConnections (trace s) = Inr files \<and>
       (if needsReset files then k = length resetSteps \<and>
          (\<forall>c \<in> set resetSteps. c = removeApplicator \<or> granted env (trace s) (trace s') c)
        else k = 0)))"
proof (cases "answer env decodeDir listConnections (trace s)")
  case (Inl e)
  with assms show ?thesis
    by (intro exI [of _ 0]) (auto simp: ResetNetworkConfig_alt run listConnections_def)
next
  case (Inr files)
  let ?s1 = "s\<lparr>trace := listConnections # trace s\<rparr>"
  show ?thesis
  proof (cases "needsReset files")
    case False
    with Inr assms show ?thesis
      by (intro exI [of _ 0]) (auto simp: ResetNetworkConfig_alt run listConnections_def)
  next
    case True
    with Inr assms have "resetRest env ?s1 = (r, s')"
      by (simp add: ResetNetworkConfig_alt run listConnections_def)
    from chainD [OF chain_resetRest this]
    have "\<exists>k \<le> length resetSteps. trace s' = rev (take k resetSteps) @ listConnections # trace s \<and>
      (\<forall>c \<in> set (take (k - 1) resetSteps). c = removeApplicator \<or> granted env (listConnections # trace s) (trace s') c) \<and>
      (\<forall>p. r \<noteq> Panic p) \<and> (r = Ok () \<longrightarrow> k = length resetSteps \<and>
         (\<forall>c \<in> set resetSteps. c = removeApplicator \<or> granted env (listConnections # trace s) (trace s') c))"
      by (simp add: goesThrough_def)
    then obtain k where k: "k \<le> length resetSteps" "trace s' = rev (take k resetSteps) @ listConnections # trace s"
      "\<forall>c \<in> set (take (k - 1) resetSteps). c = removeApplicator \<or> granted env (listConnections # trace s) (trace s') c"
      "\<forall>p. r \<noteq> Panic p" "r = Ok () \<longrightarrow> k = length resetSteps \<and>
         (\<forall>c \<in> set resetSteps. c = removeApplicator \<or> granted env (listConnections # trace s) (trace s') c)"
      by blast
    have g: "granted env (listConnections # trace s) (trace s') c \<Longrightarrow> granted env (trace s) (trace s') c" for c
      using granted_since [of env "[listConnections]"] by simp
    have "\<forall>c \<in> set (take (k - 1) resetSteps). c = removeApplicator \<or> granted env (trace s) (trace s') c"
      using k(3) g by blast
    moreover have "r = Ok () \<longrightarrow> (\<exists>files. answer env decodeDir listConnections (trace s) = Inr files \<and>
       (if needsReset files then k = length resetSteps \<and>
          (\<forall>c \<in> set resetSteps. c = removeApplicator \<or> granted env (trace s) (trace s') c) else k = 0))"
      using Inr True k(5) g by (intro impI exI [of _ files]) auto
    ultimately show ?thesis using k(1,2,4) by blast
  qed
qed

definition demo_net_env :: env where
  "demo_net_env = demo_env (\<lambda>c. if c = listConnections then Some (RDir [(''eth0.nmconnection'', False)]) else None) []"

theorem reset_network_order_witness:
  "\<exists>r s'. ResetNetworkConfig demo_net_env (start ()) = (r, s') \<and>
     (\<exists>k \<le> length resetSteps. trace s' = rev (take k resetSteps) @ [listConnections]) \<and> (\<forall>p. r \<noteq> Panic p)"
proof -
  obtain r s' where r: "ResetNetworkConfig demo_net_env (start ()) = (r, s')" by force
  from reset_network_order [OF r] show ?thesis using r by (auto simp: start_def)
qed

text \<open>
  C38: after a reset that failed when the connection files were already deleted, the next one finds no
  file and reports success without a step, although one of the commands that make NetworkManager give
  the addresses back, or restart the agent, was never carried out.
\<close>

theorem reset_network_forgotten:
  assumes "ResetNetworkConfig env s = (Err e, s1)"
    and "granted env (trace s) (trace s1) (Sys ''run'' findDelete)"
    and "answer env decodeDir listConnections (trace s1) = Inr files" and "\<not> needsReset files"
  shows "\<exists>s2. ResetNetworkConfig env s1 = (Ok (), s2) \<and> trace s2 = listConnections # trace s1 \<and>
    (\<exists>c \<in> set (drop 2 resetSteps). \<not> granted env (trace s) (trace s2) c)"
proof -
  have "\<exists>c \<in> set (drop 2 resetSteps). \<not> granted env (trace s) (listConnections # trace s1) c"
    using assms(1,2)
    by (auto simp: ResetNetworkConfig_def runCommand_def run resetSteps_def granted_Cons listConnections_def
      restartUnit_def findDelete_def split: sum.splits if_splits)
  moreover have "ResetNetworkConfig env s1 = (Ok (), s1\<lparr>trace := listConnections # trace s1\<rparr>)"
    using assms(3,4) by (simp add: ResetNetworkConfig_alt run listConnections_def)
  ultimately show ?thesis by simp
qed

definition demo_forget_env :: env where
  "demo_forget_env = demo_net_env\<lparr>respond := (\<lambda>t. case t of [] \<Rightarrow> ROk | c # past \<Rightarrow>
     if c = listConnections
     then RDir (if Sys ''run'' findDelete \<in> set past then [] else [(''eth0.nmconnection'', False)])
     else if c = Sys ''run'' [''nmcli'', ''connection'', ''reload''] then RErr (EMsg ''refused'') else ROk)\<rparr>"

theorem reset_network_forgotten_witness:
  "\<exists>e s1 s2. ResetNetworkConfig demo_forget_env (start ()) = (Err e, s1) \<and>
     ResetNetworkConfig demo_forget_env s1 = (Ok (), s2) \<and>
     (\<exists>c \<in> set (drop 2 resetSteps). \<not> granted demo_forget_env [] (trace s2) c)"
proof -
  let ?s1 = "(start ())\<lparr>trace := rev (take 3 resetSteps) @ [listConnections]\<rparr>"
  have "case ResetNetworkConfig demo_forget_env (start ()) of (Err e, s1) \<Rightarrow> s1 = ?s1 | _ \<Rightarrow> False"
    by code_simp
  then have 1: "\<exists>e. ResetNetworkConfig demo_forget_env (start ()) = (Err e, ?s1)"
    by (auto split: prod.splits outcome.splits)
  have 2: "granted demo_forget_env (trace (start ())) (trace ?s1) (Sys ''run'' findDelete)"
    by (simp add: granted_Cons resetSteps_def demo_forget_env_def answer_def decodeAny_def listConnections_def start_def
      removeApplicator_def findDelete_def)
  have 3: "answer demo_forget_env decodeDir listConnections (trace ?s1) = Inr []" by code_simp
  from 1 obtain e where "ResetNetworkConfig demo_forget_env (start ()) = (Err e, ?s1)" by blast
  with reset_network_forgotten [OF this 2 3] show ?thesis by (auto simp: needsReset_def start_def)
qed

end
