(* ===== verification/Install.thy ===== *)
theory Install
  imports NetworkCfg InventoryCtl
begin

text \<open>
  Installation and reset of a machine (\<^verbatim>\<open>pkg/install/install.go\<close>, \<^verbatim>\<open>pkg/elementalcli/elementalcli.go\<close>,
  \<^verbatim>\<open>pkg/util/command_runner.go\<close>): the choice of the disk, the hook that carries the configuration into
  the new system, the call of the \<^verbatim>\<open>elemental\<close> command, and the configuration of the system agent.
\<close>

section \<open>The elemental command\<close>

definition TempCloudInitDir :: string where
  "TempCloudInitDir = ''/tmp/elemental/cloud-init''"

definition formatEV :: "string \<Rightarrow> string \<Rightarrow> string" where
  "formatEV key value = key @ ''='' @ value"

definition mapToInstallEnv :: "Install \<Rightarrow> string list" where
  "mapToInstallEnv conf =
     [formatEV ''ELEMENTAL_INSTALL_TARGET'' (in_Device conf),
      formatEV ''ELEMENTAL_INSTALL_SYSTEM'' (in_SystemURI conf),
      formatEV ''ELEMENTAL_INSTALL_FIRMWARE'' (in_Firmware conf),
      formatEV ''ELEMENTAL_INSTALL_ISO'' (in_ISO conf),
      formatEV ''ELEMENTAL_INSTALL_TTY'' (in_TTY conf),
      formatEV ''ELEMENTAL_INSTALL_DISABLE_BOOT_ENTRY'' (show_bool (in_DisableBootEntry conf)),
      formatEV ''ELEMENTAL_INSTALL_NO_FORMAT'' (show_bool (in_NoFormat conf)),
      formatEV ''ELEMENTAL_POWEROFF'' (show_bool (in_PowerOff conf)),
      formatEV ''ELEMENTAL_REBOOT'' (show_bool (in_Reboot conf)),
      formatEV ''ELEMENTAL_EJECT_CD'' (show_bool (in_EjectCD conf)),
      formatEV ''ELEMENTAL_SNAPSHOTTER_TYPE'' (sn_Type (in_Snapshotter conf)),
      formatEV ''ELEMENTAL_SNAPSHOTTER_MAX_SNAPS'' (show_int (sn_MaxSnaps (in_Snapshotter conf))),
      formatEV ''ELEMENTAL_CLOUD_INIT_PATHS'' TempCloudInitDir]"

definition mapToResetEnv :: "Reset \<Rightarrow> string list" where
  "mapToResetEnv conf =
     [formatEV ''ELEMENTAL_RESET_SYSTEM'' (rs_SystemURI conf),
      formatEV ''ELEMENTAL_RESET_PERSISTENT'' (show_bool (rs_ResetPersistent conf)),
      formatEV ''ELEMENTAL_RESET_OEM'' (show_bool (rs_ResetOEM conf)),
      formatEV ''ELEMENTAL_RESET_DISABLE_BOOT_ENTRY'' (show_bool (rs_DisableBootEntry conf)),
      formatEV ''ELEMENTAL_POWEROFF'' (show_bool (rs_PowerOff conf)),
      formatEV ''ELEMENTAL_REBOOT'' (show_bool (rs_Reboot conf)),
      formatEV ''ELEMENTAL_CLOUD_INIT_PATHS'' TempCloudInitDir]"

text \<open>The call: the arguments, then the variables that are added to the environment.\<close>

definition installCall :: "Install \<Rightarrow> call" where
  "installCall conf = Sys ''exec'' ([''elemental''] @ (if in_Debug conf then [''--debug''] else [])
     @ (if in_ConfigDir conf \<noteq> [] then [''--config-dir'', in_ConfigDir conf] else []) @ [''install'']
     @ mapToInstallEnv conf)"

definition resetCall :: "Reset \<Rightarrow> call" where
  "resetCall conf = Sys ''exec'' ([''elemental''] @ (if rs_Debug conf then [''--debug''] else []) @ [''reset'']
     @ mapToResetEnv conf)"

definition runnerInstall :: "env \<Rightarrow> Install \<Rightarrow> ('o st, unit) go" where
  "runnerInstall env conf = writeObj env (installCall conf)"

definition runnerReset :: "env \<Rightarrow> Reset \<Rightarrow> ('o st, unit) go" where
  "runnerReset env conf = writeObj env (resetCall conf)"

section \<open>The installation device\<close>

definition diskName :: "disk \<Rightarrow> string" where
  "diskName d = ''/dev/'' @ dk_Name d"

definition matchesIn :: "disk \<Rightarrow> DeviceSelectorRequirement \<Rightarrow> bool outcome" where
  "matchesIn d req =
    (if ds_Key req \<noteq> ''Name'' then Err (EMsg (''cannot use In operator on numerical values '' @ ds_Key req))
     else Ok (\<exists>val \<in> set (ds_Values req). val = dk_Name d \<or> val = diskName d))"

definition matchesNotIn :: "disk \<Rightarrow> DeviceSelectorRequirement \<Rightarrow> bool outcome" where
  "matchesNotIn d req = (case matchesIn d req of Ok b \<Rightarrow> Ok (\<not> b) | r \<Rightarrow> r)"

definition indexEmpty :: string where
  "indexEmpty = ''index out of range [0] with length 0''"

text \<open>The size of the disk as the signed integer it is converted to, in the unit of quantities.\<close>

definition diskQuantity :: "disk \<Rightarrow> int" where
  "diskQuantity d = sint (dk_SizeBytes d) * 1000000000"

definition keySize :: "toolkit \<Rightarrow> DeviceSelectorRequirement \<Rightarrow> int outcome" where
  "keySize tk req = (case ds_Values req of
      [] \<Rightarrow> Panic indexEmpty
    | v # _ \<Rightarrow> (case tk_quantity tk v of
        Inl e \<Rightarrow> Err (EMsg (''failed to parse quantity '' @ v)) | Inr q \<Rightarrow> Ok q))"

definition matchesLt :: "toolkit \<Rightarrow> disk \<Rightarrow> DeviceSelectorRequirement \<Rightarrow> bool outcome" where
  "matchesLt tk d req =
    (if ds_Key req \<noteq> ''Size'' then Err (EMsg (''cannot use Lt operator on string values '' @ ds_Key req))
     else (case keySize tk req of Ok q \<Rightarrow> Ok (diskQuantity d < q) | Err e \<Rightarrow> Err e | Panic p \<Rightarrow> Panic p))"

definition matchesGt :: "toolkit \<Rightarrow> disk \<Rightarrow> DeviceSelectorRequirement \<Rightarrow> bool outcome" where
  "matchesGt tk d req =
    (if ds_Key req \<noteq> ''Size'' then Err (EMsg (''cannot use Gt operator on string values '' @ ds_Key req))
     else (case keySize tk req of Ok q \<Rightarrow> Ok (q < diskQuantity d) | Err e \<Rightarrow> Err e | Panic p \<Rightarrow> Panic p))"

definition matches :: "toolkit \<Rightarrow> disk \<Rightarrow> DeviceSelectorRequirement \<Rightarrow> bool outcome" where
  "matches tk d req =
    (if ds_Operator req = ''In'' then matchesIn d req
     else if ds_Operator req = ''NotIn'' then matchesNotIn d req
     else if ds_Operator req = ''Lt'' then matchesLt tk d req
     else if ds_Operator req = ''Gt'' then matchesGt tk d req
     else Err (EMsg (''unknown operator: '' @ ds_Operator req)))"

text \<open>The inner loop: whether every requirement up to the first that fails is met.\<close>

primrec matchesAll :: "toolkit \<Rightarrow> disk \<Rightarrow> DeviceSelectorRequirement list \<Rightarrow> bool outcome" where
  "matchesAll tk d [] = Ok True"
| "matchesAll tk d (sel # selector) = (case matches tk d sel of
      Ok b \<Rightarrow> if b then matchesAll tk d selector else Ok False
    | r \<Rightarrow> r)"

primrec dropDevices :: "toolkit \<Rightarrow> DeviceSelectorRequirement list \<Rightarrow> disk list \<Rightarrow> (string \<times> disk) list
    \<Rightarrow> (string \<times> disk) list outcome" where
  "dropDevices tk selector [] devices = Ok devices"
| "dropDevices tk selector (d # disks) devices = (case matchesAll tk d selector of
      Ok b \<Rightarrow> dropDevices tk selector disks (if b then devices else AList.delete (dk_Name d) devices)
    | Err e \<Rightarrow> Err e | Panic p \<Rightarrow> Panic p)"

text \<open>Which of the devices left the loop over the map meets first is up to the runtime.\<close>

definition findInstallationDevice :: "toolkit \<Rightarrow> disk list \<Rightarrow> DeviceSelectorRequirement list \<Rightarrow> string outcome" where
  "findInstallationDevice tk disks selector =
    (case dropDevices tk selector disks (fold (\<lambda>d. AList.update (dk_Name d) d) disks []) of
       Ok devices \<Rightarrow>
         if devices = [] then Err (EMsg ''no device found matching selector'')
         else Ok (diskName (snd (devices ! (tk_first tk mod length devices))))
     | Err e \<Rightarrow> Err e | Panic p \<Rightarrow> Panic p)"

section \<open>Configuration of the new system\<close>

definition agentStateDir :: string where
  "agentStateDir = ''/var/lib/elemental/agent''"

definition agentConfDir :: string where
  "agentConfDir = ''/etc/rancher/elemental/agent''"

definition registrationConf :: string where
  "registrationConf = ''/oem/registration/config.yaml''"

definition registrationState :: string where
  "registrationState = ''/oem/registration/state.yaml''"

definition connectionInfoFile :: string where
  "connectionInfoFile = path_join agentStateDir ''elemental_connection.json''"

definition yipStage :: "YipFile list \<Rightarrow> YipStage" where
  "yipStage files = \<lparr>yip_If = [], yip_StageName = [], yip_Commands = [], yip_Directories = [], yip_Files = files\<rparr>"

definition yipHookWrap :: "string \<Rightarrow> string \<Rightarrow> string \<Rightarrow> YipStage" where
  "yipHookWrap content path name = (yipStage [privateFile path content])\<lparr>yip_StageName := name\<rparr>"

text \<open>A file that the first boot writes, with its directory, unless it is there (0700 is 448).\<close>

definition firstBootFile :: "string \<Rightarrow> string \<Rightarrow> string \<Rightarrow> YipConfig" where
  "firstBootFile name path content = \<lparr>yip_Name = name, yip_Stages = [(''initramfs'',
     [(yipStage [privateFile path content])\<lparr>yip_If := ''[ ! -f '' @ path @ '' ]'',
        yip_Directories := [(path_dir path, 448)]\<rparr>])]\<rparr>"

text \<open>Marshalling, with the text that an error gets.\<close>

definition marshalled :: "goerr + 'a \<Rightarrow> string \<Rightarrow> goerr + 'a" where
  "marshalled r msg = (case r of Inl e \<Rightarrow> Inl (wrap msg e) | Inr x \<Rightarrow> Inr x)"

definition registrationConfigYip :: "toolkit \<Rightarrow> Registration \<Rightarrow> goerr + string" where
  "registrationConfigYip tk reg =
    (case marshalled (tk_config tk (zeroConfig\<lparr>cf_Elemental := (cf_Elemental zeroConfig)\<lparr>el_Registration := reg\<rparr>\<rparr>))
        ''marshalling registration config'' of
       Inl e \<Rightarrow> Inl e
     | Inr registrationInBytes \<Rightarrow> marshalled (tk_yip tk (firstBootFile ''Include registration config into installed system''
         registrationConf registrationInBytes)) ''marshalling yip registration config'')"

definition registrationStateYip :: "toolkit \<Rightarrow> regstate \<Rightarrow> goerr + string" where
  "registrationStateYip tk st =
    (case marshalled (tk_state tk st) ''marshalling registration state'' of
       Inl e \<Rightarrow> Inl e
     | Inr stateBytes \<Rightarrow> marshalled (tk_yip tk (firstBootFile ''Include registration state into installed system''
         registrationState stateBytes)) ''marshalling yip state config'')"

definition cloudInitYip :: "lib \<Rightarrow> string gomap \<Rightarrow> goerr + string" where
  "cloudInitYip l cloudConfig = marshalled (MarshalCloudConfig l cloudConfig) ''mashalling cloud config''"

definition networkConfigYip :: "env \<Rightarrow> toolkit \<Rightarrow> NetworkConfig \<Rightarrow> ('o st, string) go" where
  "networkConfigYip env tk nc =
     bnd (orWrap (GetNetworkConfigApplicator env tk nc) ''getting network config applicator'') (\<lambda>networkYipConfig.
     lift_sum (marshalled (tk_yip tk networkYipConfig) ''marshalling yip network config''))"

text \<open>An error of the kubeconfig's writer is dropped, its bytes are nil then.\<close>

definition getConnectionInfoBytes :: "toolkit \<Rightarrow> Elemental \<Rightarrow> goerr + string" where
  "getConnectionInfoBytes tk el =
    (let kubeconfigBytes = (case tk_kubeconfig tk \<lparr>kc_Server = sa_URL (el_SystemAgent el),
           kc_CertificateAuthorityData = rg_CACert (el_Registration el), kc_Token = sa_Token (el_SystemAgent el)\<rparr> of
         Inl e \<Rightarrow> [] | Inr bs \<Rightarrow> bs) in
     marshalled (tk_connection_info tk \<lparr>ci_KubeConfig = kubeconfigBytes,
       ci_Namespace = sa_SecretNamespace (el_SystemAgent el), ci_SecretName = sa_SecretName (el_SystemAgent el)\<rparr>)
       ''encoding connectionInfo'')"

definition systemAgentConfig :: AgentConfig where
  "systemAgentConfig = \<lparr>ac_WorkDir = path_join agentStateDir ''work'', ac_AppliedPlanDir = path_join agentStateDir ''applied'',
     ac_LocalPlanDir = path_join agentStateDir ''plans'', ac_RemoteEnabled = True, ac_LocalEnabled = False,
     ac_ConnectionInfoFile = connectionInfoFile, ac_PreserveWorkDir = False\<rparr>"

definition getAgentConfigBytes :: "toolkit \<Rightarrow> goerr + string" where
  "getAgentConfigBytes tk = marshalled (tk_agent tk systemAgentConfig) ''encoding agentConfig''"

definition getAgentConfigEnvs :: "Elemental \<Rightarrow> string" where
  "getAgentConfigEnvs el = ''CATTLE_AGENT_STRICT_VERIFY='' @ [CHR 0x22] @ show_bool (sa_StrictTLSMode (el_SystemAgent el)) @ [CHR 0x22]"

definition elementalSystemAgentYip :: "toolkit \<Rightarrow> Elemental \<Rightarrow> goerr + string" where
  "elementalSystemAgentYip tk el =
    (case marshalled (getConnectionInfoBytes tk el) ''getting connection info'' of
       Inl e \<Rightarrow> Inl e
     | Inr connectionInfoBytes \<Rightarrow> (case marshalled (getAgentConfigBytes tk) ''getting agent config'' of
         Inl e \<Rightarrow> Inl e
       | Inr agentConfigBytes \<Rightarrow> marshalled (tk_yip tk \<lparr>yip_Name = ''Elemental System Agent Configuration'',
           yip_Stages = [(''initramfs'', [yipStage
             [privateFile connectionInfoFile connectionInfoBytes,
              privateFile (path_join agentConfDir ''config.yaml'') agentConfigBytes,
              privateFile (path_join agentConfDir ''envs'') (getAgentConfigEnvs el)]])]\<rparr>)
           ''marshalling yip system agent config''))"

section \<open>Installation and reset\<close>

definition hookFile :: string where
  "hookFile = path_join TempCloudInitDir ''elemental-before-hook.yaml''"

text \<open>The network configuration is left out when it is empty; any other error of it ends the installation.\<close>

definition networkHook :: "env \<Rightarrow> toolkit \<Rightarrow> string \<Rightarrow> NetworkConfig \<Rightarrow> ('o st, YipStage list) go" where
  "networkHook env tk oemMount nc =
     bnd (attempt (networkConfigYip env tk nc)) (\<lambda>r. case r of
       Inl e \<Rightarrow> if errors_is e ''Network config is empty'' then ret []
         else fail (wrap ''getting network config yip'' e)
     | Inr text \<Rightarrow> ret [yipHookWrap text (path_join oemMount ''elemental-network.yaml'') ''Network Config''])"

definition hookConfigurator :: "string \<Rightarrow> YipStage list \<Rightarrow> YipConfig" where
  "hookConfigurator stage stages = \<lparr>yip_Name = ''Elemental Finalize System'', yip_Stages = [(stage, stages)]\<rparr>"

text \<open>The file is created, written by the encoder and closed, whose error is dropped.\<close>

definition writeHookFile :: "env \<Rightarrow> toolkit \<Rightarrow> YipConfig \<Rightarrow> ('o st, unit) go" where
  "writeHookFile env tk hook =
     andThen (orWrap (sysCall env ''mkdirall'' [TempCloudInitDir, ''0700'']) (''creating directory '' @ inQuotes TempCloudInitDir))
    (andThen (orWrap (sysCall env ''create'' [hookFile]) (''creating file '' @ inQuotes hookFile))
    (bnd (attempt (orWrap (bnd (lift_sum (tk_yip tk hook)) (\<lambda>text. sysCall env ''write'' [hookFile, text]))
        ''writing encoded after hook configurator'')) (\<lambda>r.
     bnd (attempt (sysCall env ''close'' [hookFile])) (\<lambda>_. lift_sum r))))"

definition writeHookConfigurator :: "env \<Rightarrow> toolkit \<Rightarrow> string \<Rightarrow> string \<Rightarrow> Config \<Rightarrow> regstate \<Rightarrow> NetworkConfig
    \<Rightarrow> ('o st, unit) go" where
  "writeHookConfigurator env tk stage oemMount config st nc =
     bnd (orWrap (lift_sum (registrationConfigYip tk (el_Registration (cf_Elemental config))))
       ''getting registration config yip'') (\<lambda>registrationYip.
     bnd (orWrap (lift_sum (registrationStateYip tk st)) ''getting registration state config yip'') (\<lambda>stateYip.
     bnd (orWrap (lift_sum (cloudInitYip (lib env) (cf_CloudConfig config))) ''getting cloud-init config yip'') (\<lambda>cloudYip.
     bnd (orWrap (lift_sum (elementalSystemAgentYip tk (cf_Elemental config)))
       ''getting elemental system agent config yip'') (\<lambda>agentYip.
     bnd (networkHook env tk oemMount nc) (\<lambda>networkYip.
     writeHookFile env tk (hookConfigurator stage
       ([yipHookWrap registrationYip (path_join oemMount ''elemental-registration.yaml'') ''Registration Config'',
         yipHookWrap stateYip (path_join oemMount ''elemental-state.yaml'') ''Registration State Config'',
         yipHookWrap cloudYip (path_join oemMount ''elemental-cloud-init.yaml'') ''Cloud Init Config'',
         yipHookWrap agentYip (path_join oemMount ''elemental-system-agent.yaml'') ''Elemental System Agent Config'']
        @ networkYip)))))))"

definition installOf :: "Config \<Rightarrow> Install" where
  "installOf config = el_Install (cf_Elemental config)"

definition chooseDevice :: "toolkit \<Rightarrow> disk list \<Rightarrow> Config \<Rightarrow> ('o st, Config) go" where
  "chooseDevice tk disks config =
    (if in_Device (installOf config) = [] then
       bnd (orWrap (lift_outcome (findInstallationDevice tk disks (in_DeviceSelector (installOf config))))
         ''failed picking installation device'') (\<lambda>deviceName.
       ret (config\<lparr>cf_Elemental := (cf_Elemental config)\<lparr>el_Install := (installOf config)\<lparr>in_Device := deviceName\<rparr>\<rparr>\<rparr>))
     else ret config)"

definition InstallElemental :: "env \<Rightarrow> toolkit \<Rightarrow> disk list \<Rightarrow> Config \<Rightarrow> regstate \<Rightarrow> NetworkConfig \<Rightarrow> ('o st, unit) go" where
  "InstallElemental env tk disks config st nc =
     bnd (chooseDevice tk disks config) (\<lambda>config.
     andThen (orWrap (writeHookConfigurator env tk ''before-install'' ''/run/elemental/oem'' config st nc)
       ''writing before-install configurator'')
     (orWrap (runnerInstall env (installOf config)) ''failed to install elemental''))"

definition cleanupResetPlan :: "env \<Rightarrow> ('o st, unit) go" where
  "cleanupResetPlan env =
     bnd (attempt (sysCall env ''stat'' [LocalResetPlanPath])) (\<lambda>r. case r of
       Inl e \<Rightarrow> if isNotExist e then ret () else fail (wrap (''checking presence of file '' @ inQuotes LocalResetPlanPath) e)
     | Inr _ \<Rightarrow> sysCall env ''remove'' [LocalResetPlanPath])"

definition ResetElemental :: "env \<Rightarrow> toolkit \<Rightarrow> Config \<Rightarrow> regstate \<Rightarrow> NetworkConfig \<Rightarrow> ('o st, unit) go" where
  "ResetElemental env tk config st nc =
     andThen (orWrap (writeHookConfigurator env tk ''before-reset'' ''/oem'' config st nc) ''writing before-reset configurator'')
    (andThen (orWrap (runnerReset env (el_Reset (cf_Elemental config))) ''failed to reset elemental'')
     (orWrap (cleanupResetPlan env) ''cleaning up reset plan''))"

definition ResetElementalNetwork :: "env \<Rightarrow> ('o st, unit) go" where
  "ResetElementalNetwork env = orWrap (ResetNetworkConfig env) ''resetting network config''"

text \<open>
  The configuration of the system agent on a host that is not installed by the toolkit. A directory
  is made when it does not exist; the files are written by the package \<^verbatim>\<open>os\<close>.
\<close>

definition ensureDir :: "env \<Rightarrow> string \<Rightarrow> string \<Rightarrow> ('o st, unit) go" where
  "ensureDir env dir msg =
     bnd (attempt (sysCall env ''stat'' [dir])) (\<lambda>r. case r of
       Inl e \<Rightarrow> whenM (isNotExist e) (orWrap (sysCall env ''mkdirall'' [dir, ''0700'']) msg)
     | Inr _ \<Rightarrow> ret ())"

definition WriteLocalSystemAgentConfig :: "env \<Rightarrow> toolkit \<Rightarrow> Elemental \<Rightarrow> ('o st, unit) go" where
  "WriteLocalSystemAgentConfig env tk el =
     bnd (orWrap (lift_sum (getConnectionInfoBytes tk el)) ''getting connection info'') (\<lambda>connectionInfoBytes.
     andThen (ensureDir env agentStateDir ''creating agent state directory'')
    (andThen (orWrap (sysCall env ''writefile'' [connectionInfoFile, connectionInfoBytes]) ''writing connection info file'')
    (andThen (orWrap (sysCall env ''writefile'' [path_join agentConfDir ''envs'', getAgentConfigEnvs el])
       ''writing agent envs file'')
    (bnd (orWrap (lift_sum (getAgentConfigBytes tk)) ''getting agent config'') (\<lambda>agentConfigBytes.
     andThen (ensureDir env agentConfDir ''creating agent config directory'')
     (orWrap (sysCall env ''writefile'' [path_join agentConfDir ''config.yaml'', agentConfigBytes])
       ''writing agent config file''))))))"

section \<open>The choice of the disk\<close>

text \<open>
  What a selector means, with the size of the disk as it is; and the selectors that can be evaluated:
  an operator on names, or one on sizes with a quantity to compare with.
\<close>

definition meets :: "toolkit \<Rightarrow> disk \<Rightarrow> DeviceSelectorRequirement \<Rightarrow> bool" where
  "meets tk d req \<longleftrightarrow>
    (let named = (\<exists>val \<in> set (ds_Values req). val = dk_Name d \<or> val = diskName d);
         size = uint (dk_SizeBytes d) * 1000000000 in
     if ds_Operator req = ''In'' then named
     else if ds_Operator req = ''NotIn'' then \<not> named
     else (case tk_quantity tk (hd (ds_Values req)) of
         Inl e \<Rightarrow> False
       | Inr q \<Rightarrow> if ds_Operator req = ''Lt'' then size < q else q < size))"

definition readable :: "toolkit \<Rightarrow> DeviceSelectorRequirement \<Rightarrow> bool" where
  "readable tk req \<longleftrightarrow>
     ds_Operator req \<in> {''In'', ''NotIn''} \<and> ds_Key req = ''Name'' \<or>
     ds_Operator req \<in> {''Lt'', ''Gt''} \<and> ds_Key req = ''Size'' \<and> ds_Values req \<noteq> [] \<and>
       (\<exists>q. tk_quantity tk (hd (ds_Values req)) = Inr q)"

text \<open>A comparison of sizes without a value to compare with.\<close>

definition valueless :: "DeviceSelectorRequirement \<Rightarrow> bool" where
  "valueless req \<longleftrightarrow> ds_Operator req \<in> {''Lt'', ''Gt''} \<and> ds_Key req = ''Size'' \<and> ds_Values req = []"

definition suits :: "toolkit \<Rightarrow> DeviceSelectorRequirement list \<Rightarrow> disk \<Rightarrow> bool" where
  "suits tk selector d \<longleftrightarrow> (\<forall>req \<in> set selector. readable tk req \<and> meets tk d req)"

text \<open>How far the reading of the selectors can go wrong.\<close>

definition misread :: "toolkit \<Rightarrow> DeviceSelectorRequirement list \<Rightarrow> 'a outcome \<Rightarrow> bool" where
  "misread tk selector r \<longleftrightarrow> (case r of
      Ok _ \<Rightarrow> True
    | Err e \<Rightarrow> \<exists>req \<in> set selector. \<not> readable tk req \<and> \<not> valueless req
    | Panic p \<Rightarrow> p = indexEmpty \<and> (\<exists>req \<in> set selector. valueless req))"

lemma diskQuantity_small: "uint (dk_SizeBytes d) < 2 ^ 63 \<Longrightarrow> diskQuantity d = uint (dk_SizeBytes d) * 1000000000"
proof -
  assume "uint (dk_SizeBytes d) < 2 ^ 63"
  moreover have "- (2 ^ 63) \<le> uint (dk_SizeBytes d)" by (rule order_trans [OF _ uint_ge_0]) simp
  ultimately have "signed_take_bit 63 (uint (dk_SizeBytes d)) = uint (dk_SizeBytes d)"
    by (intro signed_take_bit_int_eq_self)
  then have "sint (dk_SizeBytes d) = uint (dk_SizeBytes d)" by (simp add: sint_uint)
  then show ?thesis by (simp add: diskQuantity_def)
qed

lemma matches_cases:
  assumes "uint (dk_SizeBytes d) < 2 ^ 63"
  shows "case matches tk d req of
     Ok b \<Rightarrow> readable tk req \<and> b = meets tk d req
   | Err e \<Rightarrow> \<not> readable tk req \<and> \<not> valueless req
   | Panic p \<Rightarrow> p = indexEmpty \<and> valueless req"
  using diskQuantity_small [OF assms]
  by (cases "ds_Values req")
    (auto simp: matches_def matchesIn_def matchesNotIn_def matchesLt_def matchesGt_def keySize_def readable_def
      valueless_def meets_def Let_def split: sum.split)

lemma matchesAll_cases:
  assumes "uint (dk_SizeBytes d) < 2 ^ 63"
  shows "(\<forall>b. matchesAll tk d selector = Ok b \<longrightarrow> b = suits tk selector d) \<and> misread tk selector (matchesAll tk d selector)"
proof (induction selector)
  case Nil
  show ?case by (simp add: suits_def misread_def)
next
  case (Cons req selector)
  with matches_cases [OF assms, of tk req] show ?case
    by (cases "matches tk d req") (auto simp: suits_def misread_def split: outcome.splits)
qed

lemma dropDevices_cases:
  assumes "\<forall>d \<in> set disks. uint (dk_SizeBytes d) < 2 ^ 63"
  shows "(\<forall>left. dropDevices tk selector disks devices = Ok left \<longrightarrow>
      left = filter (\<lambda>(k, _). \<forall>d \<in> set disks. dk_Name d = k \<longrightarrow> suits tk selector d) devices) \<and>
    misread tk selector (dropDevices tk selector disks devices)"
  using assms
proof (induction disks arbitrary: devices)
  case Nil
  then show ?case by (simp add: misread_def)
next
  case (Cons d disks)
  have del: "filter (\<lambda>(k, _). \<forall>d \<in> set disks. dk_Name d = k \<longrightarrow> suits tk selector d)
      (if suits tk selector d then devices else AList.delete (dk_Name d) devices) =
    filter (\<lambda>(k, _). \<forall>d \<in> set (d # disks). dk_Name d = k \<longrightarrow> suits tk selector d) devices"
    by (auto simp: AList.delete_eq case_prod_beta intro!: filter_cong)
  have d: "uint (dk_SizeBytes d) < 2 ^ 63" using Cons.prems by simp
  show ?case
  proof (cases "matchesAll tk d selector")
    case (Ok b)
    with matchesAll_cases [OF d, of tk selector] Cons del show ?thesis by auto
  qed (use matchesAll_cases [OF d, of tk selector] in \<open>simp_all add: misread_def\<close>)
qed

lemma devices_of:
  "set (fold (\<lambda>d. AList.update (dk_Name d) d) disks al) \<subseteq> set al \<union> (\<lambda>d. (dk_Name d, d)) ` set disks"
  "fst ` set (fold (\<lambda>d. AList.update (dk_Name d) d) disks al) = fst ` set al \<union> dk_Name ` set disks"
proof (induction disks arbitrary: al)
  case Nil
  { case 1 then show ?case by simp next case 2 then show ?case by simp }
next
  case (Cons d disks)
  { case 1 then show ?case using Cons(1) [of "AList.update (dk_Name d) d al"] update_entries [of "dk_Name d" d al] by auto
  next case 2 then show ?case using Cons(2) [of "AList.update (dk_Name d) d al"] by (simp add: dom_update) }
qed

text \<open>
  C36: with disks below 8 EiB, the device that is found is a disk of the machine for which every
  selector could be read and is met by its real size, whatever entry the loop over the map meets
  first. That none matches is said only when no disk meets every selector (or shares its name with
  one that does not); every other error is of a selector that cannot be read. The only panic is that
  of a comparison of sizes that was given no value.
\<close>

theorem findInstallationDevice_spec:
  assumes "\<forall>d \<in> set disks. uint (dk_SizeBytes d) < 2 ^ 63"
  shows "case findInstallationDevice tk disks selector of
     Ok device \<Rightarrow> \<exists>d \<in> set disks. device = diskName d \<and> (\<forall>req \<in> set selector. readable tk req \<and> meets tk d req)
   | Err e \<Rightarrow> (\<exists>req \<in> set selector. \<not> readable tk req \<and> \<not> valueless req) \<or>
       e = EMsg ''no device found matching selector'' \<and>
       (\<forall>d \<in> set disks. \<exists>d' \<in> set disks. dk_Name d' = dk_Name d \<and> \<not> (\<forall>req \<in> set selector. readable tk req \<and> meets tk d' req))
   | Panic p \<Rightarrow> p = indexEmpty \<and> (\<exists>req \<in> set selector. valueless req)"
proof -
  let ?all = "fold (\<lambda>d. AList.update (dk_Name d) d) disks []"
  let ?left = "filter (\<lambda>(k, _). \<forall>d \<in> set disks. dk_Name d = k \<longrightarrow> suits tk selector d) ?all"
  note d = dropDevices_cases [OF assms, of tk selector ?all]
  show ?thesis
  proof (cases "dropDevices tk selector disks ?all")
    case (Ok left)
    with d have l: "left = ?left" by blast
    show ?thesis
    proof (cases "?left = []")
      case True
      then have "k \<in> fst ` set ?all \<Longrightarrow> \<exists>d' \<in> set disks. dk_Name d' = k \<and> \<not> suits tk selector d'" for k
        by (auto simp: filter_empty_conv)
      then have "\<forall>d \<in> set disks. \<exists>d' \<in> set disks. dk_Name d' = dk_Name d \<and> \<not> suits tk selector d'"
        by (simp add: devices_of(2))
      with True Ok l show ?thesis by (simp add: findInstallationDevice_def suits_def)
    next
      case False
      let ?x = "?left ! (tk_first tk mod length ?left)"
      from False have "?x \<in> set ?left" by (intro nth_mem) simp
      moreover from this have "?x \<in> (\<lambda>d. (dk_Name d, d)) ` set disks"
        using devices_of(1) [of disks "[]"] by auto
      ultimately have "snd ?x \<in> set disks" "suits tk selector (snd ?x)" by auto
      moreover have "findInstallationDevice tk disks selector = Ok (diskName (snd ?x))"
        using False Ok l by (simp add: findInstallationDevice_def)
      ultimately obtain x where "x \<in> set disks" "suits tk selector x"
        "findInstallationDevice tk disks selector = Ok (diskName x)" by blast
      then show ?thesis by (auto simp: suits_def)
    qed
  qed (use d in \<open>simp_all add: findInstallationDevice_def misread_def\<close>)
qed

definition demo_tk :: toolkit where
  "demo_tk = \<lparr>tk_connections = (\<lambda>_. Inr []), tk_yip = (\<lambda>_. Inr ''yip''), tk_config = (\<lambda>_. Inr ''config''),
     tk_state = (\<lambda>_. Inr ''state''), tk_kubeconfig = (\<lambda>_. Inr ''kubeconfig''), tk_connection_info = (\<lambda>_. Inr ''info''),
     tk_agent = (\<lambda>_. Inr ''agent''), tk_quantity = (\<lambda>_. Inr 20000000000000000000), tk_first = 0,
     tk_settings_type = (\<lambda>_. None), tk_settings = (\<lambda>_. Inr), tk_decode_settings = (\<lambda>_. Inr),
     tk_read_config = (\<lambda>_. Inr), tk_read_network = (\<lambda>_. Inr), tk_read_labels = (\<lambda>_. Inr [])\<rparr>"

definition demo_disks :: "disk list" where
  "demo_disks = map (\<lambda>(n, size). \<lparr>dk_Name = n, dk_SizeBytes = size, dk_DriveType = 0, dk_IsRemovable = False,
     dk_StorageController = 0, dk_Model = []\<rparr>) [(''sda'', 10000000000), (''sdb'', 30000000000)]"

definition demo_selector :: "DeviceSelectorRequirement list" where
  "demo_selector = [\<lparr>ds_Key = ''Size'', ds_Operator = ''Gt'', ds_Values = [''20G'']\<rparr>]"

text \<open>Of the two disks only the larger one is above 20 GB; a selector without a value makes the program panic.\<close>

theorem findInstallationDevice_spec_witness:
  "findInstallationDevice demo_tk demo_disks demo_selector = Ok ''/dev/sdb'' \<and>
   (\<exists>d \<in> set demo_disks. ''/dev/sdb'' = diskName d \<and> (\<forall>req \<in> set demo_selector. readable demo_tk req \<and> meets demo_tk d req)) \<and>
   findInstallationDevice demo_tk demo_disks [(hd demo_selector)\<lparr>ds_Values := []\<rparr>] = Panic indexEmpty"
proof -
  have 1: "\<forall>d \<in> set demo_disks. uint (dk_SizeBytes d) < 2 ^ 63" by (simp add: demo_disks_def)
  have 2: "findInstallationDevice demo_tk demo_disks demo_selector = Ok ''/dev/sdb''" by code_simp
  have "case findInstallationDevice demo_tk demo_disks [(hd demo_selector)\<lparr>ds_Values := []\<rparr>] of Panic p \<Rightarrow> True | _ \<Rightarrow> False"
    by code_simp
  with findInstallationDevice_spec [OF 1, where tk = demo_tk and selector = "[(hd demo_selector)\<lparr>ds_Values := []\<rparr>]"]
  have 3: "findInstallationDevice demo_tk demo_disks [(hd demo_selector)\<lparr>ds_Values := []\<rparr>] = Panic indexEmpty"
    by (simp split: outcome.splits)
  from findInstallationDevice_spec [OF 1, where tk = demo_tk and selector = demo_selector] 2 3 show ?thesis by simp
qed

text \<open>A selector on the size without a value, met first, always makes the program panic.\<close>

lemma selector_without_value_panics:
  "valueless req \<Longrightarrow> findInstallationDevice tk (d # disks) (req # selector) = Panic indexEmpty"
  by (auto simp: valueless_def findInstallationDevice_def matches_def matchesLt_def matchesGt_def keySize_def)

section \<open>The elemental command\<close>

definition isExec :: "call \<Rightarrow> bool" where
  "isExec c \<longleftrightarrow> (\<exists>argv. c = Sys ''exec'' argv)"

lemma isExec_Sys [simp]: "isExec (Sys n a) \<longleftrightarrow> n = ''exec''"
  by (auto simp: isExec_def)

lemma isExec_calls [simp]: "isExec (installCall i)" "isExec (resetCall x)"
  by (simp_all add: installCall_def resetCall_def)

text \<open>The applicator reads, writes and runs commands; it removes nothing.\<close>

lemma emits_hook:
  assumes "\<And>n a. n \<in> {''readfile'', ''readdir'', ''mkdirall'', ''writefile'', ''run'', ''create'', ''write'', ''close''} \<Longrightarrow> P (Sys n a)"
  shows "emits P (writeHookConfigurator env tk stage oem config st nc)"
proof -
  have a: "emits P (GetNetworkConfigApplicator env tk nc)"
    by (rule emits_mono [OF emits_applicator]) (auto simp: nmCall_def intro: assms)
  have "emits P (networkHook env tk oem nc)"
    unfolding networkHook_def networkConfigYip_def by (intro emit a)
  moreover have "emits P (writeHookFile env tk hook)" for hook
    unfolding writeHookFile_def by (intro emit assms) auto
  ultimately show ?thesis
    unfolding writeHookConfigurator_def by (intro emit)
qed

lemma hook_file_written:
  "writeHookFile env tk hook s = (Ok (), s') \<Longrightarrow>
    \<exists>text. tk_yip tk hook = Inr text \<and> granted env (trace s) (trace s') (Sys ''write'' [hookFile, text])"
  by (auto simp: writeHookFile_def run granted_Cons split: sum.splits) 

text \<open>The stages that the hook has in any case.\<close>

definition hookStages :: "string list" where
  "hookStages = [''Registration Config'', ''Registration State Config'', ''Cloud Init Config'', ''Elemental System Agent Config'']"

definition hookWritten :: "env \<Rightarrow> toolkit \<Rightarrow> string \<Rightarrow> call list \<Rightarrow> call list \<Rightarrow> bool" where
  "hookWritten env tk stage t u \<longleftrightarrow> (\<exists>stages text. map yip_StageName (take 4 stages) = hookStages \<and>
     tk_yip tk (hookConfigurator stage stages) = Inr text \<and> granted env t u (Sys ''write'' [hookFile, text]))"

lemma hook_written:
  assumes "writeHookConfigurator env tk stage oem config st nc s = (Ok (), s')"
  shows "hookWritten env tk stage (trace s) (trace s')"
proof -
  from assms obtain ry sy cy ay ny s1 where n: "networkHook env tk oem nc s = (Ok ny, s1)"
    and w: "writeHookFile env tk (hookConfigurator stage
       ([yipHookWrap ry (path_join oem ''elemental-registration.yaml'') ''Registration Config'',
         yipHookWrap sy (path_join oem ''elemental-state.yaml'') ''Registration State Config'',
         yipHookWrap cy (path_join oem ''elemental-cloud-init.yaml'') ''Cloud Init Config'',
         yipHookWrap ay (path_join oem ''elemental-system-agent.yaml'') ''Elemental System Agent Config'']
        @ ny)) s1 = (Ok (), s')"
    by (auto simp: writeHookConfigurator_def run split: sum.splits prod.splits outcome.splits)
  have "emits (\<lambda>_. True) (networkHook env tk oem nc)"
    unfolding networkHook_def networkConfigYip_def by (intro emit emits_mono [OF emits_applicator] TrueI)
  then obtain cs where "trace s1 = cs @ trace s" using n emitsD by blast
  with hook_file_written [OF w] granted_since show ?thesis
    unfolding hookWritten_def
    by (intro exI [of _ "[yipHookWrap ry (path_join oem ''elemental-registration.yaml'') ''Registration Config'',
         yipHookWrap sy (path_join oem ''elemental-state.yaml'') ''Registration State Config'',
         yipHookWrap cy (path_join oem ''elemental-cloud-init.yaml'') ''Cloud Init Config'',
         yipHookWrap ay (path_join oem ''elemental-system-agent.yaml'') ''Elemental System Agent Config'']
        @ ny"]) (auto simp: hookStages_def yipHookWrap_def)
qed

lemma chooseDevice_device:
  "chooseDevice tk disks config s = (Ok cfg, s') \<Longrightarrow> s' = s \<and> in_Device (installOf cfg) \<noteq> []"
  by (auto simp: chooseDevice_def run installOf_def findInstallationDevice_def diskName_def
    split: if_splits outcome.splits)

lemma chooseDevice_state: "snd (chooseDevice tk disks config s) = s"
  by (simp add: chooseDevice_def run split: outcome.split)

text \<open>
  C35: \<^verbatim>\<open>elemental install\<close> runs at most once and as the last call, for a device that is named or was
  chosen, and only after the hook with the registration, its state, the cloud-config and the system
  agent was completely written; the installation succeeds exactly when the command was accepted.
\<close>

theorem install_after_hook:
  assumes "InstallElemental env tk disks config st nc s = (r, s')"
  shows "(\<exists>cs. trace s' = cs @ trace s \<and> list_all (\<lambda>c. \<not> isExec c) cs \<and> r \<noteq> Ok ()) \<or>
    (\<exists>cs cfg. trace s' = installCall (installOf cfg) # cs @ trace s \<and> list_all (\<lambda>c. \<not> isExec c) cs \<and>
       chooseDevice tk disks config s = (Ok cfg, s) \<and> in_Device (installOf cfg) \<noteq> [] \<and>
       hookWritten env tk ''before-install'' (trace s) (cs @ trace s) \<and>
       (r = Ok () \<longleftrightarrow> granted env (cs @ trace s) (trace s') (installCall (installOf cfg))))"
proof (cases "\<exists>cfg. chooseDevice tk disks config s = (Ok cfg, s)")
  case False
  then have "fst (chooseDevice tk disks config s) \<noteq> Ok cfg" for cfg
    using chooseDevice_state [of tk disks config s] by (metis prod.collapse)
  with assms chooseDevice_state [of tk disks config s] have "s' = s \<and> r \<noteq> Ok ()"
    by (auto simp: InstallElemental_def run split: prod.splits outcome.splits)
  then show ?thesis by simp
next
  case True
  then obtain cfg where c: "chooseDevice tk disks config s = (Ok cfg, s)" by blast
  obtain q s1 where w: "writeHookConfigurator env tk ''before-install'' ''/run/elemental/oem'' cfg st nc s = (q, s1)" by force
  have "emits (\<lambda>c. \<not> isExec c) (writeHookConfigurator env tk ''before-install'' ''/run/elemental/oem'' cfg st nc)"
    by (rule emits_hook) auto
  then obtain cs where cs: "trace s1 = cs @ trace s" "list_all (\<lambda>c. \<not> isExec c) cs" using w emitsD by blast
  show ?thesis
  proof (cases "q = Ok ()")
    case True
    with w have "hookWritten env tk ''before-install'' (trace s) (cs @ trace s)"
      using hook_written cs(1) by metis
    moreover have "trace s' = installCall (installOf cfg) # cs @ trace s"
      and "r = Ok () \<longleftrightarrow> granted env (cs @ trace s) (trace s') (installCall (installOf cfg))"
      using assms c w cs(1) True
      by (auto simp: InstallElemental_def run runnerInstall_def granted_Cons split: sum.splits)
    ultimately show ?thesis using c cs(2) chooseDevice_device [OF c] by blast
  next
    case False
    with assms c w cs(1) have "trace s' = cs @ trace s \<and> r \<noteq> Ok ()"
      by (cases q) (auto simp: InstallElemental_def run)
    with cs show ?thesis by blast
  qed
qed

theorem install_after_hook_witness:
  "\<exists>cfg cs. trace (snd (InstallElemental (demo_env (\<lambda>_. None) []) demo_tk demo_disks zeroConfig emptyState zeroNetworkConfig (start ())))
      = installCall (installOf cfg) # cs \<and> list_all (\<lambda>c. \<not> isExec c) cs \<and> in_Device (installOf cfg) \<noteq> []"
proof -
  let ?m = "InstallElemental (demo_env (\<lambda>_. None) []) demo_tk demo_disks zeroConfig emptyState zeroNetworkConfig (start ())"
  have "fst ?m = Ok ()" by code_simp
  then obtain s' where r: "?m = (Ok (), s')" by (metis prod.collapse)
  from install_after_hook [OF r] r show ?thesis by (auto simp: start_def)
qed

text \<open>
  A reset removes the local reset plan only after \<^verbatim>\<open>elemental reset\<close> was accepted, and runs the
  command only after its hook was written: a reset that failed is tried again at the next boot.
\<close>

theorem reset_keeps_plan:
  assumes "ResetElemental env tk config st nc s = (r, s')"
  shows "\<exists>cs. trace s' = cs @ trace s \<and>
    (Sys ''remove'' [LocalResetPlanPath] \<in> set cs \<or> r = Ok () \<longrightarrow>
       granted env (trace s) (trace s') (resetCall (el_Reset (cf_Elemental config)))) \<and>
    (\<forall>c \<in> set cs. isExec c \<longrightarrow> c = resetCall (el_Reset (cf_Elemental config)) \<and>
       hookWritten env tk ''before-reset'' (trace s) (trace s'))"
proof -
  let ?reset = "resetCall (el_Reset (cf_Elemental config))"
  obtain q s1 where w: "writeHookConfigurator env tk ''before-reset'' ''/oem'' config st nc s = (q, s1)" by force
  have "emits (\<lambda>c. \<not> isExec c \<and> c \<noteq> Sys ''remove'' [LocalResetPlanPath])
      (writeHookConfigurator env tk ''before-reset'' ''/oem'' config st nc)"
    by (rule emits_hook) auto
  then obtain cs where cs: "trace s1 = cs @ trace s" "list_all (\<lambda>c. \<not> isExec c \<and> c \<noteq> Sys ''remove'' [LocalResetPlanPath]) cs"
    using w emitsD by blast
  show ?thesis
  proof (cases "q = Ok ()")
    case False
    with assms w cs have "trace s' = cs @ trace s \<and> r \<noteq> Ok ()"
      by (cases q) (auto simp: ResetElemental_def run)
    with cs(2) show ?thesis by (intro exI [of _ cs]) (auto simp: list_all_iff)
  next
    case True
    have e: "emits (\<lambda>c. \<not> isExec c) (orWrap (cleanupResetPlan env) ''cleaning up reset plan'' :: ('a st, unit) go)"
      unfolding cleanupResetPlan_def by (intro emit) auto
    from w True have hw: "hookWritten env tk ''before-reset'' (trace s) (trace s1)" using hook_written by metis
    have g: "hookWritten env tk ''before-reset'' (trace s) (ds @ trace s1)" for ds
      using hw granted_append unfolding hookWritten_def by blast
    let ?s2 = "s1\<lparr>trace := ?reset # trace s1\<rparr>"
    show ?thesis
    proof (cases "answer env decodeAny ?reset (trace s1)")
      case (Inl e)
      with assms w True have "trace s' = ?reset # trace s1 \<and> r \<noteq> Ok ()"
        by (auto simp: ResetElemental_def run runnerReset_def)
      with cs g [of "[?reset]"] show ?thesis
        by (intro exI [of _ "?reset # cs"]) (auto simp: list_all_iff resetCall_def)
    next
      case (Inr y)
      with assms w True have c: "orWrap (cleanupResetPlan env) ''cleaning up reset plan'' ?s2 = (r, s')"
        by (auto simp: ResetElemental_def run runnerReset_def)
      with emitsD [OF e c] obtain ds where ds: "trace s' = ds @ ?reset # trace s1" "list_all (\<lambda>c. \<not> isExec c) ds"
        by auto
      have "granted env (trace s) (?reset # trace s1) ?reset"
        using Inr cs(1) by (auto simp: granted_Cons)
      then have "granted env (trace s) (trace s') ?reset" using ds(1) granted_append by metis
      moreover have "hookWritten env tk ''before-reset'' (trace s) (trace s')"
        using g [of "ds @ [?reset]"] ds(1) by simp
      ultimately show ?thesis using cs ds
        by (intro exI [of _ "ds @ ?reset # cs"]) (auto simp: list_all_iff)
    qed
  qed
qed

theorem reset_keeps_plan_witness:
  "granted (demo_env (\<lambda>_. None) []) [] (trace (snd (ResetElemental (demo_env (\<lambda>_. None) []) demo_tk zeroConfig emptyState
     zeroNetworkConfig (start ())))) (resetCall zeroReset)"
proof -
  let ?m = "ResetElemental (demo_env (\<lambda>_. None) []) demo_tk zeroConfig emptyState zeroNetworkConfig (start ())"
  have "fst ?m = Ok ()" by code_simp
  then obtain s' where r: "?m = (Ok (), s')" by (metis prod.collapse)
  from reset_keeps_plan [OF r] r show ?thesis by (auto simp: start_def zeroConfig_def)
qed

section \<open>The system agent of a host without the toolkit\<close>

definition envsFile :: string where
  "envsFile = path_join agentConfDir ''envs''"

text \<open>
  C39: on a host where the directory of the agent's configuration does not exist, so that no file can
  be written in it before it is made, the configuration of the system agent fails, and the directory
  is not made: the code makes it only after it has written the first file into it.
\<close>

theorem agent_config_fresh_host:
  assumes "\<forall>t. Sys ''mkdirall'' [agentConfDir, ''0700''] \<notin> set t \<longrightarrow>
      (\<forall>text. \<exists>e. respond env (Sys ''writefile'' [envsFile, text] # t) = RErr e)"
    and "Sys ''mkdirall'' [agentConfDir, ''0700''] \<notin> set (trace s)"
  shows "\<exists>e s'. WriteLocalSystemAgentConfig env tk el s = (Err e, s') \<and>
    Sys ''mkdirall'' [agentConfDir, ''0700''] \<notin> set (trace s')"
proof -
  let ?N = "\<lambda>t. Sys ''mkdirall'' [agentConfDir, ''0700''] \<notin> set t"
  let ?P = "\<lambda>r s'. (\<forall>p. r \<noteq> Panic p) \<and> ?N (trace s')"
  have w: "\<exists>e. answer env decodeAny (Sys ''writefile'' [path_join agentConfDir ''envs'', content]) t = Inl e"
    if n: "?N t" for t content
  proof -
    from assms(1) n obtain e where "respond env (Sys ''writefile'' [envsFile, content] # t) = RErr e" by blast
    then show ?thesis by (simp add: answer_def envsFile_def)
  qed
  have d: "?N (trace s) \<Longrightarrow> wpre (ensureDir env agentStateDir msg) ?P s" for msg and s :: "'a st"
    by (simp add: ensureDir_def wp agentStateDir_def agentConfDir_def split: sum.split)
  have "wpre (WriteLocalSystemAgentConfig env tk el) (\<lambda>r s'. (\<exists>e. r = Err e) \<and> ?N (trace s')) s"
  proof (cases "getConnectionInfoBytes tk el")
    case (Inr bytes)
    have "wpre (andThen (ensureDir env agentStateDir ''creating agent state directory'')
      (andThen (orWrap (sysCall env ''writefile'' [connectionInfoFile, bytes]) ''writing connection info file'')
      (andThen (orWrap (sysCall env ''writefile'' [path_join agentConfDir ''envs'', getAgentConfigEnvs el])
        ''writing agent envs file'') m))) (\<lambda>r s'. (\<exists>e. r = Err e) \<and> ?N (trace s')) s" for m
    proof (rule wpre_andThenI [OF d [OF assms(2)]])
      fix s' :: "'a st" and x :: unit
      assume n: "(\<forall>p. Ok x \<noteq> Panic p) \<and> ?N (trace s')"
      then show "wpre (andThen (orWrap (sysCall env ''writefile'' [connectionInfoFile, bytes]) ''writing connection info file'')
        (andThen (orWrap (sysCall env ''writefile'' [path_join agentConfDir ''envs'', getAgentConfigEnvs el])
          ''writing agent envs file'') m)) (\<lambda>r s'. (\<exists>e. r = Err e) \<and> ?N (trace s')) s'"
        using w [of "Sys ''writefile'' [connectionInfoFile, bytes] # trace s'" "getAgentConfigEnvs el"]
        by (auto simp: wp split: sum.split)
    qed auto
    with Inr show ?thesis by (simp add: WriteLocalSystemAgentConfig_def wp_bnd wp_orWrap wp_lift_sum)
  qed (use assms(2) in \<open>simp add: WriteLocalSystemAgentConfig_def wp\<close>)
  then show ?thesis by (auto simp: wpre_def split: prod.splits)
qed

definition demo_fresh_env :: env where
  "demo_fresh_env = (demo_env (\<lambda>_. None) [])\<lparr>respond := (\<lambda>t. case t of
      Sys n (f # _) # past \<Rightarrow>
        if n = ''writefile'' \<and> f = envsFile \<and> Sys ''mkdirall'' [agentConfDir, ''0700''] \<notin> set past
        then RErr (ESent ''file does not exist'') else ROk
    | _ \<Rightarrow> ROk)\<rparr>"

theorem agent_config_fresh_host_witness:
  "\<exists>e s'. WriteLocalSystemAgentConfig demo_fresh_env demo_tk (cf_Elemental zeroConfig) (start ()) = (Err e, s')"
proof -
  have "\<forall>t. Sys ''mkdirall'' [agentConfDir, ''0700''] \<notin> set t \<longrightarrow>
      (\<forall>text. \<exists>e. respond demo_fresh_env (Sys ''writefile'' [envsFile, text] # t) = RErr e)"
    by (simp add: demo_fresh_env_def)
  from agent_config_fresh_host [OF this, of "start ()" demo_tk "cf_Elemental zeroConfig"] show ?thesis
    by (auto simp: start_def)
qed

end
