(* ===== verification/RegCmd.thy ===== *)
theory RegCmd
  imports Install
begin

text \<open>
  The command of the registering machine (\<^verbatim>\<open>cmd/register/main.go\<close>, \<^verbatim>\<open>showdata.go\<close>): it gathers its
  configuration, registers, stores its state, and installs or resets the machine; and the display of
  the data of the host as label templates.
\<close>

section \<open>Flags\<close>

record cmdFlags =
  fl_version :: bool
  fl_debug :: bool
  fl_reset :: bool
  fl_resetNetwork :: bool
  fl_install :: bool
  fl_disableBootEntry :: bool
  fl_configPath :: string
  fl_statePath :: string
  fl_labelsFile :: string
  fl_labels :: "(string \<times> string) list"

text \<open>Without arguments: the flags, and the configuration some of them are bound to.\<close>

definition defaultFlags :: cmdFlags where
  "defaultFlags = \<lparr>fl_version = False, fl_debug = False, fl_reset = False, fl_resetNetwork = False, fl_install = False,
     fl_disableBootEntry = False, fl_configPath = ''/oem/registration/config.yaml'',
     fl_statePath = ''/oem/registration/state.yaml'', fl_labelsFile = ''/etc/elemental/labels.yaml'', fl_labels = []\<rparr>"

definition updElemental :: "(Elemental \<Rightarrow> Elemental) \<Rightarrow> Config \<Rightarrow> Config" where
  "updElemental f cfg = cfg\<lparr>cf_Elemental := f (cf_Elemental cfg)\<rparr>"

definition registrationOf :: "Config \<Rightarrow> Registration" where
  "registrationOf cfg = el_Registration (cf_Elemental cfg)"

definition updRegistration :: "(Registration \<Rightarrow> Registration) \<Rightarrow> Config \<Rightarrow> Config" where
  "updRegistration f = updElemental (\<lambda>el. el\<lparr>el_Registration := f (el_Registration el)\<rparr>)"

definition defaultConfig :: Config where
  "defaultConfig = updRegistration (\<lambda>rg. rg\<lparr>rg_EmulatedTPMSeed := 1, rg_Auth := ''tpm''\<rparr>) zeroConfig"

section \<open>Configuration\<close>

text \<open>The extension of a path, with its dot.\<close>

definition path_ext :: "string \<Rightarrow> string" where
  "path_ext p = (let b = rev (takeWhile (\<lambda>c. c \<noteq> CHR ''/'') (rev p)) in
     if CHR ''.'' \<in> set b then CHR ''.'' # rev (takeWhile (\<lambda>c. c \<noteq> CHR ''.'') (rev b)) else [])"

definition configType :: "string \<Rightarrow> string" where
  "configType p = dropWhile (\<lambda>c. c = CHR ''.'') (path_ext p)"

definition isLive :: "cmdFlags \<Rightarrow> Config \<Rightarrow> bool" where
  "isLive fl cfg \<longleftrightarrow> fl_install fl \<and> \<not> rg_NoToolkit (registrationOf cfg)"

definition disableBoot :: "Config \<Rightarrow> Config" where
  "disableBoot = updElemental (\<lambda>el. el\<lparr>el_Install := (el_Install el)\<lparr>in_DisableBootEntry := True\<rparr>,
     el_Reset := (el_Reset el)\<lparr>rs_DisableBootEntry := True\<rparr>\<rparr>)"

text \<open>
  \<^verbatim>\<open>viper.MergeInConfig\<close> asks for a type of file it supports, reads the file and merges it; the settings
  it holds are then decoded over the configuration. The result carries the path of the state.
\<close>

definition mergeInConfig :: "env \<Rightarrow> toolkit \<Rightarrow> string \<Rightarrow> ('o st, string) go" where
  "mergeInConfig env tk path =
     andThen (case tk_settings_type tk (configType path) of Some e \<Rightarrow> fail e | None \<Rightarrow> ret ())
    (bnd (sysText env ''readfile'' [path]) (\<lambda>text. lift_sum (tk_settings tk (configType path) text)))"

definition initConfig :: "env \<Rightarrow> toolkit \<Rightarrow> cmdFlags \<Rightarrow> Config \<Rightarrow> ('o st, Config \<times> string) go" where
  "initConfig env tk fl cfg =
    (if fl_install fl \<and> fl_reset fl then fail (EMsg ''--install and --reset flags are mutually exclusive'')
     else
       let configPath = (if isLive fl cfg then ''/run/initramfs/live/livecd-cloud-config.yaml'' else fl_configPath fl);
           statePath = (if isLive fl cfg then ''/tmp/registration/state.yaml'' else fl_statePath fl);
           cfg = (if fl_disableBootEntry fl then disableBoot cfg else cfg) in
       bnd (orWrap (mergeInConfig env tk configPath) ''merging config'') (\<lambda>settings.
       bnd (orWrap (lift_sum (tk_decode_settings tk settings cfg)) ''decoding configuration'') (\<lambda>cfg.
       ret (cfg, statePath))))"

definition addLabels :: "(string \<times> string) list \<Rightarrow> Config \<Rightarrow> Config" where
  "addLabels ls = updRegistration (\<lambda>rg. rg\<lparr>rg_Labels := fold (\<lambda>(k, v) m. mput k v (mmake m)) ls (rg_Labels rg)\<rparr>)"

text \<open>A file of labels that cannot be examined counts as missing.\<close>

definition mergeLocalLabelsFile :: "env \<Rightarrow> toolkit \<Rightarrow> cmdFlags \<Rightarrow> Config \<Rightarrow> ('o st, Config) go" where
  "mergeLocalLabelsFile env tk fl cfg =
     bnd (attempt (sysCall env ''stat'' [fl_labelsFile fl])) (\<lambda>r. case r of
       Inl e \<Rightarrow> ret cfg
     | Inr _ \<Rightarrow>
         bnd (orWrap (sysText env ''readfile'' [fl_labelsFile fl]) (''reading local labels file '' @ inQuotes (fl_labelsFile fl))) (\<lambda>data.
         bnd (orWrap (lift_sum (tk_read_labels tk data)) (''parsing local labels file '' @ inQuotes (fl_labelsFile fl))) (\<lambda>fileLabels.
         ret (addLabels fileLabels cfg))))"

definition getRegistrationState :: "env \<Rightarrow> device \<Rightarrow> string \<Rightarrow> bool \<Rightarrow> ('o st, regstate) go" where
  "getRegistrationState env d statePath reset =
    (if reset then ret emptyState else orWrap (LoadState env d statePath) ''loading registration state'')"

definition errEmptyRegistrationURL :: goerr where
  "errEmptyRegistrationURL = ESent ''registration URL is empty''"

definition getRegistrationCA :: "env \<Rightarrow> Config \<Rightarrow> ('o st, string) go" where
  "getRegistrationCA env cfg =
    (let rg = registrationOf cfg in
     if rg_URL rg = [] then fail errEmptyRegistrationURL
     else bnd (attempt (sysCall env ''stat'' [rg_CACert rg])) (\<lambda>r. case r of
         Inr _ \<Rightarrow> sysText env ''readfile'' [rg_CACert rg]
       | Inl _ \<Rightarrow> ret (rg_CACert rg)))"

section \<open>The command\<close>

text \<open>Up to the state that is stored after the registration, and what the server answered.\<close>

definition gatherConfig :: "env \<Rightarrow> toolkit \<Rightarrow> cmdFlags \<Rightarrow> Config \<Rightarrow> ('o st, Config \<times> string) go" where
  "gatherConfig env tk fl cfg =
     bnd (orWrap (initConfig env tk fl cfg) ''initializing configuration'') (\<lambda>(cfg, statePath).
     bnd (orWrap (mergeLocalLabelsFile env tk fl cfg) ''loading local labels file'') (\<lambda>cfg.
     ret (addLabels (fl_labels fl) cfg, statePath)))"

definition contactServer :: "env \<Rightarrow> device \<Rightarrow> cmdFlags \<Rightarrow> Config \<Rightarrow> string \<Rightarrow> ('o st, bytes \<times> regstate) go" where
  "contactServer env d fl cfg statePath =
     andThen (orWrap (InitState env d statePath) (''initializing state handler on path '' @ inQuotes statePath))
    (bnd (orWrap (getRegistrationState env d statePath (fl_reset fl)) ''getting registration state'') (\<lambda>st.
     bnd (orWrap (getRegistrationCA env cfg) ''validating CA'') (\<lambda>caCert.
     orWrap (withSelf st (Register env d (registrationOf cfg) caCert)) ''registering machine'')))"

definition registerMachine :: "env \<Rightarrow> device \<Rightarrow> cmdFlags \<Rightarrow> Config \<Rightarrow> string \<Rightarrow> ('o st, bytes \<times> regstate) go" where
  "registerMachine env d fl cfg statePath =
     bnd (contactServer env d fl cfg statePath) (\<lambda>(data, st).
     andThen (orWrap (SaveState env d statePath st) ''saving registration state'') (ret (data, st)))"

text \<open>What is done to the machine.\<close>

definition actOnMachine :: "env \<Rightarrow> toolkit \<Rightarrow> disk list \<Rightarrow> cmdFlags \<Rightarrow> Config \<Rightarrow> regstate \<Rightarrow> NetworkConfig \<Rightarrow> ('o st, unit) go" where
  "actOnMachine env tk disks fl cfg st nc =
    (if fl_install fl then
       (if rg_NoToolkit (registrationOf cfg)
        then orWrap (WriteLocalSystemAgentConfig env tk (cf_Elemental cfg)) ''installing local agent config''
        else orWrap (InstallElemental env tk disks cfg st nc) ''installing elemental'')
     else if fl_resetNetwork fl then ResetElementalNetwork env
     else if fl_reset fl then
       (if rg_NoToolkit (registrationOf cfg) then ret ()
        else orWrap (ResetElemental env tk cfg st nc) ''resetting elemental'')
     else ret ())"

definition registerCommand :: "env \<Rightarrow> device \<Rightarrow> toolkit \<Rightarrow> disk list \<Rightarrow> cmdFlags \<Rightarrow> Config \<Rightarrow> ('o st, unit) go" where
  "registerCommand env d tk disks fl cfg =
    (if fl_version fl then ret ()
     else
       bnd (gatherConfig env tk fl cfg) (\<lambda>(cfg, statePath).
       bnd (registerMachine env d fl cfg statePath) (\<lambda>(data, st).
       bnd (orWrap (lift_sum (tk_read_config tk data cfg)) ''parsing returned configuration'') (\<lambda>cfg.
       bnd (orWrap (lift_sum (tk_read_network tk data zeroNetworkConfig)) ''parsing returned network configuration'') (\<lambda>nc.
       actOnMachine env tk disks fl cfg st nc)))))"

text \<open>The disks are read from what the probe returned, which is nothing when it failed.\<close>

definition mainRegister :: "env \<Rightarrow> device \<Rightarrow> toolkit \<Rightarrow> goerr + disk list \<Rightarrow> cmdFlags \<Rightarrow> Config \<Rightarrow> ('o st, unit) go" where
  "mainRegister env d tk blockInfo fl cfg = (case blockInfo of
      Inl e \<Rightarrow> crash nilDereference
    | Inr disks \<Rightarrow> registerCommand env d tk disks fl cfg)"

section \<open>Showing the data\<close>

text \<open>
  The labels go into a map, those of a nested map one after the other; entries that are neither texts
  nor maps are skipped.
\<close>

function labelsInto :: "string \<Rightarrow> tdata \<Rightarrow> (string \<times> string) list \<Rightarrow> (string \<times> string) list" where
  "labelsInto rootKey [] acc = acc"
| "labelsInto rootKey ((key, val) # data) acc =
    (let lbl = (if rootKey = [] then key else rootKey @ ''/'' @ key) in
     labelsInto rootKey data (case val of
       VStr s \<Rightarrow> AList.update (''${'' @ lbl @ ''}'') s acc
     | VMap m \<Rightarrow> fold (\<lambda>(k, v). AList.update k v) (labelsInto lbl m []) acc
     | _ \<Rightarrow> acc))"
  by pat_completeness auto
termination
  by (relation "measure (\<lambda>(_, data, _). size_list (size_prod (\<lambda>_. 0) size) data)") auto

definition map2Labels :: "string \<Rightarrow> tdata \<Rightarrow> (string \<times> string) list" where
  "map2Labels rootKey data = labelsInto rootKey data []"

text \<open>\<^verbatim>\<open>sort.Strings\<close>, and a line of the format \<^verbatim>\<open>%-52s: %q\<close>.\<close>

fun insertString :: "string \<Rightarrow> string list \<Rightarrow> string list" where
  "insertString x [] = [x]"
| "insertString x (y # ys) = (if str_le x y then x # y # ys else y # insertString x ys)"

definition sortStrings :: "string list \<Rightarrow> string list" where
  "sortStrings xs = fold insertString xs []"

definition labelLine :: "(string \<times> string) list \<Rightarrow> string \<Rightarrow> string" where
  "labelLine labels k = k @ replicate (52 - length k) (CHR '' '') @ '': ''
     @ go_quote (case map_of labels k of None \<Rightarrow> [] | Some v \<Rightarrow> v) @ [CHR 0x0A]"

text \<open>
  \<^verbatim>\<open>dumpdata\<close>: the text it prints, or the error it ends the program with. The raw structure as
  reflection sees it and the encoders of the other formats are arguments.
\<close>

definition needed :: "'a option \<Rightarrow> 'a outcome" where
  "needed x = (case x of None \<Rightarrow> Panic nilDereference | Some y \<Rightarrow> Ok y)"

definition dumpedData :: "device \<Rightarrow> gval \<Rightarrow> string \<Rightarrow> bool \<Rightarrow> tdata outcome" where
  "dumpedData d full dataType raw =
    (if dataType = ''hostinfo'' \<or> dataType = ''legacy'' then
       (case Host (dev_probes d) of (hostData, err) \<Rightarrow> (case err of
          Some e \<Rightarrow> Err (wrap ''Cannot retrieve host data'' e)
        | None \<Rightarrow> if raw then Ok (ExtractFullData full)
            else if dataType = ''hostinfo'' then needed (ExtractLabels (dev_nets d) hostData)
            else needed (ExtractLabelsLegacy hostData)))
     else if dataType = ''smbios'' then
       (case DmiDecode (dev_dmidecode d) of
          Inl e \<Rightarrow> Err (wrap ''Cannot retrieve SMBIOS data'' e) | Inr smbiosData \<Rightarrow> Ok smbiosData)
     else Err (EMsg (''Unsupported data type: '' @ dataType)))"

definition dumpdata :: "device \<Rightarrow> gval \<Rightarrow> (string \<Rightarrow> tdata \<Rightarrow> goerr + string) \<Rightarrow> string list \<Rightarrow> string \<Rightarrow> bool
    \<Rightarrow> string outcome" where
  "dumpdata d full encode args format raw =
    (case dumpedData d full (case args of [] \<Rightarrow> ''hostinfo'' | a # _ \<Rightarrow> a) raw of
       Ok mapData \<Rightarrow>
         if format = ''labels'' then
           (let labels = map2Labels [] mapData in
            Ok (concat (map (labelLine labels) (sortStrings (map fst labels)))))
         else if format = ''json'' \<or> format = ''json-compact'' \<or> format = ''yaml'' then
           (case encode format mapData of
              Inl e \<Rightarrow> Err (wrap (''Cannot convert host data to '' @ format) e)
            | Inr serializedData \<Rightarrow> Ok (serializedData @ [CHR 0x0A]))
         else Err (EMsg (''Unsupported output type: '' @ format))
     | Err e \<Rightarrow> Err e | Panic p \<Rightarrow> Panic p)"

section \<open>When the machine is touched\<close>

text \<open>The calls that change the machine: commands, and the files written for the system agent.\<close>

definition machineCall :: "call \<Rightarrow> bool" where
  "machineCall c \<longleftrightarrow> (case c of Sys n a \<Rightarrow> n \<in> {''exec'', ''run'', ''writefile'', ''remove''} | _ \<Rightarrow> False)"

lemma machineCall_simps [simp]:
  "machineCall (Sys n a) \<longleftrightarrow> n \<in> {''exec'', ''run'', ''writefile'', ''remove''}"
  "\<not> machineCall WsRead" "\<not> machineCall (WsWrite p)" "\<not> machineCall (WsDial u t)"
  by (auto simp: machineCall_def)

lemma emits_resp:
  "(\<And>e. emits P (a e)) \<Longrightarrow> emits P b \<Longrightarrow> (\<And>x. emits P (c x)) \<Longrightarrow> (\<And>t x. emits P (f t x)) \<Longrightarrow> (\<And>x. emits P (g x)) \<Longrightarrow>
    (\<And>x. emits P (j x)) \<Longrightarrow> (\<And>e x. emits P (h e x)) \<Longrightarrow>
    emits P (case r of RErr e \<Rightarrow> a e | ROk \<Rightarrow> b | RObjs x \<Rightarrow> c x | RFrame t x \<Rightarrow> f t x | RText x \<Rightarrow> g x | RDir x \<Rightarrow> j x | RDial e x \<Rightarrow> h e x)"
  by (cases r) simp_all

lemma emits_list: "emits P m \<Longrightarrow> (\<And>x xs. emits P (k x xs)) \<Longrightarrow> emits P (case ys of [] \<Rightarrow> m | x # xs \<Rightarrow> k x xs)"
  by (cases ys) simp_all

text \<open>The exchange with the server is frames only.\<close>

definition onWire :: "call \<Rightarrow> bool" where
  "onWire c \<longleftrightarrow> (case c of WsRead \<Rightarrow> True | WsWrite _ \<Rightarrow> True | WsDial _ _ \<Rightarrow> True | _ \<Rightarrow> False)"

lemma onWire_simps [simp]: "onWire WsRead" "onWire (WsWrite p)" "onWire (WsDial u t)"
  by (simp_all add: onWire_def)

lemma emits_wire:
  "emits onWire (WriteMessage env m x)" "emits onWire (ReadMessage env)" "emits onWire (SendJSONData env m json)"
  unfolding WriteMessage_def ReadMessage_alt SendJSONData_def by (intro emit onWire_simps)+

lemma emits_orNil: "emits onWire (orNil x)"
  unfolding orNil_def by (intro emit)

lemma emits_Register: "emits onWire (Register env d rg caCert)"
proof -
  have c: "emits onWire (channelRead env n)" "emits onWire (channelWrite env p)" for n p
    unfolding channelRead_def channelWrite_def by (intro emit emits_resp onWire_simps)+
  have a: "emits onWire (clientAuthenticate env d a)" for a
    by (cases a) (simp_all add: emit c)
  have y: "emits onWire (sendSystemData env d v)" for v
    unfolding sendSystemData_def by (intro emit emits_wire emits_orNil)
  have u: "emits onWire (announce env d v)" for v
    unfolding announce_def sendUpdateData_def by (intro emit emits_wire emits_orNil onWire_simps)
  have s: "emits onWire (sendData env d rg v)" for v
    unfolding sendData_def sendSMBIOSData_def sendAnnotations_def sendLabels_def
    by (intro emit emits_wire y)
  have g: "emits onWire (receive env d v)" for v
    unfolding receive_def getConfig_def by (intro emit emits_wire emits_orNil emits_resp onWire_simps)
  have w: "emits onWire (getAuthenticator env d rg)" "emits onWire (initWebsocketConn env d url caCert b)"
    "emits onWire (authenticate env d b)" "emits onWire (negotiateProtoVersion env)" for url b
    unfolding getAuthenticator_def initWebsocketConn_def authenticate_def negotiateProtoVersion_def
    by (intro emit emits_wire emits_resp emits_list onWire_simps a)+
  show ?thesis
    unfolding Register_def by (intro emit w u s g)
qed

text \<open>Before the machine is touched it is asked for files, registered, and its state stored.\<close>

lemma emits_gather: "emits (\<lambda>c. \<not> machineCall c) (gatherConfig env tk fl cfg)"
proof -
  have "emits (\<lambda>c. \<not> machineCall c) (initConfig env tk fl cfg)"
    unfolding initConfig_def mergeInConfig_def Let_def by (intro emit) auto
  moreover have "emits (\<lambda>c. \<not> machineCall c) (mergeLocalLabelsFile env tk fl cfg)" for cfg
    unfolding mergeLocalLabelsFile_def by (intro emit) auto
  ultimately show ?thesis
    unfolding gatherConfig_def by (intro emit)
qed

lemma emits_save: "emits (\<lambda>c. \<not> machineCall c) (SaveState env d path st)"
  unfolding SaveState_def by (intro emit) auto

lemma emits_contact: "emits (\<lambda>c. \<not> machineCall c) (contactServer env d fl cfg path)"
proof -
  have r: "emits (\<lambda>c. \<not> machineCall c) (Register env d rg caCert)" for rg caCert
    by (rule emits_mono [OF emits_Register]) (auto simp: onWire_def machineCall_def split: call.splits)
  have i: "emits (\<lambda>c. \<not> machineCall c) (InitState env d path)"
    unfolding InitState_def by (intro emit emits_save) auto
  have l: "emits (\<lambda>c. \<not> machineCall c) (getRegistrationState env d path b)" for b
    unfolding getRegistrationState_def LoadState_def Let_def by (intro emit) auto
  have c: "emits (\<lambda>c. \<not> machineCall c) (getRegistrationCA env cfg)"
    unfolding getRegistrationCA_def Let_def by (intro emit) auto
  show ?thesis
    unfolding contactServer_def by (intro emit r i l c)
qed

lemma emits_registering: "emits (\<lambda>c. \<not> machineCall c) (registerMachine env d fl cfg path)"
  unfolding registerMachine_def by (intro emit emits_contact emits_save)

lemma state_saved:
  "SaveState env d path st s = (Ok (), s') \<Longrightarrow>
    \<exists>content. dev_yaml_state d st = Inr content \<and> granted env (trace s) (trace s') (Sys ''write'' [path, content])"
  by (auto simp: SaveState_def run granted_Cons split: sum.splits)

lemma bnd_Ok: "bnd m k s = (Ok x, s') \<Longrightarrow> \<exists>y s1. m s = (Ok y, s1) \<and> k y s1 = (Ok x, s')"
  by (auto simp: run_bnd split: prod.splits outcome.splits)

lemma registering_saved:
  assumes "registerMachine env d fl cfg path s = (Ok (data, st), s')"
  shows "\<exists>content. dev_yaml_state d st = Inr content \<and> granted env (trace s) (trace s') (Sys ''write'' [path, content])"
proof -
  from bnd_Ok [OF assms [unfolded registerMachine_def]] obtain x s1 where x: "contactServer env d fl cfg path s = (Ok x, s1)"
    and y: "(case x of (data, st) \<Rightarrow> andThen (orWrap (SaveState env d path st) ''saving registration state'') (ret (data, st))) s1
      = (Ok (data, st), s')" by blast
  from emitsD [OF emits_contact x] obtain ds where ds: "trace s1 = ds @ trace s" by blast
  have "SaveState env d path st s1 = (Ok (), s')"
    using y by (cases x) (auto simp: run split: prod.splits outcome.splits)
  from state_saved [OF this] show ?thesis unfolding ds using granted_since by blast
qed

text \<open>A run is over after its first step, or after its second, or goes on with the last one.\<close>

lemma registerCommand_gather_ends:
  assumes "registerCommand env d tk disks fl cfg s = (r, s')" and "gatherConfig env tk fl cfg s = (q, s1)"
    and "fl_version fl \<or> (\<forall>x. q \<noteq> Ok x)"
  shows "trace s' = trace s \<or> trace s' = trace s1"
  using assms by (cases q) (auto simp: registerCommand_def run split: if_splits)

lemma registerCommand_register_ends:
  assumes "registerCommand env d tk disks fl cfg s = (r, s')" and "gatherConfig env tk fl cfg s = (Ok (cfg1, path), s1)"
    and "\<not> fl_version fl" and "registerMachine env d fl cfg1 path s1 = (p, s2)"
    and "\<nexists>data st cfg2 nc. p = Ok (data, st) \<and> tk_read_config tk data cfg1 = Inr cfg2 \<and>
      tk_read_network tk data zeroNetworkConfig = Inr nc"
  shows "s' = s2"
  using assms by (cases p) (auto simp: registerCommand_def run split: sum.splits)

lemma registerCommand_acts:
  assumes "registerCommand env d tk disks fl cfg s = (r, s')" and "gatherConfig env tk fl cfg s = (Ok (cfg1, path), s1)"
    and "\<not> fl_version fl" and "registerMachine env d fl cfg1 path s1 = (Ok (data, st), s2)"
    and "tk_read_config tk data cfg1 = Inr cfg2" and "tk_read_network tk data zeroNetworkConfig = Inr nc"
  shows "actOnMachine env tk disks fl cfg2 st nc s2 = (r, s')"
  using assms by (auto simp: registerCommand_def run)

text \<open>
  C34: a run of the command touches the machine only in its last step, after the configuration was
  gathered, the machine was registered and its new state was written to the state file; installation
  and reset at once are refused before any call, unless the run is only to print the version.
\<close>

theorem command_acts_last:
  assumes "registerCommand env d tk disks fl cfg s = (r, s')"
  shows "((\<exists>cs. trace s' = cs @ trace s \<and> list_all (\<lambda>c. \<not> machineCall c) cs) \<or>
    (\<exists>cfg1 path s1 data st s2 cfg2 nc cs content.
       gatherConfig env tk fl cfg s = (Ok (cfg1, path), s1) \<and>
       registerMachine env d fl cfg1 path s1 = (Ok (data, st), s2) \<and>
       trace s2 = cs @ trace s \<and> list_all (\<lambda>c. \<not> machineCall c) cs \<and>
       dev_yaml_state d st = Inr content \<and> granted env (trace s) (trace s2) (Sys ''write'' [path, content]) \<and>
       tk_read_config tk data cfg1 = Inr cfg2 \<and> tk_read_network tk data zeroNetworkConfig = Inr nc \<and>
       actOnMachine env tk disks fl cfg2 st nc s2 = (r, s'))) \<and>
    (fl_install fl \<and> fl_reset fl \<and> \<not> fl_version fl \<longrightarrow> (\<exists>e. r = Err e) \<and> s' = s)"
proof
  show "fl_install fl \<and> fl_reset fl \<and> \<not> fl_version fl \<longrightarrow> (\<exists>e. r = Err e) \<and> s' = s"
    using assms by (auto simp: registerCommand_def gatherConfig_def initConfig_def run)
  obtain q s1 where g: "gatherConfig env tk fl cfg s = (q, s1)" by force
  with emitsD [OF emits_gather] obtain cs where cs: "trace s1 = cs @ trace s" "list_all (\<lambda>c. \<not> machineCall c) cs" by blast
  show "(\<exists>cs. trace s' = cs @ trace s \<and> list_all (\<lambda>c. \<not> machineCall c) cs) \<or>
    (\<exists>cfg1 path s1 data st s2 cfg2 nc cs content.
       gatherConfig env tk fl cfg s = (Ok (cfg1, path), s1) \<and>
       registerMachine env d fl cfg1 path s1 = (Ok (data, st), s2) \<and>
       trace s2 = cs @ trace s \<and> list_all (\<lambda>c. \<not> machineCall c) cs \<and>
       dev_yaml_state d st = Inr content \<and> granted env (trace s) (trace s2) (Sys ''write'' [path, content]) \<and>
       tk_read_config tk data cfg1 = Inr cfg2 \<and> tk_read_network tk data zeroNetworkConfig = Inr nc \<and>
       actOnMachine env tk disks fl cfg2 st nc s2 = (r, s'))"
  proof (cases "\<not> fl_version fl \<and> (\<exists>x. q = Ok x)")
    case False
    with registerCommand_gather_ends [OF assms g] cs(1)
    have "trace s' = [] @ trace s \<or> trace s' = cs @ trace s" by auto
    then show ?thesis using cs(2) by (metis list.pred_inject(1))
  next
    case True
    then obtain cfg1 path where v: "\<not> fl_version fl" and q: "q = Ok (cfg1, path)" by force
    obtain p s2 where m: "registerMachine env d fl cfg1 path s1 = (p, s2)" by force
    with emitsD [OF emits_registering] obtain ds where ds: "trace s2 = ds @ trace s1" "list_all (\<lambda>c. \<not> machineCall c) ds" by blast
    with cs have t: "trace s2 = (ds @ cs) @ trace s" "list_all (\<lambda>c. \<not> machineCall c) (ds @ cs)" by simp_all
    show ?thesis
    proof (cases "\<exists>data st cfg2 nc. p = Ok (data, st) \<and> tk_read_config tk data cfg1 = Inr cfg2 \<and>
        tk_read_network tk data zeroNetworkConfig = Inr nc")
      case False
      with registerCommand_register_ends [OF assms g [unfolded q] v m] t show ?thesis by blast
    next
      case True
      then obtain data st cfg2 nc where p: "p = Ok (data, st)" and c2: "tk_read_config tk data cfg1 = Inr cfg2"
        and n2: "tk_read_network tk data zeroNetworkConfig = Inr nc" by blast
      note act = registerCommand_acts [OF assms g [unfolded q] v m [unfolded p] c2 n2]
      from registering_saved [of env d fl cfg1 path s1 data st s2] m p obtain content
        where w: "dev_yaml_state d st = Inr content" "granted env (trace s1) (trace s2) (Sys ''write'' [path, content])" by blast
      from w(2) have "granted env (trace s) (trace s2) (Sys ''write'' [path, content])"
        unfolding cs(1) by (rule granted_since)
      with w(1) act show ?thesis using g q m p c2 n2 t by blast
    qed
  qed
qed

definition demo_settings_tk :: toolkit where
  "demo_settings_tk = demo_tk\<lparr>tk_decode_settings := (\<lambda>_ cfg. Inr (updRegistration (\<lambda>_. demo_rg) cfg))\<rparr>"

definition demo_reset_flags :: cmdFlags where
  "demo_reset_flags = defaultFlags\<lparr>fl_reset := True\<rparr>"

definition demo_cmd_env :: env where
  "demo_cmd_env = demo_env (\<lambda>c. case c of
      Sys n a \<Rightarrow> if n = ''readfile'' \<or> n = ''read'' then Some (RText ''content'') else None | _ \<Rightarrow> None)
    [[1], [5, 12], [1], [7, 42]]"

text \<open>A run with \<^verbatim>\<open>--reset\<close> on a machine that is not registered yet, through all of its stages.\<close>

theorem command_acts_last_witness:
  "let run = registerCommand demo_cmd_env demo_device demo_settings_tk [] demo_reset_flags defaultConfig (start ()) in
   list_ex machineCall (trace (snd run)) \<and>
   (\<exists>cfg1 path s1 data st s2 cfg2 nc content.
      gatherConfig demo_cmd_env demo_settings_tk demo_reset_flags defaultConfig (start ()) = (Ok (cfg1, path), s1) \<and>
      registerMachine demo_cmd_env demo_device demo_reset_flags cfg1 path s1 = (Ok (data, st), s2) \<and>
      \<not> list_ex machineCall (trace s2) \<and>
      dev_yaml_state demo_device st = Inr content \<and> granted demo_cmd_env [] (trace s2) (Sys ''write'' [path, content]) \<and>
      actOnMachine demo_cmd_env demo_settings_tk [] demo_reset_flags cfg2 st nc s2 = run)"
proof -
  let ?m = "registerCommand demo_cmd_env demo_device demo_settings_tk [] demo_reset_flags defaultConfig (start ())"
  obtain r s' where r: "?m = (r, s')" by force
  have acted: "list_ex machineCall (trace (snd ?m))" by code_simp
  have t: "trace (start ()) = []" by (simp add: start_def)
  from acted r have "\<not> list_all (\<lambda>c. \<not> machineCall c) (trace s')" by (simp add: list_ex_iff list_all_iff)
  then have "\<nexists>cs. trace s' = cs @ trace (start ()) \<and> list_all (\<lambda>c. \<not> machineCall c) cs" by (simp add: t)
  with conjunct1 [OF command_acts_last [OF r]] obtain cfg1 path s1 data st s2 cfg2 nc cs content where
    "gatherConfig demo_cmd_env demo_settings_tk demo_reset_flags defaultConfig (start ()) = (Ok (cfg1, path), s1)"
    "registerMachine demo_cmd_env demo_device demo_reset_flags cfg1 path s1 = (Ok (data, st), s2)"
    "trace s2 = cs @ trace (start ())" "list_all (\<lambda>c. \<not> machineCall c) cs"
    "dev_yaml_state demo_device st = Inr content"
    "granted demo_cmd_env (trace (start ())) (trace s2) (Sys ''write'' [path, content])"
    "actOnMachine demo_cmd_env demo_settings_tk [] demo_reset_flags cfg2 st nc s2 = (r, s')" by blast
  moreover from this(3,4) have "\<not> list_ex machineCall (trace s2)" by (simp add: t list_ex_iff list_all_iff)
  ultimately show ?thesis using acted unfolding Let_def r t by blast
qed

section \<open>Labels\<close>

text \<open>
  The labels of the command line win over those of the file, which win over those of the
  configuration.
\<close>

lemma addLabels_mget: "mget (rg_Labels (registrationOf (addLabels ls cfg))) k =
    (case map_of (rev ls) k of Some v \<Rightarrow> Some v | None \<Rightarrow> mget (rg_Labels (registrationOf cfg)) k)"
proof -
  have "mget (fold (\<lambda>(k, v) m. mput k v (mmake m)) ls m) k =
    (case map_of (rev ls) k of Some v \<Rightarrow> Some v | None \<Rightarrow> mget m k)" for m :: "string gomap"
    by (induction ls arbitrary: m) (auto simp: mget_mput map_add_def split: option.split)
  then show ?thesis
    by (simp add: addLabels_def updRegistration_def updElemental_def registrationOf_def split: option.split)
qed

section \<open>The labels that are shown\<close>

text \<open>Names that can stand in a template, and data whose names are such and occur once in their map.\<close>

definition okName :: "string \<Rightarrow> bool" where
  "okName p \<longleftrightarrow> p \<noteq> [] \<and> CHR ''/'' \<notin> set p \<and> CHR ''}'' \<notin> set p"

definition okPath :: "string list \<Rightarrow> bool" where
  "okPath ps \<longleftrightarrow> (\<forall>p \<in> set ps. okName p)"

function plainKeys :: "tdata \<Rightarrow> bool" where
  "plainKeys [] = True"
| "plainKeys ((key, val) # data) \<longleftrightarrow> okName key \<and> key \<notin> fst ` set data \<and>
     (case val of VMap m \<Rightarrow> plainKeys m | _ \<Rightarrow> True) \<and> plainKeys data"
  by pat_completeness auto
termination
  by (relation "measure (size_list (size_prod (\<lambda>_. 0) size))") auto

lemma okPath_simps [simp]: "okPath []" "okPath (p # ps) \<longleftrightarrow> okName p \<and> okPath ps"
    "okPath (ps @ qs) \<longleftrightarrow> okPath ps \<and> okPath qs"
  by (auto simp: okPath_def)

lemma join_empty: "okPath ps \<Longrightarrow> str_join ps ''/'' = [] \<longleftrightarrow> ps = []"
  by (induction ps "''/''" rule: str_join.induct) (auto simp: okName_def)

lemma join_snoc: "ps \<noteq> [] \<Longrightarrow> str_join (ps @ [k]) ''/'' = str_join ps ''/'' @ ''/'' @ k"
  by (induction ps "''/''" rule: str_join.induct) auto

lemma child_label: "okPath ps \<Longrightarrow>
    (if str_join ps ''/'' = [] then k else str_join ps ''/'' @ ''/'' @ k) = str_join (ps @ [k]) ''/''"
  by (cases "ps = []") (auto simp: join_empty join_snoc)

lemma var_inj: "okPath ps \<Longrightarrow> okPath qs \<Longrightarrow> ps \<noteq> [] \<Longrightarrow> qs \<noteq> [] \<Longrightarrow>
    seg_text (Var ps) = seg_text (Var qs) \<longleftrightarrow> ps = qs"
proof
  assume ok: "okPath ps" "okPath qs" "ps \<noteq> []" "qs \<noteq> []" and "seg_text (Var ps) = seg_text (Var qs)"
  then have "str_split (str_join ps ''/'') ''/'' = str_split (str_join qs ''/'') ''/''" by simp
  with ok show "ps = qs" by (simp add: split_join okPath_def okName_def)
qed simp

lemma GetValueN_empty [simp]: "GetValueN [] ks = VNil"
  by (induction "[] :: tdata" ks rule: GetValueN.induct) (simp_all add: asMap_def)

lemma GetValueN_absent: "map_of d k = None \<Longrightarrow> GetValueN d (k # ks) = VNil"
  by (cases ks) (simp_all add: asMap_def)

lemma GetValueN_cong: "map_of d = map_of d' \<Longrightarrow> GetValueN d ks = GetValueN d' ks"
  by (cases "(d, ks)" rule: GetValueN.cases) simp_all

lemma fold_update_entries: "set (fold (\<lambda>(k, v). AList.update k v) xs al) \<subseteq> set xs \<union> set al"
proof (induction xs arbitrary: al)
  case (Cons x xs)
  obtain k v where "x = (k, v)" by force
  with Cons [of "AList.update k v al"] update_entries [of k v al] show ?case by auto
qed simp

lemma labels_distinct: "distinct (map fst acc) \<Longrightarrow> distinct (map fst (labelsInto rootKey data acc))"
proof (induction rootKey data acc rule: labelsInto.induct)
  case (2 rootKey key val data acc)
  have f: "distinct (map fst al) \<Longrightarrow> distinct (map fst (fold (\<lambda>(k, v). AList.update k v) xs al))"
    for xs al :: "(string \<times> string) list"
    by (induction xs arbitrary: al) (auto simp: distinct_update)
  have "distinct (map fst (case val of
       VStr s \<Rightarrow> AList.update (''${'' @ (if rootKey = [] then key else rootKey @ ''/'' @ key) @ ''}'') s acc
     | VMap m \<Rightarrow> fold (\<lambda>(k, v). AList.update k v) (labelsInto (if rootKey = [] then key else rootKey @ ''/'' @ key) m []) acc
     | _ \<Rightarrow> acc))"
    using 2 f by (auto simp: distinct_update split: tval.split)
  with 2(2) show ?case by (simp only: labelsInto.simps Let_def)
qed simp

lemma map_of_fold_update:
  assumes "distinct (map fst new)"
  shows "map_of (fold (\<lambda>(k, v). AList.update k v) new t) k =
    (case map_of new k of Some v \<Rightarrow> Some v | None \<Rightarrow> map_of t k)"
proof -
  have "map_of (rev new) = map_of new"
    using assms by (simp add: map_of_inject_set rev_map [symmetric])
  then show ?thesis by (simp add: map_of_Fill_general)
qed

lemma labels_sound:
  assumes "plainKeys data" and "okPath ps" and "rootKey = str_join ps ''/''"
    and "(lbl, v) \<in> set (labelsInto rootKey data acc)"
  shows "(lbl, v) \<in> set acc \<or> (\<exists>qs. qs \<noteq> [] \<and> okPath qs \<and> lbl = seg_text (Var (ps @ qs)))"
  using assms
proof (induction rootKey data acc arbitrary: ps lbl v rule: labelsInto.induct)
  case (2 rootKey key val data acc)
  let ?lbl = "if rootKey = [] then key else rootKey @ ''/'' @ key"
  let ?acc = "case val of VStr s \<Rightarrow> AList.update (''${'' @ ?lbl @ ''}'') s acc
     | VMap m \<Rightarrow> fold (\<lambda>(k, v). AList.update k v) (labelsInto ?lbl m []) acc | _ \<Rightarrow> acc"
  have l: "?lbl = str_join (ps @ [key]) ''/''" unfolding 2(5) by (rule child_label [OF 2(4)])
  have k: "okName key" and d: "plainKeys data" and m: "\<And>m. val = VMap m \<Longrightarrow> plainKeys m"
    using 2(3) by auto
  have "(lbl, v) \<in> set (labelsInto rootKey data ?acc)" using 2(6) by (simp only: labelsInto.simps Let_def)
  from 2(2) [OF refl d 2(4,5) this] consider "(lbl, v) \<in> set ?acc"
    | "\<exists>qs. qs \<noteq> [] \<and> okPath qs \<and> lbl = seg_text (Var (ps @ qs))" by blast
  then show ?case
  proof cases
    case 1
    show ?thesis
    proof (cases val)
      case (VStr s)
      with 1 update_entries [of "''${'' @ ?lbl @ ''}''" s acc] have "(lbl, v) \<in> set acc \<or> lbl = ''${'' @ ?lbl @ ''}''" by auto
      then show ?thesis using k unfolding l by (auto intro!: exI [of _ "[key]"])
    next
      case (VMap x)
      with 1 fold_update_entries [of "labelsInto ?lbl x []" acc]
      have "(lbl, v) \<in> set acc \<or> (lbl, v) \<in> set (labelsInto ?lbl x [])" by auto
      moreover have "\<exists>qs. qs \<noteq> [] \<and> okPath qs \<and> lbl = seg_text (Var ((ps @ [key]) @ qs))"
        if "(lbl, v) \<in> set (labelsInto ?lbl x [])"
        using 2(1) [OF refl VMap m [OF VMap] _ l that] 2(4) k by auto
      ultimately show ?thesis using k by (metis append.assoc append_Cons append_Nil list.distinct(1) okPath_simps(2))
    qed (use 1 in auto)
  qed blast
qed simp


lemma nested_none:
  assumes "plainKeys m" and "okPath ps" and "okName key" and "okPath qs" and "qs \<noteq> []"
    and "\<And>rs. rs \<noteq> [] \<Longrightarrow> qs \<noteq> key # rs"
  shows "map_of (labelsInto (str_join (ps @ [key]) ''/'') m []) (seg_text (Var (ps @ qs))) = None"
proof (rule ccontr)
  let ?L = "seg_text (Var (ps @ qs))"
  assume "map_of (labelsInto (str_join (ps @ [key]) ''/'') m []) ?L \<noteq> None"
  then obtain v where "(?L, v) \<in> set (labelsInto (str_join (ps @ [key]) ''/'') m [])"
    by (meson map_of_SomeD not_None_eq)
  from labels_sound [OF assms(1) _ refl this] assms(2,3)
  obtain rs where rs: "rs \<noteq> []" "okPath rs" "?L = seg_text (Var ((ps @ [key]) @ rs))" by auto
  with assms(2-5) have "ps @ qs = (ps @ [key]) @ rs" using var_inj [of "ps @ qs" "(ps @ [key]) @ rs"] by simp
  with assms(6) rs(1) show False by simp
qed

lemma labels_complete:
  assumes "plainKeys data" and "okPath ps" and "rootKey = str_join ps ''/''" and "okPath qs" and "qs \<noteq> []"
  shows "map_of (labelsInto rootKey data acc) (seg_text (Var (ps @ qs))) =
    (case GetValueN data qs of VStr v \<Rightarrow> Some v | _ \<Rightarrow> map_of acc (seg_text (Var (ps @ qs))))"
  using assms
proof (induction rootKey data acc arbitrary: ps qs rule: labelsInto.induct)
  case (2 rootKey key val data acc)
  let ?lbl = "if rootKey = [] then key else rootKey @ ''/'' @ key"
  let ?acc = "case val of VStr s \<Rightarrow> AList.update (''${'' @ ?lbl @ ''}'') s acc
     | VMap m \<Rightarrow> fold (\<lambda>(k, v). AList.update k v) (labelsInto ?lbl m []) acc | _ \<Rightarrow> acc"
  let ?L = "seg_text (Var (ps @ qs))"
  have l: "?lbl = str_join (ps @ [key]) ''/''" unfolding 2(5) by (rule child_label [OF 2(4)])
  have k: "okName key" and d: "plainKeys data" and new: "key \<notin> fst ` set data"
    and m: "\<And>m. val = VMap m \<Longrightarrow> plainKeys m"
    using 2(3) by auto
  from 2(2) [OF refl d 2(4,5,6,7)]
  have tail: "map_of (labelsInto rootKey ((key, val) # data) acc) ?L =
      (case GetValueN data qs of VStr v \<Rightarrow> Some v | _ \<Rightarrow> map_of ?acc ?L)"
    by (simp only: labelsInto.simps Let_def)
  obtain q rs where qs: "qs = q # rs" using 2(7) by (cases qs) auto
  have str: "val = VStr s \<Longrightarrow> map_of ?acc ?L = (if qs = [key] then Some s else map_of acc ?L)" for s
    using var_inj [of "ps @ qs" "ps @ [key]"] 2(4,6,7) k unfolding l by (auto simp: update_conv')
  have map: "val = VMap x \<Longrightarrow> map_of ?acc ?L =
      (case map_of (labelsInto ?lbl x []) ?L of Some v \<Rightarrow> Some v | None \<Rightarrow> map_of acc ?L)" for x
    by (simp only: tval.case) (rule map_of_fold_update, rule labels_distinct, simp)
  show ?case
  proof (cases "q = key")
    case True
    have "map_of data key = None" using new by (simp add: map_of_eq_None_iff)
    then have "GetValueN data qs = VNil" unfolding qs True by (rule GetValueN_absent)
    with tail have t: "map_of (labelsInto rootKey ((key, val) # data) acc) ?L = map_of ?acc ?L" by simp
    show ?thesis
    proof (cases val)
      case (VStr s)
      with t str qs True show ?thesis by (cases rs) (simp_all add: asMap_def)
    next
      case (VMap x)
      show ?thesis
      proof (cases rs)
        case Nil
        with nested_none [OF m [OF VMap] 2(4) k 2(6,7)] qs True
        have "map_of (labelsInto ?lbl x []) ?L = None" unfolding l by simp
        with t map [OF VMap] Nil VMap qs True show ?thesis by simp
      next
        case (Cons r rs')
        from 2(1) [OF refl VMap m [OF VMap] _ l, of rs] 2(4,6) k qs True Cons
        have "map_of (labelsInto ?lbl x []) ?L = (case GetValueN x rs of VStr v \<Rightarrow> Some v | _ \<Rightarrow> None)"
          by (simp split: tval.split)
        with t map [OF VMap] Cons VMap qs True show ?thesis
          by (simp add: asMap_def split: tval.split)
      qed
    qed (use t qs True in \<open>cases rs; simp add: asMap_def\<close>)+
  next
    case False
    then have g: "GetValueN ((key, val) # data) qs = GetValueN data qs" unfolding qs by (cases rs) simp_all
    have e: "map_of ?acc ?L = map_of acc ?L"
    proof (cases val)
      case (VStr s)
      with str False qs show ?thesis by simp
    next
      case (VMap x)
      with nested_none [OF m [OF VMap] 2(4) k 2(6,7)] False qs
      have "map_of (labelsInto ?lbl x []) ?L = None" unfolding l by simp
      with map [OF VMap] show ?thesis by simp
    qed simp_all
    show ?thesis using tail by (simp only: e g)
  qed
qed simp

text \<open>
  C37: every label that \<^verbatim>\<open>dumpdata\<close> shows is the text of a variable, and it shows exactly the variables
  that the server's template engine resolves on the same data (the random ones apart), with the value
  it puts in their place.
\<close>

theorem dump_labels_resolve:
  assumes "plainKeys data"
  shows "(\<forall>lbl \<in> fst ` set (map2Labels [] data). \<exists>qs. qs \<noteq> [] \<and> okPath qs \<and> lbl = seg_text (Var qs)) \<and>
    (\<forall>qs. qs \<noteq> [] \<and> okPath qs \<and> \<not> isRandomTemplate qs \<longrightarrow>
       map_of (map2Labels [] data) (seg_text (Var qs)) =
       (case Decode src (Fill data NewTemplater) (seg_text (Var qs)) n of (Ok v, _) \<Rightarrow> Some v | _ \<Rightarrow> None))"
proof (intro conjI allI impI ballI)
  fix lbl assume "lbl \<in> fst ` set (map2Labels [] data)"
  then obtain v where "(lbl, v) \<in> set (labelsInto [] data [])" by (auto simp: map2Labels_def)
  from labels_sound [OF assms _ _ this, of "[]"]
  show "\<exists>qs. qs \<noteq> [] \<and> okPath qs \<and> lbl = seg_text (Var qs)" by simp
next
  fix qs assume qs: "qs \<noteq> [] \<and> okPath qs \<and> \<not> isRandomTemplate qs"
  have dist: "distinct (map fst data)" using assms
    by (induction data rule: plainKeys.induct) auto
  have "map_of (Fill data NewTemplater) x = map_of data x" for x
    using map_of_Fill [OF dist, of NewTemplater x] by (simp add: NewTemplater_def split: option.splits)
  then have "map_of (Fill data NewTemplater) = map_of data" by (rule ext)
  then have g: "GetValueN (Fill data NewTemplater) qs = GetValueN data qs" by (rule GetValueN_cong)
  have "Decode src (Fill data NewTemplater) (seg_text (Var qs)) n =
      templateToString src (Fill data NewTemplater) qs n"
    using replaceLoop_render [of "[Var qs]" src "Fill data NewTemplater" "[]"] qs
    by (simp add: Decode_def replaceStringData_def seg_ok_def okPath_def okName_def run split: prod.split outcome.split)
  also have "\<dots> = ((case GetValueN data qs of VStr v \<Rightarrow> Ok v | _ \<Rightarrow> Err errValueNotFound), n)"
    using qs g by (simp add: templateToString_def run split: tval.split)
  finally show "map_of (map2Labels [] data) (seg_text (Var qs)) =
      (case Decode src (Fill data NewTemplater) (seg_text (Var qs)) n of (Ok v, _) \<Rightarrow> Some v | _ \<Rightarrow> None)"
    using labels_complete [OF assms, of "[]" "[]" qs "[]"] qs
    by (simp add: map2Labels_def split: tval.split)
qed

definition demo_dump :: tdata where
  "demo_dump = [(''CPU'', VMap [(''Model'', VStr ''x86''), (''Cores'', VNum 4)]), (''Name'', VStr ''host'')]"

theorem dump_labels_resolve_witness:
  "map_of (map2Labels [] demo_dump) (seg_text (Var [''CPU'', ''Model''])) =
     (case Decode demo_src (Fill demo_dump NewTemplater) (seg_text (Var [''CPU'', ''Model''])) 0 of
        (Ok v, _) \<Rightarrow> Some v | _ \<Rightarrow> None) \<and>
   map_of (map2Labels [] demo_dump) ''${CPU/Model}'' = Some ''x86''"
proof
  have p: "plainKeys demo_dump" by (simp add: demo_dump_def okName_def)
  have q: "[''CPU'', ''Model''] \<noteq> [] \<and> okPath [''CPU'', ''Model''] \<and> \<not> isRandomTemplate [''CPU'', ''Model'']"
    by (simp add: okName_def isRandomTemplate_def)
  show "map_of (map2Labels [] demo_dump) (seg_text (Var [''CPU'', ''Model''])) =
     (case Decode demo_src (Fill demo_dump NewTemplater) (seg_text (Var [''CPU'', ''Model''])) 0 of
        (Ok v, _) \<Rightarrow> Some v | _ \<Rightarrow> None)"
    by (rule conjunct2 [OF dump_labels_resolve [OF p], rule_format, OF q])
  show "map_of (map2Labels [] demo_dump) ''${CPU/Model}'' = Some ''x86''" by code_simp
qed

end
