(* ===== verification/Support.thy ===== *)
theory Support
  imports NetworkCfg
begin

text \<open>
  The support tool (\<^verbatim>\<open>cmd/support/main.go\<close>): it copies configuration, applied plans and logs of a
  machine into an archive, as far as each can be had, and takes passwords out of the files it copies
  from directories.
\<close>

section \<open>Passwords\<close>

text \<open>The characters of \<^verbatim>\<open>[\s=\t\:]\<close>; the first of them after a key, at most three.\<close>

definition isSep :: "char \<Rightarrow> bool" where
  "isSep c \<longleftrightarrow> c = CHR '' '' \<or> c = CHR ''='' \<or> c = CHR '':'' \<or> c \<in> {CHR 0x09, CHR 0x0A, CHR 0x0C, CHR 0x0D}"

definition isNl :: "char \<Rightarrow> bool" where
  "isNl c \<longleftrightarrow> c = CHR 0x0A"

definition sepsOf :: "string \<Rightarrow> string" where
  "sepsOf s = takeWhile isSep (take 3 s)"

definition isMatch :: "string \<Rightarrow> string \<Rightarrow> bool" where
  "isMatch key s \<longleftrightarrow> has_prefix s key \<and> sepsOf (drop (length key) s) \<noteq> []"

text \<open>What follows key and separators: the rest of the line, and what comes after it.\<close>

definition afterSeps :: "string \<Rightarrow> string \<Rightarrow> string" where
  "afterSeps key s = drop (length (sepsOf (drop (length key) s))) (drop (length key) s)"

definition stars :: string where
  "stars = ''*****''"

lemma afterSeps_shorter: "isMatch key s \<Longrightarrow> length (afterSeps key s) < length s"
proof -
  assume "isMatch key s"
  then have "sepsOf (drop (length key) s) \<noteq> []" by (simp add: isMatch_def)
  then obtain c cs where c: "sepsOf (drop (length key) s) = c # cs" by (cases "sepsOf (drop (length key) s)") auto
  then have "s \<noteq> []" by (auto simp: sepsOf_def)
  with c show ?thesis by (simp add: afterSeps_def)
qed

text \<open>
  \<^verbatim>\<open>ReplaceAll\<close> with the expression \<^verbatim>\<open>(key)([\s=\t\:]{1,3})(.*)\<close>: matches do not overlap, are taken from
  the left and are as long as possible; a dot is any character but a newline.
\<close>

function redactKey :: "string \<Rightarrow> string \<Rightarrow> string" where
  "redactKey key [] = []"
| "redactKey key (c # s) =
    (if isMatch key (c # s) then key @ sepsOf (drop (length key) (c # s)) @ stars
       @ redactKey key (dropWhile (\<lambda>d. \<not> isNl d) (afterSeps key (c # s)))
     else c # redactKey key s)"
  by pat_completeness auto

termination
proof (relation "measure (length \<circ> snd)")
  fix key c s assume "isMatch key (c # s)"
  from afterSeps_shorter [OF this]
  have "length (dropWhile (\<lambda>d. \<not> isNl d) (afterSeps key (c # s))) < length (c # s)"
    by (meson le_less_trans length_dropWhile_le)
  then show "((key, dropWhile (\<lambda>d. \<not> isNl d) (afterSeps key (c # s))), key, c # s) \<in> measure (length \<circ> snd)" by simp
qed auto

definition redactPasswords :: "string \<Rightarrow> string" where
  "redactPasswords input = redactKey ''password'' (redactKey ''passwd'' input)"

section \<open>Files\<close>

text \<open>What the tool asks of the host besides calls: variables, decoders, name, time and version.\<close>

record supportTools =
  su_kubeconfig :: string
  su_rke_json :: "string \<Rightarrow> string"
  su_rke_yaml :: "string \<Rightarrow> string \<Rightarrow> string"
  su_applied_dir :: "string \<Rightarrow> goerr + string"
  su_hostname :: "goerr + string"
  su_time :: string
  su_version :: string

text \<open>Errors are logged and otherwise ignored.\<close>

definition bestEffort :: "('o st, unit) go \<Rightarrow> ('o st, unit) go" where
  "bestEffort m = onErr m (\<lambda>_. ret ())"

definition fileExists :: "env \<Rightarrow> string \<Rightarrow> ('o st, bool) go" where
  "fileExists env path = bnd (attempt (sysCall env ''stat'' [path])) (\<lambda>r. case r of Inl _ \<Rightarrow> ret False | Inr _ \<Rightarrow> ret True)"

definition writeOut :: "env \<Rightarrow> string \<Rightarrow> string \<Rightarrow> ('o st, unit) go" where
  "writeOut env path content = bestEffort (sysCall env ''writefile'' [path, content])"

definition copyFileWithAltName :: "env \<Rightarrow> string \<Rightarrow> string \<Rightarrow> string \<Rightarrow> ('o st, unit) go" where
  "copyFileWithAltName env sourceFile destPath altName =
     bnd (fileExists env sourceFile) (\<lambda>there. whenM there (bestEffort
      (andThen (sysCall env ''stat'' [sourceFile])
      (bnd (sysText env ''readfile'' [sourceFile]) (\<lambda>content.
       sysCall env ''writefile'' [destPath @ ''/'' @ (if altName \<noteq> [] then altName else path_base sourceFile), content])))))"

definition copyFile :: "env \<Rightarrow> string \<Rightarrow> string \<Rightarrow> ('o st, unit) go" where
  "copyFile env sourceFile destPath = copyFileWithAltName env sourceFile destPath []"

definition copySingleFile :: "env \<Rightarrow> string \<Rightarrow> string \<Rightarrow> ('o st, unit) go" where
  "copySingleFile env src dest = bestEffort
     (bnd (sysText env ''readfile'' [src]) (\<lambda>original.
      andThen (sysCall env ''mkdirall'' [path_dir dest, ''0777''])
      (sysCall env ''writefile'' [dest, redactPasswords original])))"

definition outOfFuel :: string where
  "outOfFuel = ''out of fuel''"

text \<open>
  \<^verbatim>\<open>copyFilesInDir\<close> and \<^verbatim>\<open>copyDir\<close>, which call each other, to a depth; \<^verbatim>\<open>Lstat\<close> answers with the kind of
  the file.
\<close>

primrec copyFilesInDir :: "env \<Rightarrow> nat \<Rightarrow> string \<Rightarrow> string \<Rightarrow> ('o st, unit) go" where
  "copyFilesInDir env 0 src dest = crash outOfFuel"
| "copyFilesInDir env (Suc depth) src dest =
     bnd (attempt (sysText env ''lstat'' [src])) (\<lambda>info. case info of
       Inl _ \<Rightarrow> ret ()
     | Inr kind \<Rightarrow>
         if kind = ''directory'' then
           bnd (attempt (readDir env src)) (\<lambda>contents. case contents of
             Inl _ \<Rightarrow> ret ()
           | Inr fs \<Rightarrow> forEach (\<lambda>(name, _). copyFilesInDir env depth (path_join src name) (path_join dest name)) fs)
         else copySingleFile env src dest)"

section \<open>Logs and commands\<close>

text \<open>
  \<^verbatim>\<open>CombinedOutput\<close>: the output, with the status of a command that could be started; a command that
  could not has none.
\<close>

definition combinedOutput :: "env \<Rightarrow> string list \<Rightarrow> ('o st, string \<times> bool) go" where
  "combinedOutput env argv = bnd (attempt (invoke env (Sys ''output'' argv))) (\<lambda>r. case r of
       Inr (RFrame status out) \<Rightarrow> ret (textOf out, status = 0)
     | _ \<Rightarrow> ret ([], False))"

text \<open>The output is written whether the command failed or not.\<close>

definition keepOutput :: "env \<Rightarrow> string list \<Rightarrow> string \<Rightarrow> ('o st, unit) go" where
  "keepOutput env argv path = bnd (combinedOutput env argv) (\<lambda>(out, _). writeOut env path out)"

definition getServices :: "string list" where
  "getServices = [''elemental-system-agent'', ''rancher-system-agent'', ''k3s'', ''rke2'', ''cos-setup-boot'', ''cos-setup-fs'',
     ''cos-setup-initramfs'', ''cos-setup-network'', ''cos-setup-reconcile'', ''cos-setup-rootfs'', ''cos-immutable-rootfs'',
     ''elemental-setup-boot'', ''elemental-setup-fs'', ''elemental-setup-initramfs'', ''elemental-setup-network'',
     ''elemental-setup-reconcile'', ''elemental-setup-rootfs'', ''elemental-rootfs'', ''elemental'', ''elemental-register'',
     ''elemental-register-install'', ''elemental-register-reset'', ''NetworkManager'']"

definition serviceExists :: "env \<Rightarrow> string \<Rightarrow> ('o st, bool) go" where
  "serviceExists env service =
     bnd (attempt (sysText env ''run-output'' [''systemctl'', ''list-units'', ''--full'', ''-all''])) (\<lambda>r. case r of
       Inl _ \<Rightarrow> ret False
     | Inr out \<Rightarrow> ret (\<exists>line \<in> set (scanLines out). contains line (service @ ''.service'')))"

definition getServiceLog :: "env \<Rightarrow> string \<Rightarrow> string \<Rightarrow> ('o st, unit) go" where
  "getServiceLog env service dest =
     bnd (serviceExists env service) (\<lambda>unit.
     bnd (combinedOutput env [''journalctl'', if unit then ''-u'' else ''-t'', service, ''-o'', ''short-iso'']) (\<lambda>(out, ok).
     whenM ok (writeOut env (dest @ ''/'' @ service @ ''.log'') out)))"

definition k3sKubeConfig :: string where
  "k3sKubeConfig = ''/etc/rancher/k3s/k3s.yaml''"

definition rkeKubeConfig :: string where
  "rkeKubeConfig = ''/etc/rancher/rke2/rke2.yaml''"

definition getKubeConfig :: "env \<Rightarrow> supportTools \<Rightarrow> ('o st, string) go" where
  "getKubeConfig env su =
    (if su_kubeconfig su \<noteq> [] then ret (su_kubeconfig su)
     else
       bnd (fileExists env k3sKubeConfig) (\<lambda>k3s.
       bnd (fileExists env rkeKubeConfig) (\<lambda>rke.
       bnd (fileExists env k3sKubeConfig) (\<lambda>again.
       bnd (if again then fileExists env rkeKubeConfig else ret False) (\<lambda>both.
       if both then fail (EMsg ''both kubeconfig exists for k3s and rke2, maybe the deployment is wrong'')
       else ret (if rke then rkeKubeConfig else if k3s then k3sKubeConfig else []))))))"

definition rkeDefaultKubectl :: string where
  "rkeDefaultKubectl = path_join ''/var/lib/rancher/rke2'' ''/bin/kubectl''"

definition getRKEKubectlPath :: "env \<Rightarrow> supportTools \<Rightarrow> ('o st, string) go" where
  "getRKEKubectlPath env su =
     bnd (fileExists env ''/etc/rancher/rke2/config.yaml.d/50-rancher.yaml'') (\<lambda>there.
     if \<not> there then ret rkeDefaultKubectl
     else bnd (attempt (sysText env ''readfile'' [''/etc/rancher/rke2/config.yaml.d/50-rancher.yaml''])) (\<lambda>r. case r of
       Inl _ \<Rightarrow> ret rkeDefaultKubectl
     | Inr rkeConfigBytes \<Rightarrow>
         (let json = su_rke_json su rkeConfigBytes; yaml = su_rke_yaml su rkeConfigBytes json in
          if json \<noteq> [] then ret (path_join json ''/bin/kubectl'')
          else if yaml \<noteq> [] then ret (path_join yaml ''/bin/kubectl'')
          else ret rkeDefaultKubectl)))"

definition getKubectl :: "env \<Rightarrow> supportTools \<Rightarrow> ('o st, string) go" where
  "getKubectl env su =
     bnd (fileExists env ''/usr/local/bin/kubectl'') (\<lambda>k3s.
     if k3s then ret ''/usr/local/bin/kubectl''
     else bnd (getRKEKubectlPath env su) (\<lambda>rkeKubectlPath.
       bnd (fileExists env rkeKubectlPath) (\<lambda>rke.
       if rke then ret rkeKubectlPath else fail (EMsg ''Cant find kubectl''))))"

definition getSystemAgentAppliedDir :: "env \<Rightarrow> supportTools \<Rightarrow> string \<Rightarrow> ('o st, string) go" where
  "getSystemAgentAppliedDir env su systemAgentConfigPath =
    (let default = ''/var/lib/rancher/agent/applied/'' in
     bnd (fileExists env systemAgentConfigPath) (\<lambda>there.
     if \<not> there then ret default
     else bnd (attempt (sysText env ''readfile'' [systemAgentConfigPath])) (\<lambda>r. case r of
       Inl _ \<Rightarrow> ret default
     | Inr configBytes \<Rightarrow> (case su_applied_dir su configBytes of Inl _ \<Rightarrow> ret default | Inr dir \<Rightarrow> ret dir))))"

definition kubeArg :: "string \<Rightarrow> string" where
  "kubeArg kubectlconfig = ''--kubeconfig='' @ kubectlconfig"

definition getK8sResource :: "env \<Rightarrow> string \<Rightarrow> string \<Rightarrow> string \<Rightarrow> string \<Rightarrow> ('o st, unit) go" where
  "getK8sResource env kubectl conf resource dest =
     keepOutput env [kubectl, kubeArg conf, ''get'', resource, ''--all-namespaces'', ''-o'', ''wide'', ''--show-labels'']
       (dest @ ''/'' @ resource @ ''-resource.log'')"

definition describeK8sResource :: "env \<Rightarrow> string \<Rightarrow> string \<Rightarrow> string \<Rightarrow> string \<Rightarrow> ('o st, unit) go" where
  "describeK8sResource env kubectl conf resource dest =
     keepOutput env [kubectl, kubeArg conf, ''describe'', resource, ''--all-namespaces'']
       (dest @ ''/'' @ resource @ ''-describe.log'')"

definition getK8sPodsLogs :: "env \<Rightarrow> string \<Rightarrow> string \<Rightarrow> string \<Rightarrow> string \<Rightarrow> ('o st, unit) go" where
  "getK8sPodsLogs env kubectl conf namespace dest =
     bnd (combinedOutput env [kubectl, kubeArg conf, ''get'', ''pods'', ''-n'', namespace, ''-o'',
       ''jsonpath='' @ inQuotes ''{.items[*].metadata.name}'']) (\<lambda>(out, _).
     let cleanedOut = replace_all out [CHR 0x27] [] in
     if cleanedOut = [] then ret ()
     else forEach (\<lambda>pod. whenM (pod \<noteq> [])
         (keepOutput env [kubectl, kubeArg conf, ''logs'', pod, ''-n'', namespace]
           (dest @ ''/'' @ namespace @ ''-'' @ pod @ ''-logs.log'')))
       (str_split cleanedOut '' ''))"

section \<open>The run\<close>

definition gatherFiles :: "env \<Rightarrow> supportTools \<Rightarrow> nat \<Rightarrow> string \<Rightarrow> ('o st, unit) go" where
  "gatherFiles env su depth tempDir =
     andThen (writeOut env (tempDir @ ''/elemental-support.version'') (su_version su))
    (andThen (forEach (\<lambda>f. copyFile env f tempDir) [''/etc/os-release'', ''/etc/resolv.conf'', ''/etc/hostname''])
    (andThen (copyFileWithAltName env ''/etc/rancher/elemental/agent/config.yaml'' tempDir ''elemental-agent-config.yaml'')
    (andThen (copyFileWithAltName env ''/etc/rancher/agent/config.yaml'' tempDir ''rancher-agent-config.yaml'')
    (bnd (getSystemAgentAppliedDir env su ''/etc/rancher/agent/config.yaml'') (\<lambda>rancherAgentPlanDir.
     forEach (\<lambda>f. copyFilesInDir env depth f (path_join tempDir f))
       [''/var/lib/elemental/agent/applied/'', rancherAgentPlanDir, ''/system/oem'', ''/oem/''])))))"

definition gatherLogs :: "env \<Rightarrow> string \<Rightarrow> ('o st, unit) go" where
  "gatherLogs env tempDir =
     andThen (forEach (\<lambda>service. getServiceLog env service tempDir) getServices)
    (andThen (keepOutput env [''elemental'', ''version''] (tempDir @ ''/elemental.version''))
    (andThen (keepOutput env [''elemental-operator'', ''operator'', ''--namespace'', ''fake'', ''--operator-image'', ''whatever'']
       (tempDir @ ''/elemental-operator.version''))
     (keepOutput env [''elemental-register'', ''/tmp/nope''] (tempDir @ ''/elemental-register.version''))))"

definition gatherCluster :: "env \<Rightarrow> supportTools \<Rightarrow> string \<Rightarrow> ('o st, unit) go" where
  "gatherCluster env su tempDir =
     bnd (onErr (getKubeConfig env su) (\<lambda>_. ret [])) (\<lambda>conf.
     bnd (onErr (getKubectl env su) (\<lambda>_. ret [])) (\<lambda>kubectl.
     whenM (conf \<noteq> [] \<and> kubectl \<noteq> [])
      (andThen (forEach (\<lambda>crd. andThen (getK8sResource env kubectl conf crd tempDir)
           (describeK8sResource env kubectl conf crd tempDir))
         [''pods'', ''secrets'', ''nodes'', ''services'', ''deployments'', ''plans'', ''apps'', ''jobs''])
       (forEach (\<lambda>namespace. getK8sPodsLogs env kubectl conf namespace tempDir)
         [''cattle-system'', ''kube-system'', ''ingress-nginx'', ''calico-system'', ''cattle-fleet-system'']))))"

text \<open>The packed directory is what the call \<^verbatim>\<open>tar\<close> answers with; a file that could not be created refuses it.\<close>

definition packUp :: "env \<Rightarrow> supportTools \<Rightarrow> string \<Rightarrow> ('o st, unit) go" where
  "packUp env su tempDir =
    (let hostName = (case su_hostname su of Inl _ \<Rightarrow> [] | Inr h \<Rightarrow> h);
         finalFileName = replace_all (hostName @ ''-'' @ su_time su @ ''.tar.gz'') '':'' [] in
     bnd (attempt (sysCall env ''create'' [finalFileName])) (\<lambda>file.
     bnd (attempt (bnd (sysText env ''tar'' [tempDir]) (\<lambda>buf. case file of
         Inl _ \<Rightarrow> fail (ESent ''invalid argument'')
       | Inr _ \<Rightarrow> sysCall env ''write'' [finalFileName, buf]))) (\<lambda>r.
     andThen (case file of Inl _ \<Rightarrow> ret () | Inr _ \<Rightarrow> bestEffort (sysCall env ''close'' [finalFileName]))
       (lift_sum r))))"

text \<open>The temporary directory is removed whatever happens.\<close>

definition runSupport :: "env \<Rightarrow> supportTools \<Rightarrow> nat \<Rightarrow> ('o st, unit) go" where
  "runSupport env su depth =
     bnd (sysText env ''mkdirtemp'' []) (\<lambda>tempDir.
     bnd (attempt (andThen (gatherFiles env su depth tempDir) (andThen (gatherLogs env tempDir)
       (andThen (gatherCluster env su tempDir) (packUp env su tempDir))))) (\<lambda>r.
     andThen (bestEffort (sysCall env ''removeall'' [tempDir])) (lift_sum r)))"

section \<open>What is left after the redaction\<close>

text \<open>After every key with a separator the rest of the line is the five stars.\<close>

definition valueOf :: "string \<Rightarrow> string \<Rightarrow> string" where
  "valueOf key s = takeWhile (\<lambda>d. \<not> isNl d) (afterSeps key s)"

fun clean :: "string \<Rightarrow> string \<Rightarrow> bool" where
  "clean key [] = True"
| "clean key (c # s) \<longleftrightarrow> (isMatch key (c # s) \<longrightarrow> valueOf key (c # s) = stars) \<and> clean key s"

definition goodKey :: "string \<Rightarrow> bool" where
  "goodKey key \<longleftrightarrow> key \<noteq> [] \<and> hd key \<notin> set (tl key) \<and> \<not> isSep (hd key) \<and> CHR ''*'' \<notin> set key"

lemma sepsOf_split: "s = sepsOf s @ drop (length (sepsOf s)) s" "\<forall>c \<in> set (sepsOf s). isSep c" "length (sepsOf s) \<le> 3"
proof -
  obtain y where "take 3 s = sepsOf s @ y" unfolding sepsOf_def by (metis takeWhile_dropWhile_id)
  then have "s = sepsOf s @ y @ drop 3 s" by (metis append.assoc append_take_drop_id)
  then show "s = sepsOf s @ drop (length (sepsOf s)) s" by (metis append_eq_conv_conj append_take_drop_id)
  show "\<forall>c \<in> set (sepsOf s). isSep c" by (auto simp: sepsOf_def dest: set_takeWhileD)
  have "length (sepsOf s) \<le> length (take 3 s)" unfolding sepsOf_def by (rule length_takeWhile_le)
  then show "length (sepsOf s) \<le> 3" by simp
qed

lemma sepsOf_stars: "sepsOf (sepsOf s @ stars @ r) = sepsOf s"
proof -
  have "sepsOf (sp @ stars @ r) = sp" if "\<forall>c \<in> set sp. isSep c" and "length sp \<le> 3" for sp
    using that by (cases "3 - length sp") (simp_all add: sepsOf_def stars_def isSep_def)
  then show ?thesis using sepsOf_split(2,3) by blast
qed

lemma isMatch_char: "isMatch key s \<longleftrightarrow> (\<exists>c. isSep c \<and> has_prefix s (key @ [c]))"
proof
  assume m: "isMatch key s"
  then obtain r where s: "s = key @ r" by (auto simp: isMatch_def has_prefix_iff)
  with m have "sepsOf r \<noteq> []" by (simp add: isMatch_def)
  then obtain c cs where "sepsOf r = c # cs" by (cases "sepsOf r") auto
  with sepsOf_split(1,2) [of r] have "isSep c" "r = c # cs @ drop (length (sepsOf r)) r" by auto
  then show "\<exists>c. isSep c \<and> has_prefix s (key @ [c])" unfolding s has_prefix_iff by auto
next
  assume "\<exists>c. isSep c \<and> has_prefix s (key @ [c])"
  then show "isMatch key s" by (auto simp: isMatch_def has_prefix_iff sepsOf_def)
qed

lemma match_head: "isMatch key (c # s) \<Longrightarrow> key \<noteq> [] \<Longrightarrow> c = hd key"
  by (cases key) (auto simp: isMatch_def has_prefix_iff)

lemma clean_skip: "hd key \<notin> set x \<Longrightarrow> key \<noteq> [] \<Longrightarrow> clean key (x @ y) = clean key y"
  by (induction x) (auto dest: match_head)

lemma clean_suffix: "clean key (x @ y) \<Longrightarrow> clean key y"
  by (induction x) auto

lemma redact_skip: "hd key \<notin> set x \<Longrightarrow> key \<noteq> [] \<Longrightarrow> redactKey key (x @ y) = x @ redactKey key y"
  by (induction x) (auto dest: match_head)

text \<open>A match as key, separators, value, and the rest that begins with the end of the line.\<close>

definition endsLine :: "string \<Rightarrow> bool" where
  "endsLine r \<longleftrightarrow> r = [] \<or> isNl (hd r)"

lemma match_split:
  assumes "isMatch key s"
  obtains sp r where "s = key @ sp @ valueOf key s @ r" "endsLine r" "sp = sepsOf (drop (length key) s)" "sp \<noteq> []"
    "\<forall>c \<in> set sp. isSep c" "r = dropWhile (\<lambda>d. \<not> isNl d) (afterSeps key s)"
proof -
  let ?sp = "sepsOf (drop (length key) s)" and ?r = "dropWhile (\<lambda>d. \<not> isNl d) (afterSeps key s)"
  from assms obtain x where x: "s = key @ x" by (auto simp: isMatch_def has_prefix_iff)
  have "x = ?sp @ afterSeps key s" using sepsOf_split(1) [of x] unfolding x afterSeps_def by simp
  moreover have "afterSeps key s = valueOf key s @ ?r" by (simp add: valueOf_def)
  ultimately have "s = key @ ?sp @ valueOf key s @ ?r" using x by simp
  moreover have "endsLine ?r" unfolding endsLine_def using hd_dropWhile [of "\<lambda>d. \<not> isNl d"] by auto
  ultimately show thesis using that sepsOf_split(2) assms by (auto simp: isMatch_def)
qed

lemma redact_match: "isMatch key s \<Longrightarrow> key \<noteq> [] \<Longrightarrow> redactKey key s = key @ sepsOf (drop (length key) s) @ stars
    @ redactKey key (dropWhile (\<lambda>d. \<not> isNl d) (afterSeps key s))"
  by (cases s) (auto simp: isMatch_def has_prefix_iff)

lemma redact_line:
  assumes "goodKey key" and "endsLine r"
  shows "endsLine (redactKey key r)"
proof (cases r)
  case (Cons c s)
  with assms(2) have "isNl c" by (simp add: endsLine_def)
  moreover have "\<not> isMatch key (c # s)"
    using assms(1) \<open>isNl c\<close> match_head [of key c s] by (auto simp: goodKey_def isNl_def isSep_def)
  ultimately show ?thesis using Cons by (simp add: endsLine_def)
qed (simp add: endsLine_def)

lemma starred_value:
  assumes "endsLine r" and "sp = sepsOf x"
  shows "valueOf key (key @ sp @ stars @ r) = stars"
proof -
  have "afterSeps key (key @ sp @ stars @ r) = stars @ r"
    using sepsOf_stars [of x r] assms(2) by (simp add: afterSeps_def)
  then show ?thesis using assms(1)
    by (cases r) (simp_all add: valueOf_def stars_def endsLine_def isNl_def)
qed

lemma redact_prefix:
  assumes "key \<noteq> []"
  shows "has_prefix (redactKey key s) q \<Longrightarrow> CHR ''*'' \<notin> set q \<Longrightarrow> has_prefix s q"
proof (induction s arbitrary: q)
  case Nil
  then show ?case by simp
next
  case (Cons c s)
  show ?case
  proof (cases "isMatch key (c # s)")
    case True
    then obtain sp r where s: "c # s = key @ sp @ valueOf key (c # s) @ r" and sp: "sp = sepsOf (drop (length key) (c # s))"
      by (rule match_split)
    from Cons.prems(1) obtain z where "key @ sp @ stars @ redactKey key (dropWhile (\<lambda>d. \<not> isNl d) (afterSeps key (c # s))) = q @ z"
      unfolding has_prefix_iff redact_match [OF True assms] sp [symmetric] by blast
    then have "(key @ sp) @ CHR ''*'' # (''****'' @ redactKey key (dropWhile (\<lambda>d. \<not> isNl d) (afterSeps key (c # s)))) = q @ z"
      by (simp add: stars_def)
    then obtain w where "key @ sp = q @ w"
      using Cons.prems(2) by (auto simp: append_eq_append_conv2 Cons_eq_append_conv)
    with s show ?thesis unfolding has_prefix_iff by (metis append.assoc)
  next
    case False
    with Cons show ?thesis by (cases q) (auto simp: has_prefix_iff)
  qed
qed

lemma match_lift:
  assumes "goodKey k" and "key \<noteq> []" and "isMatch k (c # redactKey key s)"
  shows "isMatch k (c # s)"
proof -
  from assms(3) obtain d where d: "isSep d" "has_prefix (c # redactKey key s) (k @ [d])"
    unfolding isMatch_char by blast
  from assms(1) obtain p ps where k: "k = p # ps" by (cases k) (auto simp: goodKey_def)
  with d(2) have c: "c = p" "has_prefix (redactKey key s) (ps @ [d])" by (auto simp: has_prefix_iff)
  moreover have "CHR ''*'' \<notin> set (ps @ [d])" using assms(1) d(1) k by (auto simp: goodKey_def isSep_def)
  ultimately have "has_prefix s (ps @ [d])" using redact_prefix assms(2) by blast
  with c(1) k d(1) show ?thesis unfolding isMatch_char by (auto simp: has_prefix_iff)
qed

text \<open>The characters of a key after the first, of separators and of the stars begin no key.\<close>

lemma no_start: "goodKey key \<Longrightarrow> hd k = hd key \<Longrightarrow> \<forall>c \<in> set sp. isSep c \<Longrightarrow> hd k \<notin> set (tl key @ sp @ stars)"
  unfolding goodKey_def by (cases key) (auto simp: stars_def)

text \<open>The redaction of a key leaves it clean, and leaves another one clean that was.\<close>

lemma redact_clean:
  assumes "goodKey key"
  shows "clean key (redactKey key s)"
  using assms
proof (induction key s rule: redactKey.induct [case_names nothing step])
  case (step key c s)
  from step.prems have ne: "key \<noteq> []" by (simp add: goodKey_def)
  show ?case
  proof (cases "isMatch key (c # s)")
    case True
    then obtain sp r where sp: "sp = sepsOf (drop (length key) (c # s))" "\<forall>d \<in> set sp. isSep d" "endsLine r"
      and r: "r = dropWhile (\<lambda>d. \<not> isNl d) (afterSeps key (c # s))" by (rule match_split)
    let ?R = "redactKey key r"
    have out: "redactKey key (c # s) = key @ sp @ stars @ ?R" using redact_match [OF True ne] sp(1) r by simp
    have "clean key ?R" using step.IH(1) True step.prems r by simp
    then have "clean key (tl key @ sp @ stars @ ?R)"
      using clean_skip [of key "tl key @ sp @ stars" ?R] no_start [OF step.prems refl sp(2)] ne by simp
    moreover have "valueOf key (key @ sp @ stars @ ?R) = stars"
      using starred_value [OF redact_line [OF step.prems sp(3)] sp(1)] .
    ultimately show ?thesis unfolding out using ne by (cases key) simp_all
  next
    case False
    with step.IH(2) step.prems match_lift [OF step.prems ne] show ?thesis by auto
  qed
qed simp

lemma redact_other:
  assumes "goodKey key" and "goodKey k" and "hd k = hd key" and "\<And>s. \<not> (isMatch key s \<and> isMatch k s)" and "clean k s"
  shows "clean k (redactKey key s)"
  using assms
proof (induction key s rule: redactKey.induct [case_names nothing step])
  case (step key c s)
  from step.prems have ne: "key \<noteq> []" "k \<noteq> []" by (simp_all add: goodKey_def)
  show ?case
  proof (cases "isMatch key (c # s)")
    case True
    then obtain sp r where split: "c # s = key @ sp @ valueOf key (c # s) @ r"
      and sp: "sp = sepsOf (drop (length key) (c # s))" "\<forall>d \<in> set sp. isSep d"
      and r: "r = dropWhile (\<lambda>d. \<not> isNl d) (afterSeps key (c # s))" by (rule match_split)
    let ?R = "redactKey key r"
    have out: "redactKey key (c # s) = key @ sp @ stars @ ?R" using redact_match [OF True ne(1)] sp(1) r by simp
    have "clean k r" using clean_suffix [of k "key @ sp @ valueOf key (c # s)" r] step.prems(5) split by simp
    then have "clean k ?R" using step.IH(1) True step.prems(1-4) r by simp
    then have t: "clean k (tl key @ sp @ stars @ ?R)"
      using clean_skip [of k "tl key @ sp @ stars" ?R] no_start [OF step.prems(1,3) sp(2)] ne by simp
    have "\<not> isMatch k (redactKey key (c # s))"
    proof
      assume "isMatch k (redactKey key (c # s))"
      then obtain d where "isSep d" "has_prefix (redactKey key (c # s)) (k @ [d])" unfolding isMatch_char by blast
      moreover from this(1) step.prems(2) have "CHR ''*'' \<notin> set (k @ [d])" by (auto simp: goodKey_def isSep_def)
      ultimately have "isMatch k (c # s)" unfolding isMatch_char using redact_prefix [OF ne(1)] by blast
      with True step.prems(4) show False by blast
    qed
    with t show ?thesis unfolding out using ne by (cases key) simp_all
  next
    case False
    have s: "clean k s" using step.prems(5) by simp
    then have t: "clean k (redactKey key s)" using step.IH(2) False step.prems(1-4) by blast
    have "valueOf k (c # redactKey key s) = stars" if m: "isMatch k (c # redactKey key s)"
    proof -
      have mk: "isMatch k (c # s)" by (rule match_lift [OF step.prems(2) ne(1) m])
      with step.prems(5) have v: "valueOf k (c # s) = stars" by simp
      from mk obtain sp r where split: "c # s = k @ sp @ valueOf k (c # s) @ r" "endsLine r"
        and sp: "sp = sepsOf (drop (length k) (c # s))" "\<forall>d \<in> set sp. isSep d" by (rule match_split)
      have cs: "s = (tl k @ sp @ stars) @ r" using split(1) ne(2) unfolding v by (cases k) auto
      have "redactKey key s = (tl k @ sp @ stars) @ redactKey key r"
        unfolding cs using redact_skip [of key "tl k @ sp @ stars" r] no_start [OF step.prems(2) step.prems(3) [symmetric] sp(2)] ne(1)
        by simp
      then have "c # redactKey key s = k @ sp @ stars @ redactKey key r"
        using match_head [OF mk ne(2)] ne(2) by simp
      with starred_value [OF redact_line [OF step.prems(1) split(2)] sp(1)] show ?thesis by simp
    qed
    with t False show ?thesis by simp
  qed
qed simp

lemma password_keys: "goodKey ''password''" "goodKey ''passwd''"
  by (simp_all add: goodKey_def isSep_def)

lemma keys_apart: "\<not> (isMatch ''password'' s \<and> isMatch ''passwd'' s)"
  by (auto simp: isMatch_char has_prefix_iff)

lemma redacted: "clean ''passwd'' (redactPasswords s) \<and> clean ''password'' (redactPasswords s)"
  unfolding redactPasswords_def
  using redact_clean [OF password_keys(1)] redact_clean [OF password_keys(2)] keys_apart
    redact_other [OF password_keys] by auto

text \<open>A quoted key, as JSON writes it, has no separator right after it: its value stays.\<close>

lemma quoted_key_kept: "redactPasswords ([CHR 0x22] @ ''passwd'' @ [CHR 0x22] @ '':secret'') =
    [CHR 0x22] @ ''passwd'' @ [CHR 0x22] @ '':secret''"
  by code_simp

section \<open>Copying\<close>

definition redactedWrite :: "call \<Rightarrow> bool" where
  "redactedWrite c \<longleftrightarrow> (\<forall>path content. c = Sys ''writefile'' [path, content] \<longrightarrow>
     clean ''passwd'' content \<and> clean ''password'' content)"

lemma redactedWrite_simps [simp]: "n \<noteq> ''writefile'' \<Longrightarrow> redactedWrite (Sys n a)"
    "redactedWrite (Sys ''writefile'' [path, redactPasswords content])"
  using redacted by (auto simp: redactedWrite_def)

text \<open>
  C40: every file that the support tool writes when it copies a directory (the plans of the agents and
  the OEM files) has the rest of the line after each key passwd or password, with a separator,
  replaced by stars, whatever the files hold.
\<close>

theorem copies_redacted: "emits redactedWrite (copyFilesInDir env depth src dest)"
proof (induction depth arbitrary: src dest)
  case 0
  show ?case by (simp add: emit)
next
  case (Suc depth)
  have "emits redactedWrite (copySingleFile env src dest)"
    unfolding copySingleFile_def bestEffort_def by (intro emit redactedWrite_simps) simp_all
  with Suc show ?case by (auto intro!: emit)
qed

text \<open>
  A directory tree as the host shows it at all times: the kind of a file, and of a directory entries
  that are in the tree.
\<close>

datatype ftree = FFile | FDir "(string \<times> ftree) list"

fun describes :: "env \<Rightarrow> string \<Rightarrow> ftree \<Rightarrow> bool" where
  "describes env src FFile \<longleftrightarrow> (\<forall>t. answer env decodeText (Sys ''lstat'' [src]) t \<noteq> Inr ''directory'')"
| "describes env src (FDir es) \<longleftrightarrow>
     (\<forall>t fs. answer env decodeDir (Sys ''readdir'' [src]) t = Inr fs \<longrightarrow> fst ` set fs \<subseteq> fst ` set es) \<and>
     (\<forall>(name, tree) \<in> set es. describes env (path_join src name) tree)"

fun height :: "ftree \<Rightarrow> nat" where
  "height FFile = 0"
| "height (FDir es) = Suc (Max (insert 0 ((\<lambda>(name, tree). height tree) ` set es)))"

lemma height_entry: "(name, tree) \<in> set es \<Longrightarrow> height tree < height (FDir es)"
  by (auto simp: less_Suc_eq_le intro!: Max_ge rev_image_eqI)

lemma bestEffort_ok: "(\<And>p. fst (m s) \<noteq> Panic p) \<Longrightarrow> fst (bestEffort m s) = Ok ()"
  by (cases "m s"; cases "fst (m s)") (auto simp: bestEffort_def run)

lemma forEach_fst: "(\<And>x s. x \<in> set xs \<Longrightarrow> fst (f x s) = Ok ()) \<Longrightarrow> fst (forEach f xs s) = Ok ()"
proof (induction xs arbitrary: s)
  case (Cons x xs)
  then obtain s' where "f x s = (Ok (), s')" by (metis list.set_intros(1) prod.collapse)
  with Cons show ?case by (simp add: run)
qed (simp add: run)

text \<open>
  On a tree that is not deeper than the fuel the copy comes to its end, and always with success:
  every error on the way is passed over.
\<close>

theorem copy_returns:
  assumes "describes env src tree" and "height tree < depth"
  shows "fst (copyFilesInDir env depth src dest s) = Ok ()"
  using assms
proof (induction depth arbitrary: src dest tree s)
  case (Suc depth)
  let ?s = "s\<lparr>trace := Sys ''lstat'' [src] # trace s\<rparr>"
  have single: "fst (copySingleFile env src dest s) = Ok ()" for s :: "'a st"
    unfolding copySingleFile_def by (rule bestEffort_ok) (auto simp: run split: sum.splits)
  show ?case
  proof (cases "answer env decodeText (Sys ''lstat'' [src]) (trace s) = Inr ''directory''")
    case False
    with single show ?thesis by (auto simp: run split: sum.splits)
  next
    case True
    with Suc.prems(1) obtain es where es: "tree = FDir es" by (cases tree) auto
    show ?thesis
    proof (cases "answer env decodeDir (Sys ''readdir'' [src]) (Sys ''lstat'' [src] # trace s)")
      case (Inl e)
      with True show ?thesis by (simp add: run)
    next
      case (Inr fs)
      with Suc.prems(1) es have sub: "fst ` set fs \<subseteq> fst ` set es" by auto
      have "fst (copyFilesInDir env depth (path_join src (fst x)) (path_join dest (fst x)) u) = Ok ()"
        if x: "x \<in> set fs" for x and u :: "'a st"
      proof -
        from x sub obtain tr where tr: "(fst x, tr) \<in> set es" by force
        with Suc.prems es have "describes env (path_join src (fst x)) tr" by auto
        moreover have "height tr < depth" using height_entry [OF tr] Suc.prems(2) unfolding es by linarith
        ultimately show ?thesis by (rule Suc.IH)
      qed
      with True Inr show ?thesis by (auto simp: run case_prod_beta intro!: forEach_fst)
    qed
  qed
qed simp

text \<open>The last call of a run that has a temporary directory removes it.\<close>

lemma with_temp:
  assumes "bnd (sysText env ''mkdirtemp'' []) (\<lambda>tempDir. bnd (attempt (m tempDir)) (\<lambda>r.
      andThen (bestEffort (sysCall env ''removeall'' [tempDir])) (lift_sum r))) s = (r, s')"
    and "answer env decodeText (Sys ''mkdirtemp'' []) (trace s) = Inr tempDir" and "\<forall>p. r \<noteq> Panic p"
  shows "hd (trace s') = Sys ''removeall'' [tempDir]"
proof -
  obtain q u where "m tempDir (s\<lparr>trace := Sys ''mkdirtemp'' [] # trace s\<rparr>) = (q, u)" by force
  with assms show ?thesis
    by (cases q) (auto simp: run bestEffort_def split: sum.splits)
qed

lemma support_cleans_up:
  "runSupport env su depth s = (r, s') \<Longrightarrow> answer env decodeText (Sys ''mkdirtemp'' []) (trace s) = Inr tempDir \<Longrightarrow>
    \<forall>p. r \<noteq> Panic p \<Longrightarrow> hd (trace s') = Sys ''removeall'' [tempDir]"
  unfolding runSupport_def by (rule with_temp)

end
