(* ===== verification/OperatorCmd.thy ===== *)
theory OperatorCmd
  imports NetworkCfg
begin

text \<open>
  What the operator's command line decides itself: the pull policy it accepts
  (\<^verbatim>\<open>cmd/operator/operator/root.go\<close>), and the helpers that run in the pods it creates, download
  (\<^verbatim>\<open>cmd/operator/download/root.go\<close>) and display (\<^verbatim>\<open>cmd/operator/display/root.go\<close>).
\<close>

definition pullPolicyArgs :: "string \<Rightarrow> goerr option" where
  "pullPolicyArgs policy =
    (if policy \<noteq> ''Always'' \<and> policy \<noteq> ''IfNotPresent'' \<and> policy \<noteq> ''Never'' then
       Some (EMsg (''invalid pull policy '' @ inQuotes policy @ '', valid values: '' @ inQuotes ''Always'' @ '', ''
         @ inQuotes ''IfNotPresent'' @ '', '' @ inQuotes ''Never''))
     else None)"

text \<open>\<^verbatim>\<open>http.Client.Get\<close> with a timeout: the status of the response and its body.\<close>

definition httpGet :: "env \<Rightarrow> string \<Rightarrow> int \<Rightarrow> ('o st, int \<times> string) go" where
  "httpGet env url timeout = bnd (invoke env (Sys ''get'' [url, show_int timeout])) (\<lambda>r. case r of
       RFrame status body \<Rightarrow> ret (status, textOf body) | _ \<Rightarrow> fail errDecode)"

text \<open>A fatal error ends the process, here with the error.\<close>

definition downloadRun :: "env \<Rightarrow> string \<Rightarrow> string \<Rightarrow> string \<Rightarrow> ('o st, unit) go" where
  "downloadRun env timeoutEnv url path =
     bnd (orWrap (lift_sum (parse_duration (lib env) (if timeoutEnv = [] then ''30s'' else timeoutEnv)))
       ''failed to parse timeout'') (\<lambda>timeout.
     andThen (orWrap (sysCall env ''create'' [path]) (''failed to create '' @ path))
    (bnd (orWrap (httpGet env url timeout) (''failed to get '' @ url)) (\<lambda>(status, body).
     orWrap (sysCall env ''write'' [path, body]) ''failed reading response body'')))"

definition displayRun :: "env \<Rightarrow> string \<Rightarrow> ('o st, string) go" where
  "displayRun env path =
     bnd (orWrap (sysText env ''readfile'' [path]) (''failed reading the path:'' @ path)) (\<lambda>b. ret (b @ [CHR 0x0A]))"

text \<open>
  The download takes any response for the file: with an error status it stores the text of the error
  and succeeds.
\<close>

lemma download_any_status:
  assumes "parse_duration (lib env) (if timeoutEnv = [] then ''30s'' else timeoutEnv) = Inr timeout"
    and "answer env decodeAny (Sys ''create'' [path]) (trace s) = Inr ()"
    and "respond env (Sys ''get'' [url, show_int timeout] # Sys ''create'' [path] # trace s) = RFrame status body"
    and "answer env decodeAny (Sys ''write'' [path, textOf body])
      (Sys ''get'' [url, show_int timeout] # Sys ''create'' [path] # trace s) = Inr ()"
  shows "fst (downloadRun env timeoutEnv url path s) = Ok ()"
  using assms by (simp add: downloadRun_def httpGet_def run)

text \<open>What the syncer wrote is what the reconciler of the channel reads from the log, with a newline.\<close>

lemma display_reads:
  "answer env decodeText (Sys ''readfile'' [path]) (trace s) = Inr content \<Longrightarrow>
    fst (displayRun env path s) = Ok (content @ [CHR 0x0A])"
  by (simp add: displayRun_def run)

end
